(* ===== verification/Prelude.thy ===== *)
theory Prelude
  imports Complex_Main "HOL-Library.Word"
begin

text \<open>
  What the components share: the exceptions a Python function can raise and the result type of
  a function that may raise, the dynamic values read from JSON and YAML, floats with the
  non-finite values where the code asks \<^verbatim>\<open>math.isfinite\<close>, Python's rounding, clamping, and
  little-endian byte strings as the \<^verbatim>\<open>struct\<close> module packs them.

  Floats that are known to be finite are exact reals: rounding errors of the arithmetic are not
  modelled, the values a test can tell apart (infinite, not a number) are.
\<close>

named_theorems py_simps "unfolding rules for the Python data helpers"

section \<open>Exceptions\<close>

datatype pyexc =
    ValueError
  | TypeError
  | KeyError
  | IndexError
  | OverflowError
  | StructError
  | RuntimeError
  | ZeroDivisionError
  | AttributeError
  | OSError
  | YAMLError
  | NoReturn \<comment> \<open>the call does not return (a loop that never ends)\<close>

type_synonym 'a result = "pyexc + 'a"

fun res_bind :: "'a result \<Rightarrow> ('a \<Rightarrow> 'b result) \<Rightarrow> 'b result" where
  "res_bind (Inl e) f = Inl e"
| "res_bind (Inr x) f = f x"

fun returns :: "'a result \<Rightarrow> bool" where
  "returns (Inl e) = False"
| "returns (Inr x) = True"

lemma res_bind_Inr_iff [simp]:
  "res_bind r f = Inr y \<longleftrightarrow> (\<exists>x. r = Inr x \<and> f x = Inr y)"
  by (cases r) auto

lemma res_bind_Inl_iff [simp]:
  "res_bind r f = Inl e \<longleftrightarrow> r = Inl e \<or> (\<exists>x. r = Inr x \<and> f x = Inl e)"
  by (cases r) auto

lemma returns_iff: "returns r \<longleftrightarrow> (\<exists>x. r = Inr x)"
  by (cases r) auto

lemma not_returns_iff: "\<not> returns r \<longleftrightarrow> (\<exists>e. r = Inl e)"
  by (cases r) auto

lemma returns_bind_Inr [simp]: "returns (res_bind r (\<lambda>x. Inr (g x))) = returns r"
  by (cases r) auto

text \<open>A list comprehension whose body may raise.\<close>

primrec res_map :: "('a \<Rightarrow> 'b result) \<Rightarrow> 'a list \<Rightarrow> 'b list result" where
  "res_map f [] = Inr []"
| "res_map f (x # xs) = res_bind (f x) (\<lambda>y. res_bind (res_map f xs) (\<lambda>ys. Inr (y # ys)))"

lemma length_res_map: "res_map f xs = Inr ys \<Longrightarrow> length ys = length xs"
  by (induction xs arbitrary: ys) auto

lemma res_map_member: "res_map f xs = Inr ys \<Longrightarrow> y \<in> set ys \<Longrightarrow> \<exists>x \<in> set xs. f x = Inr y"
  by (induction xs arbitrary: ys) auto

lemma res_map_returns: "(\<And>x. x \<in> set xs \<Longrightarrow> \<exists>y. f x = Inr y) \<Longrightarrow> \<exists>ys. res_map f xs = Inr ys"
  by (induction xs) fastforce+

section \<open>Numbered lists\<close>

lemma in_set_enumerate: "x \<in> set xs \<Longrightarrow> \<exists>i. (i, x) \<in> set (enumerate n xs)"
  by (induction xs arbitrary: n) auto

lemma filter_enumerate_Nil: "filter (\<lambda>(j, p). Q p) (enumerate n xs) = [] \<longleftrightarrow> (\<forall>x \<in> set xs. \<not> Q x)"
  by (induction xs arbitrary: n) auto

text \<open>The last \<open>n\<close> items of a list: a \<^verbatim>\<open>deque\<close> with a maximal length, \<^verbatim>\<open>l[-n:]\<close>.\<close>

definition lastn :: "nat \<Rightarrow> 'a list \<Rightarrow> 'a list" where
  "lastn n xs = drop (length xs - n) xs"

lemma lastn_all: "length xs \<le> n \<Longrightarrow> lastn n xs = xs"
  by (simp add: lastn_def)

lemma lastn_append: "n \<le> length ys \<Longrightarrow> lastn n (xs @ ys) = lastn n ys"
  by (simp add: lastn_def)

lemma distinct_lastn: "distinct xs \<Longrightarrow> distinct (lastn n xs)"
  by (simp add: lastn_def)

lemma set_lastn: "set (lastn n xs) \<subseteq> set xs"
  by (auto simp: lastn_def dest: in_set_dropD)

section \<open>Floats and dynamic values\<close>

datatype xfloat = Fin real | PosInf | NegInf | NaN

fun isfinite :: "xfloat \<Rightarrow> bool" where
  "isfinite (Fin r) = True"
| "isfinite _ = False"

fun fin_val :: "xfloat \<Rightarrow> real" where
  "fin_val (Fin r) = r"
| "fin_val _ = 0"

lemma isfinite_iff: "isfinite x \<longleftrightarrow> (\<exists>r. x = Fin r)"
  by (cases x) auto

datatype pyval =
    PNone
  | PBool bool
  | PInt int
  | PFloat xfloat
  | PStr string
  | PList "pyval list"
  | PDict "(string \<times> pyval) list"

text \<open>
  \<^verbatim>\<open>isinstance(v, (int, float)) and not isinstance(v, bool) and math.isfinite(v)\<close>, with the
  number when it holds.
\<close>

fun finite_number :: "pyval \<Rightarrow> real option" where
  "finite_number (PInt i) = Some (of_int i)"
| "finite_number (PFloat (Fin r)) = Some r"
| "finite_number _ = None"

text \<open>Python's truth value of an object.\<close>

fun truthy :: "pyval \<Rightarrow> bool" where
  "truthy PNone = False"
| "truthy (PBool b) = b"
| "truthy (PInt i) = (i \<noteq> 0)"
| "truthy (PFloat x) = (x \<noteq> Fin 0)"
| "truthy (PStr s) = (s \<noteq> [])"
| "truthy (PList xs) = (xs \<noteq> [])"
| "truthy (PDict kvs) = (kvs \<noteq> [])"

fun dict_get :: "(string \<times> pyval) list \<Rightarrow> string \<Rightarrow> pyval \<Rightarrow> pyval" where
  "dict_get kvs k d = (case map_of kvs k of None \<Rightarrow> d | Some v \<Rightarrow> v)"

text \<open>
  \<^verbatim>\<open>int(v)\<close>, \<^verbatim>\<open>float(v)\<close> and \<^verbatim>\<open>str(v)\<close> of a dynamic value.  The text of a value that is not a
  string is Python's own formatting, a parameter of the model (\<open>fmt\<close>); so is the number a string
  spells (\<open>parse\<close>, \<open>None\<close> where Python raises ValueError).
\<close>

fun py_int :: "(string \<Rightarrow> int option) \<Rightarrow> pyval \<Rightarrow> int result" where
  "py_int parse (PInt i) = Inr i"
| "py_int parse (PBool b) = Inr (if b then 1 else 0)"
| "py_int parse (PFloat (Fin r)) = Inr (if 0 \<le> r then \<lfloor>r\<rfloor> else \<lceil>r\<rceil>)"
| "py_int parse (PFloat NaN) = Inl ValueError"
| "py_int parse (PFloat _) = Inl OverflowError"
| "py_int parse (PStr s) = (case parse s of None \<Rightarrow> Inl ValueError | Some i \<Rightarrow> Inr i)"
| "py_int parse _ = Inl TypeError"

fun py_float :: "(string \<Rightarrow> xfloat option) \<Rightarrow> pyval \<Rightarrow> xfloat result" where
  "py_float parse (PInt i) = Inr (Fin (of_int i))"
| "py_float parse (PBool b) = Inr (Fin (if b then 1 else 0))"
| "py_float parse (PFloat x) = Inr x"
| "py_float parse (PStr s) = (case parse s of None \<Rightarrow> Inl ValueError | Some x \<Rightarrow> Inr x)"
| "py_float parse _ = Inl TypeError"

fun py_str :: "(pyval \<Rightarrow> string) \<Rightarrow> pyval \<Rightarrow> string" where
  "py_str fmt (PStr s) = s"
| "py_str fmt v = fmt v"

text \<open>
  Iteration, \<^verbatim>\<open>v[key]\<close> and \<^verbatim>\<open>v.get(key, default)\<close> with a string key.
\<close>

fun py_iter :: "pyval \<Rightarrow> pyval list result" where
  "py_iter (PList xs) = Inr xs"
| "py_iter (PStr s) = Inr (map (\<lambda>c. PStr [c]) s)"
| "py_iter (PDict kvs) = Inr (map (\<lambda>kv. PStr (fst kv)) kvs)"
| "py_iter _ = Inl TypeError"

fun py_item :: "pyval \<Rightarrow> string \<Rightarrow> pyval result" where
  "py_item (PDict kvs) k = (case map_of kvs k of None \<Rightarrow> Inl KeyError | Some v \<Rightarrow> Inr v)"
| "py_item _ k = Inl TypeError"

fun py_get :: "pyval \<Rightarrow> string \<Rightarrow> pyval \<Rightarrow> pyval result" where
  "py_get (PDict kvs) k d = Inr (dict_get kvs k d)"
| "py_get _ k d = Inl AttributeError"

section \<open>Rounding and clamping\<close>

definition clamp :: "'a::linorder \<Rightarrow> 'a \<Rightarrow> 'a \<Rightarrow> 'a" where
  "clamp lo hi v = max lo (min hi v)"

lemma clamp_bounds: "lo \<le> hi \<Longrightarrow> lo \<le> clamp lo hi v \<and> clamp lo hi v \<le> hi"
  by (auto simp: clamp_def max_def min_def)

lemma clamp_id: "lo \<le> v \<Longrightarrow> v \<le> hi \<Longrightarrow> clamp lo hi v = v"
  by (auto simp: clamp_def)

lemma clamp_mono: "v \<le> w \<Longrightarrow> clamp lo hi v \<le> clamp lo hi w"
  by (auto simp: clamp_def max_def min_def)

text \<open>Python's \<^verbatim>\<open>round(x)\<close>: the nearest integer, ties to the even one.\<close>

definition py_round :: "real \<Rightarrow> int" where
  "py_round x =
     (let f = \<lfloor>x\<rfloor>; d = x - of_int f in
      if d < 1/2 then f else if 1/2 < d then f + 1 else if even f then f else f + 1)"

definition round3 :: "real \<Rightarrow> real" where \<comment> \<open>\<^verbatim>\<open>round(x, 3)\<close>\<close>
  "round3 x = of_int (py_round (x * 1000)) / 1000"

lemma py_round_of_int [simp]: "py_round (of_int i) = i"
  by (simp add: py_round_def)

lemma py_round_near: "\<bar>of_int (py_round x) - x\<bar> \<le> 1/2"
proof -
  have "of_int \<lfloor>x\<rfloor> \<le> x" "x < of_int \<lfloor>x\<rfloor> + 1" by linarith+
  then show ?thesis by (simp add: py_round_def Let_def abs_le_iff split: if_split)
qed

lemma py_round_le: "x \<le> of_int i \<Longrightarrow> py_round x \<le> i"
proof -
  assume x: "x \<le> of_int i"
  show "py_round x \<le> i"
  proof (cases "x = of_int i")
    case True
    then show ?thesis by simp
  next
    case False
    with x have "\<lfloor>x\<rfloor> + 1 \<le> i" by linarith
    then show ?thesis by (auto simp: py_round_def Let_def)
  qed
qed

lemma py_round_ge: "of_int i \<le> x \<Longrightarrow> i \<le> py_round x"
proof -
  assume "of_int i \<le> x"
  then have "i \<le> \<lfloor>x\<rfloor>" by (simp add: le_floor_iff)
  then show ?thesis by (auto simp: py_round_def Let_def)
qed

lemma py_round_mono: "x \<le> y \<Longrightarrow> py_round x \<le> py_round y"
proof (cases "\<lfloor>x\<rfloor> = \<lfloor>y\<rfloor>")
  case True
  assume "x \<le> y"
  with True show ?thesis by (auto simp: py_round_def Let_def)
next
  case False
  assume "x \<le> y"
  then have "\<lfloor>x\<rfloor> \<le> \<lfloor>y\<rfloor>" by (rule floor_mono)
  with False have lt: "\<lfloor>x\<rfloor> + 1 \<le> \<lfloor>y\<rfloor>" by simp
  have "py_round x \<le> \<lfloor>x\<rfloor> + 1" by (auto simp: py_round_def Let_def)
  moreover have "\<lfloor>y\<rfloor> \<le> py_round y" by (auto simp: py_round_def Let_def)
  ultimately show ?thesis using lt by linarith
qed

lemma py_round_minus: "py_round (- x) = - py_round x"
proof (cases "x \<in> \<int>")
  case True
  then obtain i where "x = of_int i" by (auto elim: Ints_cases)
  then have "- x = of_int (- i)" by simp
  with \<open>x = of_int i\<close> show ?thesis by (simp only: py_round_of_int)
next
  case False
  then have "of_int \<lfloor>x\<rfloor> \<noteq> x" by (metis Ints_of_int)
  then have fl: "\<lfloor>- x\<rfloor> = - \<lfloor>x\<rfloor> - 1" by linarith
  define f where "f = \<lfloor>x\<rfloor>"
  define d where "d = x - of_int f"
  have d: "- x - of_int (- f - 1) = 1 - d" by (simp add: d_def)
  have x: "x = of_int f + d" by (simp add: d_def)
  have "py_round (- x) = (if 1 - d < 1/2 then - f - 1 else if 1/2 < 1 - d then - f
      else if even (- f - 1) then - f - 1 else - f)"
    unfolding py_round_def Let_def fl f_def [symmetric] d by simp
  moreover have "py_round x = (if d < 1/2 then f else if 1/2 < d then f + 1 else if even f then f else f + 1)"
    unfolding py_round_def Let_def f_def [symmetric] d_def [symmetric] by simp
  ultimately show ?thesis by (auto split: if_splits)
qed

section \<open>Byte strings\<close>

type_synonym byte = "8 word"
type_synonym bytes = "byte list"

primrec le_bytes :: "nat \<Rightarrow> nat \<Rightarrow> bytes" where
  "le_bytes 0 v = []"
| "le_bytes (Suc n) v = of_nat (v mod 256) # le_bytes n (v div 256)"

primrec le_val :: "bytes \<Rightarrow> nat" where
  "le_val [] = 0"
| "le_val (b # bs) = unat b + 256 * le_val bs"

lemma le_bytes_eval:
  "le_bytes 1 v = [of_nat (v mod 256)]"
  "le_bytes 2 v = [of_nat (v mod 256), of_nat (v div 256 mod 256)]"
  "le_bytes 4 v = [of_nat (v mod 256), of_nat (v div 256 mod 256), of_nat (v div 256 div 256 mod 256),
     of_nat (v div 256 div 256 div 256 mod 256)]"
proof -
  have sucs: "(1 :: nat) = Suc 0" "(2 :: nat) = Suc (Suc 0)" "(4 :: nat) = Suc (Suc (Suc (Suc 0)))" by simp_all
  show "le_bytes 1 v = [of_nat (v mod 256)]" unfolding sucs(1) le_bytes.simps ..
  show "le_bytes 2 v = [of_nat (v mod 256), of_nat (v div 256 mod 256)]" unfolding sucs(2) le_bytes.simps ..
  show "le_bytes 4 v = [of_nat (v mod 256), of_nat (v div 256 mod 256), of_nat (v div 256 div 256 mod 256),
     of_nat (v div 256 div 256 div 256 mod 256)]" unfolding sucs(3) le_bytes.simps ..
qed

lemma length_le_bytes [simp]: "length (le_bytes n v) = n"
  by (induction n arbitrary: v) simp_all

lemma unat_byte_of_mod [simp]: "unat (of_nat (v mod 256) :: byte) = v mod 256"
  by (simp add: unat_of_nat)

lemma le_val_le_bytes: "le_val (le_bytes n v) = v mod 256 ^ n"
proof (induction n arbitrary: v)
  case 0
  then show ?case by simp
next
  case (Suc n)
  have "v mod 256 + 256 * (v div 256 mod 256 ^ n) = v mod (256 * 256 ^ n)"
    by (metis mod_mult2_eq add.commute)
  with Suc show ?case by simp
qed

lemma le_val_le_bytes_id [simp]: "v < 256 ^ n \<Longrightarrow> le_val (le_bytes n v) = v"
  by (simp add: le_val_le_bytes)

lemma byte_bound: "unat (b :: byte) < 256"
  using unsigned_less [of b] by simp

lemma le_val_bound: "le_val bs < 256 ^ length bs"
proof (induction bs)
  case Nil
  then show ?case by simp
next
  case (Cons b bs)
  have "unat b < 256" by (rule byte_bound)
  with Cons show ?case by simp
qed

lemma le_bytes_le_val: "le_bytes (length bs) (le_val bs) = bs"
proof (induction bs)
  case Nil
  then show ?case by simp
next
  case (Cons b bs)
  have b: "unat b < 256" by (rule byte_bound)
  then have "(unat b + 256 * le_val bs) mod 256 = unat b" by simp
  moreover have "(unat b + 256 * le_val bs) div 256 = le_val bs" using b by simp
  ultimately show ?case using Cons by simp
qed

text \<open>Two's complement halfwords (\<^verbatim>\<open>h\<close> of the \<^verbatim>\<open>struct\<close> module).\<close>

definition s16_enc :: "int \<Rightarrow> nat" where
  "s16_enc x = nat (x mod 65536)"

definition s16_dec :: "nat \<Rightarrow> int" where
  "s16_dec v = (if v < 32768 then int v else int v - 65536)"

lemma s16_enc_bound: "s16_enc x < 65536"
  by (simp add: s16_enc_def nat_less_iff)

lemma s16_dec_enc: "- 32768 \<le> x \<Longrightarrow> x < 32768 \<Longrightarrow> s16_dec (s16_enc x) = x"
proof (cases "0 \<le> x")
  case True
  assume "x < 32768"
  with True show ?thesis by (simp add: s16_enc_def s16_dec_def)
next
  case False
  assume lo: "- 32768 \<le> x"
  have "x mod 65536 = (x + 65536) mod 65536" by simp
  also have "\<dots> = x + 65536" using False lo by (intro mod_pos_pos_trivial) linarith+
  finally have "x mod 65536 = x + 65536" .
  with False lo show ?thesis by (simp add: s16_enc_def s16_dec_def)
qed

lemma s16_enc_dec: "v < 65536 \<Longrightarrow> s16_enc (s16_dec v) = v"
proof (cases "v < 32768")
  case True
  then have "int v mod 65536 = int v" by (intro mod_pos_pos_trivial) simp_all
  with True show ?thesis by (simp add: s16_enc_def s16_dec_def)
next
  case False
  assume v: "v < 65536"
  have "(int v - 65536) mod 65536 = int v mod 65536" by (metis minus_mod_self2)
  also have "\<dots> = int v" using v by (intro mod_pos_pos_trivial) simp_all
  finally show ?thesis using False by (simp add: s16_enc_def s16_dec_def)
qed

lemma s16_dec_bounds: "v < 65536 \<Longrightarrow> - 32768 \<le> s16_dec v \<and> s16_dec v < 32768"
  by (auto simp: s16_dec_def)

text \<open>
  \<^verbatim>\<open>struct.pack\<close> of one field (\<open>n\<close> bytes unsigned, or a signed halfword), and of a sequence of
  fields; \<^verbatim>\<open>struct.unpack\<close> reads the field at an offset.
\<close>

definition pack_u :: "nat \<Rightarrow> int \<Rightarrow> bytes result" where
  "pack_u n v = (if 0 \<le> v \<and> v < 256 ^ n then Inr (le_bytes n (nat v)) else Inl StructError)"

definition pack_s16 :: "int \<Rightarrow> bytes result" where
  "pack_s16 v = (if - 32768 \<le> v \<and> v < 32768 then Inr (le_bytes 2 (s16_enc v)) else Inl StructError)"

primrec pack_seq :: "bytes result list \<Rightarrow> bytes result" where
  "pack_seq [] = Inr []"
| "pack_seq (r # rs) = res_bind r (\<lambda>b. res_bind (pack_seq rs) (\<lambda>bs. Inr (b @ bs)))"

definition u_at :: "nat \<Rightarrow> nat \<Rightarrow> bytes \<Rightarrow> int" where
  "u_at off n bs = int (le_val (take n (drop off bs)))"

definition s16_at :: "nat \<Rightarrow> bytes \<Rightarrow> int" where
  "s16_at off bs = s16_dec (le_val (take 2 (drop off bs)))"

lemma pack_u_Inr: "pack_u n v = Inr b \<longleftrightarrow> 0 \<le> v \<and> v < 256 ^ n \<and> b = le_bytes n (nat v)"
  by (auto simp: pack_u_def)

lemma pack_s16_Inr: "pack_s16 v = Inr b \<longleftrightarrow> - 32768 \<le> v \<and> v < 32768 \<and> b = le_bytes 2 (s16_enc v)"
  by (auto simp: pack_s16_def)

lemma u_at_bounds: "0 \<le> u_at off n bs \<and> u_at off n bs < 256 ^ n"
proof -
  have "le_val (take n (drop off bs)) < 256 ^ length (take n (drop off bs))" by (rule le_val_bound)
  also have "\<dots> \<le> 256 ^ n" by (rule power_increasing) simp_all
  finally have "int (le_val (take n (drop off bs))) < int (256 ^ n)" by (simp only: of_nat_less_iff)
  then show ?thesis by (simp add: u_at_def)
qed

lemma u_at_le_bytes:
  assumes "0 \<le> v" "v < 256 ^ n" and "length pre = off"
  shows "u_at off n (pre @ le_bytes n (nat v) @ post) = v"
proof -
  from assms have "nat v < 256 ^ n" by (simp add: nat_less_iff)
  with assms show ?thesis by (simp add: u_at_def)
qed

lemma s16_at_le_bytes:
  "- 32768 \<le> v \<Longrightarrow> v < 32768 \<Longrightarrow> length pre = off \<Longrightarrow> s16_at off (pre @ le_bytes 2 (s16_enc v) @ post) = v"
  using s16_enc_bound [of v] by (simp add: s16_at_def s16_dec_enc)

end
