(* ===== verification/Contracts.thy ===== *)
theory Contracts
  imports Prelude
begin

text \<open>
  The interfaces the components share, each a locale with the laws a component promises.
  A component interprets the locale on its own definitions and takes its lemmas from there.

  \<^item> \<open>event_system\<close>: a component that handles one event at a time, with an invariant that
    holds after construction and that every handler keeps.
  \<^item> \<open>monotone_counter\<close>: an event system with a counter that no handler lowers and that counts
    every change of what it shows.
  \<^item> \<open>refines_edges\<close>: an event system that, seen through an abstraction, makes only the edges of an
    abstract transition system.
  \<^item> \<open>latest_message\<close>: a component that keeps the last message of a source.
  \<^item> \<open>stream_parser\<close>: a parser of a byte stream that arrives in chunks.
  \<^item> \<open>watchdog\<close>: such a component whose output is neutral unless the message is recent.
\<close>

section \<open>Runs\<close>

text \<open>The state after a list of events, handled one after the other.\<close>

primrec run :: "('s \<Rightarrow> 'e \<Rightarrow> 's) \<Rightarrow> 's \<Rightarrow> 'e list \<Rightarrow> 's" where
  "run step s [] = s"
| "run step s (e # es) = run step (step s e) es"

lemma run_append [simp]: "run step s (xs @ ys) = run step (run step s xs) ys"
  by (induction xs arbitrary: s) simp_all

section \<open>Event systems\<close>

locale event_system =
  fixes start :: "'s \<Rightarrow> bool"
    and step :: "'s \<Rightarrow> 'e \<Rightarrow> 's"
    and inv :: "'s \<Rightarrow> bool"
  assumes inv_start: "start s \<Longrightarrow> inv s"
    and inv_step: "inv s \<Longrightarrow> inv (step s e)"
begin

lemma inv_run: "inv s \<Longrightarrow> inv (run step s es)"
  by (induction es arbitrary: s) (simp_all add: inv_step)

lemma inv_reachable: "start s \<Longrightarrow> inv (run step s es)"
  by (intro inv_run inv_start)

text \<open>A run that ends outside a set it started in has a step that leaves the set.\<close>

lemma first_exit:
  assumes "P s" and "\<not> P (run step s es)"
  shows "\<exists>xs e ys. es = xs @ e # ys \<and> P (run step s xs) \<and> \<not> P (run step s (xs @ [e]))"
  using assms
proof (induction es rule: rev_induct)
  case Nil
  then show ?case by simp
next
  case (snoc e es)
  show ?case
  proof (cases "P (run step s es)")
    case True
    with snoc.prems show ?thesis by (intro exI [of _ es] exI [of _ e] exI [of _ "[]"]) simp
  next
    case False
    with snoc obtain xs x ys where "es = xs @ x # ys" "P (run step s xs)" "\<not> P (run step s (xs @ [x]))"
      by blast
    then show ?thesis by (intro exI [of _ xs] exI [of _ x] exI [of _ "ys @ [e]"]) simp
  qed
qed

end

locale monotone_counter = event_system start step inv
  for start :: "'s \<Rightarrow> bool" and step :: "'s \<Rightarrow> 'e \<Rightarrow> 's" and inv +
  fixes count :: "'s \<Rightarrow> int"
    and view :: "'s \<Rightarrow> 'v"
  assumes count_step: "inv s \<Longrightarrow> count s \<le> count (step s e)"
    and count_frozen: "inv s \<Longrightarrow> count (step s e) = count s \<Longrightarrow> view (step s e) = view s"
begin

lemma count_run: "inv s \<Longrightarrow> count s \<le> count (run step s es)"
proof (induction es arbitrary: s)
  case Nil
  then show ?case by simp
next
  case (Cons e es)
  then have "count s \<le> count (step s e)" by (simp add: count_step)
  also have "\<dots> \<le> count (run step (step s e) es)" using Cons by (simp add: inv_step)
  finally show ?case by simp
qed

text \<open>Two states of one run that carry the same count show the same view.\<close>

lemma count_identifies: "inv s \<Longrightarrow> count (run step s es) = count s \<Longrightarrow> view (run step s es) = view s"
proof (induction es arbitrary: s)
  case Nil
  then show ?case by simp
next
  case (Cons e es)
  have le: "count s \<le> count (step s e)" using Cons.prems by (simp add: count_step)
  have inv': "inv (step s e)" using Cons.prems by (simp add: inv_step)
  then have "count (step s e) \<le> count (run step (step s e) es)" by (rule count_run)
  with le Cons.prems have eq: "count (step s e) = count s" by simp
  with Cons.prems have "view (step s e) = view s" by (simp add: count_frozen)
  with Cons.IH [OF inv'] Cons.prems eq show ?case by simp
qed

end

section \<open>Refinement of an abstract transition system\<close>

text \<open>
  Seen through \<open>abs\<close>, every step is no change or an edge that the abstract system allows for its
  event.
\<close>

locale refines_edges = event_system start step inv
  for start :: "'s \<Rightarrow> bool" and step :: "'s \<Rightarrow> 'e \<Rightarrow> 's" and inv +
  fixes abs :: "'s \<Rightarrow> 'a"
    and edge :: "'e \<Rightarrow> 'a \<Rightarrow> 'a \<Rightarrow> bool"
  assumes step_edge: "inv s \<Longrightarrow> abs (step s e) = abs s \<or> edge e (abs s) (abs (step s e))"
begin

text \<open>What no edge of the events of a run can leave is not left by the run.\<close>

lemma stays:
  "inv s \<Longrightarrow> P (abs s) \<Longrightarrow> (\<And>e a b. e \<in> set es \<Longrightarrow> P a \<Longrightarrow> edge e a b \<Longrightarrow> P b) \<Longrightarrow> P (abs (run step s es))"
proof (induction es arbitrary: s)
  case Nil
  then show ?case by simp
next
  case (Cons e es)
  have "P (abs (step s e))"
    using step_edge [OF Cons.prems(1), of e] Cons.prems(2,3) by fastforce
  then have "P (abs (run step (step s e) es))"
    using Cons.prems(3) by (intro Cons.IH inv_step Cons.prems(1)) auto
  then show ?case by simp
qed

text \<open>A run that leaves a set has an edge that leaves it.\<close>

lemma leaving_edge:
  assumes "inv s" "P (abs s)" "\<not> P (abs (run step s es))"
  shows "\<exists>xs e ys a b. es = xs @ e # ys \<and> edge e a b \<and> P a \<and> \<not> P b"
proof -
  from first_exit [of "\<lambda>s. P (abs s)", OF assms(2,3)] obtain xs e ys where
    x: "es = xs @ e # ys" "P (abs (run step s xs))" "\<not> P (abs (run step s (xs @ [e])))" by blast
  with step_edge [OF inv_run [OF assms(1)], of xs e] show ?thesis by fastforce
qed

end

section \<open>Latest messages and watchdogs\<close>

text \<open>
  A source delivers messages now and then; \<open>msg\<close> is the message an event delivers (\<open>None\<close>: the
  event is no message of this source) and \<open>seen\<close> the last one the component keeps.
\<close>

locale latest_message =
  fixes step :: "'s \<Rightarrow> 'e \<Rightarrow> 's"
    and seen :: "'s \<Rightarrow> 'v option"
    and msg :: "'e \<Rightarrow> 'v option"
  assumes seen_step: "seen (step s e) = (case msg e of None \<Rightarrow> seen s | Some v \<Rightarrow> Some v)"
begin

lemma seen_run:
  "seen (run step s es) = Some v \<Longrightarrow>
     (seen s = Some v \<and> (\<forall>e \<in> set es. msg e = None))
     \<or> (\<exists>xs e ys. es = xs @ e # ys \<and> msg e = Some v \<and> (\<forall>y \<in> set ys. msg y = None))"
proof (induction es arbitrary: s)
  case Nil
  then show ?case by simp
next
  case (Cons e es)
  from Cons.IH [of "step s e"] Cons.prems
  consider "seen (step s e) = Some v" "\<forall>y \<in> set es. msg y = None"
    | xs x ys where "es = xs @ x # ys" "msg x = Some v" "\<forall>y \<in> set ys. msg y = None"
    by auto
  then show ?case
  proof cases
    case 1
    then show ?thesis
      by (cases "msg e") (auto simp: seen_step intro!: exI [of _ "[]"])
  next
    case 2
    then have "e # es = (e # xs) @ x # ys" by simp
    with 2 show ?thesis by blast
  qed
qed

text \<open>A component that starts with no message keeps exactly the last one delivered.\<close>

lemma latest:
  "seen s = None \<Longrightarrow> seen (run step s es) = Some v \<Longrightarrow>
     \<exists>xs e ys. es = xs @ e # ys \<and> msg e = Some v \<and> (\<forall>y \<in> set ys. msg y = None)"
  using seen_run [of s es v] by simp

end

text \<open>
  The output of a component with a watchdog on that source is \<open>quiet\<close> when nothing was
  received or the last message, sent at \<open>stamp\<close>, is older than \<open>limit\<close>.
\<close>

locale watchdog = latest_message step seen msg
  for step :: "'s \<Rightarrow> 'e \<Rightarrow> 's" and seen :: "'s \<Rightarrow> 'v option" and msg +
  fixes stamp :: "'v \<Rightarrow> real"
    and limit :: "'s \<Rightarrow> real"
    and outp :: "'s \<Rightarrow> real \<Rightarrow> 'o"
    and quiet :: "'o \<Rightarrow> bool"
  assumes limit_step: "limit (step s e) = limit s"
    and quiet_never: "seen s = None \<Longrightarrow> quiet (outp s t)"
    and quiet_stale: "seen s = Some v \<Longrightarrow> limit s < t - stamp v \<Longrightarrow> quiet (outp s t)"
begin

lemma limit_run: "limit (run step s es) = limit s"
  by (induction es arbitrary: s) (simp_all add: limit_step)

text \<open>
  An output that is not quiet has a fresh message behind it, and it is the last one delivered.
\<close>

lemma active_needs_message:
  assumes "seen s = None" and "\<not> quiet (outp (run step s es) t)"
  shows "\<exists>v xs e ys. es = xs @ e # ys \<and> msg e = Some v \<and> (\<forall>y \<in> set ys. msg y = None)
           \<and> seen (run step s es) = Some v \<and> t - stamp v \<le> limit s"
proof (cases "seen (run step s es)")
  case None
  with assms show ?thesis by (simp add: quiet_never)
next
  case (Some v)
  with assms have "t - stamp v \<le> limit s"
    using quiet_stale [OF Some, of t] by (cases "limit s < t - stamp v") (auto simp: limit_run)
  with latest [OF assms(1) Some] Some show ?thesis by blast
qed

lemma quiet_after_silence:
  "seen s = None \<Longrightarrow> (\<And>e v. e \<in> set es \<Longrightarrow> msg e = Some v \<Longrightarrow> limit s < t - stamp v)
     \<Longrightarrow> quiet (outp (run step s es) t)"
  using active_needs_message [of s es t] by fastforce

end

section \<open>Stream parsers\<close>

text \<open>
  A parser scans its buffer for messages and keeps a rest; \<open>feed_all\<close> are the messages it
  delivers for a stream that arrives in chunks.
\<close>

primrec feed_all :: "('b list \<Rightarrow> 'm list \<times> 'b list) \<Rightarrow> 'b list \<Rightarrow> 'b list list \<Rightarrow> 'm list" where
  "feed_all scan buf [] = []"
| "feed_all scan buf (c # cs) = fst (scan (buf @ c)) @ feed_all scan (snd (scan (buf @ c))) cs"

locale stream_parser =
  fixes scan :: "'b list \<Rightarrow> 'm list \<times> 'b list"
    and safe_cut :: "'b list \<Rightarrow> bool"
  assumes scan_more: "safe_cut a \<Longrightarrow> fst (scan (a @ b)) = fst (scan a) @ fst (scan (snd (scan a) @ b))"
begin

lemma feed_all_concat:
  "cs \<noteq> [] \<Longrightarrow> (\<And>c b. c \<in> set cs \<Longrightarrow> safe_cut (b @ c)) \<Longrightarrow>
     feed_all scan buf cs = fst (scan (buf @ concat cs))"
proof (induction cs arbitrary: buf)
  case Nil
  then show ?case by simp
next
  case (Cons c cs)
  show ?case
  proof (cases "cs = []")
    case True
    then show ?thesis by simp
  next
    case False
    with Cons have "feed_all scan (snd (scan (buf @ c))) cs = fst (scan (snd (scan (buf @ c)) @ concat cs))"
      by simp
    moreover have "safe_cut (buf @ c)" using Cons.prems by simp
    ultimately show ?thesis using scan_more [of "buf @ c" "concat cs"] by simp
  qed
qed

end

end
