(* ===== verification/Mode_Core.thy ===== *)
theory Mode_Core
  imports Contracts
begin

text \<open>
  \<^verbatim>\<open>gouda_core/mode_core.py\<close> (ND-03): the persisted previous-mode record, the boot decision
  TR-01 / TR-02, the table of human mode operations with its guards, and the automatic pause
  TR-07 / TR-08.  The texts of refusals are the constructors of \<open>reason\<close> with the values the
  code puts into them; the Japanese part of a stage label is left out.
\<close>

section \<open>Modes and states\<close>

datatype mode = MANUAL | MAPPING | AUTONOMY | PAUSE

definition MODES :: "mode list" where
  "MODES = [MANUAL, MAPPING, AUTONOMY, PAUSE]"

instantiation mode :: enum
begin

definition enum_mode :: "mode list" where
  "enum_mode = MODES"

definition enum_all_mode :: "(mode \<Rightarrow> bool) \<Rightarrow> bool" where
  "enum_all_mode P = list_all P MODES"

definition enum_ex_mode :: "(mode \<Rightarrow> bool) \<Rightarrow> bool" where
  "enum_ex_mode P = list_ex P MODES"

instance
proof
  have all: "m \<in> set MODES" for m by (cases m) (simp_all add: MODES_def)
  show "(UNIV :: mode set) = set enum_class.enum" using all by (auto simp: enum_mode_def)
  show "distinct (enum_class.enum :: mode list)" by (simp add: enum_mode_def MODES_def)
  show "enum_class.enum_all P = Ball UNIV P" for P :: "mode \<Rightarrow> bool"
    using all by (auto simp: enum_all_mode_def list_all_iff)
  show "enum_class.enum_ex P = Bex UNIV P" for P :: "mode \<Rightarrow> bool"
    using all by (auto simp: enum_ex_mode_def list_ex_iff)
qed

end

fun mode_name :: "mode \<Rightarrow> string" where
  "mode_name MANUAL = ''manual''"
| "mode_name MAPPING = ''mapping''"
| "mode_name AUTONOMY = ''autonomy''"
| "mode_name PAUSE = ''pause''"

text \<open>\<^verbatim>\<open>raw.get('mode') in MODES\<close>: the mode a JSON value names, if it names one.\<close>

definition mode_of :: "pyval \<Rightarrow> mode option" where
  "mode_of v = List.find (\<lambda>m. v = PStr (mode_name m)) MODES"

lemma mode_of_name [simp]: "mode_of (PStr (mode_name m)) = Some m"
  by (cases m) (simp_all add: mode_of_def MODES_def)

fun MODE_CODES :: "mode \<Rightarrow> int" where
  "MODE_CODES MANUAL = 1"
| "MODE_CODES MAPPING = 2"
| "MODE_CODES AUTONOMY = 3"
| "MODE_CODES PAUSE = 4"

record prev_record =
  rec_mode :: mode
  rec_human :: bool
  rec_run_id :: string
  rec_revision :: int

record mode_state =
  st_mode :: mode
  processing_state :: string
  run_id :: string
  remaining_waypoints :: int
  current_section :: int
  stop_reason :: string
  speed_limit_application_state :: string
  previous_mode :: "mode option"
  human_pause_or_end_recorded :: bool
  initial_pose_required :: bool
  state_revision :: int

definition fresh_state :: "mode \<Rightarrow> mode_state" where
  "fresh_state m = \<lparr>st_mode = m, processing_state = ''idle'', run_id = '''', remaining_waypoints = 0,
     current_section = - 1, stop_reason = '''', speed_limit_application_state = ''unknown'',
     previous_mode = None, human_pause_or_end_recorded = False, initial_pose_required = False,
     state_revision = 0\<rparr>"

section \<open>The persisted record\<close>

text \<open>What reading the file and \<^verbatim>\<open>json.loads\<close> give: a value, or an OSError / ValueError.\<close>

datatype file_read = Unreadable | Json pyval

fun load_record :: "(pyval \<Rightarrow> string) \<Rightarrow> (string \<Rightarrow> int option) \<Rightarrow> file_read \<Rightarrow> prev_record option result" where
  "load_record fmt parse Unreadable = Inr None"
| "load_record fmt parse (Json raw) =
     (case raw of
        PDict kvs \<Rightarrow>
          (case mode_of (dict_get kvs ''mode'' PNone) of
             None \<Rightarrow> Inr None
           | Some m \<Rightarrow>
               res_bind (py_int parse (dict_get kvs ''state_revision'' (PInt 0))) (\<lambda>rev.
                 Inr (Some \<lparr>rec_mode = m,
                            rec_human = truthy (dict_get kvs ''human_pause_or_end'' (PBool False)),
                            rec_run_id = py_str fmt (dict_get kvs ''run_id'' (PStr '''')),
                            rec_revision = rev\<rparr>)))
      | _ \<Rightarrow> Inr None)"

text \<open>The JSON object \<^verbatim>\<open>save\<close> writes: the record's fields, keys sorted.\<close>

definition save_record :: "prev_record \<Rightarrow> pyval" where
  "save_record r = PDict
     [(''human_pause_or_end'', PBool (rec_human r)), (''mode'', PStr (mode_name (rec_mode r))),
      (''run_id'', PStr (rec_run_id r)), (''state_revision'', PInt (rec_revision r))]"

section \<open>Boot\<close>

datatype boot_reason =
    NoRecord_to_manual
  | PersistedManual_to_manual
  | Persisted_to_pause mode

record boot_decision =
  boot_transition :: string
  boot_state :: mode_state
  boot_reason :: boot_reason
  record_found :: bool

definition decide_boot :: "prev_record option \<Rightarrow> boot_decision" where
  "decide_boot r =
     (let base_rev = (case r of None \<Rightarrow> 0 | Some p \<Rightarrow> rec_revision p) in
      case r of
        None \<Rightarrow>
          \<lparr>boot_transition = ''TR-01'',
           boot_state = (fresh_state MANUAL)\<lparr>state_revision := base_rev + 1\<rparr>,
           boot_reason = NoRecord_to_manual, record_found = False\<rparr>
      | Some p \<Rightarrow>
          if rec_mode p = MANUAL then
            \<lparr>boot_transition = ''TR-01'',
             boot_state = (fresh_state MANUAL)\<lparr>previous_mode := Some (rec_mode p),
               human_pause_or_end_recorded := rec_human p, state_revision := base_rev + 1\<rparr>,
             boot_reason = PersistedManual_to_manual, record_found = True\<rparr>
          else
            \<lparr>boot_transition = ''TR-02'',
             boot_state = (fresh_state PAUSE)\<lparr>previous_mode := Some (rec_mode p),
               human_pause_or_end_recorded := rec_human p, run_id := rec_run_id p,
               initial_pose_required := True, stop_reason := '''', state_revision := base_rev + 1\<rparr>,
             boot_reason = Persisted_to_pause (rec_mode p), record_found = True\<rparr>)"

definition record_of_state :: "mode_state \<Rightarrow> prev_record" where
  "record_of_state s = \<lparr>rec_mode = st_mode s, rec_human = human_pause_or_end_recorded s,
     rec_run_id = run_id s, rec_revision = state_revision s\<rparr>"

definition record_after_boot :: "boot_decision \<Rightarrow> prev_record" where
  "record_after_boot d = record_of_state (boot_state d)"

section \<open>Human mode operations\<close>

type_synonym transition = "mode \<times> mode \<times> string \<times> string"

definition EVENT_TRANSITIONS :: "(string \<times> transition list) list" where
  "EVENT_TRANSITIONS =
     [(''start_mapping'', [(MANUAL, MAPPING, ''TR-03'', ''5-3'')]),
      (''end_mapping'', [(MAPPING, MANUAL, ''TR-04'', ''5-3'')]),
      (''start_autonomy'', [(MANUAL, AUTONOMY, ''TR-05'', ''5-6'')]),
      (''pause'', [(AUTONOMY, PAUSE, ''TR-06'', ''5-7'')]),
      (''resume'', [(PAUSE, AUTONOMY, ''TR-10'', ''5-7'')]),
      (''end_autonomy'', [(AUTONOMY, MANUAL, ''TR-11'', ''5-7''), (PAUSE, MANUAL, ''TR-12'', ''5-7'')])]"

definition HUMAN_EVENTS :: "string list" where
  "HUMAN_EVENTS = map fst EVENT_TRANSITIONS"

datatype reason =
    Unknown_event string
  | Not_accepted_in string mode "mode list" \<comment> \<open>event, current mode, modes it is accepted in\<close>
  | Initial_pose_first
  | Not_implemented string mode mode string
  | Actions_failed string string
  | Performed string mode mode

record request_result =
  accepted :: bool
  transition_id :: string
  res_reason :: reason
  new_state :: "mode_state option"

text \<open>The field updates an accepted request makes, in the order of the code.\<close>

definition accepted_state :: "string \<Rightarrow> mode_state \<Rightarrow> mode \<Rightarrow> mode \<Rightarrow> mode_state" where
  "accepted_state event s from_mode to_mode =
     (let n = s\<lparr>st_mode := to_mode, previous_mode := Some from_mode, state_revision := state_revision s + 1\<rparr>;
          n = (if to_mode = MAPPING \<or> to_mode = AUTONOMY then n\<lparr>stop_reason := ''''\<rparr> else n);
          n = (if event = ''pause''
               then n\<lparr>human_pause_or_end_recorded := True, stop_reason := ''human''\<rparr> else n);
          n = (if event = ''start_autonomy'' \<or> event = ''resume''
               then n\<lparr>human_pause_or_end_recorded := False, stop_reason := ''''\<rparr> else n)
      in if event = ''end_autonomy''
         then n\<lparr>human_pause_or_end_recorded := True, initial_pose_required := False, run_id := '''',
                stop_reason := ''human''\<rparr>
         else n)"

definition request_transition :: "string \<Rightarrow> mode_state \<Rightarrow> string list \<Rightarrow> request_result" where
  "request_transition event s implemented =
     (case map_of EVENT_TRANSITIONS event of
        None \<Rightarrow> \<lparr>accepted = False, transition_id = '''', res_reason = Unknown_event event, new_state = None\<rparr>
      | Some candidates \<Rightarrow>
          (case List.find (\<lambda>c. fst c = st_mode s) candidates of
             None \<Rightarrow> \<lparr>accepted = False, transition_id = fst (snd (snd (hd candidates))),
                      res_reason = Not_accepted_in event (st_mode s) (map fst candidates), new_state = None\<rparr>
           | Some (from_mode, to_mode, tid, stage) \<Rightarrow>
               if tid = ''TR-10'' \<and> initial_pose_required s then
                 \<lparr>accepted = False, transition_id = tid, res_reason = Initial_pose_first, new_state = None\<rparr>
               else if tid \<notin> set implemented then
                 \<lparr>accepted = False, transition_id = tid,
                  res_reason = Not_implemented tid from_mode to_mode stage, new_state = None\<rparr>
               else
                 \<lparr>accepted = True, transition_id = tid, res_reason = Performed tid from_mode to_mode,
                  new_state = Some (accepted_state event s from_mode to_mode)\<rparr>))"

section \<open>Automatic transitions\<close>

definition automatic_pause :: "mode_state \<Rightarrow> string \<Rightarrow> string \<Rightarrow> int \<Rightarrow> mode_state option" where
  "automatic_pause s tid stop remaining =
     (if st_mode s \<noteq> AUTONOMY \<or> tid \<notin> {''TR-07'', ''TR-08''} then None
      else Some (s\<lparr>st_mode := PAUSE, previous_mode := Some AUTONOMY, stop_reason := stop,
                   remaining_waypoints := remaining, state_revision := state_revision s + 1\<rparr>))"

section \<open>The transitions of the design\<close>

text \<open>
  The human transitions as the design names them, one rule each: event, mode before, mode
  after, transition id.  \<open>request_transition\<close> is proved to accept exactly these.
\<close>

inductive human_edge :: "string \<Rightarrow> mode \<Rightarrow> mode \<Rightarrow> string \<Rightarrow> bool" where
  TR03: "human_edge ''start_mapping'' MANUAL MAPPING ''TR-03''"
| TR04: "human_edge ''end_mapping'' MAPPING MANUAL ''TR-04''"
| TR05: "human_edge ''start_autonomy'' MANUAL AUTONOMY ''TR-05''"
| TR06: "human_edge ''pause'' AUTONOMY PAUSE ''TR-06''"
| TR10: "human_edge ''resume'' PAUSE AUTONOMY ''TR-10''"
| TR11: "human_edge ''end_autonomy'' AUTONOMY MANUAL ''TR-11''"
| TR12: "human_edge ''end_autonomy'' PAUSE MANUAL ''TR-12''"

inductive_cases edge_to_autonomy: "human_edge ev m AUTONOMY tid"
inductive_cases edge_from_autonomy: "human_edge ev AUTONOMY m tid"
inductive_cases edge_to_pause: "human_edge ev m PAUSE tid"
inductive_simps edge_resume: "human_edge ev m m' ''TR-10''"

lemma edge_changes_mode: "human_edge ev m m' tid \<Longrightarrow> m \<noteq> m'"
  by (erule human_edge.cases) simp_all

lemma edge_deterministic:
  "human_edge ev m m1 t1 \<Longrightarrow> human_edge ev m m2 t2 \<Longrightarrow> m1 = m2 \<and> t1 = t2"
  by (auto elim!: human_edge.cases)

lemma table_sound:
  "map_of EVENT_TRANSITIONS ev = Some cs \<Longrightarrow> List.find (\<lambda>c. fst c = m) cs = Some (f, t, tid, stage)
    \<Longrightarrow> f = m \<and> human_edge ev m t tid"
  by (cases m) (auto simp: EVENT_TRANSITIONS_def split: if_splits intro: human_edge.intros)

lemma table_complete:
  "human_edge ev m t tid \<Longrightarrow> \<exists>cs stage. map_of EVENT_TRANSITIONS ev = Some cs
      \<and> List.find (\<lambda>c. fst c = m) cs = Some (m, t, tid, stage)"
  by (erule human_edge.cases) (simp_all add: EVENT_TRANSITIONS_def)

lemma table_no_candidate:
  "map_of EVENT_TRANSITIONS ev = Some cs \<Longrightarrow> List.find (\<lambda>c. fst c = m) cs = None
    \<Longrightarrow> \<not> human_edge ev m t tid"
  using table_complete by fastforce

text \<open>Every answer of \<open>request_transition\<close>, by the design's transitions.\<close>

lemma request_cases:
  obtains
    (unknown) "ev \<notin> set HUMAN_EVENTS" "\<And>t tid. \<not> human_edge ev (st_mode s) t tid"
      "request_transition ev s impl =
         \<lparr>accepted = False, transition_id = '''', res_reason = Unknown_event ev, new_state = None\<rparr>"
  | (wrong_mode) cs where "map_of EVENT_TRANSITIONS ev = Some cs" "\<And>t tid. \<not> human_edge ev (st_mode s) t tid"
      "request_transition ev s impl =
         \<lparr>accepted = False, transition_id = fst (snd (snd (hd cs))),
          res_reason = Not_accepted_in ev (st_mode s) (map fst cs), new_state = None\<rparr>"
  | (pose_first) "human_edge ev (st_mode s) AUTONOMY ''TR-10''" "initial_pose_required s"
      "request_transition ev s impl =
         \<lparr>accepted = False, transition_id = ''TR-10'', res_reason = Initial_pose_first, new_state = None\<rparr>"
  | (not_implemented) t tid stage where "human_edge ev (st_mode s) t tid" "tid \<notin> set impl"
      "tid = ''TR-10'' \<Longrightarrow> \<not> initial_pose_required s"
      "request_transition ev s impl =
         \<lparr>accepted = False, transition_id = tid, res_reason = Not_implemented tid (st_mode s) t stage, new_state = None\<rparr>"
  | (accepted) t tid where "human_edge ev (st_mode s) t tid" "tid \<in> set impl"
      "tid = ''TR-10'' \<Longrightarrow> \<not> initial_pose_required s"
      "request_transition ev s impl =
         \<lparr>accepted = True, transition_id = tid, res_reason = Performed tid (st_mode s) t,
          new_state = Some (accepted_state ev s (st_mode s) t)\<rparr>"
proof (cases "map_of EVENT_TRANSITIONS ev")
  case None
  then have "ev \<notin> set HUMAN_EVENTS" by (simp add: HUMAN_EVENTS_def map_of_eq_None_iff)
  with None show ?thesis
    using table_complete [of ev] by (intro unknown) (fastforce simp: request_transition_def)+
next
  case (Some cs)
  note lookup = this
  show ?thesis
  proof (cases "List.find (\<lambda>c. fst c = st_mode s) cs")
    case None
    with lookup show ?thesis
      using table_no_candidate [OF lookup None] by (intro wrong_mode) (auto simp: request_transition_def)
  next
    case (Some c)
    obtain f t tid stage where c: "c = (f, t, tid, stage)" by (cases c)
    note find = Some [unfolded c]
    from table_sound [OF lookup find]
    have f: "f = st_mode s" and edge: "human_edge ev (st_mode s) t tid" by auto
    note simps = lookup find f request_transition_def
    show ?thesis
    proof (cases "tid = ''TR-10'' \<and> initial_pose_required s")
      case True
      with edge have "t = AUTONOMY" by (auto simp: edge_resume)
      with True edge simps show ?thesis by (intro pose_first) auto
    next
      case False
      with edge simps show ?thesis
        by (cases "tid \<in> set impl") (auto intro: accepted not_implemented)
    qed
  qed
qed

lemma accepted_state_fields:
  "st_mode (accepted_state ev s f t) = t"
  "previous_mode (accepted_state ev s f t) = Some f"
  "state_revision (accepted_state ev s f t) = state_revision s + 1"
  "remaining_waypoints (accepted_state ev s f t) = remaining_waypoints s"
  by (simp_all add: accepted_state_def Let_def)

lemma accepted_state_human:
  "human_edge ev f t tid \<Longrightarrow> human_pause_or_end_recorded (accepted_state ev s f t) =
     (if t = AUTONOMY then False else if f = AUTONOMY \<or> f = PAUSE then True
      else human_pause_or_end_recorded s)"
  by (erule human_edge.cases) (simp_all add: accepted_state_def Let_def)

lemma accepted_state_pose:
  "human_edge ev f t tid \<Longrightarrow> initial_pose_required (accepted_state ev s f t) =
     (if ev = ''end_autonomy'' then False else initial_pose_required s)"
  by (erule human_edge.cases) (simp_all add: accepted_state_def Let_def)

lemmas accepted_simps = accepted_state_fields accepted_state_human accepted_state_pose

lemma decide_boot_simps:
  "decide_boot None = \<lparr>boot_transition = ''TR-01'', boot_state = (fresh_state MANUAL)\<lparr>state_revision := 1\<rparr>,
     boot_reason = NoRecord_to_manual, record_found = False\<rparr>"
  "st_mode (boot_state (decide_boot (Some p))) = (if rec_mode p = MANUAL then MANUAL else PAUSE)"
  "initial_pose_required (boot_state (decide_boot r)) = (\<exists>p. r = Some p \<and> rec_mode p \<noteq> MANUAL)"
  "human_pause_or_end_recorded (boot_state (decide_boot (Some p))) = rec_human p"
  "state_revision (boot_state (decide_boot (Some p))) = rec_revision p + 1"
  "previous_mode (boot_state (decide_boot (Some p))) = Some (rec_mode p)"
  by (auto simp: decide_boot_def fresh_state_def Let_def split: option.splits)

section \<open>Properties\<close>

text \<open>Boot never resumes driving: whatever record is found, the mode after boot is manual or pause,
  it is pause exactly when the persisted mode was not manual, and then a human initial pose is
  required before the resume; the human pause/end flag of the record is kept.\<close>

theorem boot_never_resumes:
  "st_mode (boot_state (decide_boot r)) \<in> {MANUAL, PAUSE}
   \<and> (st_mode (boot_state (decide_boot r)) = PAUSE \<longleftrightarrow> (\<exists>p. r = Some p \<and> rec_mode p \<noteq> MANUAL))
   \<and> (initial_pose_required (boot_state (decide_boot r)) \<longleftrightarrow> st_mode (boot_state (decide_boot r)) = PAUSE)
   \<and> rec_human (record_after_boot (decide_boot r)) = (case r of None \<Rightarrow> False | Some p \<Rightarrow> rec_human p)
   \<and> \<not> accepted (request_transition ''resume'' (boot_state (decide_boot r)) impl)"
proof (cases r)
  case None
  then show ?thesis
    by (simp add: decide_boot_simps fresh_state_def record_after_boot_def record_of_state_def
        request_transition_def EVENT_TRANSITIONS_def)
next
  case (Some p)
  then show ?thesis
    by (simp add: decide_boot_simps record_after_boot_def record_of_state_def
        request_transition_def EVENT_TRANSITIONS_def)
qed

text \<open>A request is accepted exactly along the design's human transitions, when the transition's
  actions exist in the build and, for the resume, no initial pose is outstanding; then the new
  state has the transition's mode and the next revision, and otherwise there is no new state.\<close>

theorem request_transition_iff:
  "(accepted (request_transition ev s impl) \<longleftrightarrow>
     (\<exists>t tid. human_edge ev (st_mode s) t tid \<and> tid \<in> set impl \<and> \<not> (tid = ''TR-10'' \<and> initial_pose_required s)))
   \<and> (case new_state (request_transition ev s impl) of
        None \<Rightarrow> \<not> accepted (request_transition ev s impl)
      | Some n \<Rightarrow> accepted (request_transition ev s impl)
                 \<and> human_edge ev (st_mode s) (st_mode n) (transition_id (request_transition ev s impl))
                 \<and> previous_mode n = Some (st_mode s) \<and> state_revision n = state_revision s + 1)"
  by (cases s impl ev rule: request_cases)
     (auto simp: accepted_simps dest: edge_deterministic)

text \<open>The record written by \<open>save_record\<close> loads back to the same record, and loading raises exactly for a
  JSON object that names a mode and has a state revision Python cannot turn into an int; every
  other content counts as no record or gives a record.\<close>

theorem record_load:
  "load_record fmt parse (Json (save_record r)) = Inr (Some r)
   \<and> (\<not> returns (load_record fmt parse (Json raw)) \<longleftrightarrow>
       (\<exists>kvs m e. raw = PDict kvs \<and> mode_of (dict_get kvs ''mode'' PNone) = Some m
          \<and> py_int parse (dict_get kvs ''state_revision'' (PInt 0)) = Inl e))"
proof
  show "load_record fmt parse (Json (save_record r)) = Inr (Some r)"
    by (simp add: save_record_def)
  show "\<not> returns (load_record fmt parse (Json raw)) \<longleftrightarrow>
       (\<exists>kvs m e. raw = PDict kvs \<and> mode_of (dict_get kvs ''mode'' PNone) = Some m
          \<and> py_int parse (dict_get kvs ''state_revision'' (PInt 0)) = Inl e)"
    by (cases raw) (auto simp: not_returns_iff [symmetric] split: option.splits)
qed

lemma malformed_revision_raises:
  "load_record fmt (\<lambda>s. None) (Json (PDict [(''mode'', PStr ''pause''), (''state_revision'', PStr ''x'')])) = Inl ValueError"
  by (simp add: mode_of_def MODES_def)

text \<open>A restart continues the revision of the last saved record.\<close>

lemma restart_revision:
  "state_revision (boot_state (decide_boot (Some (record_of_state s)))) = state_revision s + 1"
  by (simp add: decide_boot_simps record_of_state_def)

end
