(* ===== verification/Disk.thy ===== *)
theory Disk
  imports Prelude "HOL-Library.AList" "HOL-Library.Sublist" "HOL-Library.List_Lexorder" "HOL-Library.Char_ord"
begin

text \<open>
  The file system as the databases use it: a list of paths with a directory or a file at each, the
  operations of \<^verbatim>\<open>pathlib\<close>, \<^verbatim>\<open>os.replace\<close> and \<^verbatim>\<open>shutil.rmtree\<close> on it, the documents YAML and JSON
  files hold, decimal names, and the directory hash.  A name is one path component: separators
  inside a name are not interpreted.  What a file that no dump of this program wrote parses to, and
  the digests, are parameters (\<open>libs\<close>).
\<close>

section \<open>Decimal names\<close>

definition digit_char :: "nat \<Rightarrow> char" where
  "digit_char d = ''0123456789'' ! d"

fun nat_str :: "nat \<Rightarrow> string" where
  "nat_str n = (if n < 10 then [digit_char n] else nat_str (n div 10) @ [digit_char (n mod 10)])"

declare nat_str.simps [simp del]

text \<open>\<^verbatim>\<open>f'{i:03d}'\<close>.\<close>

definition pad3 :: "int \<Rightarrow> string" where
  "pad3 i = (if 0 \<le> i then let s = nat_str (nat i) in replicate (3 - length s) CHR ''0'' @ s
     else let s = nat_str (nat (- i)) in CHR ''-'' # replicate (2 - length s) CHR ''0'' @ s)"

definition digit_val :: "char \<Rightarrow> nat option" where
  "digit_val c = map_of (zip ''0123456789'' [0 ..< 10]) c"

text \<open>\<^verbatim>\<open>s.isdigit()\<close>, and \<^verbatim>\<open>int(s)\<close> of such a name.\<close>

definition isdigit :: "string \<Rightarrow> bool" where
  "isdigit s = (s \<noteq> [] \<and> list_all (\<lambda>c. digit_val c \<noteq> None) s)"

definition int_of_name :: "string \<Rightarrow> int" where
  "int_of_name s = foldl (\<lambda>v c. 10 * v + int (the (digit_val c))) 0 s"

lemma digit_val_char: "d < 10 \<Longrightarrow> digit_val (digit_char d) = Some d"
proof -
  have "\<forall>d \<in> set [0 ..< 10]. digit_val (digit_char d) = Some d"
    by (simp add: digit_val_def digit_char_def upt_rec)
  then show "d < 10 \<Longrightarrow> digit_val (digit_char d) = Some d" by simp
qed

lemma nat_str_digits: "list_all (\<lambda>c. digit_val c \<noteq> None) (nat_str n)"
proof (induction n rule: nat_str.induct)
  case (1 n)
  then show ?case by (cases "n < 10") (simp_all add: nat_str.simps [of n] digit_val_char)
qed

lemma nat_str_not_Nil [simp]: "nat_str n \<noteq> []"
  by (cases "n < 10") (simp_all add: nat_str.simps [of n])

lemma nat_str_value: "int_of_name (nat_str n) = int n"
proof (induction n rule: nat_str.induct)
  case (1 n)
  show ?case
  proof (cases "n < 10")
    case True
    then show ?thesis by (simp add: nat_str.simps [of n] int_of_name_def digit_val_char)
  next
    case False
    with 1 have "int_of_name (nat_str n) = 10 * int (n div 10) + int (n mod 10)"
      by (simp add: nat_str.simps [of n] int_of_name_def digit_val_char)
    also have "\<dots> = int (10 * (n div 10) + n mod 10)"
      by (simp only: of_nat_add of_nat_mult of_nat_numeral)
    also have "10 * (n div 10) + n mod 10 = n" by presburger
    finally show ?thesis .
  qed
qed

lemma digit_val_zero [simp]: "digit_val CHR ''0'' = Some 0"
  using digit_val_char [of 0] by (simp add: digit_char_def)

lemma pad3_isdigit: "0 \<le> i \<Longrightarrow> isdigit (pad3 i)"
  using nat_str_digits [of "nat i"] by (auto simp: pad3_def isdigit_def Let_def list_all_iff)

lemma foldl_zeros: "foldl (\<lambda>v c. 10 * v + int (the (digit_val c))) 0 (replicate k CHR ''0'') = 0"
  by (induction k) simp_all

lemma pad3_value: "0 \<le> i \<Longrightarrow> int_of_name (pad3 i) = i"
  using nat_str_value [of "nat i"] by (simp add: pad3_def Let_def int_of_name_def foldl_zeros)

lemma pad3_inj: "0 \<le> i \<Longrightarrow> 0 \<le> j \<Longrightarrow> pad3 i = pad3 j \<longleftrightarrow> i = j"
  using pad3_value by metis

section \<open>Paths and nodes\<close>

type_synonym path = "string list"

datatype content =
    Yaml_text pyval \<comment> \<open>what \<^verbatim>\<open>yaml.safe_dump\<close> wrote\<close>
  | Json_text pyval \<comment> \<open>what \<^verbatim>\<open>json.dumps\<close> wrote\<close>
  | Data bytes

datatype node = Dir | File content

type_synonym disk = "(path \<times> node) list"

record libs =
  l_yaml :: "bytes \<Rightarrow> pyval result" \<comment> \<open>\<^verbatim>\<open>yaml.safe_load\<close> of other files\<close>
  l_json :: "bytes \<Rightarrow> pyval result" \<comment> \<open>\<^verbatim>\<open>json.loads\<close> of other files\<close>
  l_sha :: "pyval \<Rightarrow> string" \<comment> \<open>the digest of a document's canonical JSON\<close>
  l_dirsha :: "(path \<times> content) list \<Rightarrow> string" \<comment> \<open>the digest over sorted relative paths and contents\<close>
  l_filesha :: "content \<Rightarrow> string" \<comment> \<open>the digest of one file\<close>
  l_fmt :: "pyval \<Rightarrow> string"
  l_int :: "string \<Rightarrow> int option"
  l_float :: "string \<Rightarrow> xfloat option"

definition is_dir :: "disk \<Rightarrow> path \<Rightarrow> bool" where
  "is_dir fs p = (map_of fs p = Some Dir)"

fun file_at :: "disk \<Rightarrow> path \<Rightarrow> content option" where
  "file_at fs p = (case map_of fs p of Some (File c) \<Rightarrow> Some c | _ \<Rightarrow> None)"

definition is_file :: "disk \<Rightarrow> path \<Rightarrow> bool" where
  "is_file fs p = (file_at fs p \<noteq> None)"

fun empty_content :: "content \<Rightarrow> bool" where
  "empty_content (Data bs) = (bs = [])"
| "empty_content _ = False"

text \<open>\<^verbatim>\<open>not p.is_file() or p.stat().st_size == 0\<close>.\<close>

definition missing_or_empty :: "disk \<Rightarrow> path \<Rightarrow> bool" where
  "missing_or_empty fs p = (case file_at fs p of None \<Rightarrow> True | Some c \<Rightarrow> empty_content c)"

definition write_file :: "disk \<Rightarrow> path \<Rightarrow> content \<Rightarrow> disk" where
  "write_file fs p c = AList.update p (File c) fs"

text \<open>\<^verbatim>\<open>mkdir(parents=True)\<close>: the path itself must not exist, a parent must not be a file.\<close>

definition parents :: "path \<Rightarrow> path list" where
  "parents p = map (\<lambda>k. take k p) [1 ..< length p]"

definition make_dirs :: "disk \<Rightarrow> path list \<Rightarrow> disk" where
  "make_dirs fs ps = foldl (\<lambda>fs q. if map_of fs q = None then AList.update q Dir fs else fs) fs ps"

definition mkdir :: "disk \<Rightarrow> path \<Rightarrow> disk result" where
  "mkdir fs p = (if map_of fs p \<noteq> None \<or> list_ex (is_file fs) (parents p) then Inl OSError
     else Inr (make_dirs fs (parents p @ [p])))"

definition rmtree :: "disk \<Rightarrow> path \<Rightarrow> disk" where
  "rmtree fs p = filter (\<lambda>e. \<not> prefix p (fst e)) fs"

text \<open>The names of the directories in a directory.\<close>

definition subdirs :: "disk \<Rightarrow> path \<Rightarrow> string list" where
  "subdirs fs p = remdups (map (\<lambda>e. last (fst e))
     (filter (\<lambda>e. fst e \<noteq> [] \<and> butlast (fst e) = p \<and> is_dir fs (fst e)) fs))"

text \<open>
  \<^verbatim>\<open>os.replace\<close> of a directory: a directory that holds something, or a file, in the place of the
  target is an error.
\<close>

definition replace_dir :: "disk \<Rightarrow> path \<Rightarrow> path \<Rightarrow> disk result" where
  "replace_dir fs src dst =
     (if is_file fs dst \<or> list_ex (\<lambda>e. strict_prefix dst (fst e)) fs \<or> \<not> is_dir fs src then Inl OSError
      else Inr (map (\<lambda>e. if prefix src (fst e) then (dst @ drop (length src) (fst e), snd e) else e)
             (filter (\<lambda>e. fst e \<noteq> dst) fs)))"

section \<open>Documents\<close>

definition read_yaml :: "libs \<Rightarrow> disk \<Rightarrow> path \<Rightarrow> pyval result" where
  "read_yaml lb fs p = (case file_at fs p of
     None \<Rightarrow> Inl OSError
   | Some (Yaml_text v) \<Rightarrow> Inr v
   | Some (Json_text v) \<Rightarrow> Inr v
   | Some (Data bs) \<Rightarrow> if bs = [] then Inr PNone else l_yaml lb bs)"

definition read_json :: "libs \<Rightarrow> disk \<Rightarrow> path \<Rightarrow> pyval result" where
  "read_json lb fs p = (case file_at fs p of
     None \<Rightarrow> Inl OSError
   | Some (Json_text v) \<Rightarrow> Inr v
   | Some (Data bs) \<Rightarrow> l_json lb bs
   | Some (Yaml_text v) \<Rightarrow> Inl ValueError)"

text \<open>\<^verbatim>\<open>try: ... except (OSError, ValueError): return None\<close> around reading a JSON file.\<close>

definition json_or_none :: "libs \<Rightarrow> disk \<Rightarrow> path \<Rightarrow> pyval option result" where
  "json_or_none lb fs p = (case read_json lb fs p of
     Inr v \<Rightarrow> Inr (Some v)
   | Inl e \<Rightarrow> if e = OSError \<or> e = ValueError then Inr None else Inl e)"

text \<open>
  The directory hash: the files below a directory, except those with an excluded name, in the order
  of their relative paths.
\<close>

definition files_below :: "disk \<Rightarrow> path \<Rightarrow> string list \<Rightarrow> (path \<times> content) list" where
  "files_below fs d exclude = sort_key fst (concat (map (\<lambda>e. case e of
       (p, File c) \<Rightarrow> if strict_prefix d p \<and> last p \<notin> set exclude then [(drop (length d) p, c)] else []
     | (p, Dir) \<Rightarrow> []) (AList.clearjunk fs)))"

definition dir_hash :: "libs \<Rightarrow> disk \<Rightarrow> path \<Rightarrow> string list \<Rightarrow> string" where
  "dir_hash lb fs d exclude = l_dirsha lb (files_below fs d exclude)"

section \<open>Facts about the operations\<close>

lemma map_of_write [simp]: "map_of (write_file fs p c) = (map_of fs)(p \<mapsto> File c)"
  by (simp add: write_file_def update_conv')

lemma map_of_filter_fst: "map_of (filter (\<lambda>e. P (fst e)) fs) q = (if P q then map_of fs q else None)"
  by (induction fs) auto

lemma map_of_rmtree: "map_of (rmtree fs p) q = (if prefix p q then None else map_of fs q)"
  using map_of_filter_fst [of "\<lambda>q. \<not> prefix p q" fs q] by (simp add: rmtree_def)

lemma map_of_make_dirs:
  "map_of (make_dirs fs ps) q = (case map_of fs q of None \<Rightarrow> if q \<in> set ps then Some Dir else None | Some n \<Rightarrow> Some n)"
proof (induction ps arbitrary: fs)
  case Nil
  then show ?case by (simp add: make_dirs_def split: option.split)
next
  case (Cons p ps)
  have "make_dirs fs (p # ps) = make_dirs (if map_of fs p = None then AList.update p Dir fs else fs) ps"
    by (simp add: make_dirs_def)
  with Cons show ?case by (auto simp: update_conv' split: option.split)
qed

lemma map_of_moved:
  assumes "\<And>e. e \<in> set fs \<Longrightarrow> \<not> prefix dst (fst e)"
  shows "map_of (map (\<lambda>e. if prefix src (fst e) then (dst @ drop (length src) (fst e), snd e) else e) fs) q =
    (if prefix dst q then map_of fs (src @ drop (length dst) q) else if prefix src q then None else map_of fs q)"
  using assms
proof (induction fs)
  case Nil
  then show ?case by simp
next
  case (Cons e fs)
  obtain p n where e: "e = (p, n)" by (cases e)
  have nd: "\<not> prefix dst p" using Cons.prems [of e] by (simp add: e)
  have IH: "map_of (map (\<lambda>e. if prefix src (fst e) then (dst @ drop (length src) (fst e), snd e) else e) fs) q =
    (if prefix dst q then map_of fs (src @ drop (length dst) q) else if prefix src q then None else map_of fs q)"
    using Cons by simp
  show ?case
  proof (cases "prefix src p")
    case True
    then obtain r where p: "p = src @ r" by (elim prefixE)
    have eq: "q = dst @ r \<longleftrightarrow> prefix dst q \<and> src @ drop (length dst) q = p" by (auto simp: p elim: prefixE)
    have "\<not> (prefix src q \<and> q = p \<and> \<not> prefix src q)" by simp
    then show ?thesis using IH eq by (auto simp: e p)
  next
    case False
    then have "src @ drop (length dst) q \<noteq> p" by auto
    then show ?thesis using IH False nd by (auto simp: e)
  qed
qed

lemma map_of_replace_dir:
  assumes "replace_dir fs src dst = Inr fs'"
  shows "map_of fs' q = (if prefix dst q then map_of (filter (\<lambda>e. fst e \<noteq> dst) fs) (src @ drop (length dst) q)
     else if prefix src q then None else map_of fs q)"
proof -
  let ?g = "filter (\<lambda>e. fst e \<noteq> dst) fs"
  from assms have fs': "fs' = map (\<lambda>e. if prefix src (fst e) then (dst @ drop (length src) (fst e), snd e) else e) ?g"
    and no: "\<not> list_ex (\<lambda>e. strict_prefix dst (fst e)) fs"
    by (auto simp: replace_dir_def split: if_split_asm)
  have "\<not> prefix dst (fst e)" if "e \<in> set ?g" for e
    using that no by (auto simp: list_ex_iff strict_prefix_def)
  then have moved: "map_of fs' q = (if prefix dst q then map_of ?g (src @ drop (length dst) q)
      else if prefix src q then None else map_of ?g q)"
    unfolding fs' by (rule map_of_moved)
  have "map_of ?g q = map_of fs q" if "\<not> prefix dst q"
    using that map_of_filter_fst [of "\<lambda>p. p \<noteq> dst" fs q] by auto
  with moved show ?thesis by simp
qed

lemma file_below: "q \<noteq> dst \<Longrightarrow> map_of (filter (\<lambda>e. fst e \<noteq> dst) fs) q = map_of fs q"
  using map_of_filter_fst [of "\<lambda>p. p \<noteq> dst" fs q] by simp

lemma subdirs_iff: "x \<in> set (subdirs fs p) \<longleftrightarrow> is_dir fs (p @ [x])"
proof
  assume "x \<in> set (subdirs fs p)"
  then obtain e where "fst e \<noteq> []" "butlast (fst e) = p" "is_dir fs (fst e)" "x = last (fst e)"
    by (auto simp: subdirs_def)
  then show "is_dir fs (p @ [x])" by (metis append_butlast_last_id)
next
  assume d: "is_dir fs (p @ [x])"
  then have "(p @ [x], Dir) \<in> set fs" by (simp add: is_dir_def map_of_SomeD)
  with d have "x \<in> (\<lambda>e. last (fst e)) ` {e \<in> set fs. fst e \<noteq> [] \<and> butlast (fst e) = p \<and> is_dir fs (fst e)}"
    by (intro image_eqI [of _ _ "(p @ [x], Dir)"]) simp_all
  then show "x \<in> set (subdirs fs p)" by (simp add: subdirs_def)
qed

section \<open>The directory hash\<close>

definition below_entry :: "path \<Rightarrow> string list \<Rightarrow> path \<times> node \<Rightarrow> (path \<times> content) list" where
  "below_entry d exclude e = (case e of
     (p, File c) \<Rightarrow> if strict_prefix d p \<and> last p \<notin> set exclude then [(drop (length d) p, c)] else []
   | (p, Dir) \<Rightarrow> [])"

lemma files_below_entries: "files_below fs d exclude = sort_key fst (concat (map (below_entry d exclude) (AList.clearjunk fs)))"
  by (simp add: files_below_def below_entry_def [abs_def])

lemma below_entry_drop: "x \<in> set (below_entry d exclude e) \<Longrightarrow> strict_prefix d (fst e) \<and> fst x = drop (length d) (fst e)"
  by (cases e) (auto simp: below_entry_def split: node.splits if_splits)

lemma distinct_below:
  "distinct (map fst es) \<Longrightarrow> distinct (map fst (concat (map (below_entry d exclude) es)))"
proof (induction es)
  case Nil
  then show ?case by simp
next
  case (Cons e es)
  have "fst x \<noteq> fst y" if "x \<in> set (below_entry d exclude e)" "e' \<in> set es" "y \<in> set (below_entry d exclude e')" for x y e'
  proof
    assume eq: "fst x = fst y"
    from below_entry_drop [OF that(1)] below_entry_drop [OF that(3)] eq
    have "fst e = fst e'" by (auto simp: strict_prefix_def elim!: prefixE)
    with Cons.prems that(2) show False by (auto simp: rev_image_eqI)
  qed
  moreover have "distinct (map fst (below_entry d exclude e))"
    by (cases e) (auto simp: below_entry_def split: node.splits)
  ultimately show ?case using Cons by fastforce
qed

lemma set_files_below:
  "(r, c) \<in> set (files_below fs d exclude) \<longleftrightarrow> r \<noteq> [] \<and> last r \<notin> set exclude \<and> map_of fs (d @ r) = Some (File c)"
proof -
  have mem: "(p, n) \<in> set (AList.clearjunk fs) \<longleftrightarrow> map_of fs p = Some n" for p n
    using distinct_clearjunk [of fs] by (metis map_of_clearjunk map_of_eq_Some_iff)
  have "(r, c) \<in> set (files_below fs d exclude) \<longleftrightarrow> (\<exists>e. e \<in> set (AList.clearjunk fs) \<and> (r, c) \<in> set (below_entry d exclude e))"
    by (auto simp: files_below_entries)
  also have "\<dots> \<longleftrightarrow> (\<exists>p. map_of fs p = Some (File c) \<and> strict_prefix d p \<and> last p \<notin> set exclude \<and> r = drop (length d) p)"
    by (auto simp: below_entry_def mem split: node.splits if_splits prod.splits)
  also have "\<dots> \<longleftrightarrow> r \<noteq> [] \<and> last r \<notin> set exclude \<and> map_of fs (d @ r) = Some (File c)"
    by (auto simp: strict_prefix_def elim!: prefixE intro!: exI [of _ "d @ r"])
  finally show ?thesis .
qed

lemma sorted_alist_unique:
  fixes xs ys :: "('a::linorder \<times> 'b) list"
  assumes "sorted (map fst xs)" "distinct (map fst xs)" "sorted (map fst ys)" "distinct (map fst ys)" "set xs = set ys"
  shows "xs = ys"
proof -
  have "map fst xs = map fst ys"
    using assms by (intro sorted_distinct_set_unique) (simp_all add: image_set [symmetric])
  moreover have "inj_on fst (set xs \<union> set ys)" using assms by (simp add: distinct_map)
  ultimately show ?thesis by (rule map_inj_on)
qed

text \<open>The hash depends only on the files below the directory: moving the directory keeps it.\<close>

lemma dir_hash_cong:
  assumes "\<And>r. r \<noteq> [] \<Longrightarrow> last r \<notin> set exclude \<Longrightarrow> file_at fs (d @ r) = file_at fs' (d' @ r)"
  shows "dir_hash lb fs d exclude = dir_hash lb fs' d' exclude"
proof -
  have files: "map_of fs p = Some (File c) \<longleftrightarrow> file_at fs p = Some c" for fs p c
    by (auto split: option.splits node.splits)
  have "set (files_below fs d exclude) = set (files_below fs' d' exclude)"
    using assms by (auto simp: set_files_below files simp del: file_at.simps)
  then have "files_below fs d exclude = files_below fs' d' exclude"
    using distinct_below [OF distinct_clearjunk] by (intro sorted_alist_unique)
      (simp_all add: files_below_entries distinct_map)
  then show ?thesis by (simp add: dir_hash_def)
qed

end
