(* ===== verification/Speed_Mask.thy ===== *)
theory Speed_Mask
  imports Prelude
begin

text \<open>
  \<^verbatim>\<open>gouda_core/speed_mask.py\<close> (IFD-41): the mask of speed limits painted along the sections of a
  waypoint set.  A grid is the list of its cells in map order (row by row, row 0 at the smallest
  y); the vectorised updates of the source are maps over the cells.  The text of a warning is
  left out, its numbers are kept.
\<close>

section \<open>Geometry\<close>

record geometry =
  resolution :: real
  origin_x :: real
  origin_y :: real
  g_width :: nat
  g_height :: nat

text \<open>The cell centres: \<^verbatim>\<open>np.meshgrid(xs, ys)\<close>, row by row.\<close>

definition centre :: "geometry \<Rightarrow> nat \<Rightarrow> nat \<Rightarrow> real \<times> real" where
  "centre g j i = (origin_x g + (real i + 1/2) * resolution g, origin_y g + (real j + 1/2) * resolution g)"

definition cells :: "geometry \<Rightarrow> (real \<times> real) list" where
  "cells g = concat (map (\<lambda>j. map (centre g j) [0 ..< g_width g]) [0 ..< g_height g])"

definition clip :: "real \<Rightarrow> real \<Rightarrow> real \<Rightarrow> real" where
  "clip v lo hi = max lo (min hi v)"

text \<open>The band of half width \<open>h\<close> around the segment between two waypoints.\<close>

definition in_band :: "real \<times> real \<Rightarrow> real \<times> real \<Rightarrow> real \<Rightarrow> real \<times> real \<Rightarrow> bool" where
  "in_band a b h c = (case (a, b, c) of ((x0, y0), (x1, y1), (gx, gy)) \<Rightarrow>
     let dx = x1 - x0; dy = y1 - y0; L2 = dx * dx + dy * dy in
     if L2 = 0 then (gx - x0)\<^sup>2 + (gy - y0)\<^sup>2 \<le> h\<^sup>2
     else let t = clip (((gx - x0) * dx + (gy - y0) * dy) / L2) 0 1; px = x0 + t * dx; py = y0 + t * dy in
       (gx - px)\<^sup>2 + (gy - py)\<^sup>2 \<le> h\<^sup>2)"

section \<open>Painting\<close>

definition MASK_MAX :: int where
  "MASK_MAX = 100"

definition quantise :: "real \<Rightarrow> real \<Rightarrow> int result" where
  "quantise v step = (if step \<le> 0 then Inl ValueError
     else Inr (min MASK_MAX (max 1 (py_round (v / step)))))"

text \<open>A cell while painting: the adopted value (0: none) and the section that set it (-1: none).\<close>

type_synonym cell_state = "int \<times> int"

definition paint_cell :: "int \<Rightarrow> int \<Rightarrow> bool \<Rightarrow> cell_state \<Rightarrow> cell_state" where
  "paint_cell i q inside c = (case c of (v, w) \<Rightarrow>
     if inside then (if v = 0 \<or> q < v then q else v, if v = 0 \<or> q < v then i else w) else (v, w))"

text \<open>
  The sections whose value differs in some cell, with the number of such cells: one entry per
  owner, in ascending order (\<^verbatim>\<open>np.unique\<close>).
\<close>

definition differing :: "int \<Rightarrow> bool list \<Rightarrow> cell_state list \<Rightarrow> int list" where
  "differing q inside cs = map (\<lambda>(b, v, w). w) (filter (\<lambda>(b, v, w). b \<and> 0 < v \<and> v \<noteq> q) (zip inside cs))"

definition add_conflicts :: "int \<Rightarrow> int list \<Rightarrow> (int \<times> int \<Rightarrow> int) \<Rightarrow> (int \<times> int \<Rightarrow> int)" where
  "add_conflicts i owners conf = fold (\<lambda>w c. c((min w i, max w i) := c (min w i, max w i) + int (count_list owners w)))
     (sort (remdups owners)) conf"

record painting =
  pt_cells :: "cell_state list"
  pt_conflicts :: "int \<times> int \<Rightarrow> int"
  pt_clipped :: "int list"

definition paint_section :: "geometry \<Rightarrow> (real \<times> real) list \<Rightarrow> real list \<Rightarrow> real \<Rightarrow> real \<Rightarrow> nat \<Rightarrow> painting \<Rightarrow> painting result" where
  "paint_section g ws limits h step i p =
     res_bind (quantise (limits ! i) step) (\<lambda>q.
       let clipped = (if (q = 1 \<or> q = MASK_MAX) \<and> 1/2 < \<bar>limits ! i / step - of_int q\<bar>
                      then pt_clipped p @ [int i] else pt_clipped p);
           inside = map (in_band (ws ! i) (ws ! Suc i) h) (cells g)
       in Inr (p\<lparr>pt_clipped := clipped,
                 pt_conflicts := add_conflicts (int i) (differing q inside (pt_cells p)) (pt_conflicts p),
                 pt_cells := map2 (paint_cell (int i) q) inside (pt_cells p)\<rparr>))"

primrec paint_sections :: "geometry \<Rightarrow> (real \<times> real) list \<Rightarrow> real list \<Rightarrow> real \<Rightarrow> real \<Rightarrow> nat list \<Rightarrow> painting \<Rightarrow> painting result" where
  "paint_sections g ws limits h step [] p = Inr p"
| "paint_sections g ws limits h step (i # is) p =
     res_bind (paint_section g ws limits h step i p) (paint_sections g ws limits h step is)"

record mask_warning =
  w_sections :: "int \<times> int"
  w_cells :: int
  w_limits :: "real \<times> real"
  w_adopted :: real

record mask_result =
  r_grid :: "int list"
  r_step :: real
  r_half_width :: real
  r_warnings :: "mask_warning list"
  r_painted :: nat
  r_overlap :: int
  r_clipped :: "int list"

definition warning_of :: "real list \<Rightarrow> (int \<times> int \<Rightarrow> int) \<Rightarrow> int \<times> int \<Rightarrow> mask_warning" where
  "warning_of limits conf ab = (let va = limits ! nat (fst ab); vb = limits ! nat (snd ab) in
     \<lparr>w_sections = ab, w_cells = conf ab, w_limits = (va, vb), w_adopted = min va vb\<rparr>)"

text \<open>The keys of the conflict table in sorted order: pairs of sections \<open>a < b\<close>.\<close>

definition section_pairs :: "nat \<Rightarrow> (int \<times> int) list" where
  "section_pairs n = [(int a, int b). a \<leftarrow> [0 ..< n], b \<leftarrow> [a ..< n]]"

definition generate_mask :: "(real \<times> real) list \<Rightarrow> real list \<Rightarrow> geometry \<Rightarrow> real \<Rightarrow> real \<Rightarrow> mask_result result" where
  "generate_mask ws limits g h step =
     (if h \<le> 0 then Inl ValueError
      else if length ws < 2 \<or> length limits \<noteq> length ws - 1 then Inl ValueError
      else res_bind (paint_sections g ws limits h step [0 ..< length ws - 1]
             \<lparr>pt_cells = map (\<lambda>c. (0, - 1)) (cells g), pt_conflicts = (\<lambda>k. 0), pt_clipped = []\<rparr>) (\<lambda>p.
        let keys = filter (\<lambda>k. pt_conflicts p k \<noteq> 0) (section_pairs (length limits)); grid = map fst (pt_cells p) in
        Inr \<lparr>r_grid = grid, r_step = step, r_half_width = h,
             r_warnings = map (warning_of limits (pt_conflicts p)) keys,
             r_painted = length (filter (\<lambda>v. 0 < v) grid),
             r_overlap = sum_list (map (pt_conflicts p) keys), r_clipped = pt_clipped p\<rparr>))"

text \<open>The image of a grid: the rows from the top (largest y) down.\<close>

definition rows_of :: "geometry \<Rightarrow> 'a list \<Rightarrow> 'a list list" where
  "rows_of g xs = map (\<lambda>j. take (g_width g) (drop (j * g_width g) xs)) [0 ..< g_height g]"

definition image_of :: "geometry \<Rightarrow> 'a list \<Rightarrow> 'a list" where
  "image_of g grid = concat (rev (rows_of g grid))"

section \<open>Values\<close>

lemma quantise_Inr:
  assumes "quantise v step = Inr q"
  shows "0 < step" and "1 \<le> q" and "q \<le> 100"
    and "step \<le> v \<Longrightarrow> v \<le> 100 * step \<Longrightarrow> \<bar>of_int q * step - v\<bar> \<le> step / 2"
proof -
  from assms have q: "q = min 100 (max 1 (py_round (v / step)))" and s: "0 < step"
    by (auto simp: quantise_def MASK_MAX_def split: if_splits)
  then show "0 < step" "1 \<le> q" "q \<le> 100" by auto
  assume "step \<le> v" "v \<le> 100 * step"
  with s have "1 \<le> py_round (v / step)" "py_round (v / step) \<le> 100"
    by (auto intro!: py_round_ge py_round_le simp: pos_le_divide_eq pos_divide_le_eq)
  with q have "q = py_round (v / step)" by simp
  then have "\<bar>of_int q - v / step\<bar> \<le> 1/2" using py_round_near [of "v / step"] by simp
  then have "\<bar>of_int q - v / step\<bar> * step \<le> 1/2 * step" using s by (intro mult_right_mono) auto
  also have "\<bar>of_int q - v / step\<bar> * step = \<bar>(of_int q - v / step) * step\<bar>" using s by (simp add: abs_mult)
  also have "(of_int q - v / step) * step = of_int q * step - v" using s by (simp add: field_simps)
  finally show "\<bar>of_int q * step - v\<bar> \<le> step / 2" by simp
qed

lemma quantise_mono: "v \<le> w \<Longrightarrow> quantise v step = Inr p \<Longrightarrow> quantise w step = Inr q \<Longrightarrow> p \<le> q"
proof -
  assume vw: "v \<le> w" and p: "quantise v step = Inr p" and q: "quantise w step = Inr q"
  from p have s: "0 < step" by (rule quantise_Inr)
  with vw have "py_round (v / step) \<le> py_round (w / step)" by (intro py_round_mono divide_right_mono) auto
  then have "max 1 (py_round (v / step)) \<le> max 1 (py_round (w / step))" by simp
  then have "min MASK_MAX (max 1 (py_round (v / step))) \<le> min MASK_MAX (max 1 (py_round (w / step)))" by simp
  with p q s show "p \<le> q" by (simp add: quantise_def)
qed

section \<open>Specification: the lowest limit of the bands over a cell\<close>

text \<open>The quantised limits of the sections in \<open>is\<close> whose band holds the cell centre \<open>c\<close>.\<close>

definition limits_at :: "(real \<times> real) list \<Rightarrow> real list \<Rightarrow> real \<Rightarrow> real \<Rightarrow> nat list \<Rightarrow> real \<times> real \<Rightarrow> int list" where
  "limits_at ws limits h step is c =
     [q. i \<leftarrow> is, in_band (ws ! i) (ws ! Suc i) h c, q \<leftarrow> (case quantise (limits ! i) step of Inl e \<Rightarrow> [] | Inr q \<Rightarrow> [q])]"

definition lowest :: "int list \<Rightarrow> int" where
  "lowest qs = (if qs = [] then 0 else Min (set qs))"

lemma lowest_snoc: "\<forall>q \<in> set qs. 0 < q \<Longrightarrow> 0 < q \<Longrightarrow>
    lowest (qs @ [q]) = (if lowest qs = 0 \<or> q < lowest qs then q else lowest qs)"
proof -
  assume pos: "\<forall>q \<in> set qs. 0 < q" "0 < q"
  show ?thesis
  proof (cases "qs = []")
    case True
    then show ?thesis by (simp add: lowest_def)
  next
    case False
    then have "Min (set qs) \<in> set qs" by simp
    with pos have "Min (set qs) \<noteq> 0" by force
    moreover have "lowest (qs @ [q]) = min q (Min (set qs))" "lowest qs = Min (set qs)"
      using False by (simp_all add: lowest_def)
    moreover obtain m where "Min (set qs) = m" by blast
    ultimately show ?thesis by (auto simp: min_def)
  qed
qed

lemma limits_at_pos: "\<forall>q \<in> set (limits_at ws limits h step is c). 0 < q"
proof -
  have "0 < q" if "quantise v step = Inr q" for v q using quantise_Inr [OF that] by simp
  then show ?thesis by (auto simp: limits_at_def split: sum.splits if_splits)
qed

lemma paint_sections_values:
  assumes "paint_sections g ws limits h step is p = Inr p'"
    and "map fst (pt_cells p) = map (\<lambda>c. lowest (limits_at ws limits h step pre c)) (cells g)"
  shows "map fst (pt_cells p') = map (\<lambda>c. lowest (limits_at ws limits h step (pre @ is) c)) (cells g)"
  using assms
proof (induction "is" arbitrary: p pre)
  case Nil
  then show ?case by simp
next
  case (Cons i "is")
  from Cons.prems(1) obtain p1 where p1: "paint_section g ws limits h step i p = Inr p1"
    "paint_sections g ws limits h step is p1 = Inr p'" by auto
  from p1(1) obtain q where q: "quantise (limits ! i) step = Inr q"
    and cells: "pt_cells p1 = map2 (paint_cell (int i) q) (map (in_band (ws ! i) (ws ! Suc i) h) (cells g)) (pt_cells p)"
    by (auto simp: paint_section_def Let_def)
  have "map fst (pt_cells p1) = map (\<lambda>c. lowest (limits_at ws limits h step (pre @ [i]) c)) (cells g)"
  proof (rule nth_equalityI)
    have len: "length (pt_cells p) = length (cells g)" using Cons.prems(2) by (metis length_map)
    then show "length (map fst (pt_cells p1)) = length (map (\<lambda>c. lowest (limits_at ws limits h step (pre @ [i]) c)) (cells g))"
      by (simp add: cells)
    fix k assume "k < length (map fst (pt_cells p1))"
    with len have k: "k < length (cells g)" by (simp add: cells)
    let ?c = "cells g ! k"
    have v: "fst (pt_cells p ! k) = lowest (limits_at ws limits h step pre ?c)"
      using arg_cong [OF Cons.prems(2), of "\<lambda>xs. xs ! k"] k len by simp
    have "limits_at ws limits h step (pre @ [i]) ?c = limits_at ws limits h step pre ?c
        @ (if in_band (ws ! i) (ws ! Suc i) h ?c then [q] else [])"
      by (simp add: limits_at_def q)
    moreover have "0 < q" using quantise_Inr [OF q] by simp
    ultimately show "map fst (pt_cells p1) ! k = map (\<lambda>c. lowest (limits_at ws limits h step (pre @ [i]) c)) (cells g) ! k"
      using k len v lowest_snoc [OF limits_at_pos [of ws limits h step pre ?c], of q]
      by (cases "pt_cells p ! k") (simp add: cells paint_cell_def)
  qed
  from Cons.IH [OF p1(2) this] show ?case by simp
qed

lemma paint_sections_returns: "0 < step \<Longrightarrow> \<exists>p'. paint_sections g ws limits h step is p = Inr p'"
  by (induction "is" arbitrary: p) (auto simp: paint_section_def quantise_def Let_def)

lemma concat_map_Nil: "concat (map f xs) = [] \<longleftrightarrow> (\<forall>x \<in> set xs. f x = [])"
  by (induction xs) auto

section \<open>Properties\<close>

text \<open>C20. The speed mask: for a positive width and step and a limit per section the mask is made, and every
  cell holds the lowest quantised limit of the sections whose band covers its centre, zero (no
  limit) exactly when no band does; a cell under a band holds 1 to 100.\<close>

theorem speed_mask_lowest_limit:
  assumes "0 < h" "0 < step" "2 \<le> length ws" "length limits = length ws - 1"
  shows "\<exists>r. generate_mask ws limits g h step = Inr r
     \<and> r_grid r = map (\<lambda>c. lowest (limits_at ws limits h step [0 ..< length ws - 1] c)) (cells g)
     \<and> (\<forall>k < length (cells g).
          (r_grid r ! k = 0 \<longleftrightarrow> (\<forall>i < length ws - 1. \<not> in_band (ws ! i) (ws ! Suc i) h (cells g ! k)))
        \<and> (r_grid r ! k \<noteq> 0 \<longrightarrow> 1 \<le> r_grid r ! k \<and> r_grid r ! k \<le> 100))"
proof -
  define p0 where "p0 = \<lparr>pt_cells = map (\<lambda>c. (0 :: int, - 1 :: int)) (cells g), pt_conflicts = (\<lambda>k :: int \<times> int. 0 :: int), pt_clipped = [] :: int list\<rparr>"
  obtain p where p: "paint_sections g ws limits h step [0 ..< length ws - 1] p0 = Inr p"
    using paint_sections_returns [OF assms(2)] by blast
  have "map fst (pt_cells p0) = map (\<lambda>c. lowest (limits_at ws limits h step [] c)) (cells g)"
    by (simp add: p0_def lowest_def limits_at_def comp_def)
  from paint_sections_values [OF p this]
  have grid: "map fst (pt_cells p) = map (\<lambda>c. lowest (limits_at ws limits h step [0 ..< length ws - 1] c)) (cells g)" by simp
  from assms p obtain r where r: "generate_mask ws limits g h step = Inr r" "r_grid r = map fst (pt_cells p)"
    by (simp add: generate_mask_def p0_def Let_def)
  have at: "lowest (limits_at ws limits h step [0 ..< length ws - 1] c) = 0 \<longleftrightarrow>
        (\<forall>i < length ws - 1. \<not> in_band (ws ! i) (ws ! Suc i) h c)"
    and range: "lowest (limits_at ws limits h step [0 ..< length ws - 1] c) \<noteq> 0 \<Longrightarrow>
        1 \<le> lowest (limits_at ws limits h step [0 ..< length ws - 1] c) \<and> lowest (limits_at ws limits h step [0 ..< length ws - 1] c) \<le> 100" for c
  proof -
    let ?qs = "limits_at ws limits h step [0 ..< length ws - 1] c"
    have q: "\<exists>q. quantise v step = Inr q \<and> 1 \<le> q \<and> q \<le> 100" for v
      using assms(2) by (simp add: quantise_def MASK_MAX_def)
    then obtain qf where qf: "quantise v step = Inr (qf v)" for v by metis
    have empty: "?qs = [] \<longleftrightarrow> (\<forall>i < length ws - 1. \<not> in_band (ws ! i) (ws ! Suc i) h c)"
      unfolding limits_at_def concat_map_Nil by (simp add: qf) fastforce
    have "1 \<le> q \<and> q \<le> 100" if "quantise v step = Inr q" for v q using quantise_Inr [OF that] by simp
    then have rng: "\<forall>q \<in> set ?qs. 1 \<le> q \<and> q \<le> 100" by (auto simp: limits_at_def split: sum.splits if_splits)
    have low: "?qs \<noteq> [] \<Longrightarrow> lowest ?qs \<in> set ?qs" by (simp add: lowest_def)
    with rng have "?qs \<noteq> [] \<Longrightarrow> 1 \<le> lowest ?qs \<and> lowest ?qs \<le> 100" by blast
    moreover have "?qs = [] \<Longrightarrow> lowest ?qs = 0" by (simp add: lowest_def)
    ultimately show "lowest ?qs = 0 \<longleftrightarrow> (\<forall>i < length ws - 1. \<not> in_band (ws ! i) (ws ! Suc i) h c)"
      "lowest ?qs \<noteq> 0 \<Longrightarrow> 1 \<le> lowest ?qs \<and> lowest ?qs \<le> 100" using empty by force+
  qed
  from r grid at range show ?thesis by (intro exI [of _ r]) simp
qed

definition sample_geometry :: geometry where
  "sample_geometry = \<lparr>resolution = 1, origin_x = 0, origin_y = 0, g_width = 3, g_height = 1\<rparr>"

theorem speed_mask_lowest_limit_witness:
  "\<exists>r. generate_mask [(1/2, 1/2), (3/2, 1/2), (5/2, 1/2)] [1, 1/2] sample_geometry (1/4) (1/10) = Inr r
     \<and> r_grid r = [10, 5, 5]"
proof -
  have q: "quantise 1 (1/10) = Inr 10" "quantise (1/2) (1/10) = Inr 5"
    by (simp_all add: quantise_def MASK_MAX_def py_round_def)
  have up: "[0 ..< 2] = [0, 1]" "[0 ..< 3] = [0, 1, 2]" by (simp_all add: upt_rec)
  have "cells sample_geometry = [(1/2, 1/2), (3/2, 1/2), (5/2, 1/2)]"
    by (simp add: cells_def sample_geometry_def centre_def up)
  moreover have "lowest (limits_at [(1/2, 1/2), (3/2, 1/2), (5/2, 1/2)] [1, 1/2] (1/4) (1/10) [0 ..< 2] c) = v"
    if "(c, v) \<in> {((1/2, 1/2), 10), ((3/2, 1/2), 5), ((5/2, 1/2), 5)}" for c v
    using that by (auto simp: limits_at_def up q in_band_def Let_def clip_def lowest_def power2_eq_square)
  ultimately show ?thesis
    using speed_mask_lowest_limit [of "1/4" "1/10" "[(1/2, 1/2), (3/2, 1/2), (5/2, 1/2)]" "[1, 1/2]" sample_geometry]
    by (auto simp: numeral_2_eq_2)
qed

end
