(* ===== verification/Keepout_Mask.thy ===== *)
theory Keepout_Mask
  imports Speed_Mask
begin

text \<open>
  \<^verbatim>\<open>gouda_core/keepout_mask.py\<close> (IFD-41 / IFD-55): the areas a human draws (no driving, driving
  allowed), their check, the mask on the speed mask's grid, the values the map server publishes
  from the written image, and the warnings about waypoints in an area and narrow gaps between
  areas.  Points are pairs of exact reals; a grid is a list of cells in map order.
\<close>

section \<open>Areas\<close>

datatype area_kind = Keepout | Allowed

record area =
  a_kind :: area_kind
  a_polygon :: "(real \<times> real) list"

definition kind_of :: "pyval \<Rightarrow> area_kind option" where
  "kind_of v = (if v = PStr ''keepout'' then Some Keepout else if v = PStr ''allowed'' then Some Allowed else None)"

datatype area_error = Bad_kind nat | Few_points nat | Bad_point nat nat

fun good_point :: "pyval \<Rightarrow> bool" where
  "good_point (PList [x, y]) = (finite_number x \<noteq> None \<and> finite_number y \<noteq> None)"
| "good_point _ = False"

definition area_errors :: "nat \<Rightarrow> pyval \<Rightarrow> area_error list" where
  "area_errors i a = (case a of
     PDict kvs \<Rightarrow>
       if kind_of (dict_get kvs ''kind'' PNone) = None then [Bad_kind i]
       else (case dict_get kvs ''polygon'' PNone of
           PList poly \<Rightarrow> if length poly < 3 then [Few_points i]
             else map (\<lambda>(j, p). Bad_point i j) (filter (\<lambda>(j, p). \<not> good_point p) (enumerate 0 poly))
         | _ \<Rightarrow> [Few_points i])
   | _ \<Rightarrow> [Bad_kind i])"

definition validate_areas :: "pyval list \<Rightarrow> area_error list" where
  "validate_areas areas = concat (map (\<lambda>(i, a). area_errors i a) (enumerate 0 areas))"

text \<open>
  The areas with plain float coordinates, as they are stored.  \<open>pf\<close> is the number a string spells.
\<close>

definition norm_point :: "(string \<Rightarrow> xfloat option) \<Rightarrow> pyval \<Rightarrow> pyval result" where
  "norm_point pf p = res_bind (py_iter p) (\<lambda>vs. case vs of
       [x, y] \<Rightarrow> res_bind (py_float pf x) (\<lambda>a. res_bind (py_float pf y) (\<lambda>b. Inr (PList [PFloat a, PFloat b])))
     | _ \<Rightarrow> Inl ValueError)"

definition norm_area :: "(string \<Rightarrow> xfloat option) \<Rightarrow> pyval \<Rightarrow> pyval result" where
  "norm_area pf a = res_bind (py_item a ''kind'') (\<lambda>k. res_bind (py_item a ''polygon'') (\<lambda>poly.
     res_bind (py_iter poly) (\<lambda>ps. res_bind (res_map (norm_point pf) ps) (\<lambda>qs.
       Inr (PDict [(''kind'', k), (''polygon'', PList qs)])))))"

definition normalised :: "(string \<Rightarrow> xfloat option) \<Rightarrow> pyval list \<Rightarrow> pyval list result" where
  "normalised pf areas = res_map (norm_area pf) areas"

text \<open>The kind and the polygon of an area with finite coordinates, as the mask reads them.\<close>

fun point_of :: "pyval \<Rightarrow> (real \<times> real) option" where
  "point_of (PList [x, y]) = (case (finite_number x, finite_number y) of (Some a, Some b) \<Rightarrow> Some (a, b) | _ \<Rightarrow> None)"
| "point_of _ = None"

definition area_of :: "pyval \<Rightarrow> area option" where
  "area_of a = (case (py_item a ''kind'', py_item a ''polygon'') of
     (Inr k, Inr (PList ps)) \<Rightarrow> (case (kind_of k, those (map point_of ps)) of
         (Some k, Some pts) \<Rightarrow> Some \<lparr>a_kind = k, a_polygon = pts\<rparr>
       | _ \<Rightarrow> None)
   | _ \<Rightarrow> None)"

section \<open>The mask\<close>

text \<open>Does the edge from \<open>a\<close> to \<open>b\<close> cross the ray from the point to the right?\<close>

definition crosses :: "real \<times> real \<Rightarrow> (real \<times> real) \<times> (real \<times> real) \<Rightarrow> bool" where
  "crosses p e = (case (p, e) of ((x, y), ((x1, y1), (x2, y2))) \<Rightarrow>
     y1 \<noteq> y2 \<and> min y1 y2 \<le> y \<and> y < max y1 y2 \<and> x < x1 + (y - y1) * (x2 - x1) / (y2 - y1))"

definition edges :: "'a list \<Rightarrow> ('a \<times> 'a) list" where
  "edges ps = zip ps (rotate1 ps)"

text \<open>Even-odd rule.\<close>

definition inside :: "(real \<times> real) list \<Rightarrow> real \<times> real \<Rightarrow> bool" where
  "inside poly p = foldl (\<lambda>r e. r \<noteq> crosses p e) False (edges poly)"

definition OCCUPIED :: int where "OCCUPIED = 100"
definition FREE :: int where "FREE = 0"
definition UNKNOWN :: int where "UNKNOWN = - 1"

definition paint_kind :: "area list \<Rightarrow> (real \<times> real) list \<Rightarrow> area_kind \<Rightarrow> int \<Rightarrow> int list \<Rightarrow> int list" where
  "paint_kind areas cs kind value grid =
     foldl (\<lambda>grid a. if a_kind a = kind then map2 (\<lambda>c v. if inside (a_polygon a) c then value else v) cs grid else grid) grid areas"

definition rasterize :: "area list \<Rightarrow> geometry \<Rightarrow> int list" where
  "rasterize areas g =
     (let grid = map (\<lambda>c. UNKNOWN) (cells g);
          grid = paint_kind areas (cells g) Allowed FREE grid
      in paint_kind areas (cells g) Keepout OCCUPIED grid)"

definition PIXEL :: "int \<Rightarrow> int" where
  "PIXEL v = (if v = OCCUPIED then 0 else if v = FREE then 254 else 205)"

definition map_server_value :: "int \<Rightarrow> int" where
  "map_server_value px = (let p = (255 - of_int px) / 255 :: real in
     if p < 196/1000 then FREE else if 65/100 < p then OCCUPIED else UNKNOWN)"

text \<open>The rows of an image (top first) as the map server publishes them (bottom first).\<close>

definition map_server_values :: "geometry \<Rightarrow> int list \<Rightarrow> int list" where
  "map_server_values g img = image_of g (map map_server_value img)"

record keepout_record =
  k_values :: "int list" \<comment> \<open>the cell values whose hash is recorded\<close>
  k_width :: nat
  k_height :: nat
  k_keepout_cells :: nat
  k_allowed_cells :: nat

definition write_keepout :: "int list \<Rightarrow> geometry \<Rightarrow> int list \<times> keepout_record" where
  "write_keepout grid g =
     (let img = image_of g (map PIXEL grid); values = map_server_values g img in
      (img, \<lparr>k_values = values, k_width = g_width g, k_height = g_height g,
             k_keepout_cells = count_list values OCCUPIED, k_allowed_cells = count_list values FREE\<rparr>))"

definition waypoints_in_keepout :: "area list \<Rightarrow> (real \<times> real) list \<Rightarrow> nat list" where
  "waypoints_in_keepout areas points =
     map fst (filter (\<lambda>(i, p). \<exists>a \<in> set areas. a_kind a = Keepout \<and> inside (a_polygon a) p) (enumerate 0 points))"

section \<open>Distances\<close>

type_synonym pt = "real \<times> real"

definition cross :: "pt \<Rightarrow> pt \<Rightarrow> pt \<Rightarrow> real" where
  "cross p u v = (fst u - fst p) * (snd v - snd p) - (snd u - snd p) * (fst v - fst p)"

definition dist_pt :: "pt \<Rightarrow> pt \<Rightarrow> real" where
  "dist_pt a b = sqrt ((fst a - fst b)\<^sup>2 + (snd a - snd b)\<^sup>2)"

definition point_seg :: "pt \<Rightarrow> pt \<Rightarrow> pt \<Rightarrow> real \<times> pt" where
  "point_seg x u v =
     (let dx = fst v - fst u; dy = snd v - snd u; L = dx * dx + dy * dy;
          t = (if L = 0 then 0 else max 0 (min 1 (((fst x - fst u) * dx + (snd x - snd u) * dy) / L)));
          c = (fst u + t * dx, snd u + t * dy)
      in (dist_pt x c, c))"

type_synonym gap = "real \<times> pt \<times> pt"

fun best_of :: "gap list \<Rightarrow> gap option" where
  "best_of [] = None"
| "best_of (d # ds) = Some (foldl (\<lambda>b d. if fst d < fst b then d else b) d ds)"

definition seg_dist :: "pt \<Rightarrow> pt \<Rightarrow> pt \<Rightarrow> pt \<Rightarrow> gap" where
  "seg_dist p q a b =
     (let d1 = cross a b p; d2 = cross a b q; d3 = cross p q a; d4 = cross p q b in
      if ((d1 > 0) \<noteq> (d2 > 0)) \<and> ((d3 > 0) \<noteq> (d4 > 0)) \<and> 0 \<notin> {d1, d2, d3, d4}
      then let t = d1 / (d1 - d2); c = (fst p + t * (fst q - fst p), snd p + t * (snd q - snd p)) in (0, c, c)
      else the (best_of
        [(fst (point_seg p a b), p, snd (point_seg p a b)), (fst (point_seg q a b), q, snd (point_seg q a b)),
         (fst (point_seg a p q), snd (point_seg a p q), a), (fst (point_seg b p q), snd (point_seg b p q), b)]))"

definition polygon_distance :: "pt list \<Rightarrow> pt list \<Rightarrow> gap option" where
  "polygon_distance pa pb =
     (if inside pb (hd pa) then Some (0, hd pa, hd pa)
      else if inside pa (hd pb) then Some (0, hd pb, hd pb)
      else best_of [seg_dist p q a b. (p, q) \<leftarrow> edges pa, (a, b) \<leftarrow> edges pb])"

record narrow =
  n_areas :: "nat \<times> nat"
  n_gap :: real
  n_from :: pt
  n_to :: pt

definition keepouts :: "area list \<Rightarrow> (nat \<times> pt list) list" where
  "keepouts areas = map (\<lambda>(i, a). (i, a_polygon a)) (filter (\<lambda>(i, a). a_kind a = Keepout) (enumerate 0 areas))"

definition narrow_pair :: "(nat \<times> pt list) list \<Rightarrow> real \<Rightarrow> nat \<times> pt list \<Rightarrow> nat \<times> pt list \<Rightarrow> narrow list" where
  "narrow_pair keep threshold ia jb = (case polygon_distance (snd ia) (snd jb) of
     None \<Rightarrow> []
   | Some (d, ca, cb) \<Rightarrow>
       let mid = ((fst ca + fst cb) / 2, (snd ca + snd cb) / 2) in
       if 0 < d \<and> d < threshold \<and> \<not> (\<exists>(m, pc) \<in> set keep. m \<notin> {fst ia, fst jb} \<and> inside pc mid)
       then [\<lparr>n_areas = (fst ia, fst jb), n_gap = round3 d, n_from = (round3 (fst ca), round3 (snd ca)),
              n_to = (round3 (fst cb), round3 (snd cb))\<rparr>]
       else [])"

fun narrow_pairs :: "(nat \<times> pt list) list \<Rightarrow> real \<Rightarrow> (nat \<times> pt list) list \<Rightarrow> narrow list" where
  "narrow_pairs keep threshold [] = []"
| "narrow_pairs keep threshold (ia # rest) =
     concat (map (narrow_pair keep threshold ia) rest) @ narrow_pairs keep threshold rest"

definition narrow_gaps :: "area list \<Rightarrow> real \<Rightarrow> narrow list" where
  "narrow_gaps areas threshold = narrow_pairs (keepouts areas) threshold (keepouts areas)"

section \<open>Valid areas can be normalised\<close>

lemma finite_number_float:
  "finite_number v = Some r \<Longrightarrow> py_float pf v = Inr (Fin r)"
  by (cases v rule: finite_number.cases) auto

lemma good_point_norm:
  "good_point p \<Longrightarrow> \<exists>q r. norm_point pf p = Inr q \<and> point_of q = Some r \<and> point_of p = Some r"
  by (cases p rule: good_point.cases) (auto simp: norm_point_def finite_number_float)

lemma good_points_norm:
  "\<forall>p \<in> set ps. good_point p \<Longrightarrow> \<exists>qs rs. res_map (norm_point pf) ps = Inr qs
     \<and> those (map point_of qs) = Some rs \<and> those (map point_of ps) = Some rs"
proof (induction ps)
  case Nil
  then show ?case by simp
next
  case (Cons p ps)
  then obtain qs rs where "res_map (norm_point pf) ps = Inr qs"
    "those (map point_of qs) = Some rs" "those (map point_of ps) = Some rs" by auto
  moreover from Cons.prems good_point_norm [of p pf] obtain q r where
    "norm_point pf p = Inr q" "point_of q = Some r" "point_of p = Some r" by auto
  ultimately show ?case by simp
qed

lemma area_errors_Nil:
  assumes "area_errors i a = []"
  shows "\<exists>b c. norm_area pf a = Inr b \<and> area_of b = Some c \<and> area_of a = Some c"
proof -
  from assms obtain kvs k poly where a: "a = PDict kvs" "kind_of (dict_get kvs ''kind'' PNone) = Some k"
    "dict_get kvs ''polygon'' PNone = PList poly" "\<forall>p \<in> set poly. good_point p"
    by (auto simp: area_errors_def filter_enumerate_Nil not_less simp del: dict_get.simps
        split: pyval.splits if_splits option.splits)
  from a(2) obtain kv where kv: "map_of kvs ''kind'' = Some kv" "kind_of kv = Some k"
    by (auto simp: kind_of_def split: option.splits if_splits)
  from a(3) have poly: "map_of kvs ''polygon'' = Some (PList poly)" by (simp split: option.splits)
  from good_points_norm [OF a(4), of pf] obtain qs rs where "res_map (norm_point pf) poly = Inr qs"
    "those (map point_of qs) = Some rs" "those (map point_of poly) = Some rs" by blast
  with a(1) kv poly show ?thesis by (simp add: norm_area_def area_of_def)
qed

lemma validate_normalised:
  "validate_areas raw = [] \<Longrightarrow>
     \<exists>norm areas. normalised pf raw = Inr norm \<and> map area_of norm = map Some areas \<and> map area_of raw = map Some areas"
proof -
  assume v: "validate_areas raw = []"
  have "\<exists>i. area_errors i a = []" if "a \<in> set raw" for a
  proof -
    from that obtain i where "(i, a) \<in> set (enumerate 0 raw)"
      using in_set_enumerate by fast
    with v show ?thesis by (auto simp: validate_areas_def)
  qed
  then have "\<forall>a \<in> set raw. \<exists>b c. norm_area pf a = Inr b \<and> area_of b = Some c \<and> area_of a = Some c"
    using area_errors_Nil by blast
  then show ?thesis unfolding normalised_def
  proof (induction raw)
    case Nil
    show ?case by simp
  next
    case (Cons a raw)
    then obtain norm areas b c where "res_map (norm_area pf) raw = Inr norm" "map area_of norm = map Some areas"
      "map area_of raw = map Some areas" "norm_area pf a = Inr b" "area_of b = Some c" "area_of a = Some c" by auto
    then show ?case by (intro exI [of _ "b # norm"] exI [of _ "c # areas"]) simp
  qed
qed

section \<open>Images\<close>

lemma concat_rows: "concat (map (\<lambda>j. take w (drop (j * w) xs)) [0 ..< h]) = take (h * w) xs"
proof (induction h)
  case 0
  then show ?case by simp
next
  case (Suc h)
  have "take (Suc h * w) xs = take (h * w) xs @ take w (drop (h * w) xs)"
    by (simp add: take_add [symmetric] add.commute)
  with Suc show ?case by simp
qed

lemma drop_concat_rows: "\<forall>r \<in> set rows. length r = w \<Longrightarrow> drop (j * w) (concat rows) = concat (drop j rows)"
proof (induction j arbitrary: rows)
  case 0
  then show ?case by simp
next
  case (Suc j)
  then show ?case by (cases rows) simp_all
qed

lemma rows_of_concat:
  assumes "length rows = g_height g" "\<forall>r \<in> set rows. length r = g_width g"
  shows "rows_of g (concat rows) = rows"
proof (rule nth_equalityI)
  show "length (rows_of g (concat rows)) = length rows" using assms by (simp add: rows_of_def)
  fix j assume "j < length (rows_of g (concat rows))"
  then have j: "j < length rows" using assms by (simp add: rows_of_def)
  then have "drop j rows = rows ! j # drop (Suc j) rows" by (simp add: Cons_nth_drop_Suc)
  then have "take (g_width g) (drop (j * g_width g) (concat rows)) = rows ! j"
    using assms j by (simp add: drop_concat_rows)
  with j assms(1) show "rows_of g (concat rows) ! j = rows ! j" by (simp add: rows_of_def)
qed

lemma length_rows_of [simp]: "length (rows_of g xs) = g_height g"
  by (simp add: rows_of_def)

lemma image_of_involution:
  assumes "length xs = g_width g * g_height g"
  shows "image_of g (image_of g xs) = xs"
proof -
  have rl: "length r = g_width g" if r: "r \<in> set (rows_of g xs)" for r
  proof -
    from r obtain j where j: "j < g_height g" "r = take (g_width g) (drop (j * g_width g) xs)"
      by (auto simp: rows_of_def)
    then have "Suc j * g_width g \<le> g_height g * g_width g" by (intro mult_le_mono1) simp
    with j assms show ?thesis by (simp add: mult.commute)
  qed
  have "rows_of g (concat (rev (rows_of g xs))) = rev (rows_of g xs)"
    by (rule rows_of_concat) (simp_all add: rl)
  then have "rows_of g (image_of g xs) = rev (rows_of g xs)" by (simp add: image_of_def)
  then have "image_of g (image_of g xs) = concat (rows_of g xs)"
    unfolding image_of_def [of g "image_of g xs"] by simp
  also have "\<dots> = xs" using assms concat_rows [of "g_width g" xs "g_height g"] by (simp add: rows_of_def mult.commute)
  finally show ?thesis .
qed

lemma image_of_map: "image_of g (map f xs) = map f (image_of g xs)"
proof -
  have "rows_of g (map f xs) = map (map f) (rows_of g xs)" by (simp add: rows_of_def take_map drop_map)
  then show ?thesis unfolding image_of_def by (simp only: rev_map map_concat)
qed

lemma length_cells: "length (cells g) = g_width g * g_height g"
proof -
  have "sum_list (map (\<lambda>j. g_width g) [0 ..< n]) = g_width g * n" for n by (induction n) simp_all
  then show ?thesis by (simp add: cells_def length_concat comp_def)
qed

section \<open>What is painted\<close>

lemma length_paint_kind [simp]: "length grid = length cs \<Longrightarrow> length (paint_kind areas cs kind value grid) = length cs"
  unfolding paint_kind_def by (induction areas arbitrary: grid) simp_all

lemma paint_kind_nth:
  assumes "length grid = length cs" "k < length cs"
  shows "paint_kind areas cs kind value grid ! k =
     (if \<exists>a \<in> set areas. a_kind a = kind \<and> inside (a_polygon a) (cs ! k) then value else grid ! k)"
  using assms
proof (induction areas arbitrary: grid)
  case Nil
  then show ?case by (simp add: paint_kind_def)
next
  case (Cons a areas)
  let ?grid = "if a_kind a = kind then map2 (\<lambda>c v. if inside (a_polygon a) c then value else v) cs grid else grid"
  have "paint_kind (a # areas) cs kind value grid = paint_kind areas cs kind value ?grid" by (simp add: paint_kind_def)
  moreover have "length ?grid = length cs" using Cons.prems by simp
  ultimately show ?case using Cons.IH [of ?grid] Cons.prems by auto
qed

lemma length_rasterize: "length (rasterize areas g) = g_width g * g_height g"
  by (simp add: rasterize_def Let_def length_cells)

lemma rasterize_nth:
  assumes "k < length (cells g)"
  shows "rasterize areas g ! k =
     (if \<exists>a \<in> set areas. a_kind a = Keepout \<and> inside (a_polygon a) (cells g ! k) then 100
      else if \<exists>a \<in> set areas. a_kind a = Allowed \<and> inside (a_polygon a) (cells g ! k) then 0 else - 1)"
  using assms by (simp add: rasterize_def Let_def paint_kind_nth OCCUPIED_def FREE_def UNKNOWN_def)

lemma map_server_pixel: "v \<in> {100, 0, - 1} \<Longrightarrow> map_server_value (PIXEL v) = v"
  by (auto simp: map_server_value_def PIXEL_def OCCUPIED_def FREE_def UNKNOWN_def Let_def)

section \<open>Properties\<close>

text \<open>C21. The mask the map server publishes is the drawn one: for areas that pass the check, the recorded
  cell values (whose hash the autonomy start compares) are, cell by cell, 100 inside a keep-out
  area, otherwise 0 inside an allowed area, otherwise -1 -- keep-out wins where they overlap.\<close>

theorem keepout_mask_as_drawn:
  assumes "validate_areas raw = []"
  shows "\<exists>norm areas. normalised pf raw = Inr norm \<and> map area_of norm = map Some areas \<and> map area_of raw = map Some areas
     \<and> k_values (snd (write_keepout (rasterize areas g) g)) = rasterize areas g
     \<and> (\<forall>k < length (cells g). rasterize areas g ! k =
          (if \<exists>a \<in> set areas. a_kind a = Keepout \<and> inside (a_polygon a) (cells g ! k) then 100
           else if \<exists>a \<in> set areas. a_kind a = Allowed \<and> inside (a_polygon a) (cells g ! k) then 0 else - 1))"
proof -
  from validate_normalised [OF assms, of pf] obtain norm areas where n: "normalised pf raw = Inr norm"
    "map area_of norm = map Some areas" "map area_of raw = map Some areas" by blast
  let ?grid = "rasterize areas g"
  have "map map_server_value (map PIXEL ?grid) = ?grid"
  proof (rule nth_equalityI)
    fix k assume "k < length (map map_server_value (map PIXEL ?grid))"
    then have k: "k < length (cells g)" by (simp add: length_rasterize length_cells)
    have "?grid ! k \<in> {100, 0, - 1}" unfolding rasterize_nth [OF k] by simp
    with k show "map map_server_value (map PIXEL ?grid) ! k = ?grid ! k"
      by (simp add: length_rasterize length_cells map_server_pixel)
  qed simp
  then have "k_values (snd (write_keepout ?grid g)) = ?grid"
    by (simp add: write_keepout_def map_server_values_def Let_def image_of_map [symmetric] image_of_involution length_rasterize)
  with n rasterize_nth [of _ g areas] show ?thesis by (intro exI [of _ norm] exI [of _ areas]) blast
qed

definition sample_areas :: "pyval list" where
  "sample_areas = [PDict [(''kind'', PStr ''keepout''),
     (''polygon'', PList [PList [PInt 0, PInt 0], PList [PInt 1, PInt 0], PList [PInt 1, PInt 1], PList [PInt 0, PInt 1]])]]"

theorem keepout_mask_as_drawn_witness:
  "\<exists>norm areas. normalised (\<lambda>_. None) sample_areas = Inr norm \<and> map area_of norm = map Some areas
     \<and> rasterize areas sample_geometry = [100, - 1, - 1]
     \<and> k_values (snd (write_keepout (rasterize areas sample_geometry) sample_geometry)) = [100, - 1, - 1]"
proof -
  have "validate_areas sample_areas = []"
    by (simp add: validate_areas_def sample_areas_def area_errors_def kind_of_def)
  from keepout_mask_as_drawn [OF this, of "\<lambda>_. None" sample_geometry] obtain norm areas where
    a: "normalised (\<lambda>_. None) sample_areas = Inr norm" "map area_of norm = map Some areas"
     "map area_of sample_areas = map Some areas"
     "k_values (snd (write_keepout (rasterize areas sample_geometry) sample_geometry)) = rasterize areas sample_geometry" by blast
  have up: "[0 ..< 3] = [0, 1, 2]" "[0 ..< Suc 0] = [0]" by (simp_all add: upt_rec)
  from a(3) have "areas = [\<lparr>a_kind = Keepout, a_polygon = [(0, 0), (1, 0), (1, 1), (0, 1)]\<rparr>]"
    by (auto simp: sample_areas_def area_of_def kind_of_def Cons_eq_map_conv)
  then have "rasterize areas sample_geometry = [100, - 1, - 1]"
    by (simp add: rasterize_def paint_kind_def cells_def sample_geometry_def centre_def up inside_def edges_def crosses_def
        OCCUPIED_def FREE_def UNKNOWN_def)
  with a show ?thesis by auto
qed

section \<open>Narrow gaps\<close>

lemma foldl_closest:
  fixes ds :: "gap list"
  shows "foldl (\<lambda>b d. if fst d < fst b then d else b) b ds \<in> set (b # ds)
      \<and> (\<forall>d \<in> set (b # ds). fst (foldl (\<lambda>b d. if fst d < fst b then d else b) b ds) \<le> fst d)"
proof (induction ds arbitrary: b)
  case Nil
  then show ?case by simp
next
  case (Cons d ds)
  show ?case using Cons [of "if fst d < fst b then d else b"] by (auto split: if_splits)
qed

lemma best_of_closest: "best_of ds = Some b \<Longrightarrow> b \<in> set ds \<and> (\<forall>d \<in> set ds. fst b \<le> fst d)"
proof (cases ds)
  case (Cons d ds')
  assume "best_of ds = Some b"
  with Cons have "b = foldl (\<lambda>b d. if fst d < fst b then d else b) d ds'" by simp
  with Cons foldl_closest [of d ds'] show ?thesis by blast
qed simp

lemma narrow_pair_gap:
  "n \<in> set (narrow_pair keep threshold ia jb) \<Longrightarrow> n_areas n = (fst ia, fst jb)
     \<and> (\<exists>d ca cb. polygon_distance (snd ia) (snd jb) = Some (d, ca, cb) \<and> 0 < d \<and> d < threshold \<and> n_gap n = round3 d)"
  by (cases "polygon_distance (snd ia) (snd jb)") (auto simp: narrow_pair_def Let_def split: if_splits)

lemma narrow_pairs_gap:
  "n \<in> set (narrow_pairs keep threshold rest) \<Longrightarrow> \<exists>ia jb. ia \<in> set rest \<and> jb \<in> set rest
     \<and> n \<in> set (narrow_pair keep threshold ia jb)"
  by (induction rest rule: narrow_pairs.induct) auto

lemma narrow_gaps_below_threshold:
  assumes "n \<in> set (narrow_gaps areas threshold)"
  shows "\<exists>d. 0 < d \<and> d < threshold \<and> n_gap n = round3 d"
  using assms narrow_pairs_gap narrow_pair_gap unfolding narrow_gaps_def by fast

end
