(* ===== verification/Routes.thy ===== *)
theory Routes
  imports Disk Keepout_Mask
begin

text \<open>
  \<^verbatim>\<open>gouda_core/waypoints.py\<close> (IFD-30): waypoint sets, their check, their document form and content
  hash, and the route database with its revisions on the file system of \<open>Disk\<close>.  Dictionaries are
  association lists in the order the code writes them; the digests are parameters (\<open>libs\<close>).
\<close>

section \<open>Waypoint sets\<close>

record waypoint =
  wp_x :: pyval
  wp_y :: pyval
  wp_yaw :: pyval
  wp_kind :: string

record waypoint_set =
  ws_map_origin_id :: string
  ws_map_revision :: int
  ws_map_content_hash :: string
  ws_waypoints :: "waypoint list"
  ws_limits :: "pyval list"
  ws_set_id :: string
  ws_revision :: int
  ws_note :: string
  ws_areas :: "pyval list"

text \<open>\<^verbatim>\<open>isinstance(v, (int, float)) and math.isfinite(v)\<close>: here a bool passes.\<close>

fun number_or_bool :: "pyval \<Rightarrow> bool" where
  "number_or_bool (PBool b) = True"
| "number_or_bool v = (finite_number v \<noteq> None)"

datatype set_error =
    Map_reference
  | Two_waypoints
  | Limits_length nat
  | Bad_limit nat
  | Bad_coordinates nat
  | Bad_kind_of nat
  | Area_error area_error

definition good_limit :: "pyval \<Rightarrow> bool" where
  "good_limit v = (case finite_number v of None \<Rightarrow> False | Some r \<Rightarrow> 0 < r)"

definition good_coordinates :: "waypoint \<Rightarrow> bool" where
  "good_coordinates w = (number_or_bool (wp_x w) \<and> number_or_bool (wp_y w) \<and> number_or_bool (wp_yaw w))"

definition set_validate :: "waypoint_set \<Rightarrow> set_error list" where
  "set_validate ws =
     (if ws_map_origin_id ws = [] \<or> ws_map_content_hash ws = [] then [Map_reference] else [])
   @ (if length (ws_waypoints ws) < 2 then [Two_waypoints] else [])
   @ (if length (ws_limits ws) \<noteq> length (ws_waypoints ws) - 1 then [Limits_length (length (ws_waypoints ws) - 1)] else [])
   @ map (\<lambda>(i, v). Bad_limit i) (filter (\<lambda>(i, v). \<not> good_limit v) (enumerate 0 (ws_limits ws)))
   @ concat (map (\<lambda>(i, w). (if good_coordinates w then [] else [Bad_coordinates i])
        @ (if wp_kind w \<in> {''pass'', ''stop''} then [] else [Bad_kind_of i])) (enumerate 0 (ws_waypoints ws)))
   @ map Area_error (validate_areas (ws_areas ws))"

section \<open>Documents\<close>

definition SCHEMA :: int where "SCHEMA = 1"

definition waypoint_doc :: "libs \<Rightarrow> waypoint \<Rightarrow> pyval result" where
  "waypoint_doc lb w = res_bind (py_float (l_float lb) (wp_x w)) (\<lambda>x. res_bind (py_float (l_float lb) (wp_y w)) (\<lambda>y.
     res_bind (py_float (l_float lb) (wp_yaw w)) (\<lambda>yaw.
       Inr (PDict [(''x'', PFloat x), (''y'', PFloat y), (''yaw'', PFloat yaw), (''kind'', PStr (wp_kind w))]))))"

definition limit_doc :: "libs \<Rightarrow> pyval \<Rightarrow> pyval result" where
  "limit_doc lb v = res_bind (py_float (l_float lb) v) (\<lambda>x. Inr (PFloat x))"

definition map_reference :: "waypoint_set \<Rightarrow> pyval" where
  "map_reference ws = PDict [(''origin_id'', PStr (ws_map_origin_id ws)), (''revision'', PInt (ws_map_revision ws)),
     (''content_hash'', PStr (ws_map_content_hash ws))]"

definition to_dict :: "libs \<Rightarrow> waypoint_set \<Rightarrow> (string \<times> pyval) list result" where
  "to_dict lb ws =
     res_bind (res_map (waypoint_doc lb) (ws_waypoints ws)) (\<lambda>wps.
     res_bind (res_map (limit_doc lb) (ws_limits ws)) (\<lambda>limits.
     let d = [(''schema'', PInt SCHEMA), (''set_id'', PStr (ws_set_id ws)), (''revision'', PInt (ws_revision ws)),
              (''note'', PStr (ws_note ws)), (''map'', map_reference ws), (''frame'', PStr ''map''),
              (''waypoints'', PList wps), (''section_limits_mps'', PList limits)] in
     if ws_areas ws = [] then Inr d
     else res_bind (normalised (l_float lb) (ws_areas ws)) (\<lambda>areas. Inr (d @ [(''areas'', PList areas)]))))"

definition waypoint_of :: "libs \<Rightarrow> pyval \<Rightarrow> waypoint result" where
  "waypoint_of lb w =
     res_bind (py_item w ''x'') (\<lambda>vx. res_bind (py_float (l_float lb) vx) (\<lambda>x.
     res_bind (py_item w ''y'') (\<lambda>vy. res_bind (py_float (l_float lb) vy) (\<lambda>y.
     res_bind (py_get w ''yaw'' (PFloat (Fin 0))) (\<lambda>vyaw. res_bind (py_float (l_float lb) vyaw) (\<lambda>yaw.
     res_bind (py_get w ''kind'' (PStr ''pass'')) (\<lambda>k.
       Inr \<lparr>wp_x = PFloat x, wp_y = PFloat y, wp_yaw = PFloat yaw, wp_kind = py_str (l_fmt lb) k\<rparr>)))))))"

definition from_dict :: "libs \<Rightarrow> pyval \<Rightarrow> waypoint_set result" where
  "from_dict lb d =
     res_bind (py_get d ''map'' (PDict [])) (\<lambda>m.
     res_bind (py_get m ''origin_id'' (PStr '''')) (\<lambda>origin.
     res_bind (py_get m ''revision'' (PInt 0)) (\<lambda>vrev. res_bind (py_int (l_int lb) vrev) (\<lambda>mrev.
     res_bind (py_get m ''content_hash'' (PStr '''')) (\<lambda>chash.
     res_bind (py_get d ''waypoints'' (PList [])) (\<lambda>vw. res_bind (py_iter vw) (\<lambda>ws.
     res_bind (res_map (waypoint_of lb) ws) (\<lambda>wps.
     res_bind (py_get d ''section_limits_mps'' (PList [])) (\<lambda>vl. res_bind (py_iter vl) (\<lambda>ls.
     res_bind (res_map (limit_doc lb) ls) (\<lambda>limits.
     res_bind (py_get d ''set_id'' (PStr '''')) (\<lambda>sid.
     res_bind (py_get d ''revision'' (PInt 0)) (\<lambda>vr. res_bind (py_int (l_int lb) vr) (\<lambda>rv.
     res_bind (py_get d ''note'' (PStr '''')) (\<lambda>note.
     res_bind (py_get d ''areas'' PNone) (\<lambda>va. res_bind (if truthy va then py_iter va else Inr []) (\<lambda>areas.
       Inr \<lparr>ws_map_origin_id = py_str (l_fmt lb) origin, ws_map_revision = mrev,
            ws_map_content_hash = py_str (l_fmt lb) chash, ws_waypoints = wps, ws_limits = limits,
            ws_set_id = py_str (l_fmt lb) sid, ws_revision = rv, ws_note = py_str (l_fmt lb) note,
            ws_areas = areas\<rparr>)))))))))))))))))"

definition set_content_hash :: "libs \<Rightarrow> waypoint_set \<Rightarrow> string result" where
  "set_content_hash lb ws = res_bind (to_dict lb ws) (\<lambda>d.
     Inr (l_sha lb (PDict (filter (\<lambda>kv. fst kv \<notin> {''set_id'', ''revision'', ''note''}) d))))"

section \<open>The route database\<close>

definition revisions :: "disk \<Rightarrow> path \<Rightarrow> int list" where
  "revisions fs d = sort (map int_of_name (filter isdigit (subdirs fs d)))"

definition next_revision :: "disk \<Rightarrow> path \<Rightarrow> int" where
  "next_revision fs d = (let existing = revisions fs d in if existing \<noteq> [] then last existing + 1 else 1)"

text \<open>\<open>fresh\<close> is the new set id, \<open>uuid\<close> the random part of the temporary directory's name.\<close>

definition route_begin :: "path \<Rightarrow> string \<Rightarrow> string \<Rightarrow> string option \<Rightarrow> disk \<Rightarrow> ((string \<times> int \<times> path) \<times> disk) result" where
  "route_begin rt fresh uuid set_id fs =
     (let set_id = (case set_id of None \<Rightarrow> fresh | Some i \<Rightarrow> if i = [] then fresh else i);
          sdir = rt @ [set_id]; revision = (if is_dir fs sdir then next_revision fs sdir else 1);
          tmp = sdir @ [''.saving_'' @ uuid]
      in res_bind (mkdir fs tmp) (\<lambda>fs. Inr ((set_id, revision, tmp), fs)))"

datatype publish_message = Saved string int string nat | Discarded string

definition set_manifest :: "libs \<Rightarrow> waypoint_set \<Rightarrow> string \<Rightarrow> int \<Rightarrow> string \<Rightarrow> string \<Rightarrow> (string \<times> string) list \<Rightarrow> pyval list \<Rightarrow> pyval \<Rightarrow> pyval \<Rightarrow> pyval" where
  "set_manifest lb ws sid rv chash fhash mask_files warnings generator now = PDict
     [(''schema'', PInt SCHEMA), (''kind'', PStr ''waypoint_set''), (''set_id'', PStr sid), (''revision'', PInt rv),
      (''content_hash'', PStr chash), (''files_content_hash'', PStr fhash), (''map'', map_reference ws),
      (''waypoints'', PInt (int (length (ws_waypoints ws)))), (''sections'', PInt (int (length (ws_limits ws)))),
      (''mask_files'', PDict (map (\<lambda>(k, f). (k, PStr f)) mask_files)), (''generator'', generator),
      (''warnings'', PList warnings), (''created_at'', now)]"

definition set_manifest_path :: "path \<Rightarrow> string \<Rightarrow> int \<Rightarrow> path" where
  "set_manifest_path rt sid rv = rt @ [sid, pad3 rv, ''manifest.json'']"

definition route_load :: "libs \<Rightarrow> path \<Rightarrow> string \<Rightarrow> int \<Rightarrow> disk \<Rightarrow> waypoint_set option result" where
  "route_load lb rt sid rv fs =
     (case res_bind (read_yaml lb fs (rt @ [sid, pad3 rv, ''waypoints.yaml''])) (from_dict lb) of
        Inr ws \<Rightarrow> Inr (Some ws)
      | Inl e \<Rightarrow> if e \<in> {OSError, ValueError, TypeError, KeyError} then Inr None else Inl e)"

definition route_manifest :: "libs \<Rightarrow> path \<Rightarrow> string \<Rightarrow> int \<Rightarrow> disk \<Rightarrow> pyval option result" where
  "route_manifest lb rt sid rv fs = json_or_none lb fs (set_manifest_path rt sid rv)"

text \<open>The index: every published revision with the fields of its manifest.\<close>

definition visible :: "disk \<Rightarrow> path \<Rightarrow> string list" where
  "visible fs rt = filter (\<lambda>n. take 1 n \<noteq> ''.'') (sort (subdirs fs rt))"

definition index_revision :: "libs \<Rightarrow> path \<Rightarrow> string \<Rightarrow> disk \<Rightarrow> string \<Rightarrow> pyval list result" where
  "index_revision lb rt sid fs r = res_bind (route_manifest lb rt sid (int_of_name r) fs) (\<lambda>m. case m of
     None \<Rightarrow> Inr []
   | Some m \<Rightarrow> if \<not> truthy m then Inr [] else
       res_bind (py_item m ''revision'') (\<lambda>a. res_bind (py_item m ''content_hash'') (\<lambda>b. res_bind (py_item m ''map'') (\<lambda>c.
       res_bind (py_item m ''waypoints'') (\<lambda>d. res_bind (py_item m ''warnings'') (\<lambda>w. res_bind (py_iter w) (\<lambda>ws.
       res_bind (py_item m ''created_at'') (\<lambda>t.
         Inr [PDict [(''revision'', a), (''content_hash'', b), (''map'', c), (''waypoints'', d),
                     (''warnings'', PInt (int (length ws))), (''created_at'', t)]]))))))))"

definition index_set :: "libs \<Rightarrow> path \<Rightarrow> disk \<Rightarrow> string \<Rightarrow> pyval list result" where
  "index_set lb rt fs sid = res_bind
     (res_map (index_revision lb rt sid fs) (filter isdigit (sort (subdirs fs (rt @ [sid]))))) (\<lambda>revs.
     Inr (if concat revs = [] then [] else [PDict [(''set_id'', PStr sid), (''revisions'', PList (concat revs))]]))"

definition rebuild_index :: "libs \<Rightarrow> path \<Rightarrow> pyval \<Rightarrow> disk \<Rightarrow> (pyval \<times> disk) result" where
  "rebuild_index lb rt now fs = res_bind (res_map (index_set lb rt fs) (visible fs rt)) (\<lambda>sets.
     let index = PDict [(''schema'', PInt SCHEMA), (''sets'', PList (concat sets)), (''updated_at'', now)]
     in Inr (index, write_file fs (rt @ [''index.json'']) (Json_text index)))"

definition route_index :: "libs \<Rightarrow> path \<Rightarrow> pyval \<Rightarrow> disk \<Rightarrow> (pyval \<times> disk) result" where
  "route_index lb rt now fs = (case read_json lb fs (rt @ [''index.json'']) of
     Inr v \<Rightarrow> Inr (v, fs)
   | Inl e \<Rightarrow> if e = OSError \<or> e = ValueError then rebuild_index lb rt now fs else Inl e)"

definition route_publish :: "libs \<Rightarrow> path \<Rightarrow> pyval \<Rightarrow> string \<Rightarrow> int \<Rightarrow> path \<Rightarrow> waypoint_set \<Rightarrow> (string \<times> string) list
    \<Rightarrow> pyval list \<Rightarrow> pyval \<Rightarrow> disk \<Rightarrow> ((bool \<times> publish_message \<times> pyval option) \<times> disk) result" where
  "route_publish lb rt now sid rv tmp ws mask_files warnings generator fs =
     (let ws = ws\<lparr>ws_set_id := sid, ws_revision := rv\<rparr> in
      res_bind (to_dict lb ws) (\<lambda>d.
      let fs = write_file fs (tmp @ [''waypoints.yaml'']) (Yaml_text (PDict d)) in
      case List.find (\<lambda>f. missing_or_empty fs (tmp @ [f])) (''waypoints.yaml'' # map snd mask_files) of
        Some f \<Rightarrow> Inr ((False, Discarded f, None), rmtree fs tmp)
      | None \<Rightarrow>
          let fhash = dir_hash lb fs tmp [''manifest.json''] in
          res_bind (set_content_hash lb ws) (\<lambda>chash.
          let manifest = set_manifest lb ws sid rv chash fhash mask_files warnings generator now;
              fs = write_file fs (tmp @ [''manifest.json'']) (Json_text manifest) in
          res_bind (replace_dir fs tmp (rt @ [sid, pad3 rv])) (\<lambda>fs.
          res_bind (rebuild_index lb rt now fs) (\<lambda>(index, fs).
            Inr ((True, Saved sid rv chash (length warnings), Some manifest), fs))))))"

definition route_abort :: "path \<Rightarrow> disk \<Rightarrow> disk" where
  "route_abort tmp fs = rmtree fs tmp"

section \<open>Documents are stable\<close>

lemma res_map_again:
  assumes "res_map f xs = Inr ys" and "\<And>x y. f x = Inr y \<Longrightarrow> \<exists>z. g y = Inr z \<and> h z = Inr y"
  shows "\<exists>zs. res_map g ys = Inr zs \<and> res_map h zs = Inr ys"
  using assms(1)
proof (induction xs arbitrary: ys)
  case Nil
  then show ?case by simp
next
  case (Cons x xs)
  then obtain y ys' where "ys = y # ys'" "f x = Inr y" "res_map f xs = Inr ys'" by auto
  with Cons.IH [of ys'] assms(2) [of x y] obtain z zs where
    "g y = Inr z" "h z = Inr y" "res_map g ys' = Inr zs" "res_map h zs = Inr ys'" by blast
  then show ?case by (intro exI [of _ "z # zs"]) (simp add: \<open>ys = y # ys'\<close>)
qed

lemma waypoint_doc_again: "waypoint_doc lb w = Inr v \<Longrightarrow> \<exists>w'. waypoint_of lb v = Inr w' \<and> waypoint_doc lb w' = Inr v"
  by (auto simp: waypoint_doc_def waypoint_of_def)

lemma limit_doc_again: "limit_doc lb v = Inr x \<Longrightarrow> limit_doc lb x = Inr x"
  by (auto simp: limit_doc_def)

lemma norm_point_shape: "norm_point pf p = Inr q \<Longrightarrow> \<exists>a b. q = PList [PFloat a, PFloat b]"
proof -
  assume "norm_point pf p = Inr q"
  then obtain vs where "(case vs of
       [x, y] \<Rightarrow> res_bind (py_float pf x) (\<lambda>a. res_bind (py_float pf y) (\<lambda>b. Inr (PList [PFloat a, PFloat b])))
     | _ \<Rightarrow> Inl ValueError) = Inr q" by (auto simp: norm_point_def)
  then show ?thesis by (auto split: list.split_asm)
qed

lemma norm_point_again: "norm_point pf p = Inr q \<Longrightarrow> norm_point pf q = Inr q"
  using norm_point_shape [of pf p q] by (auto simp: norm_point_def)

lemma norm_area_again: "norm_area pf a = Inr b \<Longrightarrow> norm_area pf b = Inr b"
proof -
  assume "norm_area pf a = Inr b"
  then obtain k ps qs where b: "b = PDict [(''kind'', k), (''polygon'', PList qs)]" and q: "res_map (norm_point pf) ps = Inr qs"
    by (auto simp: norm_area_def)
  from q have "res_map (norm_point pf) qs = Inr qs"
    by (induction ps arbitrary: qs) (auto intro: norm_point_again)
  then show ?thesis by (simp add: b norm_area_def)
qed

lemma normalised_again: "normalised pf as = Inr bs \<Longrightarrow> normalised pf bs = Inr bs"
  unfolding normalised_def by (induction as arbitrary: bs) (auto intro: norm_area_again)

lemma limits_again: "res_map (limit_doc lb) vs = Inr xs \<Longrightarrow> res_map (limit_doc lb) xs = Inr xs"
  by (induction vs arbitrary: xs) (auto intro: limit_doc_again)

text \<open>Reading back the document of a set gives a set with the same document.\<close>

lemma from_to_dict:
  assumes "to_dict lb ws = Inr d"
  shows "\<exists>ws'. from_dict lb (PDict d) = Inr ws' \<and> to_dict lb ws' = Inr d
     \<and> ws_set_id ws' = ws_set_id ws \<and> ws_revision ws' = ws_revision ws \<and> ws_map_origin_id ws' = ws_map_origin_id ws
     \<and> ws_map_revision ws' = ws_map_revision ws \<and> ws_map_content_hash ws' = ws_map_content_hash ws
     \<and> length (ws_waypoints ws') = length (ws_waypoints ws)"
proof -
  from assms obtain wps limits where w: "res_map (waypoint_doc lb) (ws_waypoints ws) = Inr wps"
    and l: "res_map (limit_doc lb) (ws_limits ws) = Inr limits" by (auto simp: to_dict_def)
  have "\<exists>zs. res_map (waypoint_of lb) wps = Inr zs \<and> res_map (waypoint_doc lb) zs = Inr wps"
    by (rule res_map_again [OF w]) (rule waypoint_doc_again)
  then obtain wps' where
    w': "res_map (waypoint_of lb) wps = Inr wps'" "res_map (waypoint_doc lb) wps' = Inr wps" by blast
  have len: "length wps' = length (ws_waypoints ws)" using length_res_map [OF w] length_res_map [OF w'(1)] by simp
  show ?thesis
  proof (cases "ws_areas ws = []")
    case True
    with assms w l w' limits_again [OF l] len show ?thesis
      by (auto simp: to_dict_def from_dict_def map_reference_def)
  next
    case False
    with assms w l obtain areas where n: "normalised (l_float lb) (ws_areas ws) = Inr areas" by (auto simp: to_dict_def)
    with False have "areas \<noteq> []"
      using length_res_map [of "norm_area (l_float lb)" "ws_areas ws" areas] by (auto simp: normalised_def)
    with False assms w l w' n limits_again [OF l] normalised_again [OF n] len show ?thesis
      by (auto simp: to_dict_def from_dict_def map_reference_def)
  qed
qed

section \<open>What a publication changes\<close>

lemma route_publish_ok:
  assumes "route_publish lb rt now sid rv tmp ws mask_files warnings gen fs = Inr ((True, msg, man), fs')"
  obtains d chash fs1 index m where
    "to_dict lb (ws\<lparr>ws_set_id := sid, ws_revision := rv\<rparr>) = Inr d"
    "set_content_hash lb (ws\<lparr>ws_set_id := sid, ws_revision := rv\<rparr>) = Inr chash"
    "man = Some (PDict m)" "map_of m ''content_hash'' = Some (PStr chash)"
    "replace_dir (write_file (write_file fs (tmp @ [''waypoints.yaml'']) (Yaml_text (PDict d)))
        (tmp @ [''manifest.json'']) (Json_text (PDict m))) tmp (rt @ [sid, pad3 rv]) = Inr fs1"
    "fs' = write_file fs1 (rt @ [''index.json'']) (Json_text index)"
proof -
  from assms obtain d where d: "to_dict lb (ws\<lparr>ws_set_id := sid, ws_revision := rv\<rparr>) = Inr d"
    by (auto simp: route_publish_def Let_def)
  note rest = assms [unfolded route_publish_def Let_def d res_bind.simps]
  have none: "List.find (\<lambda>f. missing_or_empty (write_file fs (tmp @ [''waypoints.yaml'']) (Yaml_text (PDict d))) (tmp @ [f]))
      (''waypoints.yaml'' # map snd mask_files) = None"
    using rest by (auto split: option.split_asm)
  note rest = rest [unfolded none option.case]
  from rest show thesis
    by (auto simp: rebuild_index_def Let_def set_manifest_def intro!: that [OF d])
qed

lemma below_tmp:
  assumes "replace_dir fs (rt @ [sid, t]) (rt @ [sid, r]) = Inr fs1" "t \<noteq> r"
  shows "map_of fs1 (rt @ [sid, r, f]) = map_of fs (rt @ [sid, t, f])"
  using map_of_replace_dir [OF assms(1), of "rt @ [sid, r, f]"] assms(2) by (simp add: file_below)

lemma published_files:
  assumes "replace_dir (write_file (write_file fs (tmp @ [a]) ca) (tmp @ [b]) cb) tmp (rt @ [sid, r]) = Inr fs1"
    and "tmp = rt @ [sid, t]" "t \<noteq> r" "a \<noteq> b"
  shows "map_of fs1 (rt @ [sid, r, a]) = Some (File ca)" "map_of fs1 (rt @ [sid, r, b]) = Some (File cb)"
  using below_tmp [OF assms(1) [unfolded assms(2)] assms(3)] assms(4) by (auto simp: assms(2))

lemma published_frame:
  assumes "replace_dir (write_file (write_file fs (tmp @ [a]) ca) (tmp @ [b]) cb) tmp dst = Inr fs1"
    and "\<not> prefix tmp q" "\<not> prefix dst q"
  shows "map_of fs1 q = map_of fs q"
proof -
  from assms(2) have "q \<noteq> tmp @ [a]" "q \<noteq> tmp @ [b]" by auto
  with map_of_replace_dir [OF assms(1), of q] assms(2,3) show ?thesis by simp
qed

text \<open>C6. A saved waypoint set loads as it was saved: when the publication from a temporary directory of the
  set succeeds, the new revision loads, the loaded set has the identifiers of the publication and the
  document that was saved (so that its content hash is the one the manifest carries), and the
  manifest that was returned is the one that is stored.\<close>

theorem published_set_loads:
  assumes "route_publish lb rt now sid rv (rt @ [sid, t]) ws mask_files warnings gen fs = Inr ((True, msg, man), fs')"
    and "t \<noteq> pad3 rv"
  shows "\<exists>ws' chash m. route_load lb rt sid rv fs' = Inr (Some ws') \<and> ws_set_id ws' = sid \<and> ws_revision ws' = rv
     \<and> to_dict lb ws' = to_dict lb (ws\<lparr>ws_set_id := sid, ws_revision := rv\<rparr>)
     \<and> set_content_hash lb ws' = Inr chash
     \<and> man = Some m \<and> route_manifest lb rt sid rv fs' = Inr (Some m) \<and> py_item m ''content_hash'' = Inr (PStr chash)"
proof -
  let ?ws = "ws\<lparr>ws_set_id := sid, ws_revision := rv\<rparr>"
  obtain d chash fs1 index m where
    d: "to_dict lb ?ws = Inr d" and h: "set_content_hash lb ?ws = Inr chash"
    and m: "man = Some (PDict m)" "map_of m ''content_hash'' = Some (PStr chash)"
    and r: "replace_dir (write_file (write_file fs ((rt @ [sid, t]) @ [''waypoints.yaml'']) (Yaml_text (PDict d)))
        ((rt @ [sid, t]) @ [''manifest.json'']) (Json_text (PDict m))) (rt @ [sid, t]) (rt @ [sid, pad3 rv]) = Inr fs1"
    and fs': "fs' = write_file fs1 (rt @ [''index.json'']) (Json_text index)"
    by (rule route_publish_ok [OF assms(1)]) (rule that)
  have files: "map_of fs' (rt @ [sid, pad3 rv, ''waypoints.yaml'']) = Some (File (Yaml_text (PDict d)))"
    "map_of fs' (rt @ [sid, pad3 rv, ''manifest.json'']) = Some (File (Json_text (PDict m)))"
    using published_files [OF r refl assms(2)] by (simp_all add: fs')
  from from_to_dict [OF d] obtain ws' where w: "from_dict lb (PDict d) = Inr ws'" "to_dict lb ws' = Inr d"
    "ws_set_id ws' = sid" "ws_revision ws' = rv" by auto
  with h d have "set_content_hash lb ws' = Inr chash" by (simp add: set_content_hash_def)
  moreover have "route_load lb rt sid rv fs' = Inr (Some ws')"
    by (simp add: route_load_def read_yaml_def files(1) w(1))
  moreover have "route_manifest lb rt sid rv fs' = Inr (Some (PDict m))"
    by (simp add: route_manifest_def set_manifest_path_def json_or_none_def read_json_def files(2))
  ultimately show ?thesis
    by (intro exI [of _ ws'] exI [of _ chash] exI [of _ "PDict m"]) (use w d m in simp)
qed

definition sample_libs :: libs where
  "sample_libs = \<lparr>l_yaml = \<lambda>_. Inl YAMLError, l_json = \<lambda>_. Inl ValueError, l_sha = \<lambda>_. ''0a'', l_dirsha = \<lambda>_. ''0b'', l_filesha = \<lambda>_. ''0c'',
     l_fmt = \<lambda>_. [], l_int = \<lambda>_. None, l_float = \<lambda>_. None\<rparr>"

definition sample_point :: "int \<Rightarrow> waypoint" where
  "sample_point x = \<lparr>wp_x = PInt x, wp_y = PInt 0, wp_yaw = PInt 0, wp_kind = ''pass''\<rparr>"

definition sample_set :: waypoint_set where
  "sample_set = \<lparr>ws_map_origin_id = ''m'', ws_map_revision = 1, ws_map_content_hash = ''h'',
     ws_waypoints = [sample_point 0, sample_point 5], ws_limits = [PInt 1], ws_set_id = [], ws_revision = 0,
     ws_note = [], ws_areas = []\<rparr>"

definition sample_disk :: disk where
  "sample_disk = [([''r''], Dir), ([''r'', ''a''], Dir), ([''r'', ''a'', ''.t''], Dir)]"

lemma sample_published:
  "\<exists>msg man fs'. route_publish sample_libs [''r''] PNone ''a'' 1 [''r'', ''a'', ''.t''] sample_set [] [] PNone sample_disk
     = Inr ((True, msg, man), fs')"
proof -
  have "case route_publish sample_libs [''r''] PNone ''a'' 1 [''r'', ''a'', ''.t''] sample_set [] [] PNone sample_disk of
     Inr ((ok, _), _) \<Rightarrow> ok | _ \<Rightarrow> False"
    by code_simp
  then show ?thesis by (auto split: sum.splits prod.splits)
qed

theorem published_set_loads_witness:
  "\<exists>msg man fs' ws'. route_publish sample_libs [''r''] PNone ''a'' 1 [''r'', ''a'', ''.t''] sample_set [] [] PNone sample_disk
      = Inr ((True, msg, man), fs')
     \<and> route_load sample_libs [''r''] ''a'' 1 fs' = Inr (Some ws') \<and> ws_revision ws' = 1"
proof -
  from sample_published obtain msg man fs' where
    p: "route_publish sample_libs [''r''] PNone ''a'' 1 ([''r''] @ [''a'', ''.t'']) sample_set [] [] PNone sample_disk
      = Inr ((True, msg, man), fs')" by auto
  have "pad3 1 = ''001''" by (simp add: pad3_def nat_str.simps digit_char_def numeral_2_eq_2)
  then have "''.t'' \<noteq> pad3 1" by simp
  from published_set_loads [OF p this] p show ?thesis by auto
qed

section \<open>Saving never touches what is already saved\<close>

text \<open>Every path has its parent directories.\<close>

definition disk_wf :: "disk \<Rightarrow> bool" where
  "disk_wf fs \<longleftrightarrow> (\<forall>p q. map_of fs q \<noteq> None \<and> strict_prefix p q \<and> p \<noteq> [] \<longrightarrow> is_dir fs p)"

lemma int_of_name_nonneg: "0 \<le> int_of_name s"
proof -
  have "0 \<le> v \<Longrightarrow> 0 \<le> foldl (\<lambda>v c. 10 * v + int (the (digit_val c))) v s" for v
    by (induction s arbitrary: v) simp_all
  then show ?thesis by (simp add: int_of_name_def)
qed

lemma sorted_le_last: "sorted xs \<Longrightarrow> x \<in> set xs \<Longrightarrow> x \<le> last xs" for x :: int
proof -
  assume s: "sorted xs" and x: "x \<in> set xs"
  then have "sorted (butlast xs @ [last xs])" by (metis append_butlast_last_id empty_iff list.set(1))
  moreover from x have "x \<in> set (butlast xs @ [last xs])" by (metis append_butlast_last_id empty_iff list.set(1))
  ultimately show ?thesis by (auto simp: sorted_append)
qed

lemma next_revision_new:
  "\<forall>r \<in> set (revisions fs d). r < next_revision fs d" and next_revision_pos: "1 \<le> next_revision fs d"
proof -
  have pos: "0 \<le> r" if "r \<in> set (revisions fs d)" for r
    using that int_of_name_nonneg by (auto simp: revisions_def)
  have "r \<le> last (revisions fs d)" if "r \<in> set (revisions fs d)" for r
    using sorted_le_last [OF _ that] by (simp add: revisions_def)
  then show "\<forall>r \<in> set (revisions fs d). r < next_revision fs d"
    by (auto simp: next_revision_def Let_def)
  show "1 \<le> next_revision fs d"
    using pos [of "last (revisions fs d)"] by (simp add: next_revision_def Let_def)
qed

lemma revision_dir: "0 \<le> r \<Longrightarrow> is_dir fs (d @ [pad3 r]) \<Longrightarrow> r \<in> set (revisions fs d)"
  using pad3_isdigit [of r] pad3_value [of r]
  by (auto simp: revisions_def subdirs_iff intro!: image_eqI [of _ _ "pad3 r"])

lemma no_revision_parent:
  assumes "disk_wf fs" "is_dir fs d \<or> map_of fs d = None" "d \<noteq> []" "\<not> is_dir fs d"
  shows "revisions fs d = []"
proof -
  have "\<not> is_dir fs (d @ [x])" for x
  proof
    assume "is_dir fs (d @ [x])"
    then have "map_of fs (d @ [x]) \<noteq> None" by (simp add: is_dir_def)
    moreover have "strict_prefix d (d @ [x])" by (simp add: strict_prefix_def)
    ultimately have "is_dir fs d" using assms(1,3) unfolding disk_wf_def by blast
    with assms(4) show False by simp
  qed
  then have "subdirs fs d = []" using subdirs_iff [of _ fs d] by (cases "subdirs fs d") auto
  then show ?thesis by (simp add: revisions_def)
qed

lemma route_begin_ok:
  assumes "route_begin rt fresh uuid set_id fs = Inr ((sid, rv, tmp), fs1)" and wf: "disk_wf fs"
  shows "tmp = rt @ [sid, ''.saving_'' @ uuid]" and "1 \<le> rv"
    and "\<forall>r \<in> set (revisions fs (rt @ [sid])). r < rv"
    and "map_of fs tmp = None"
    and "\<And>q. map_of fs q \<noteq> None \<Longrightarrow> map_of fs1 q = map_of fs q"
    and "is_file fs (rt @ [sid]) \<Longrightarrow> False"
proof -
  from assms(1) have t: "tmp = rt @ [sid, ''.saving_'' @ uuid]"
    and rv: "rv = (if is_dir fs (rt @ [sid]) then next_revision fs (rt @ [sid]) else 1)"
    and mk: "mkdir fs tmp = Inr fs1"
    by (auto simp: route_begin_def Let_def)
  show "tmp = rt @ [sid, ''.saving_'' @ uuid]" by (rule t)
  show "1 \<le> rv" using next_revision_pos by (simp add: rv)
  from mk have ok: "map_of fs tmp = None" "\<not> list_ex (is_file fs) (parents tmp)"
    and fs1: "fs1 = make_dirs fs (parents tmp @ [tmp])"
    by (auto simp: mkdir_def split: if_split_asm)
  show "map_of fs tmp = None" by (rule ok)
  show "map_of fs1 q = map_of fs q" if "map_of fs q \<noteq> None" for q
    using that by (auto simp: fs1 map_of_make_dirs)
  have "rt @ [sid] \<in> set (parents tmp)"
    unfolding t parents_def by (auto intro!: image_eqI [of _ _ "Suc (length rt)"])
  with ok(2) have nf: "\<not> is_file fs (rt @ [sid])" by (auto simp: list_ex_iff)
  then show "is_file fs (rt @ [sid]) \<Longrightarrow> False" by simp
  show "\<forall>r \<in> set (revisions fs (rt @ [sid])). r < rv"
  proof (cases "is_dir fs (rt @ [sid])")
    case True
    then show ?thesis using next_revision_new by (simp add: rv)
  next
    case False
    with nf have "map_of fs (rt @ [sid]) = None"
      by (auto simp: is_file_def is_dir_def split: option.splits node.splits)
    with False have "revisions fs (rt @ [sid]) = []" by (intro no_revision_parent [OF wf]) simp_all
    then show ?thesis by simp
  qed
qed

lemma nothing_below_new:
  assumes "disk_wf fs" "map_of fs q \<noteq> None" "prefix p q" "p \<noteq> []"
  shows "is_dir fs p \<or> q = p"
  using assms unfolding disk_wf_def by (metis prefix_order.le_less)

text \<open>Saving a waypoint set never changes what is already saved.  Between the start of a save (which picks
  a revision above every existing one) and the publication only the temporary directory is written;
  then, whether the publication succeeds or is discarded, every file there was before, except the
  index, is there with its content.\<close>

theorem save_keeps_files:
  assumes "disk_wf fs" and "route_begin rt fresh uuid set_id fs = Inr ((sid, rv, tmp), fs1)"
    and "\<forall>q. \<not> prefix tmp q \<longrightarrow> map_of fs2 q = map_of fs1 q"
    and "route_publish lb rt now sid rv tmp ws mask_files warnings gen fs2 = Inr ((ok, msg, man), fs3)"
  shows "(\<forall>r \<in> set (revisions fs (rt @ [sid])). r < rv)
     \<and> (\<forall>q c. map_of fs q = Some (File c) \<and> q \<noteq> rt @ [''index.json''] \<longrightarrow> map_of fs3 q = Some (File c))"
proof (intro conjI allI impI)
  note b = route_begin_ok [OF assms(2,1)]
  show "\<forall>r \<in> set (revisions fs (rt @ [sid])). r < rv" by (rule b)
  fix q c assume q: "map_of fs q = Some (File c) \<and> q \<noteq> rt @ [''index.json'']"
  have tmp_free: "\<not> prefix tmp q"
    using nothing_below_new [OF assms(1), of q tmp] q b(1,4) by (auto simp: is_dir_def)
  then have same2: "map_of fs2 q = Some (File c)" using assms(3) b(5) [of q] q by simp
  show "map_of fs3 q = Some (File c)"
  proof (cases ok)
    case False
    from assms(4) False obtain d where "fs3 = rmtree (write_file fs2 (tmp @ [''waypoints.yaml'']) (Yaml_text d)) tmp"
      by (auto simp: route_publish_def Let_def split: option.split_asm)
    then show ?thesis using tmp_free same2 by (auto simp: map_of_rmtree)
  next
    case True
    with assms(4) have "route_publish lb rt now sid rv tmp ws mask_files warnings gen fs2 = Inr ((True, msg, man), fs3)" by simp
    then obtain d m fs4 index where
      r: "replace_dir (write_file (write_file fs2 (tmp @ [''waypoints.yaml'']) (Yaml_text (PDict d)))
        (tmp @ [''manifest.json'']) (Json_text (PDict m))) tmp (rt @ [sid, pad3 rv]) = Inr fs4"
      and fs3: "fs3 = write_file fs4 (rt @ [''index.json'']) (Json_text index)"
      by (rule route_publish_ok)
    have "\<not> prefix (rt @ [sid, pad3 rv]) q"
    proof
      assume "prefix (rt @ [sid, pad3 rv]) q"
      with nothing_below_new [OF assms(1), of q] q
      have "is_dir fs ((rt @ [sid]) @ [pad3 rv]) \<or> q = rt @ [sid, pad3 rv]" by auto
      then show False
      proof
        assume "is_dir fs ((rt @ [sid]) @ [pad3 rv])"
        with revision_dir [of rv fs] b(2,3) show False by fastforce
      next
        assume e: "q = rt @ [sid, pad3 rv]"
        have "tmp \<noteq> q" "tmp @ [''waypoints.yaml''] \<noteq> q" "tmp @ [''manifest.json''] \<noteq> q"
          using tmp_free by auto
        with same2 e r show False by (auto simp: replace_dir_def is_file_def split: if_split_asm)
      qed
    qed
    from published_frame [OF r tmp_free this] same2 q show ?thesis by (simp add: fs3)
  qed
qed

theorem save_keeps_files_witness:
  "\<exists>tmp fs1. route_begin [''r''] ''n'' ''u'' None [([''r''], Dir), ([''r'', ''x''], File (Data [7]))] = Inr ((''n'', 1, tmp), fs1)
     \<and> (\<forall>msg man fs3. route_publish sample_libs [''r''] PNone ''n'' 1 tmp sample_set [] [] PNone fs1 = Inr ((True, msg, man), fs3)
          \<longrightarrow> map_of fs3 [''r'', ''x''] = Some (File (Data [7])))"
proof -
  let ?fs = "[([''r''], Dir), ([''r'', ''x''], File (Data [7]))]"
  have wf: "disk_wf ?fs"
    by (auto simp: disk_wf_def is_dir_def strict_prefix_def prefix_Cons)
  obtain tmp fs1 where b: "route_begin [''r''] ''n'' ''u'' None ?fs = Inr ((''n'', 1, tmp), fs1)"
    by (auto simp: route_begin_def Let_def is_dir_def mkdir_def parents_def is_file_def upt_rec)
  from save_keeps_files [OF wf b, of fs1 sample_libs PNone sample_set "[]" "[]" PNone True] b show ?thesis
    by (auto intro!: exI [of _ tmp] exI [of _ fs1])
qed

text \<open>An empty waypoints.yaml (a file that was created and never written) is not taken as an absent set:
  reading it raises AttributeError out of the database, which only answers "no such set" for
  four other exceptions.\<close>

theorem empty_set_file_raises:
  assumes "map_of fs (rt @ [sid, pad3 rv, ''waypoints.yaml'']) = Some (File (Data []))"
  shows "route_load lb rt sid rv fs = Inl AttributeError"
  using assms by (simp add: route_load_def read_yaml_def from_dict_def)

theorem empty_set_file_raises_witness:
  "route_load sample_libs [''r''] ''a'' 1 [([''r'', ''a'', ''001'', ''waypoints.yaml''], File (Data []))] = Inl AttributeError"
proof -
  have "pad3 1 = ''001''" by (simp add: pad3_def nat_str.simps digit_char_def numeral_2_eq_2)
  then show ?thesis by (intro empty_set_file_raises) simp
qed

end
