(* ===== verification/Map_Database.thy ===== *)
theory Map_Database
  imports Disk
begin

text \<open>
  \<^verbatim>\<open>gouda_core/map_database.py\<close> (IFD-29): source maps and their converted revisions on the file
  system of \<open>Disk\<close>.  Every artefact is written into a temporary directory and renamed into place.
\<close>

section \<open>Source maps\<close>

definition MANIFEST_SCHEMA :: int where "MANIFEST_SCHEMA = 1"

datatype map_message =
    Dump_incomplete path
  | Origin_exists string
  | Registered string string nat
  | Conversion_discarded string
  | Conversion_published string int string

definition source_manifest :: "libs \<Rightarrow> path \<Rightarrow> string \<Rightarrow> disk \<Rightarrow> pyval option result" where
  "source_manifest lb rt origin fs = json_or_none lb fs (rt @ [origin, ''source_manifest.json''])"

definition converted_manifest :: "libs \<Rightarrow> path \<Rightarrow> string \<Rightarrow> int \<Rightarrow> disk \<Rightarrow> pyval option result" where
  "converted_manifest lb rt origin revision fs =
     json_or_none lb fs (rt @ [origin, ''converted'', pad3 revision, ''manifest.json''])"

definition source_dir :: "path \<Rightarrow> string \<Rightarrow> path" where
  "source_dir rt origin = rt @ [origin, ''source'']"

text \<open>The index: the origins with a source manifest, and their converted revisions.\<close>

definition conversion_entry :: "libs \<Rightarrow> path \<Rightarrow> string \<Rightarrow> disk \<Rightarrow> string \<Rightarrow> pyval list result" where
  "conversion_entry lb rt origin fs c = res_bind (converted_manifest lb rt origin (int_of_name c) fs) (\<lambda>m. case m of
     None \<Rightarrow> Inr []
   | Some m \<Rightarrow> if \<not> truthy m then Inr [] else
       res_bind (py_item m ''revision'') (\<lambda>a. res_bind (py_item m ''content_hash'') (\<lambda>b. res_bind (py_item m ''created_at'') (\<lambda>t.
         Inr [PDict [(''revision'', a), (''content_hash'', b), (''created_at'', t)]]))))"

definition origin_entry :: "libs \<Rightarrow> path \<Rightarrow> disk \<Rightarrow> string \<Rightarrow> pyval list result" where
  "origin_entry lb rt fs origin = res_bind (source_manifest lb rt origin fs) (\<lambda>src. case src of
     None \<Rightarrow> Inr []
   | Some src \<Rightarrow>
       res_bind (if is_dir fs (rt @ [origin, ''converted''])
          then res_map (conversion_entry lb rt origin fs) (filter isdigit (sort (subdirs fs (rt @ [origin, ''converted'']))))
          else Inr []) (\<lambda>convs.
       res_bind (py_item src ''content_hash'') (\<lambda>h. res_bind (py_get src ''submaps'' (PInt 0)) (\<lambda>n.
       res_bind (py_item src ''created_at'') (\<lambda>t.
         Inr [PDict [(''origin_id'', PStr origin), (''source_hash'', h), (''submaps'', n), (''created_at'', t),
                     (''converted'', PList (concat convs))]])))))"

definition rebuild_map_index :: "libs \<Rightarrow> path \<Rightarrow> pyval \<Rightarrow> disk \<Rightarrow> (pyval \<times> disk) result" where
  "rebuild_map_index lb rt now fs = res_bind
     (res_map (origin_entry lb rt fs) (filter (\<lambda>n. take 1 n \<noteq> ''.'') (sort (subdirs fs rt)))) (\<lambda>origins.
     let index = PDict [(''schema'', PInt MANIFEST_SCHEMA), (''origins'', PList (concat origins)), (''updated_at'', now)]
     in Inr (index, write_file fs (rt @ [''index.json'']) (Json_text index)))"

definition map_index :: "libs \<Rightarrow> path \<Rightarrow> pyval \<Rightarrow> disk \<Rightarrow> (pyval \<times> disk) result" where
  "map_index lb rt now fs = (case read_json lb fs (rt @ [''index.json'']) of
     Inr v \<Rightarrow> Inr (v, fs)
   | Inl e \<Rightarrow> if e = OSError \<or> e = ValueError then rebuild_map_index lb rt now fs else Inl e)"

definition submap_count :: "disk \<Rightarrow> path \<Rightarrow> nat" where
  "submap_count fs src = length (filter (\<lambda>n. isdigit n \<and> length n = 6) (subdirs fs src))"

text \<open>\<^verbatim>\<open>shutil.copy2\<close> of a file that is there.\<close>

definition copy_file :: "disk \<Rightarrow> path \<Rightarrow> path \<Rightarrow> disk" where
  "copy_file fs src dst = (case file_at fs src of None \<Rightarrow> fs | Some c \<Rightarrow> write_file fs dst c)"

definition copy_config :: "libs \<Rightarrow> path option \<Rightarrow> path \<Rightarrow> disk \<Rightarrow> (string \<times> pyval) list \<times> disk" where
  "copy_config lb snapshot tmp fs = (case snapshot of
     None \<Rightarrow> ([], fs)
   | Some p \<Rightarrow> (case file_at fs p of
        None \<Rightarrow> ([], fs)
      | Some c \<Rightarrow> ([(''sensor_config'', PDict [(''file'', PStr ''sensor_config.json''), (''sha256'', PStr (l_filesha lb c))])],
                   copy_file fs p (tmp @ [''sensor_config.json'']))))"

definition copy_gnss :: "(path \<times> (string \<times> pyval) list) option \<Rightarrow> path \<Rightarrow> disk \<Rightarrow> ((string \<times> pyval) list \<times> disk) result" where
  "copy_gnss gnss tmp fs = (case gnss of
     None \<Rightarrow> Inr ([], fs)
   | Some (p, summary) \<Rightarrow>
       if \<not> is_file fs p then Inr ([], fs)
       else (case map_of summary ''file'' of
          None \<Rightarrow> Inl KeyError
        | Some (PStr f) \<Rightarrow> Inr ([(''gnss'', PDict summary)], copy_file fs p (tmp @ [f]))
        | Some _ \<Rightarrow> Inl TypeError))"

definition register_source :: "libs \<Rightarrow> path \<Rightarrow> pyval \<Rightarrow> string \<Rightarrow> path \<Rightarrow> string option \<Rightarrow> pyval \<Rightarrow> pyval
    \<Rightarrow> (path \<times> (string \<times> pyval) list) option \<Rightarrow> path option \<Rightarrow> disk \<Rightarrow> ((bool \<times> map_message \<times> pyval option) \<times> disk) result" where
  "register_source lb rt now fresh dump origin_id producer session gnss snapshot fs =
     (if \<not> is_file fs (dump @ [''graph.txt'']) \<or> \<not> is_file fs (dump @ [''values.bin''])
      then Inr ((False, Dump_incomplete dump, None), fs)
      else
      let origin = (case origin_id of None \<Rightarrow> fresh | Some i \<Rightarrow> if i = [] then fresh else i);
          final = rt @ [origin]; tmp = rt @ [''.tmp_'' @ origin] in
      if map_of fs final \<noteq> None then Inr ((False, Origin_exists origin, None), fs)
      else
      res_bind (mkdir (rmtree fs tmp) tmp) (\<lambda>fs.
      res_bind (replace_dir fs dump (tmp @ [''source''])) (\<lambda>fs.
      let src_hash = dir_hash lb fs (tmp @ [''source'']) []; submaps = submap_count fs (tmp @ [''source'']);
          (cfg_entry, fs) = copy_config lb snapshot tmp fs in
      res_bind (copy_gnss gnss tmp fs) (\<lambda>(gnss_entry, fs).
      let manifest = PDict ([(''schema'', PInt MANIFEST_SCHEMA), (''kind'', PStr ''source''), (''origin_id'', PStr origin),
            (''content_hash'', PStr src_hash), (''producer'', producer), (''session'', session),
            (''submaps'', PInt (int submaps)), (''created_at'', now),
            (''frame'', PStr ''glim map frame (map_frame_id of the run)'')] @ gnss_entry @ cfg_entry);
          fs = write_file fs (tmp @ [''source_manifest.json'']) (Json_text manifest) in
      res_bind (replace_dir fs tmp final) (\<lambda>fs.
      res_bind (rebuild_map_index lb rt now fs) (\<lambda>(index, fs).
        Inr ((True, Registered origin src_hash submaps, Some manifest), fs)))))))"

section \<open>Converted maps\<close>

definition begin_conversion :: "libs \<Rightarrow> path \<Rightarrow> string \<Rightarrow> string \<Rightarrow> disk \<Rightarrow> (path \<times> disk) result" where
  "begin_conversion lb rt uuid origin fs = res_bind (source_manifest lb rt origin fs) (\<lambda>m.
     if m = None then Inl OSError
     else let tmp = rt @ [origin, ''.converting_'' @ uuid] in res_bind (mkdir fs tmp) (\<lambda>fs. Inr (tmp, fs)))"

text \<open>\<^verbatim>\<open>list(dict.fromkeys(['map.yaml', 'map.pgm'] + files))\<close>: without repetitions, first ones kept.\<close>

definition conversion_files :: "string list \<Rightarrow> string list" where
  "conversion_files files = rev (remdups (rev (''map.yaml'' # ''map.pgm'' # files)))"

definition converted_revision :: "disk \<Rightarrow> path \<Rightarrow> int" where
  "converted_revision fs d = (let existing = sort (map int_of_name (filter isdigit (subdirs fs d)))
     in if existing \<noteq> [] then last existing + 1 else 1)"

definition conversion_manifest :: "string \<Rightarrow> int \<Rightarrow> string \<Rightarrow> pyval \<Rightarrow> pyval \<Rightarrow> pyval \<Rightarrow> pyval \<Rightarrow> pyval \<Rightarrow> string list \<Rightarrow> pyval" where
  "conversion_manifest origin revision h src_hash converter settings stats now files = PDict
     [(''schema'', PInt MANIFEST_SCHEMA), (''kind'', PStr ''converted''), (''origin_id'', PStr origin),
      (''revision'', PInt revision), (''content_hash'', PStr h), (''source_content_hash'', src_hash),
      (''converter'', converter), (''settings'', settings), (''stats'', stats), (''created_at'', now),
      (''files'', PList (map PStr files)), (''frame'', PStr ''map'')]"

text \<open>\<open>files\<close> are the file names of \<^verbatim>\<open>stats['files']\<close>, the empty list where there are none.\<close>

definition finish_conversion :: "libs \<Rightarrow> path \<Rightarrow> pyval \<Rightarrow> string \<Rightarrow> path \<Rightarrow> pyval \<Rightarrow> pyval \<Rightarrow> pyval \<Rightarrow> string list \<Rightarrow> disk
    \<Rightarrow> ((bool \<times> map_message \<times> pyval option) \<times> disk) result" where
  "finish_conversion lb rt now origin tmp converter settings stats files fs =
     (let files = conversion_files files in
      case List.find (\<lambda>f. missing_or_empty fs (tmp @ [f])) files of
        Some f \<Rightarrow> Inr ((False, Conversion_discarded f, None), rmtree fs tmp)
      | None \<Rightarrow>
          res_bind (source_manifest lb rt origin fs) (\<lambda>src.
          let conv = rt @ [origin, ''converted''] in
          if is_file fs conv \<or> \<not> is_dir fs (rt @ [origin]) then Inl OSError
          else
          let fs = make_dirs fs [conv]; revision = converted_revision fs conv;
              h = dir_hash lb fs tmp [''manifest.json''] in
          res_bind (case src of None \<Rightarrow> Inr PNone | Some s \<Rightarrow> if truthy s then py_item s ''content_hash'' else Inr PNone) (\<lambda>sh.
          let manifest = conversion_manifest origin revision h sh converter settings stats now files;
              fs = write_file fs (tmp @ [''manifest.json'']) (Json_text manifest) in
          res_bind (replace_dir fs tmp (conv @ [pad3 revision])) (\<lambda>fs.
          res_bind (rebuild_map_index lb rt now fs) (\<lambda>(index, fs).
            Inr ((True, Conversion_published origin revision h, Some manifest), fs))))))"

definition abort_conversion :: "path \<Rightarrow> disk \<Rightarrow> disk" where
  "abort_conversion tmp fs = rmtree fs tmp"

section \<open>A published map verifies\<close>

lemma finish_conversion_ok:
  assumes "finish_conversion lb rt now origin tmp converter settings stats files fs = Inr ((True, msg, man), fs')"
  obtains revision sh fs1 index where
    "man = Some (conversion_manifest origin revision (dir_hash lb (make_dirs fs [rt @ [origin, ''converted'']]) tmp [''manifest.json'']) sh
       converter settings stats now (conversion_files files))"
    "msg = Conversion_published origin revision (dir_hash lb (make_dirs fs [rt @ [origin, ''converted'']]) tmp [''manifest.json''])"
    "replace_dir (write_file (make_dirs fs [rt @ [origin, ''converted'']]) (tmp @ [''manifest.json'']) (Json_text (the man))) tmp
       (rt @ [origin, ''converted'', pad3 revision]) = Inr fs1"
    "fs' = write_file fs1 (rt @ [''index.json'']) (Json_text index)"
    "\<And>f. f \<in> set (conversion_files files) \<Longrightarrow> \<not> missing_or_empty fs (tmp @ [f])"
proof -
  have none: "List.find (\<lambda>f. missing_or_empty fs (tmp @ [f])) (conversion_files files) = None"
    using assms by (auto simp: finish_conversion_def Let_def split: option.split_asm)
  then have all: "\<not> missing_or_empty fs (tmp @ [f])" if "f \<in> set (conversion_files files)" for f
    using that by (simp add: find_None_iff)
  note rest = assms [unfolded finish_conversion_def Let_def none option.case]
  from rest show thesis
    by (auto simp: rebuild_map_index_def Let_def intro!: that [OF _ _ _ _ all] split: if_split_asm)
qed

text \<open>A converted map that is published verifies and loads: after a successful conversion the manifest on
  disk is the one returned, it names the revision and the directory hash, the hash computed over the
  published directory is that hash, and every required file is there and not empty.\<close>

theorem published_map_verifies:
  assumes "finish_conversion lb rt now origin (rt @ [origin, t]) converter settings stats files fs = Inr ((True, msg, man), fs')"
    and "t \<noteq> ''converted''" and "''manifest.json'' \<notin> set files"
  shows "\<exists>revision h m. msg = Conversion_published origin revision h \<and> man = Some m
     \<and> converted_manifest lb rt origin revision fs' = Inr (Some m) \<and> py_item m ''content_hash'' = Inr (PStr h)
     \<and> dir_hash lb fs' (rt @ [origin, ''converted'', pad3 revision]) [''manifest.json''] = h
     \<and> (\<forall>f \<in> set (''map.yaml'' # ''map.pgm'' # files). \<not> missing_or_empty fs' (rt @ [origin, ''converted'', pad3 revision, f]))"
proof -
  let ?tmp = "rt @ [origin, t]" and ?fs0 = "make_dirs fs [rt @ [origin, ''converted'']]"
  obtain revision sh fs1 index where
    m: "man = Some (conversion_manifest origin revision (dir_hash lb ?fs0 ?tmp [''manifest.json'']) sh
       converter settings stats now (conversion_files files))"
    and msg: "msg = Conversion_published origin revision (dir_hash lb ?fs0 ?tmp [''manifest.json''])"
    and r: "replace_dir (write_file ?fs0 (?tmp @ [''manifest.json'']) (Json_text (the man))) ?tmp
       (rt @ [origin, ''converted'', pad3 revision]) = Inr fs1"
    and fs': "fs' = write_file fs1 (rt @ [''index.json'']) (Json_text index)"
    and files: "\<And>f. f \<in> set (conversion_files files) \<Longrightarrow> \<not> missing_or_empty fs (?tmp @ [f])"
    by (rule finish_conversion_ok [OF assms(1)]) (rule that)
  let ?d = "rt @ [origin, ''converted'', pad3 revision]"
  have moved: "map_of fs' (?d @ q) = (map_of ?fs0) (?tmp @ q)" if "q \<noteq> [''manifest.json'']" "q \<noteq> []" for q
  proof -
    have "?tmp @ q \<noteq> ?d" using assms(2) by simp
    then show ?thesis
      using map_of_replace_dir [OF r, of "?d @ q"] that by (simp add: fs' file_below)
  qed
  have same: "map_of ?fs0 (?tmp @ q) = map_of fs (?tmp @ q)" for q
    using assms(2) by (simp add: map_of_make_dirs split: option.split)
  have man: "map_of fs' (?d @ [''manifest.json'']) = Some (File (Json_text (the man)))"
    using map_of_replace_dir [OF r, of "?d @ [''manifest.json'']"] assms(2) by (simp add: fs' file_below)
  have "dir_hash lb fs' ?d [''manifest.json''] = dir_hash lb ?fs0 ?tmp [''manifest.json'']"
  proof (rule dir_hash_cong)
    fix q :: path assume "q \<noteq> []" "last q \<notin> set [''manifest.json'']"
    then have "q \<noteq> [''manifest.json'']" "q \<noteq> []" by auto
    then show "file_at fs' (?d @ q) = file_at ?fs0 (?tmp @ q)" using moved [of q] by simp
  qed
  moreover have "\<not> missing_or_empty fs' (?d @ [f])" if "f \<in> set (''map.yaml'' # ''map.pgm'' # files)" for f
  proof -
    from that assms(3) have "f \<noteq> ''manifest.json''" "f \<in> set (conversion_files files)" by (auto simp: conversion_files_def)
    with files [of f] moved [of "[f]"] same [of "[f]"] show ?thesis by (simp add: missing_or_empty_def)
  qed
  moreover have "converted_manifest lb rt origin revision fs' = Inr (Some (the man))"
    using man by (simp add: converted_manifest_def json_or_none_def read_json_def)
  moreover have "py_item (the man) ''content_hash'' = Inr (PStr (dir_hash lb ?fs0 ?tmp [''manifest.json'']))"
    by (simp add: m conversion_manifest_def)
  ultimately show ?thesis unfolding msg by (intro exI conjI) (use m in auto)
qed

definition sample_map_libs :: libs where
  "sample_map_libs = \<lparr>l_yaml = \<lambda>_. Inl YAMLError, l_json = \<lambda>_. Inl ValueError, l_sha = \<lambda>_. ''0a'', l_dirsha = \<lambda>_. ''0b'',
     l_filesha = \<lambda>_. ''0c'', l_fmt = \<lambda>_. [], l_int = \<lambda>_. None, l_float = \<lambda>_. None\<rparr>"

definition sample_map_disk :: disk where
  "sample_map_disk = [([''m''], Dir), ([''m'', ''o''], Dir), ([''m'', ''o'', ''.c''], Dir),
     ([''m'', ''o'', ''.c'', ''map.yaml''], File (Data [1])), ([''m'', ''o'', ''.c'', ''map.pgm''], File (Data [2]))]"

theorem published_map_verifies_witness:
  "\<exists>msg man fs' revision m. finish_conversion sample_map_libs [''m''] PNone ''o'' [''m'', ''o'', ''.c''] PNone PNone PNone [] sample_map_disk
      = Inr ((True, msg, man), fs') \<and> converted_manifest sample_map_libs [''m''] ''o'' revision fs' = Inr (Some m)"
proof -
  have "case finish_conversion sample_map_libs [''m''] PNone ''o'' [''m'', ''o'', ''.c''] PNone PNone PNone [] sample_map_disk of
     Inr ((ok, _), _) \<Rightarrow> ok | _ \<Rightarrow> False"
    by code_simp
  then obtain msg man fs' where
    p: "finish_conversion sample_map_libs [''m''] PNone ''o'' ([''m''] @ [''o'', ''.c'']) PNone PNone PNone [] sample_map_disk
      = Inr ((True, msg, man), fs')" by (auto split: sum.splits prod.splits)
  from published_map_verifies [OF p] p show ?thesis by auto
qed

end
