(* ===== verification/Autonomy_Core.thy ===== *)
theory Autonomy_Core
  imports Routes Map_Database
begin

text \<open>
  \<^verbatim>\<open>gouda_core/autonomy_core.py\<close>: the decisions of the mode manager about autonomy -- which mission a
  start request names (with every hash compared), the initial pose, the poses of a goal, the section
  and the next waypoint from the feedback, the speed limit state, and the stop reason of a failed
  goal.
\<close>

section \<open>Stop reasons\<close>

definition STOP_NODE_FAILURE :: string where "STOP_NODE_FAILURE = ''node_failure''"
definition STOP_ESTIMATOR :: string where "STOP_ESTIMATOR = ''estimator_unavailable''"
definition STOP_GOAL_REACHED :: string where "STOP_GOAL_REACHED = ''goal_reached''"
definition STOP_BLOCKED :: string where "STOP_BLOCKED = ''blocked''"
definition STOP_CONTROLLER :: string where "STOP_CONTROLLER = ''controller_failure''"
definition STOP_PLAN_FAILURE :: string where "STOP_PLAN_FAILURE = ''plan_failure''"
definition STOP_NAV2_TF :: string where "STOP_NAV2_TF = ''nav2_tf_error''"
definition STOP_NAV2_NO_CODE :: string where "STOP_NAV2_NO_CODE = ''nav2_no_error_code''"
definition STOP_NAV2_OTHER :: string where "STOP_NAV2_OTHER = ''nav2_unclassified''"

definition FOLLOW_PATH_BLOCKED :: "string list" where
  "FOLLOW_PATH_BLOCKED = [''PATIENCE_EXCEEDED'', ''FAILED_TO_MAKE_PROGRESS'', ''NO_VALID_CONTROL'']"

definition stop_reason_for :: "string \<Rightarrow> string \<Rightarrow> string option" where
  "stop_reason_for action name =
     (if name = ''NONE'' then None
      else if name = ''TF_ERROR'' then Some STOP_NAV2_TF
      else if action = ''FollowPath''
      then Some (if name \<in> set FOLLOW_PATH_BLOCKED then STOP_BLOCKED else STOP_CONTROLLER)
      else Some STOP_PLAN_FAILURE)"

datatype code_name = No_error_code | Named string string | Unknown_code int

text \<open>
  \<^verbatim>\<open>error_code_table()\<close>: from the constants of the three actions, in order; a later constant with the
  same code replaces an earlier one.
\<close>

type_synonym code_table = "(int \<times> string \<times> string \<times> string) list" \<comment> \<open>code, reason, action, name\<close>

definition error_code_table :: "(string \<times> (string \<times> int) list) list \<Rightarrow> code_table" where
  "error_code_table actions = foldl (\<lambda>table (action, consts).
     foldl (\<lambda>table (name, value). case stop_reason_for action name of
         None \<Rightarrow> table
       | Some reason \<Rightarrow> AList.update value (reason, action, name) table) table consts) [] actions"

definition nav2_failure_reason :: "int \<Rightarrow> code_table \<Rightarrow> string \<times> code_name" where
  "nav2_failure_reason error_code table =
     (if error_code = 0 then (STOP_NAV2_NO_CODE, No_error_code)
      else case map_of table error_code of
        Some (reason, action, name) \<Rightarrow> (reason, Named action name)
      | None \<Rightarrow> (STOP_NAV2_OTHER, Unknown_code error_code))"

section \<open>The mission of a start request\<close>

record mission_request =
  rq_set_id :: string
  rq_set_revision :: string
  rq_set_hash :: string
  rq_map_id :: string
  rq_map_revision :: string
  rq_map_hash :: string

record mission =
  mi_set_id :: string
  mi_set_revision :: int
  mi_set_hash :: pyval
  mi_map_id :: string
  mi_map_revision :: int
  mi_map_hash :: string
  mi_map_yaml :: path
  mi_mask_yaml :: path
  mi_filter_base :: xfloat
  mi_filter_multiplier :: xfloat
  mi_waypoints :: "(pyval \<times> pyval \<times> pyval) list"
  mi_limits :: "pyval list"
  mi_map_directory :: path
  mi_keepout_yaml :: path
  mi_keepout_sha :: string
  mi_keepout_size :: "int \<times> int"

datatype no_mission =
    No_set_selected
  | Set_not_found
  | Set_hash_differs
  | Map_differs
  | Map_not_found
  | File_missing path
  | Filter_info_unreadable pyexc
  | Filter_info_type int
  | No_keepout_mask

text \<open>The speed filter's parameters: base, multiplier and type.\<close>

definition filter_params :: "libs \<Rightarrow> disk \<Rightarrow> path \<Rightarrow> (xfloat \<times> xfloat \<times> int) result" where
  "filter_params lb fs info =
     res_bind (read_yaml lb fs info) (\<lambda>v. let fi = (if truthy v then v else PDict []) in
     res_bind (py_get fi ''costmap_filter_info_server'' (PDict [])) (\<lambda>server.
     res_bind (py_get server ''ros__parameters'' fi) (\<lambda>params.
     res_bind (py_item params ''base'') (\<lambda>b. res_bind (py_float (l_float lb) b) (\<lambda>base.
     res_bind (py_item params ''multiplier'') (\<lambda>m. res_bind (py_float (l_float lb) m) (\<lambda>mult.
     res_bind (py_item params ''type'') (\<lambda>k. res_bind (py_int (l_int lb) k) (\<lambda>kind.
       Inr (base, mult, kind))))))))))"

text \<open>\<^verbatim>\<open>(man.get('generator') or {}).get('keepout') or {}\<close>.\<close>

definition keepout_entry :: "pyval \<Rightarrow> pyval result" where
  "keepout_entry man =
     res_bind (py_get man ''generator'' PNone) (\<lambda>g. let g = (if truthy g then g else PDict []) in
     res_bind (py_get g ''keepout'' PNone) (\<lambda>k. Inr (if truthy k then k else PDict [])))"

definition set_dir :: "path \<Rightarrow> string \<Rightarrow> int \<Rightarrow> path" where
  "set_dir data_rt sid srev = data_rt @ [''routes'', sid, pad3 srev]"

definition map_dir :: "path \<Rightarrow> string \<Rightarrow> int \<Rightarrow> path" where
  "map_dir data_rt mid mrev = data_rt @ [''maps'', mid, ''converted'', pad3 mrev]"

definition mission_of :: "libs \<Rightarrow> path \<Rightarrow> string \<Rightarrow> int \<Rightarrow> waypoint_set \<Rightarrow> pyval \<Rightarrow> pyval \<Rightarrow> xfloat \<times> xfloat \<Rightarrow> mission result" where
  "mission_of lb data_rt sid srev ws man keep filt =
     (let sdir = set_dir data_rt sid srev; mdir = map_dir data_rt (ws_map_origin_id ws) (ws_map_revision ws) in
      res_bind (py_item man ''content_hash'') (\<lambda>chash.
      res_bind (py_item keep ''data_sha256'') (\<lambda>sha.
      res_bind (py_get keep ''width'' (PInt 0)) (\<lambda>vw. res_bind (py_int (l_int lb) vw) (\<lambda>w.
      res_bind (py_get keep ''height'' (PInt 0)) (\<lambda>vh. res_bind (py_int (l_int lb) vh) (\<lambda>h.
        Inr \<lparr>mi_set_id = sid, mi_set_revision = srev, mi_set_hash = chash, mi_map_id = ws_map_origin_id ws,
             mi_map_revision = ws_map_revision ws, mi_map_hash = ws_map_content_hash ws,
             mi_map_yaml = mdir @ [''map.yaml''], mi_mask_yaml = sdir @ [''speed_mask.yaml''],
             mi_filter_base = fst filt, mi_filter_multiplier = snd filt,
             mi_waypoints = map (\<lambda>w. (wp_x w, wp_y w, wp_yaw w)) (ws_waypoints ws), mi_limits = ws_limits ws,
             mi_map_directory = mdir, mi_keepout_yaml = sdir @ [''keepout_mask.yaml''],
             mi_keepout_sha = py_str (l_fmt lb) sha, mi_keepout_size = (w, h)\<rparr>)))))))"

text \<open>The checks from the files of the map on, for a set and a map that were found.\<close>

definition resolve_files :: "libs \<Rightarrow> path \<Rightarrow> string \<Rightarrow> int \<Rightarrow> waypoint_set \<Rightarrow> pyval \<Rightarrow> disk \<Rightarrow> (no_mission + mission) result" where
  "resolve_files lb data_rt sid srev ws man fs =
     (let sdir = set_dir data_rt sid srev; mdir = map_dir data_rt (ws_map_origin_id ws) (ws_map_revision ws) in
      case List.find (\<lambda>p. \<not> is_file fs p) [mdir @ [''map.yaml''], sdir @ [''speed_mask.yaml''], sdir @ [''filter_info.yaml'']] of
        Some p \<Rightarrow> Inr (Inl (File_missing p))
      | None \<Rightarrow>
        (case filter_params lb fs (sdir @ [''filter_info.yaml'']) of
           Inl e \<Rightarrow> if e \<in> {OSError, ValueError, KeyError, TypeError, AttributeError}
                    then Inr (Inl (Filter_info_unreadable e)) else Inl e
         | Inr (base, mult, kind) \<Rightarrow>
             if kind \<noteq> 2 then Inr (Inl (Filter_info_type kind))
             else res_bind (keepout_entry man) (\<lambda>keep. res_bind (py_get keep ''data_sha256'' PNone) (\<lambda>sha.
               if \<not> truthy sha \<or> \<not> is_file fs (sdir @ [''keepout_mask.yaml'']) then Inr (Inl No_keepout_mask)
               else res_bind (mission_of lb data_rt sid srev ws man keep (base, mult)) (\<lambda>m. Inr (Inr m))))))"

definition resolve_mission :: "libs \<Rightarrow> path \<Rightarrow> mission_request \<Rightarrow> disk \<Rightarrow> (no_mission + mission) result" where
  "resolve_mission lb data_rt rq fs =
     (case (rq_set_id rq, l_int lb (rq_set_revision rq)) of
        ([], _) \<Rightarrow> Inr (Inl No_set_selected)
      | (_, None) \<Rightarrow> Inr (Inl No_set_selected)
      | (sid, Some srev) \<Rightarrow>
          res_bind (route_load lb (data_rt @ [''routes'']) sid srev fs) (\<lambda>ws.
          res_bind (route_manifest lb (data_rt @ [''routes'']) sid srev fs) (\<lambda>man.
          case (ws, man) of
            (Some ws, Some man) \<Rightarrow>
              res_bind (py_get man ''content_hash'' PNone) (\<lambda>chash.
              if PStr (rq_set_hash rq) \<noteq> chash then Inr (Inl Set_hash_differs)
              else res_bind (set_content_hash lb ws) (\<lambda>h.
              if PStr h \<noteq> chash then Inr (Inl Set_hash_differs)
              else if (rq_map_id rq, l_int lb (rq_map_revision rq), rq_map_hash rq)
                  \<noteq> (ws_map_origin_id ws, Some (ws_map_revision ws), ws_map_content_hash ws)
              then Inr (Inl Map_differs)
              else res_bind (converted_manifest lb (data_rt @ [''maps'']) (ws_map_origin_id ws) (ws_map_revision ws) fs) (\<lambda>cm.
              case cm of
                None \<Rightarrow> Inr (Inl Map_not_found)
              | Some cm \<Rightarrow> res_bind (py_get cm ''content_hash'' PNone) (\<lambda>mh.
                  if mh \<noteq> PStr (ws_map_content_hash ws) then Inr (Inl Map_not_found)
                  else resolve_files lb data_rt sid srev ws man fs))))
          | _ \<Rightarrow> Inr (Inl Set_not_found))))"

section \<open>Pose, goals and feedback\<close>

datatype bad_pose = Wrong_frame string | Pose_not_finite | Not_unit_quaternion

definition check_initial_pose :: "string \<Rightarrow> xfloat \<Rightarrow> xfloat \<Rightarrow> xfloat \<Rightarrow> xfloat \<Rightarrow> bad_pose option" where
  "check_initial_pose frame x y qz qw =
     (if frame \<noteq> ''map'' then Some (Wrong_frame frame)
      else if \<not> list_all isfinite [x, y, qz, qw] then Some Pose_not_finite
      else if \<bar>sqrt ((fin_val qz)\<^sup>2 + (fin_val qw)\<^sup>2) - 1\<bar> > 1/1000 then Some Not_unit_quaternion
      else None)"

definition POINTCLOUD_MAP_METADATA :: path where "POINTCLOUD_MAP_METADATA = [''pointcloud_map'', ''metadata.yaml'']"
definition TRAJECTORY_FILE :: path where "TRAJECTORY_FILE = [''trajectory_imu.txt'']"

definition check_localization_map :: "disk \<Rightarrow> path \<Rightarrow> path option" where
  "check_localization_map fs d = List.find (\<lambda>f. \<not> is_file fs (d @ f)) [POINTCLOUD_MAP_METADATA, TRAJECTORY_FILE]"

definition goal_poses :: "(real \<times> real \<times> real) list \<Rightarrow> nat \<Rightarrow> (real \<times> real \<times> real \<times> real) list" where
  "goal_poses waypoints offset = map (\<lambda>(x, y, yaw). (x, y, sin (yaw / 2), cos (yaw / 2))) (drop offset waypoints)"

definition section_from_feedback :: "int \<Rightarrow> int \<Rightarrow> int \<Rightarrow> int" where
  "section_from_feedback offset poses remaining = max (offset + (poses - remaining) - 1) (max (offset - 1) 0)"

definition remaining_offset :: "int \<Rightarrow> int \<Rightarrow> int \<Rightarrow> int" where
  "remaining_offset offset poses remaining = offset + max (poses - remaining) 0"

section \<open>The speed limit state\<close>

record mask_grid =
  mg_origin_x :: real
  mg_origin_y :: real
  mg_resolution :: real
  mg_width :: int
  mg_height :: int
  mg_data :: "int list"

definition mask_cell :: "mask_grid \<Rightarrow> real \<Rightarrow> real \<Rightarrow> int option result" where
  "mask_cell m x y =
     (if mg_resolution m = 0 then Inl ZeroDivisionError
      else let i = \<lfloor>(x - mg_origin_x m) / mg_resolution m\<rfloor>; j = \<lfloor>(y - mg_origin_y m) / mg_resolution m\<rfloor> in
        if \<not> (0 \<le> i \<and> i < mg_width m \<and> 0 \<le> j \<and> j < mg_height m) then Inr None
        else let k = nat (j * mg_width m + i) in
          if k < length (mg_data m) then Inr (Some (mg_data m ! k)) else Inl IndexError)"

definition SL_NOT_LOADED :: string where "SL_NOT_LOADED = ''not_loaded''"
definition SL_OUTSIDE_MASK :: string where "SL_OUTSIDE_MASK = ''outside_mask''"
definition SL_OUTSIDE_BAND :: string where "SL_OUTSIDE_BAND = ''outside_band''"
definition SL_APPLIED :: string where "SL_APPLIED = ''applied''"
definition SL_UNKNOWN :: string where "SL_UNKNOWN = ''unknown''"

lemmas SL_defs = SL_NOT_LOADED_def SL_OUTSIDE_MASK_def SL_OUTSIDE_BAND_def SL_APPLIED_def SL_UNKNOWN_def

definition speed_limit_state :: "mask_grid option \<Rightarrow> bool \<Rightarrow> (real \<times> real) option \<Rightarrow> xfloat option \<Rightarrow> string result" where
  "speed_limit_state grid info_received robot limit =
     (case grid of
        None \<Rightarrow> Inr SL_NOT_LOADED
      | Some m \<Rightarrow>
          if \<not> info_received then Inr SL_NOT_LOADED
          else (case robot of
            None \<Rightarrow> Inr SL_UNKNOWN
          | Some (x, y) \<Rightarrow> res_bind (mask_cell m x y) (\<lambda>c. Inr (case c of
              None \<Rightarrow> SL_OUTSIDE_MASK
            | Some v \<Rightarrow> if v \<le> 0 then SL_OUTSIDE_BAND
                else (case limit of
                    Some (Fin l) \<Rightarrow> if 0 < l then SL_APPLIED else SL_UNKNOWN
                  | Some PosInf \<Rightarrow> SL_APPLIED
                  | _ \<Rightarrow> SL_UNKNOWN)))))"

section \<open>What a resolved mission guarantees\<close>

lemma mission_of_Inr:
  "mission_of lb data_rt sid srev ws man keep filt = Inr m \<Longrightarrow>
     mi_set_id m = sid \<and> mi_set_revision m = srev \<and> py_item man ''content_hash'' = Inr (mi_set_hash m)
   \<and> mi_waypoints m = map (\<lambda>w. (wp_x w, wp_y w, wp_yaw w)) (ws_waypoints ws) \<and> mi_limits m = ws_limits ws
   \<and> mi_map_directory m = map_dir data_rt (ws_map_origin_id ws) (ws_map_revision ws)
   \<and> mi_map_yaml m = mi_map_directory m @ [''map.yaml'']
   \<and> mi_mask_yaml m = set_dir data_rt sid srev @ [''speed_mask.yaml'']
   \<and> mi_keepout_yaml m = set_dir data_rt sid srev @ [''keepout_mask.yaml'']
   \<and> mi_map_id m = ws_map_origin_id ws \<and> mi_map_revision m = ws_map_revision ws \<and> mi_map_hash m = ws_map_content_hash ws"
  by (auto simp: mission_of_def Let_def)

lemma resolve_files_Inr:
  assumes "resolve_files lb data_rt sid srev ws man fs = Inr (Inr m)"
  shows "is_file fs (map_dir data_rt (ws_map_origin_id ws) (ws_map_revision ws) @ [''map.yaml''])
     \<and> is_file fs (set_dir data_rt sid srev @ [''speed_mask.yaml''])
     \<and> is_file fs (set_dir data_rt sid srev @ [''keepout_mask.yaml''])
     \<and> (\<exists>keep filt. mission_of lb data_rt sid srev ws man keep filt = Inr m)"
proof -
  note a = assms [unfolded resolve_files_def Let_def]
  let ?ps = "[map_dir data_rt (ws_map_origin_id ws) (ws_map_revision ws) @ [''map.yaml''],
    set_dir data_rt sid srev @ [''speed_mask.yaml''], set_dir data_rt sid srev @ [''filter_info.yaml'']]"
  have none: "List.find (\<lambda>p. \<not> is_file fs p) ?ps = None"
  proof (cases "List.find (\<lambda>p. \<not> is_file fs p) ?ps")
    case None
    then show ?thesis .
  next
    case (Some p)
    from a [unfolded Some] show ?thesis by simp
  qed
  from none [unfolded find_None_iff] have files: "\<forall>p \<in> set ?ps. is_file fs p" by blast
  note a = a [unfolded none option.case]
  from a obtain base mult kind where fp: "filter_params lb fs (set_dir data_rt sid srev @ [''filter_info.yaml'']) = Inr (base, mult, kind)"
    by (auto split: sum.split_asm if_split_asm)
  note a = a [unfolded fp sum.case prod.case]
  from a files show ?thesis by (auto split: if_split_asm)
qed

lemma resolve_mission_Inr:
  assumes "resolve_mission lb data_rt rq fs = Inr (Inr m)"
  obtains srev ws man chash h cm where
    "rq_set_id rq \<noteq> []" "l_int lb (rq_set_revision rq) = Some srev"
    "route_load lb (data_rt @ [''routes'']) (rq_set_id rq) srev fs = Inr (Some ws)"
    "route_manifest lb (data_rt @ [''routes'']) (rq_set_id rq) srev fs = Inr (Some man)"
    "py_get man ''content_hash'' PNone = Inr (PStr (rq_set_hash rq))" "set_content_hash lb ws = Inr (rq_set_hash rq)"
    "ws_map_origin_id ws = rq_map_id rq" "l_int lb (rq_map_revision rq) = Some (ws_map_revision ws)"
    "ws_map_content_hash ws = rq_map_hash rq"
    "converted_manifest lb (data_rt @ [''maps'']) (rq_map_id rq) (ws_map_revision ws) fs = Inr (Some cm)"
    "py_get cm ''content_hash'' PNone = Inr (PStr (rq_map_hash rq))"
    "resolve_files lb data_rt (rq_set_id rq) srev ws man fs = Inr (Inr m)"
proof -
  note a = assms [unfolded resolve_mission_def]
  from a have sid: "rq_set_id rq \<noteq> []" by (auto split: list.split_asm)
  then obtain c cs where sid': "rq_set_id rq = c # cs" by (cases "rq_set_id rq") auto
  from a sid' obtain srev where srev: "l_int lb (rq_set_revision rq) = Some srev" by (auto split: option.split_asm)
  note a = a [unfolded sid' srev prod.case list.case option.case]
  from a obtain ws man where ws: "route_load lb (data_rt @ [''routes'']) (c # cs) srev fs = Inr (Some ws)"
    and man: "route_manifest lb (data_rt @ [''routes'']) (c # cs) srev fs = Inr (Some man)"
    by (auto split: option.split_asm)
  note a = a [unfolded ws man res_bind.simps prod.case option.case]
  from a obtain chash where ch: "py_get man ''content_hash'' PNone = Inr chash" "PStr (rq_set_hash rq) = chash"
    by (auto split: if_split_asm)
  note a = a [unfolded ch(1) res_bind.simps if_not_P [OF ch(2) [THEN iffD2 [OF not_not]]]]
  from a ch(2) obtain h where h: "set_content_hash lb ws = Inr h" "PStr h = chash" by (auto split: if_split_asm)
  note a = a [unfolded h(1) res_bind.simps if_not_P [OF h(2) [THEN iffD2 [OF not_not]]]]
  from a have ref: "(rq_map_id rq, l_int lb (rq_map_revision rq), rq_map_hash rq)
      = (ws_map_origin_id ws, Some (ws_map_revision ws), ws_map_content_hash ws)" by (auto split: if_split_asm)
  note a = a [unfolded if_not_P [OF ref [THEN iffD2 [OF not_not]]]]
  from a obtain cm where cm: "converted_manifest lb (data_rt @ [''maps'']) (ws_map_origin_id ws) (ws_map_revision ws) fs = Inr (Some cm)"
    by (auto split: option.split_asm)
  note a = a [unfolded cm res_bind.simps option.case]
  from a obtain mh where mh: "py_get cm ''content_hash'' PNone = Inr mh" "mh = PStr (ws_map_content_hash ws)"
    by (auto split: if_split_asm)
  note a = a [unfolded mh(1) res_bind.simps if_not_P [OF mh(2) [THEN iffD2 [OF not_not]]]]
  from sid srev ws man ch h ref cm mh a show thesis
    by (intro that [of srev ws man cm]) (auto simp: sid')
qed

text \<open>C5. A mission is only resolved when everything the request names is what is stored: the waypoint set that
  loads has the content hash of the request (recomputed from its content, and recorded in its
  manifest), it belongs to the map of the request, the converted map in the database has the hash of
  the request, and the mission drives exactly the waypoints and limits of that set on that map, with
  the masks saved with it.\<close>

theorem resolve_mission_checks_everything:
  assumes "resolve_mission lb data_rt rq fs = Inr (Inr m)"
  shows "\<exists>ws. route_load lb (data_rt @ [''routes'']) (mi_set_id m) (mi_set_revision m) fs = Inr (Some ws)
     \<and> mi_set_id m = rq_set_id rq \<and> l_int lb (rq_set_revision rq) = Some (mi_set_revision m)
     \<and> set_content_hash lb ws = Inr (rq_set_hash rq) \<and> mi_set_hash m = PStr (rq_set_hash rq)
     \<and> (mi_map_id m, mi_map_hash m) = (rq_map_id rq, rq_map_hash rq) \<and> l_int lb (rq_map_revision rq) = Some (mi_map_revision m)
     \<and> (\<exists>cm. converted_manifest lb (data_rt @ [''maps'']) (mi_map_id m) (mi_map_revision m) fs = Inr (Some cm)
          \<and> py_get cm ''content_hash'' PNone = Inr (PStr (rq_map_hash rq)))
     \<and> mi_waypoints m = map (\<lambda>w. (wp_x w, wp_y w, wp_yaw w)) (ws_waypoints ws) \<and> mi_limits m = ws_limits ws
     \<and> is_file fs (mi_map_yaml m) \<and> is_file fs (mi_mask_yaml m) \<and> is_file fs (mi_keepout_yaml m)"
proof -
  obtain srev ws man cm where
    r: "l_int lb (rq_set_revision rq) = Some srev"
    "route_load lb (data_rt @ [''routes'']) (rq_set_id rq) srev fs = Inr (Some ws)"
    "py_get man ''content_hash'' PNone = Inr (PStr (rq_set_hash rq))" "set_content_hash lb ws = Inr (rq_set_hash rq)"
    "ws_map_origin_id ws = rq_map_id rq" "l_int lb (rq_map_revision rq) = Some (ws_map_revision ws)"
    "ws_map_content_hash ws = rq_map_hash rq"
    "converted_manifest lb (data_rt @ [''maps'']) (rq_map_id rq) (ws_map_revision ws) fs = Inr (Some cm)"
    "py_get cm ''content_hash'' PNone = Inr (PStr (rq_map_hash rq))"
    and f: "resolve_files lb data_rt (rq_set_id rq) srev ws man fs = Inr (Inr m)"
    by (rule resolve_mission_Inr [OF assms]) (rule that)
  from resolve_files_Inr [OF f] obtain keep filt where files:
    "is_file fs (map_dir data_rt (ws_map_origin_id ws) (ws_map_revision ws) @ [''map.yaml''])"
    "is_file fs (set_dir data_rt (rq_set_id rq) srev @ [''speed_mask.yaml''])"
    "is_file fs (set_dir data_rt (rq_set_id rq) srev @ [''keepout_mask.yaml''])"
    and m: "mission_of lb data_rt (rq_set_id rq) srev ws man keep filt = Inr m" by blast
  note fields = mission_of_Inr [OF m]
  from r(3) fields have "mi_set_hash m = PStr (rq_set_hash rq)"
    by (cases man) (auto split: option.split_asm)
  with r files fields show ?thesis by (intro exI [of _ ws]) simp
qed

definition sample_mission_libs :: libs where
  "sample_mission_libs = sample_libs\<lparr>l_int := \<lambda>s. if s = ''1'' then Some 1 else None\<rparr>"

definition sample_set_doc :: pyval where
  "sample_set_doc = PDict [(''map'', PDict [(''origin_id'', PStr ''m''), (''revision'', PInt 1), (''content_hash'', PStr ''h'')]),
     (''waypoints'', PList [PDict [(''x'', PInt 0), (''y'', PInt 0)], PDict [(''x'', PInt 5), (''y'', PInt 0)]]),
     (''section_limits_mps'', PList [PInt 1])]"

definition sample_set_manifest :: pyval where
  "sample_set_manifest = PDict [(''content_hash'', PStr ''0a''),
     (''generator'', PDict [(''keepout'', PDict [(''data_sha256'', PStr ''0d''), (''width'', PInt 3), (''height'', PInt 4)])])]"

definition sample_mission_disk :: disk where
  "sample_mission_disk =
     [([''routes'', ''s'', ''001'', ''waypoints.yaml''], File (Yaml_text sample_set_doc)),
      ([''routes'', ''s'', ''001'', ''manifest.json''], File (Json_text sample_set_manifest)),
      ([''routes'', ''s'', ''001'', ''speed_mask.yaml''], File (Data [1])),
      ([''routes'', ''s'', ''001'', ''keepout_mask.yaml''], File (Data [1])),
      ([''routes'', ''s'', ''001'', ''filter_info.yaml''],
         File (Yaml_text (PDict [(''base'', PInt 0), (''multiplier'', PInt 1), (''type'', PInt 2)]))),
      ([''maps'', ''m'', ''converted'', ''001'', ''manifest.json''], File (Json_text (PDict [(''content_hash'', PStr ''h'')]))),
      ([''maps'', ''m'', ''converted'', ''001'', ''map.yaml''], File (Data [1]))]"

definition sample_request :: mission_request where
  "sample_request = \<lparr>rq_set_id = ''s'', rq_set_revision = ''1'', rq_set_hash = ''0a'', rq_map_id = ''m'',
     rq_map_revision = ''1'', rq_map_hash = ''h''\<rparr>"

theorem resolve_mission_checks_everything_witness:
  "\<exists>m. resolve_mission sample_mission_libs [] sample_request sample_mission_disk = Inr (Inr m)
     \<and> mi_set_hash m = PStr ''0a'' \<and> length (mi_waypoints m) = 2"
proof -
  have "case resolve_mission sample_mission_libs [] sample_request sample_mission_disk of
     Inr (Inr m) \<Rightarrow> length (mi_waypoints m) = 2 | _ \<Rightarrow> False"
    by code_simp
  then obtain m where m: "resolve_mission sample_mission_libs [] sample_request sample_mission_disk = Inr (Inr m)"
    "length (mi_waypoints m) = 2" by (auto split: sum.splits)
  from resolve_mission_checks_everything [OF m(1)] m show ?thesis by (auto simp: sample_request_def)
qed

end
