(* ===== verification/Autonomy_Client.thy ===== *)
theory Autonomy_Client
  imports Autonomy_Core
begin

text \<open>
  \<^verbatim>\<open>gouda_core/autonomy_client.py\<close>: the ROS side of the mode manager's autonomy.  Its worker threads
  call services and wait for the answers; a worker is a list of acts, and \<open>client_step\<close> is what one
  act does when its answer arrives: the code from one wait to the next.  The token check comes where
  the code has it, after the wait.  What Nav2, the lifecycle nodes and the parameter servers answer
  is the \<open>reply\<close> (an input).  Goals that Nav2 accepts are numbered; \<open>c_accepted\<close>, \<open>c_watched\<close> and
  \<open>c_cancelled\<close> say which goals exist, which have a result callback and which were cancelled.
\<close>

section \<open>State\<close>

datatype mask_match = Match | Mismatch string "int \<times> int" \<comment> \<open>start of the received digest, received size\<close>

record client =
  c_token :: nat
  c_goal :: "nat option" \<comment> \<open>\<^verbatim>\<open>goal_handle\<close>\<close>
  c_goal_offset :: int
  c_goal_poses :: int
  c_nav2_active :: bool
  c_loc_configured :: bool
  c_loc_running :: bool
  c_estimator :: "(int \<times> real) option" \<comment> \<open>state and stamp of the last IFD-53\<close>
  c_changed :: bool \<comment> \<open>the event \<^verbatim>\<open>_estimator_changed\<close>\<close>
  c_keepout_expected :: "(string \<times> int \<times> int) option"
  c_keepout_state :: "mask_match option"
  c_keepout_info :: bool
  c_mask :: "mask_grid option"
  c_info :: bool
  c_limit :: "xfloat option"
  c_robot :: "(real \<times> real) option"
  c_accepted :: nat
  c_watched :: "nat list"
  c_cancelled :: "nat list"

definition new_client :: client where
  "new_client = \<lparr>c_token = 0, c_goal = None, c_goal_offset = 0, c_goal_poses = 0, c_nav2_active = False,
     c_loc_configured = False, c_loc_running = False, c_estimator = None, c_changed = False,
     c_keepout_expected = None, c_keepout_state = None, c_keepout_info = False, c_mask = None, c_info = False,
     c_limit = None, c_robot = None, c_accepted = 0, c_watched = [], c_cancelled = []\<rparr>"

definition new_token :: "client \<Rightarrow> client" where
  "new_token c = c\<lparr>c_token := c_token c + 1, c_changed := True\<rparr>"

definition on_estimator_status :: "int \<Rightarrow> real \<Rightarrow> client \<Rightarrow> client" where
  "on_estimator_status state stamp c = c\<lparr>c_estimator := Some (state, stamp), c_changed := True\<rparr>"

definition keepout_confirmed :: "client \<Rightarrow> bool" where
  "keepout_confirmed c = (c_keepout_state c = Some Match \<and> c_keepout_info c)"

text \<open>The observation callbacks: the state they leave, and whether they report (to the manager).\<close>

definition on_keepout_mask :: "string \<Rightarrow> int \<times> int \<Rightarrow> client \<Rightarrow> client \<times> bool" where
  "on_keepout_mask sha dims c = (case c_keepout_expected c of
     None \<Rightarrow> (c, False)
   | Some want \<Rightarrow> (c\<lparr>c_keepout_state := Some (if (sha, dims) = want then Match else Mismatch (take 12 sha) dims)\<rparr>, True))"

definition on_keepout_info :: "int \<Rightarrow> bool \<Rightarrow> xfloat \<Rightarrow> xfloat \<Rightarrow> client \<Rightarrow> client \<times> bool" where
  "on_keepout_info kind topic_ok base multiplier c = (case c_keepout_expected c of
     None \<Rightarrow> (c, False)
   | Some _ \<Rightarrow> (c\<lparr>c_keepout_info := kind = 0 \<and> topic_ok \<and> base = Fin 0 \<and> multiplier = Fin 1\<rparr>, True))"

definition client_speed_state :: "client \<Rightarrow> string result" where
  "client_speed_state c = speed_limit_state (c_mask c) (c_info c) (c_robot c) (c_limit c)"

section \<open>Acts and replies\<close>

datatype lifecycle = Unconfigured | Inactive | Active | Other_state int
datatype change = Configure | Activate | Deactivate | Cleanup

datatype reply =
    Not_ready \<comment> \<open>the service or action server is not there\<close>
  | Call_raised
  | Node_state lifecycle
  | Success bool
  | Results "bool list"
  | Goal_answer bool
  | At real \<comment> \<open>the node's clock\<close>
  | Map_saved bool bool bool \<comment> \<open>dump complete, source registered, conversion server ready\<close>

datatype param_server = Map_server | Filter_mask_server | Filter_info_server | Keepout_mask_server

datatype client_act =
    Vehicle_state string
  | Vehicle_change string change
  | Pose_sent
  | Loc_state
  | Loc_map
  | Loc_configure
  | Loc_since
  | Loc_activate real
  | Loc_wait real
  | Set_param param_server string "int \<times> int" \<comment> \<open>with the keepout hash and size of the mission\<close>
  | Nav2_startup
  | Goal_send int nat \<comment> \<open>offset, number of poses\<close>
  | Goal_wait
  | Cancel
  | Stop_state string
  | Stop_change string
  | Stop_nav2
  | Nav2_reset
  | Loc_stop
  | Loc_stop_state
  | Loc_stop_deactivate
  | Loc_stop_cleanup
  | Bridge_state
  | Bridge_configure

datatype step_error = Step_failed | Estimator_unavailable

datatype outcome =
    Next client "client_act list" "string list" \<comment> \<open>what to do before the rest, and the recorded events\<close>
  | Failed client step_error
  | Abandoned client

text \<open>
  \<^verbatim>\<open>_call\<close>: a service that is not there fails at once; after the wait the token is checked (\<open>None\<close>:
  a call that nothing abandons), then the exception of the call.
\<close>

definition awaited :: "nat option \<Rightarrow> reply \<Rightarrow> client \<Rightarrow> outcome \<Rightarrow> outcome" where
  "awaited token r c result =
     (if r = Not_ready then Failed c Step_failed
      else if token \<noteq> None \<and> token \<noteq> Some (c_token c) then Abandoned c
      else if r = Call_raised then Failed c Step_failed
      else result)"

definition VEHICLE_NODES :: "string list" where
  "VEHICLE_NODES = [''gouda_motion_controller'', ''vehicle_bridge'']"

fun vehicle_changes :: "lifecycle \<Rightarrow> change list option" where
  "vehicle_changes Unconfigured = Some [Configure, Activate]"
| "vehicle_changes Inactive = Some [Activate]"
| "vehicle_changes Active = Some []"
| "vehicle_changes (Other_state i) = None"

definition STATE_NORMAL :: int where "STATE_NORMAL = 2"
definition STATE_UNAVAILABLE :: int where "STATE_UNAVAILABLE = 3"

text \<open>One round of the wait for the localization: it is woken, checks the token, looks at the state.\<close>

definition loc_round :: "nat \<Rightarrow> real \<Rightarrow> client \<Rightarrow> outcome" where
  "loc_round token since c =
     (if \<not> c_changed c then Next c [Loc_wait since] []
      else let c = c\<lparr>c_changed := False\<rparr> in
        if token \<noteq> c_token c then Abandoned c
        else (case c_estimator c of
            None \<Rightarrow> Next c [Loc_wait since] []
          | Some (state, stamp) \<Rightarrow>
              if stamp < since then Next c [Loc_wait since] []
              else if state = STATE_NORMAL then Next (c\<lparr>c_loc_running := True\<rparr>) [] [''localization_normal'']
              else if state = STATE_UNAVAILABLE then Failed c Estimator_unavailable
              else Next c [Loc_wait since] []))"

text \<open>The parameters of a server are set; after the keep-out mask's the observations start anew.\<close>

definition params_set :: "param_server \<Rightarrow> string \<Rightarrow> int \<times> int \<Rightarrow> client \<Rightarrow> outcome" where
  "params_set server sha dims c =
     (if server = Keepout_mask_server
      then Next (c\<lparr>c_keepout_expected := Some (sha, dims), c_keepout_state := None, c_keepout_info := False,
                   c_limit := None, c_mask := None, c_info := False, c_robot := None\<rparr>) [] [''nav2_parameters_set'']
      else Next c [] [])"

definition goal_answered :: "nat \<Rightarrow> bool \<Rightarrow> client \<Rightarrow> outcome" where
  "goal_answered token ok c =
     (let c = (if ok then c\<lparr>c_accepted := c_accepted c + 1\<rparr> else c) in
      if token \<noteq> c_token c then Abandoned c
      else if \<not> ok then Failed c Step_failed
      else Next (c\<lparr>c_goal := Some (c_accepted c), c_watched := c_accepted c # c_watched c\<rparr>) [] [''nav2_goal_sent''])"

definition cancel_goal :: "client \<Rightarrow> outcome" where
  "cancel_goal c = (case c_goal c of
     None \<Rightarrow> Next c [] [''navigation_goal_check'']
   | Some g \<Rightarrow> Next (c\<lparr>c_goal := None, c_cancelled := g # c_cancelled c\<rparr>) [] [])"

text \<open>A failure that the code catches: it is recorded and the worker goes on with the rest.\<close>

fun caught :: "string \<Rightarrow> outcome \<Rightarrow> outcome" where
  "caught event (Failed c e) = Next c [] [event]"
| "caught event r = r"

fun client_step :: "nat \<Rightarrow> client_act \<Rightarrow> reply \<Rightarrow> client \<Rightarrow> outcome" where
  "client_step token (Vehicle_state n) r c = awaited (Some token) r c (case r of
     Node_state st \<Rightarrow> (case vehicle_changes st of
         None \<Rightarrow> Failed c Step_failed
       | Some cs \<Rightarrow> Next c (map (Vehicle_change n) cs) [])
   | _ \<Rightarrow> Failed c Step_failed)"
| "client_step token (Vehicle_change n ch) r c = awaited (Some token) r c
     (if r = Success True then Next c [] [] else Failed c Step_failed)"
| "client_step token Pose_sent r c = Next c [] [''initial_pose_sent'']"
| "client_step token Loc_state r c = awaited (Some token) r c
     (if r = Node_state Unconfigured then Next c [] [] else Failed c Step_failed)"
| "client_step token Loc_map r c = awaited (Some token) r c (case r of
     Results oks \<Rightarrow> if list_all id oks then Next c [] [] else Failed c Step_failed
   | _ \<Rightarrow> Failed c Step_failed)"
| "client_step token Loc_configure r c = awaited (Some token) r c
     (if r = Success True then Next (c\<lparr>c_loc_configured := True\<rparr>) [] [] else Failed c Step_failed)"
| "client_step token Loc_since r c = (case r of
     At t \<Rightarrow> Next c [Loc_activate t] [] | _ \<Rightarrow> Next c [Loc_since] [])"
| "client_step token (Loc_activate since) r c = awaited (Some token) r c
     (if r = Success True then Next c [Loc_wait since] [''localization_activated''] else Failed c Step_failed)"
| "client_step token (Loc_wait since) r c = loc_round token since c"
| "client_step token (Set_param server sha dims) r c = awaited (Some token) r c (case r of
     Results oks \<Rightarrow> if list_all id oks then params_set server sha dims c else Failed c Step_failed
   | _ \<Rightarrow> Failed c Step_failed)"
| "client_step token Nav2_startup r c = awaited (Some token) r c
     (if r = Success True then Next (c\<lparr>c_nav2_active := True\<rparr>) [] [''nav2_started''] else Failed c Step_failed)"
| "client_step token (Goal_send offset poses) r c =
     (if r = Not_ready then Failed c Step_failed
      else Next (c\<lparr>c_goal_offset := offset, c_goal_poses := int poses\<rparr>) [Goal_wait] [])"
| "client_step token Goal_wait r c = goal_answered token (r = Goal_answer True) c"
| "client_step token Cancel r c = cancel_goal c"
| "client_step token (Stop_state n) r c = caught ''vehicle_output_deactivate_failed'' (awaited (Some token) r c
     (if r = Node_state Active then Next c [Stop_change n] [] else Next c [] []))"
| "client_step token (Stop_change n) r c = caught ''vehicle_output_deactivate_failed'' (awaited (Some token) r c
     (Next c [] [if r = Success True then ''vehicle_output_deactivated'' else ''vehicle_output_deactivate_failed'']))"
| "client_step token Stop_nav2 r c = Next c (if c_nav2_active c then [Nav2_reset] else []) []"
| "client_step token Nav2_reset r c = caught ''nav2_reset_failed'' (awaited (Some token) r c
     (Next (c\<lparr>c_nav2_active := r \<noteq> Success True\<rparr>) [] [if r = Success True then ''nav2_reset'' else ''nav2_reset_failed'']))"
| "client_step token Loc_stop r c = Next (c\<lparr>c_loc_running := False\<rparr>) (if c_loc_configured c then [Loc_stop_state] else []) []"
| "client_step token Loc_stop_state r c = caught ''localization_stop_failed'' (awaited None r c
     (if r = Node_state Active then Next c [Loc_stop_deactivate] []
      else if r = Node_state Inactive then Next c [Loc_stop_cleanup] []
      else Next (c\<lparr>c_loc_configured := False\<rparr>) [] [''localization_stopped'']))"
| "client_step token Loc_stop_deactivate r c = caught ''localization_stop_failed'' (awaited None r c
     (if r = Success True then Next c [Loc_stop_cleanup] [] else Failed c Step_failed))"
| "client_step token Loc_stop_cleanup r c = caught ''localization_stop_failed'' (awaited None r c
     (if r = Success True then Next (c\<lparr>c_loc_configured := False\<rparr>) [] [''localization_stopped''] else Failed c Step_failed))"
| "client_step token Bridge_state r c = caught ''vehicle_bridge_configure_failed'' (awaited None r c
     (if r = Node_state Unconfigured then Next c [Bridge_configure] [] else Next c [] [''vehicle_bridge_configure_skipped'']))"
| "client_step token Bridge_configure r c = caught ''vehicle_bridge_configure_failed'' (awaited None r c
     (if r = Success True then Next c [] [''vehicle_bridge_configured''] else Failed c Step_failed))"

section \<open>The workers\<close>

definition activate_vehicle_output :: "client_act list" where
  "activate_vehicle_output = map Vehicle_state VEHICLE_NODES"

definition localize :: "client_act list" where
  "localize = [Pose_sent, Loc_state, Loc_map, Loc_configure, Loc_since]"

definition send_goal :: "mission \<Rightarrow> nat \<Rightarrow> client_act list" where
  "send_goal m offset = [Goal_send (int offset) (length (drop offset (mi_waypoints m)))]"

definition start_autonomy :: "mission \<Rightarrow> client_act list" where
  "start_autonomy m = localize
     @ map (\<lambda>server. Set_param server (mi_keepout_sha m) (mi_keepout_size m))
         [Map_server, Filter_mask_server, Filter_info_server, Keepout_mask_server]
     @ [Nav2_startup] @ send_goal m 0"

definition stop_autonomy :: "client_act list" where
  "stop_autonomy = map Stop_state VEHICLE_NODES @ [Stop_nav2]"

definition configure_bridge :: "client_act list" where
  "configure_bridge = [Bridge_state]"

section \<open>Facts about single acts\<close>

fun outcome_client :: "outcome \<Rightarrow> client" where
  "outcome_client (Next c acts evs) = c"
| "outcome_client (Failed c e) = c"
| "outcome_client (Abandoned c) = c"

lemma outcome_client_awaited: "outcome_client (awaited t r c x) \<in> {c, outcome_client x}"
  by (simp add: awaited_def)

lemma outcome_client_caught [simp]: "outcome_client (caught ev x) = outcome_client x"
  by (cases x) simp_all

text \<open>No act changes the token: only a human request, a stop of the estimator or a resume does.\<close>

lemma client_step_token [simp]: "c_token (outcome_client (client_step token act r c)) = c_token c"
  by (cases "(token, act, r, c)" rule: client_step.cases)
    (auto simp: awaited_def loc_round_def params_set_def goal_answered_def cancel_goal_def Let_def
      split: reply.split option.split)

end
