(* ===== verification/Mode_Manager.thy ===== *)
theory Mode_Manager
  imports Mode_Core Autonomy_Client Contracts
begin

text \<open>
  \<^verbatim>\<open>gouda_core/mode_manager_node.py\<close> (ND-03): the node that owns the mode, the persisted record, the
  hold on the vehicle and the autonomy run.  Service handlers and callbacks run one after the other
  (one callback group); the workers of the transitions run beside them, so that a run is a sequence
  of events in which the acts of the workers and the callbacks interleave in any order.  What the
  processes and servers answer comes with the event.

  \<open>m_pubs\<close> are the published mode states with the hold published with each, newest first; \<open>m_log\<close>
  the recorded decisions.  \<open>m_down\<close>: an exception left a callback and the node is gone.
\<close>

section \<open>State\<close>

datatype work =
    Act client_act
  | Auto_record string
  | Start_odometry
  | Goal_started \<comment> \<open>the end of \<^verbatim>\<open>_run_steps\<close>: \<^verbatim>\<open>goal_active = True\<close> under the lock\<close>
  | Stop_odometry
  | Map_saving
  | Map_save

record job =
  j_tid :: string
  j_token :: nat
  j_guarded :: bool \<comment> \<open>run by \<^verbatim>\<open>_run_steps\<close>, which catches the step errors\<close>
  j_work :: "work list"

record manager =
  m_state :: mode_state
  m_saved :: prev_record
  m_pubs :: "(mode_state \<times> bool) list"
  m_log :: "(string \<times> string) list"
  m_client :: client
  m_mission :: "mission option"
  m_next_offset :: int
  m_released :: bool \<comment> \<open>\<^verbatim>\<open>drive_released\<close>\<close>
  m_goal_active :: bool
  m_pending :: "mission option option"
  m_estimator_rx :: "real option"
  m_timeout :: "real option" \<comment> \<open>PRM-93\<close>
  m_glim :: bool
  m_glim_odom :: bool
  m_origin :: "string option"
  m_keepout_last :: "(bool \<times> mask_match option \<times> bool) option"
  m_jobs :: "job list"
  m_calls :: "string list" \<comment> \<open>recorder services called, newest first\<close>
  m_down :: bool

definition IMPLEMENTED_TRANSITIONS :: "string list" where
  "IMPLEMENTED_TRANSITIONS = [''TR-03'', ''TR-04'', ''TR-05'', ''TR-06'', ''TR-10'', ''TR-11'', ''TR-12'']"

definition LOCALIZATION_NODE :: string where "LOCALIZATION_NODE = ''gouda_global_localization''"

section \<open>Publication\<close>

definition hold_of :: "manager \<Rightarrow> bool" where
  "hold_of m = (\<not> (st_mode (m_state m) = AUTONOMY \<and> m_released m))"

definition publish_state :: "manager \<Rightarrow> manager" where
  "publish_state m = m\<lparr>m_pubs := (m_state m, hold_of m) # m_pubs m\<rparr>"

definition publish_decision :: "string \<Rightarrow> string \<Rightarrow> manager \<Rightarrow> manager" where
  "publish_decision event tid m = m\<lparr>m_log := (event, tid) # m_log m\<rparr>"

definition publish_decisions :: "string list \<Rightarrow> string \<Rightarrow> manager \<Rightarrow> manager" where
  "publish_decisions events tid m = m\<lparr>m_log := rev (map (\<lambda>e. (e, tid)) events) @ m_log m\<rparr>"

definition set_state :: "mode_state \<Rightarrow> manager \<Rightarrow> manager" where
  "set_state new m = publish_state (m\<lparr>m_state := new, m_saved := record_of_state new\<rparr>)"

definition update_fields :: "(mode_state \<Rightarrow> mode_state) \<Rightarrow> manager \<Rightarrow> manager" where
  "update_fields upd m = publish_state (m\<lparr>m_state :=
     (upd (m_state m))\<lparr>state_revision := state_revision (m_state m) + 1\<rparr>\<rparr>)"

definition set_processing :: "string \<Rightarrow> manager \<Rightarrow> manager" where
  "set_processing p = update_fields (\<lambda>s. s\<lparr>processing_state := p\<rparr>)"

definition spawn :: "job \<Rightarrow> manager \<Rightarrow> manager" where
  "spawn j m = m\<lparr>m_jobs := m_jobs m @ [j]\<rparr>"

definition request_auto_record :: "string \<Rightarrow> bool \<Rightarrow> string \<Rightarrow> manager \<Rightarrow> manager" where
  "request_auto_record kind ready tid m =
     (if ready then m\<lparr>m_calls := kind # m_calls m\<rparr>
      else publish_decision (if kind \<noteq> ''stop_auto'' then ''record_auto_start_failed'' else ''record_auto_stop_failed'') tid m)"

section \<open>Boot\<close>

text \<open>\<open>record_file\<close> is what the record file holds; a record that raises keeps the node from starting.\<close>

definition manager_at :: "boot_decision \<Rightarrow> real option \<Rightarrow> manager" where
  "manager_at d timeout = publish_decision ''boot'' (boot_transition d) (publish_state
     \<lparr>m_state = boot_state d, m_saved = record_after_boot d, m_pubs = [], m_log = [], m_client = new_client,
      m_mission = None, m_next_offset = 0, m_released = False, m_goal_active = False, m_pending = None,
      m_estimator_rx = None, m_timeout = timeout, m_glim = False, m_glim_odom = False, m_origin = None,
      m_keepout_last = None, m_jobs = [], m_calls = [], m_down = False\<rparr>)"

definition manager_boot :: "(pyval \<Rightarrow> string) \<Rightarrow> (string \<Rightarrow> int option) \<Rightarrow> file_read \<Rightarrow> real option \<Rightarrow> manager result" where
  "manager_boot fmt parse record_file timeout =
     res_bind (load_record fmt parse record_file) (\<lambda>r. Inr (manager_at (decide_boot r) timeout))"

section \<open>Automatic pause\<close>

definition auto_pause :: "string \<Rightarrow> string \<Rightarrow> manager \<Rightarrow> manager" where
  "auto_pause tid stop m = (case automatic_pause (m_state m) tid stop (remaining_waypoints (m_state m)) of
     None \<Rightarrow> publish_decision ''nav2_result_ignored'' tid m
   | Some new \<Rightarrow> set_state new (publish_decision ''automatic_pause'' tid (m\<lparr>m_released := False, m_goal_active := False\<rparr>)))"

definition cancel_job :: "string \<Rightarrow> manager \<Rightarrow> job" where
  "cancel_job tid m = \<lparr>j_tid = tid, j_token = c_token (m_client m), j_guarded = False, j_work = [Act Cancel]\<rparr>"

definition estimator_pause :: "manager \<Rightarrow> manager" where
  "estimator_pause m =
     (if st_mode (m_state m) \<noteq> AUTONOMY \<or> \<not> c_loc_running (m_client m) then m
      else let m = auto_pause ''TR-07'' STOP_ESTIMATOR (m\<lparr>m_client := new_token (m_client m)\<rparr>)
        in spawn (cancel_job ''TR-07'' m) m)"

section \<open>The actions of the human transitions\<close>

record env =
  e_id :: string \<comment> \<open>the new run or origin id\<close>
  e_now :: real
  e_glim_ok :: bool \<comment> \<open>GLIM starts\<close>
  e_recorder :: bool \<comment> \<open>the recorder service is there\<close>

datatype perform_result =
    Refused manager
  | Done manager "mode_state \<Rightarrow> mode_state" job
  | Raised manager

definition tr03_start_mapping :: "env \<Rightarrow> manager \<Rightarrow> perform_result" where
  "tr03_start_mapping e m =
     (if m_glim m \<or> m_glim_odom m \<or> c_loc_configured (m_client m) then Refused m
      else let m = publish_decision ''glim_extrinsic'' ''TR-03'' m in
        if \<not> e_glim_ok e then Refused (publish_decision ''mapping_start_failed'' ''TR-03'' m)
        else let m = publish_decisions [''gnss_record_started'', ''mapping_started''] ''TR-03''
                 (m\<lparr>m_glim := True, m_origin := Some (e_id e)\<rparr>);
               m = request_auto_record ''map_start'' (e_recorder e) ''TR-03'' m
          in Done m id \<lparr>j_tid = ''TR-03'', j_token = c_token (m_client m), j_guarded = False,
               j_work = map Act configure_bridge\<rparr>)"

definition tr04_end_mapping :: "env \<Rightarrow> manager \<Rightarrow> perform_result" where
  "tr04_end_mapping e m = Done (m\<lparr>m_origin := None\<rparr>) id
     \<lparr>j_tid = ''TR-04'', j_token = c_token (m_client m), j_guarded = False,
      j_work = [Map_saving, Map_save, Auto_record ''stop_auto'']\<rparr>"

definition tr05_start_autonomy :: "env \<Rightarrow> manager \<Rightarrow> perform_result" where
  "tr05_start_autonomy e m = (case m_pending m of
     None \<Rightarrow> Refused m
   | Some None \<Rightarrow> Raised m
   | Some (Some mi) \<Rightarrow>
       let m = m\<lparr>m_pending := None, m_mission := Some mi, m_next_offset := 0, m_released := False,
                 m_client := new_token (m_client m)\<rparr>
       in Done m (\<lambda>s. s\<lparr>run_id := e_id e, remaining_waypoints := int (length (mi_waypoints mi)), current_section := 0,
              initial_pose_required := False, speed_limit_application_state := SL_NOT_LOADED\<rparr>)
          \<lparr>j_tid = ''TR-05'', j_token = c_token (m_client m), j_guarded = True,
           j_work = Auto_record ''autonomy_start'' # map Act activate_vehicle_output @ [Start_odometry]
             @ map Act (start_autonomy mi) @ [Goal_started]\<rparr>)"

definition tr06_pause :: "manager \<Rightarrow> perform_result" where
  "tr06_pause m = (let m = m\<lparr>m_released := False, m_client := new_token (m_client m), m_goal_active := False\<rparr>
     in Done m id (cancel_job ''TR-06'' m))"

text \<open>\<^verbatim>\<open>_estimator_not_normal\<close>; without a timeout the comparison raises.\<close>

definition estimator_not_normal :: "real \<Rightarrow> manager \<Rightarrow> bool result" where
  "estimator_not_normal now m = (case (c_estimator (m_client m), m_estimator_rx m) of
     (Some (state, stamp), Some rx) \<Rightarrow> (case m_timeout m of
         None \<Rightarrow> Inl TypeError
       | Some limit \<Rightarrow> Inr (limit < now - rx \<or> state \<noteq> STATE_NORMAL))
   | _ \<Rightarrow> Inr True)"

definition tr10_resume :: "env \<Rightarrow> manager \<Rightarrow> perform_result" where
  "tr10_resume e m = (case m_mission m of
     None \<Rightarrow> Refused m
   | Some mi \<Rightarrow>
       if m_goal_active m \<or> c_goal (m_client m) \<noteq> None then Refused m
       else if \<not> c_nav2_active (m_client m) then Refused m
       else (case estimator_not_normal (e_now e) m of
           Inl _ \<Rightarrow> Raised m
         | Inr True \<Rightarrow> Refused m
         | Inr False \<Rightarrow>
             let m = m\<lparr>m_released := False, m_client := new_token (m_client m)\<rparr>;
                 offset = min (m_next_offset m) (int (length (mi_waypoints mi)) - 1)
             in Done m (\<lambda>s. s\<lparr>speed_limit_application_state := SL_UNKNOWN\<rparr>)
                \<lparr>j_tid = ''TR-10'', j_token = c_token (m_client m), j_guarded = True,
                 j_work = map Act (send_goal mi (nat offset)) @ [Goal_started]\<rparr>))"

definition tr11_12_end :: "string \<Rightarrow> manager \<Rightarrow> perform_result" where
  "tr11_12_end tid m =
     (let m = m\<lparr>m_released := False, m_goal_active := False, m_mission := None, m_client := new_token (m_client m)\<rparr>
      in Done m id \<lparr>j_tid = tid, j_token = c_token (m_client m), j_guarded = False,
           j_work = Act Cancel # map Act stop_autonomy @ [Act Loc_stop, Stop_odometry, Auto_record ''stop_auto'']\<rparr>)"

definition perform :: "string \<Rightarrow> env \<Rightarrow> manager \<Rightarrow> perform_result" where
  "perform tid e m =
     (if tid = ''TR-03'' then tr03_start_mapping e m
      else if tid = ''TR-04'' then tr04_end_mapping e m
      else if tid = ''TR-05'' then tr05_start_autonomy e m
      else if tid = ''TR-06'' then tr06_pause m
      else if tid = ''TR-10'' then tr10_resume e m
      else if tid \<in> {''TR-11'', ''TR-12''} then tr11_12_end tid m
      else Refused m)"

definition request :: "string \<Rightarrow> env \<Rightarrow> manager \<Rightarrow> manager \<times> bool" where
  "request event e m =
     (let m = (if event \<noteq> ''start_autonomy'' then m\<lparr>m_pending := None\<rparr> else m);
          r = request_transition event (m_state m) IMPLEMENTED_TRANSITIONS; tid = transition_id r in
      case new_state r of
        None \<Rightarrow> (publish_decision ''human_request'' tid m, False)
      | Some new \<Rightarrow>
          (case perform tid e m of
             Refused m \<Rightarrow> (publish_decision ''human_request'' tid m, False)
           | Raised m \<Rightarrow> (m\<lparr>m_down := True\<rparr>, False)
           | Done m upd j \<Rightarrow> (spawn j (set_state (upd new) (publish_decision ''human_request'' tid m)), True)))"

section \<open>The start request\<close>

record start_request =
  sr_mission :: mission_request
  sr_frame :: string
  sr_pose :: "xfloat \<times> xfloat \<times> xfloat \<times> xfloat" \<comment> \<open>x, y, qz, qw\<close>
  sr_nav2_missing :: bool \<comment> \<open>vehicle values of Nav2 are unresolved\<close>
  sr_nodes :: "string list" \<comment> \<open>the nodes that run\<close>
  sr_libs :: libs
  sr_data :: path
  sr_disk :: disk

text \<open>Refused, or the mission to start with (none in a mode in which the request is refused anyway).\<close>

definition start_precheck :: "start_request \<Rightarrow> manager \<Rightarrow> (bool \<times> mission option) result" where
  "start_precheck q m =
     (if st_mode (m_state m) \<noteq> MANUAL then Inr (False, None)
      else if sr_nav2_missing q then Inr (True, None)
      else res_bind (resolve_mission (sr_libs q) (sr_data q) (sr_mission q) (sr_disk q)) (\<lambda>r. case r of
          Inl why \<Rightarrow> Inr (True, None)
        | Inr mi \<Rightarrow> (case sr_pose q of (x, y, qz, qw) \<Rightarrow>
            if check_initial_pose (sr_frame q) x y qz qw \<noteq> None then Inr (True, None)
            else if LOCALIZATION_NODE \<notin> set (sr_nodes q) then Inr (True, None)
            else if \<not> (case m_timeout m of None \<Rightarrow> False | Some t \<Rightarrow> 0 < t) then Inr (True, None)
            else if check_localization_map (sr_disk q) (mi_map_directory mi) \<noteq> None then Inr (True, None)
            else Inr (False, Some mi))))"

definition start_service :: "start_request \<Rightarrow> env \<Rightarrow> manager \<Rightarrow> manager \<times> bool" where
  "start_service q e m = (case start_precheck q m of
     Inl _ \<Rightarrow> (m\<lparr>m_down := True\<rparr>, False)
   | Inr (True, _) \<Rightarrow> (publish_decision ''human_request'' ''TR-05'' m, False)
   | Inr (False, mi) \<Rightarrow> request ''start_autonomy'' e (m\<lparr>m_pending := Some mi\<rparr>))"

section \<open>Callbacks\<close>

definition on_estimator :: "int \<Rightarrow> real \<Rightarrow> real \<Rightarrow> manager \<Rightarrow> manager" where
  "on_estimator state stamp now m =
     (let m = m\<lparr>m_estimator_rx := Some now, m_client := on_estimator_status state stamp (m_client m)\<rparr>
      in if state \<noteq> STATE_NORMAL then estimator_pause m else m)"

definition check_estimator_timeout :: "real \<Rightarrow> manager \<Rightarrow> manager" where
  "check_estimator_timeout now m = (case m_timeout m of
     None \<Rightarrow> m
   | Some limit \<Rightarrow>
       if 0 < limit \<and> (case m_estimator_rx m of None \<Rightarrow> True | Some rx \<Rightarrow> limit < now - rx) then estimator_pause m else m)"

definition try_release :: "manager \<Rightarrow> manager" where
  "try_release m =
     (if st_mode (m_state m) \<noteq> AUTONOMY \<or> \<not> m_goal_active m \<or> m_released m then m
      else if speed_limit_application_state (m_state m) \<noteq> SL_APPLIED \<or> \<not> keepout_confirmed (m_client m) then m
      else publish_state (publish_decision ''motion_hold_released'' ''TR-05'' (m\<lparr>m_released := True\<rparr>)))"

definition on_speed_state :: "string \<Rightarrow> manager \<Rightarrow> manager" where
  "on_speed_state state m =
     (if st_mode (m_state m) \<noteq> AUTONOMY then m
      else try_release (if state \<noteq> speed_limit_application_state (m_state m)
        then update_fields (\<lambda>s. s\<lparr>speed_limit_application_state := state\<rparr>)
               (publish_decision ''speed_limit_application_state'' ''TR-05'' m)
        else m))"

definition speed_state :: "manager \<Rightarrow> manager" where
  "speed_state m = (case client_speed_state (m_client m) of
     Inl _ \<Rightarrow> m\<lparr>m_down := True\<rparr> | Inr state \<Rightarrow> on_speed_state state m)"

definition on_keepout :: "manager \<Rightarrow> manager" where
  "on_keepout m =
     (if st_mode (m_state m) \<noteq> AUTONOMY then m
      else let c = m_client m; key = (keepout_confirmed c, c_keepout_state c, c_keepout_info c) in
        try_release (if m_keepout_last m \<noteq> Some key
          then publish_decision (if keepout_confirmed c then ''keepout_mask_confirmed'' else ''keepout_mask_not_confirmed'') ''TR-05''
                 (m\<lparr>m_keepout_last := Some key\<rparr>)
          else m))"

definition on_nav_feedback :: "int \<Rightarrow> manager \<Rightarrow> manager" where
  "on_nav_feedback remaining m =
     (if st_mode (m_state m) \<noteq> AUTONOMY then m
      else let c = m_client m; section = section_from_feedback (c_goal_offset c) (c_goal_poses c) remaining;
               m = m\<lparr>m_next_offset := remaining_offset (c_goal_offset c) (c_goal_poses c) remaining\<rparr>;
               total = (case m_mission m of None \<Rightarrow> 0 | Some mi \<Rightarrow> int (length (mi_waypoints mi)));
               left = total - m_next_offset m in
        if (section, left) \<noteq> (current_section (m_state m), remaining_waypoints (m_state m))
        then update_fields (\<lambda>s. s\<lparr>current_section := section, remaining_waypoints := left\<rparr>)
               (if section - current_section (m_state m) - 1 > 0 then publish_decision ''sections_skipped'' ''TR-05'' m else m)
        else m)"

definition feedback :: "real \<times> real \<Rightarrow> int \<Rightarrow> manager \<Rightarrow> manager" where
  "feedback robot remaining m =
     speed_state (on_nav_feedback remaining (m\<lparr>m_client := (m_client m)\<lparr>c_robot := Some robot\<rparr>\<rparr>))"

datatype goal_status = Succeeded | Canceled | Aborted int \<comment> \<open>with the error code\<close>

definition on_nav_result :: "code_table \<Rightarrow> goal_status \<Rightarrow> manager \<Rightarrow> manager" where
  "on_nav_result table status m =
     (let m = m\<lparr>m_goal_active := False\<rparr> in
      case status of
        Succeeded \<Rightarrow>
          (let m = (case m_mission m of None \<Rightarrow> m | Some mi \<Rightarrow> m\<lparr>m_next_offset := int (length (mi_waypoints mi)) - 1\<rparr>) in
           case automatic_pause (m_state m) ''TR-08'' STOP_GOAL_REACHED 1 of
             None \<Rightarrow> m
           | Some new \<Rightarrow> set_state new (publish_decision ''goal_reached'' ''TR-08'' (m\<lparr>m_released := False\<rparr>)))
      | Canceled \<Rightarrow> publish_decision ''nav2_goal_ended'' '''' m
      | Aborted code \<Rightarrow> auto_pause ''TR-07'' (fst (nav2_failure_reason code table)) m)"

text \<open>\<^verbatim>\<open>AutonomyClient._result\<close>: only the goal the client holds is reported.\<close>

definition nav_result :: "code_table \<Rightarrow> nat \<Rightarrow> goal_status \<Rightarrow> manager \<Rightarrow> manager" where
  "nav_result table g status m =
     (if g \<notin> set (c_watched (m_client m)) \<or> c_goal (m_client m) \<noteq> Some g then m
      else on_nav_result table status (m\<lparr>m_client := (m_client m)\<lparr>c_goal := None\<rparr>\<rparr>))"

definition finish_conversion_result :: "bool \<Rightarrow> manager \<Rightarrow> manager" where
  "finish_conversion_result ok m =
     (let m = publish_decision (if ok then ''map_converted'' else ''map_convert_failed'') ''TR-04'' m in
      if processing_state (m_state m) = ''map_converting'' then set_processing ''idle'' m else m)"

section \<open>The workers\<close>

definition job_done :: "nat \<Rightarrow> work list \<Rightarrow> manager \<Rightarrow> manager" where
  "job_done i ws m = m\<lparr>m_jobs := (m_jobs m)[i := (m_jobs m ! i)\<lparr>j_work := ws\<rparr>]\<rparr>"

text \<open>An act of the client for job \<open>i\<close>, whose rest is \<open>ws\<close>: the exceptions as \<^verbatim>\<open>_run_steps\<close> treats them.\<close>

definition step_failed :: "nat \<Rightarrow> step_error \<Rightarrow> manager \<Rightarrow> manager" where
  "step_failed i err m =
     (let j = m_jobs m ! i; m = job_done i [] m in
      if \<not> j_guarded j \<or> j_token j \<noteq> c_token (m_client m) then m
      else auto_pause ''TR-07'' (if err = Estimator_unavailable then STOP_ESTIMATOR else STOP_NODE_FAILURE) m)"

definition client_work :: "nat \<Rightarrow> client_act \<Rightarrow> work list \<Rightarrow> reply \<Rightarrow> manager \<Rightarrow> manager" where
  "client_work i act ws r m =
     (let j = m_jobs m ! i in
      case client_step (j_token j) act r (m_client m) of
        Next c acts events \<Rightarrow> job_done i (map Act acts @ ws) (publish_decisions events (j_tid j) (m\<lparr>m_client := c\<rparr>))
      | Failed c err \<Rightarrow> step_failed i err (m\<lparr>m_client := c\<rparr>)
      | Abandoned c \<Rightarrow>
          job_done i [] ((if j_guarded j then publish_decision ''autonomy_start_abandoned'' (j_tid j) else id) (m\<lparr>m_client := c\<rparr>)))"

definition start_odometry :: "nat \<Rightarrow> work list \<Rightarrow> bool \<Rightarrow> manager \<Rightarrow> manager" where
  "start_odometry i ws ok m =
     (if m_glim_odom m then job_done i ws (publish_decision ''odometry_running'' (j_tid (m_jobs m ! i)) m)
      else if ok then job_done i ws (publish_decision ''odometry_started'' (j_tid (m_jobs m ! i)) (m\<lparr>m_glim_odom := True\<rparr>))
      else step_failed i Step_failed m)"

definition stop_odometry :: "bool \<Rightarrow> string \<Rightarrow> manager \<Rightarrow> manager" where
  "stop_odometry ok tid m =
     (if \<not> m_glim_odom m then m
      else if ok then publish_decision ''odometry_stopped'' tid (m\<lparr>m_glim_odom := False\<rparr>)
      else publish_decision ''odometry_stop_failed'' tid m)"

text \<open>\<^verbatim>\<open>_finish_mapping\<close> after \<^verbatim>\<open>map_saving\<close>: GLIM has stopped (or stopping it raised).\<close>

definition finish_mapping :: "reply \<Rightarrow> manager \<Rightarrow> manager" where
  "finish_mapping r m = (case r of
     Map_saved dump_ok registered server \<Rightarrow>
       (let m = publish_decisions ([''mapping_stopped'', ''gnss_record_stopped'']
                @ [if dump_ok \<and> registered then ''source_map_registered'' else ''source_map_not_registered'']
                @ (if dump_ok \<and> registered \<and> \<not> server then [''map_convert_not_started''] else [])) ''TR-04'' (m\<lparr>m_glim := False\<rparr>)
        in set_processing (if dump_ok \<and> registered \<and> server then ''map_converting'' else ''idle'') m)
   | _ \<Rightarrow> set_processing ''idle'' (publish_decisions
       [''mapping_stop_failed'', ''mapping_stopped'', ''gnss_record_stopped'', ''source_map_not_registered''] ''TR-04'' m))"

definition run_work :: "nat \<Rightarrow> reply \<Rightarrow> manager \<Rightarrow> manager" where
  "run_work i r m =
     (if length (m_jobs m) \<le> i then m
      else let j = m_jobs m ! i in
      case j_work j of
        [] \<Rightarrow> m
      | w # ws \<Rightarrow>
         (case w of
            Act act \<Rightarrow> client_work i act ws r m
          | Auto_record kind \<Rightarrow> job_done i ws (request_auto_record kind (r \<noteq> Not_ready) (j_tid j) m)
          | Start_odometry \<Rightarrow> start_odometry i ws (r = Success True) m
          | Goal_started \<Rightarrow> job_done i ws (if j_token j = c_token (m_client m) then m\<lparr>m_goal_active := True\<rparr> else m)
          | Stop_odometry \<Rightarrow> job_done i ws (stop_odometry (r = Success True) (j_tid j) m)
          | Map_saving \<Rightarrow> job_done i ws (set_processing ''map_saving'' m)
          | Map_save \<Rightarrow> job_done i ws (finish_mapping r m)))"

section \<open>Events\<close>

datatype event =
    Service string env
  | Start_service start_request env
  | Work nat reply
  | Estimator int real real
  | Estimator_timer real
  | Feedback "real \<times> real" int
  | Nav_result code_table nat goal_status
  | Speed_limit xfloat
  | Mask mask_grid
  | Filter_info
  | Keepout_mask string "int \<times> int"
  | Keepout_info int bool xfloat xfloat
  | Conversion_result bool
  | Glim_exited
  | Odometry_exited

fun handle :: "event \<Rightarrow> manager \<Rightarrow> manager" where
  "handle (Service event e) m = (if event = ''start_autonomy'' then m else fst (request event e m))"
| "handle (Start_service q e) m = fst (start_service q e m)"
| "handle (Work i r) m = run_work i r m"
| "handle (Estimator state stamp now) m = on_estimator state stamp now m"
| "handle (Estimator_timer now) m = check_estimator_timeout now m"
| "handle (Feedback robot remaining) m = feedback robot remaining m"
| "handle (Nav_result table g status) m = nav_result table g status m"
| "handle (Speed_limit l) m = speed_state (m\<lparr>m_client := (m_client m)\<lparr>c_limit := Some l\<rparr>\<rparr>)"
| "handle (Mask g) m = speed_state (m\<lparr>m_client := (m_client m)\<lparr>c_mask := Some g\<rparr>\<rparr>)"
| "handle Filter_info m = speed_state (m\<lparr>m_client := (m_client m)\<lparr>c_info := True\<rparr>\<rparr>)"
| "handle (Keepout_mask sha dims) m = (let (c, report) = on_keepout_mask sha dims (m_client m); m = m\<lparr>m_client := c\<rparr>
     in if report then on_keepout m else m)"
| "handle (Keepout_info kind topic base mult) m =
     (let (c, report) = on_keepout_info kind topic base mult (m_client m); m = m\<lparr>m_client := c\<rparr>
      in if report then on_keepout m else m)"
| "handle (Conversion_result ok) m = finish_conversion_result ok m"
| "handle Glim_exited m = (if m_glim m then publish_decision ''glim_exited'' ''TR-14'' (m\<lparr>m_glim := False\<rparr>) else m)"
| "handle Odometry_exited m = m\<lparr>m_glim_odom := False\<rparr>"

definition manager_step :: "manager \<Rightarrow> event \<Rightarrow> manager" where
  "manager_step m e = (if m_down m then m else handle e m)"

end
