(* ===== verification/Mode_Safety.thy ===== *)
theory Mode_Safety
  imports Mode_Manager
begin

text \<open>
  What the mode manager promises: the invariant of its state (the published hold, the persisted
  record, the revisions), its refinement of the mode transitions of the design, and the interfaces of
  \<open>Contracts\<close> interpreted on it.
\<close>

section \<open>The invariant\<close>

text \<open>
  The hold is released only in autonomy; what was published last is the current state with its hold;
  the persisted record has the mode, the human's operation and the run of the current state, and a
  revision that is not above it; the published revisions do not decrease.
\<close>

definition record_current :: "prev_record \<Rightarrow> mode_state \<Rightarrow> bool" where
  "record_current r s \<longleftrightarrow> rec_mode r = st_mode s \<and> rec_human r = human_pause_or_end_recorded s \<and> rec_run_id r = run_id s
     \<and> rec_revision r \<le> state_revision s"

definition pubs_ordered :: "manager \<Rightarrow> bool" where
  "pubs_ordered m \<longleftrightarrow> (\<forall>p \<in> set (m_pubs m). state_revision (fst p) \<le> state_revision (m_state m))
     \<and> sorted_wrt (\<lambda>p q. state_revision (fst q) \<le> state_revision (fst p)) (m_pubs m)"

definition pubs_hold :: "manager \<Rightarrow> bool" where
  "pubs_hold m \<longleftrightarrow> (\<forall>p \<in> set (m_pubs m). snd p \<or> st_mode (fst p) = AUTONOMY)"

definition manager_core :: "manager \<Rightarrow> bool" where
  "manager_core m \<longleftrightarrow> record_current (m_saved m) (m_state m) \<and> pubs_ordered m \<and> pubs_hold m"

definition manager_inv :: "manager \<Rightarrow> bool" where
  "manager_inv m \<longleftrightarrow> manager_core m \<and> (m_released m \<longrightarrow> st_mode (m_state m) = AUTONOMY)
     \<and> (\<exists>ps. m_pubs m = (m_state m, hold_of m) # ps)"

text \<open>The parts of the state the invariant speaks about.\<close>

definition same_face :: "manager \<Rightarrow> manager \<Rightarrow> bool" where
  "same_face m m' \<longleftrightarrow> m_state m' = m_state m \<and> m_saved m' = m_saved m \<and> m_pubs m' = m_pubs m \<and> m_released m' = m_released m"

lemma same_face_core: "same_face m m' \<Longrightarrow> manager_core m' = manager_core m"
  by (simp add: same_face_def manager_core_def pubs_ordered_def pubs_hold_def)

lemma same_face_inv: "same_face m m' \<Longrightarrow> manager_inv m' = manager_inv m"
  using same_face_core [of m m'] by (simp add: manager_inv_def same_face_def hold_of_def)

lemma same_face_refl [simp]: "same_face m m"
  by (simp add: same_face_def)

lemma same_face_trans: "same_face a b \<Longrightarrow> same_face b c \<Longrightarrow> same_face a c"
  by (simp add: same_face_def)

section \<open>One handler\<close>

text \<open>What any callback other than a human request, and any act of a worker, does.\<close>

definition evolves :: "manager \<Rightarrow> manager \<Rightarrow> bool" where
  "evolves m m' \<longleftrightarrow> (manager_inv m \<longrightarrow> manager_inv m')
     \<and> (m_state m' = m_state m \<or> state_revision (m_state m) < state_revision (m_state m'))
     \<and> (st_mode (m_state m') = st_mode (m_state m) \<or> st_mode (m_state m) = AUTONOMY \<and> st_mode (m_state m') = PAUSE)"

lemma evolves_face: "same_face m m' \<Longrightarrow> evolves m m'"
  using same_face_inv [of m m'] by (simp add: evolves_def same_face_def)

lemma evolves_refl [simp]: "evolves m m"
  by (simp add: evolves_def)

lemma evolves_trans: "evolves a b \<Longrightarrow> evolves b c \<Longrightarrow> evolves a c"
  unfolding evolves_def by auto

lemma evolves_after: "same_face a b \<Longrightarrow> evolves b c \<Longrightarrow> evolves a c"
  using evolves_trans evolves_face by blast

lemma evolves_before: "evolves a b \<Longrightarrow> same_face b c \<Longrightarrow> evolves a c"
  using evolves_trans evolves_face by blast

lemma faces [simp]:
  "same_face m (publish_decision e t m)"
  "same_face m (publish_decisions es t m)"
  "same_face m (spawn j m)"
  "same_face m (request_auto_record k r t m)"
  "same_face m (job_done i ws m)"
  "same_face m (stop_odometry ok t m)"
  "same_face m (m\<lparr>m_client := c\<rparr>)"
  "same_face m (m\<lparr>m_down := True\<rparr>)"
  "same_face m (m\<lparr>m_goal_active := b\<rparr>)"
  "same_face m (m\<lparr>m_glim := b\<rparr>)"
  "same_face m (m\<lparr>m_glim_odom := b\<rparr>)"
  "same_face m (m\<lparr>m_next_offset := n\<rparr>)"
  by (simp_all add: same_face_def publish_decision_def publish_decisions_def spawn_def request_auto_record_def
      job_done_def stop_odometry_def)

text \<open>Publishing a new state.\<close>

lemma inv_set_state:
  assumes "manager_core m" "state_revision (m_state m) < state_revision new" "m_released m \<Longrightarrow> st_mode new = AUTONOMY"
  shows "manager_inv (set_state new m)"
proof -
  have old: "\<forall>p \<in> set (m_pubs m). state_revision (fst p) \<le> state_revision new"
    using assms(1,2) by (auto simp: manager_core_def pubs_ordered_def)
  have "record_current (record_of_state new) new" by (simp add: record_current_def record_of_state_def)
  with assms old show ?thesis
    by (auto simp: manager_inv_def manager_core_def set_state_def publish_state_def pubs_ordered_def pubs_hold_def hold_of_def)
qed

lemma inv_update_fields:
  assumes "manager_inv m" "\<And>s. st_mode (f s) = st_mode s" "\<And>s. human_pause_or_end_recorded (f s) = human_pause_or_end_recorded s"
    "\<And>s. run_id (f s) = run_id s"
  shows "manager_inv (update_fields f m)"
proof -
  have old: "\<forall>p \<in> set (m_pubs m). state_revision (fst p) \<le> state_revision (m_state m) + 1"
    using assms(1) by (auto simp: manager_inv_def manager_core_def pubs_ordered_def)
  with assms show ?thesis
    by (auto simp: manager_inv_def manager_core_def record_current_def update_fields_def publish_state_def pubs_ordered_def
        pubs_hold_def hold_of_def)
qed

lemma evolves_update_fields:
  assumes "\<And>s. st_mode (f s) = st_mode s" "\<And>s. human_pause_or_end_recorded (f s) = human_pause_or_end_recorded s"
    "\<And>s. run_id (f s) = run_id s"
  shows "evolves m (update_fields f m)"
  using inv_update_fields [of m f] assms by (auto simp: evolves_def update_fields_def publish_state_def)

lemma evolves_set_processing [simp]: "evolves m (set_processing p m)"
  unfolding set_processing_def by (rule evolves_update_fields) simp_all

lemma automatic_pause_Some:
  "automatic_pause s tid stop n = Some new \<Longrightarrow> st_mode s = AUTONOMY \<and> st_mode new = PAUSE
     \<and> state_revision new = state_revision s + 1"
  by (auto simp: automatic_pause_def split: if_split_asm)

lemma evolves_pause:
  assumes "automatic_pause (m_state m) tid stop n = Some new" "m_released m' = False"
    "m_state m' = m_state m" "m_saved m' = m_saved m" "m_pubs m' = m_pubs m"
  shows "evolves m (set_state new m')"
proof -
  note p = automatic_pause_Some [OF assms(1)]
  have "manager_core m' = manager_core m"
    using assms by (simp add: manager_core_def pubs_ordered_def pubs_hold_def)
  with p inv_set_state [of m' new] assms have "manager_inv m \<longrightarrow> manager_inv (set_state new m')"
    by (auto simp: manager_inv_def)
  with p show ?thesis by (simp add: evolves_def set_state_def publish_state_def)
qed

lemma evolves_auto_pause [simp]: "evolves m (auto_pause tid stop m)"
proof (cases "automatic_pause (m_state m) tid stop (remaining_waypoints (m_state m))")
  case None
  then show ?thesis by (simp add: auto_pause_def evolves_face)
next
  case (Some new)
  then show ?thesis
    unfolding auto_pause_def option.case by (auto simp: publish_decision_def intro: evolves_pause)
qed

lemma evolves_try_release [simp]: "evolves m (try_release m)"
  by (auto simp: evolves_def try_release_def publish_state_def publish_decision_def manager_inv_def manager_core_def
      record_current_def pubs_ordered_def pubs_hold_def hold_of_def)

section \<open>Every callback\<close>

lemma evolves_estimator_pause [simp]: "evolves m (estimator_pause m)"
proof -
  let ?m = "m\<lparr>m_client := new_token (m_client m)\<rparr>"
  have "evolves m (auto_pause ''TR-07'' STOP_ESTIMATOR ?m)"
    by (rule evolves_after [of m ?m]) simp_all
  then show ?thesis
    by (auto simp: estimator_pause_def Let_def intro: evolves_before)
qed

lemma evolves_on_estimator: "evolves m (on_estimator state stamp now m)"
proof -
  let ?m = "m\<lparr>m_estimator_rx := Some now, m_client := on_estimator_status state stamp (m_client m)\<rparr>"
  have f: "same_face m ?m" by (simp add: same_face_def)
  show ?thesis
    using evolves_face [OF f] evolves_after [OF f evolves_estimator_pause]
    by (cases "state = STATE_NORMAL") (simp_all add: on_estimator_def Let_def)
qed

lemma evolves_timer: "evolves m (check_estimator_timeout now m)"
  by (simp add: check_estimator_timeout_def split: option.split)

lemma evolves_on_speed_state: "evolves m (on_speed_state state m)"
proof -
  have "evolves m (update_fields (\<lambda>s. s\<lparr>speed_limit_application_state := state\<rparr>)
      (publish_decision ''speed_limit_application_state'' ''TR-05'' m))" (is "evolves m ?u")
    by (rule evolves_after [OF faces(1)]) (rule evolves_update_fields, simp_all)
  then have "evolves m (try_release ?u)" by (rule evolves_trans) simp
  then show ?thesis by (simp add: on_speed_state_def)
qed

lemma evolves_speed_state [simp]: "evolves m (speed_state m)"
  by (simp add: speed_state_def evolves_on_speed_state evolves_face split: sum.split)

lemma evolves_on_keepout [simp]: "evolves m (on_keepout m)"
proof -
  have "evolves m (try_release (publish_decision e t (m\<lparr>m_keepout_last := k\<rparr>)))" for e t k
    by (rule evolves_after [of m "publish_decision e t (m\<lparr>m_keepout_last := k\<rparr>)"])
      (simp_all add: same_face_def publish_decision_def)
  then show ?thesis by (simp add: on_keepout_def Let_def)
qed

lemma evolves_on_nav_feedback: "evolves m (on_nav_feedback remaining m)"
proof -
  have "evolves m (update_fields (\<lambda>s. s\<lparr>current_section := a, remaining_waypoints := b\<rparr>) (if q then publish_decision e t m' else m'))"
    if "same_face m m'" for a b q e t m'
    by (rule evolves_after [of m "if q then publish_decision e t m' else m'"])
      (use that in \<open>auto intro: same_face_trans evolves_update_fields\<close>)
  moreover have "same_face m (m\<lparr>m_next_offset := n\<rparr>)" for n by simp
  ultimately show ?thesis by (auto simp: on_nav_feedback_def Let_def intro: evolves_face)
qed

lemma evolves_feedback: "evolves m (feedback robot remaining m)"
proof -
  let ?m = "m\<lparr>m_client := (m_client m)\<lparr>c_robot := Some robot\<rparr>\<rparr>"
  have "evolves ?m (speed_state (on_nav_feedback remaining ?m))"
    by (rule evolves_trans [OF evolves_on_nav_feedback [of _ remaining]]) simp
  then show ?thesis unfolding feedback_def by (rule evolves_after [OF faces(7)])
qed

lemma evolves_on_nav_result: "evolves m (on_nav_result table status m)"
proof (cases status)
  case Succeeded
  let ?m = "case m_mission m of None \<Rightarrow> m\<lparr>m_goal_active := False\<rparr>
     | Some mi \<Rightarrow> m\<lparr>m_goal_active := False, m_next_offset := int (length (mi_waypoints mi)) - 1\<rparr>"
  have f: "same_face m ?m" by (simp add: same_face_def split: option.split)
  then have st: "m_state ?m = m_state m" by (simp add: same_face_def)
  show ?thesis
  proof (cases "automatic_pause (m_state m) ''TR-08'' STOP_GOAL_REACHED 1")
    case None
    with Succeeded f st show ?thesis
      by (auto simp: on_nav_result_def Let_def evolves_face same_face_def split: option.split)
  next
    case (Some new)
    have "evolves m (set_state new (publish_decision ''goal_reached'' ''TR-08'' (?m\<lparr>m_released := False\<rparr>)))"
      by (rule evolves_pause [OF Some]) (use f in \<open>simp_all add: publish_decision_def same_face_def\<close>)
    with Succeeded Some st show ?thesis by (simp add: on_nav_result_def Let_def split: option.splits)
  qed
next
  case Canceled
  have "evolves m (publish_decision ''nav2_goal_ended'' '''' (m\<lparr>m_goal_active := False\<rparr>))"
    by (rule evolves_face) (simp add: same_face_def publish_decision_def)
  with Canceled show ?thesis by (simp add: on_nav_result_def)
next
  case (Aborted code)
  have "evolves m (auto_pause ''TR-07'' r (m\<lparr>m_goal_active := False\<rparr>))" for r
    by (rule evolves_after [of m "m\<lparr>m_goal_active := False\<rparr>"]) simp_all
  with Aborted show ?thesis by (simp add: on_nav_result_def)
qed

lemma evolves_nav_result: "evolves m (nav_result table g status m)"
  using evolves_after [OF faces(7) evolves_on_nav_result] by (simp add: nav_result_def)

lemma evolves_conversion: "evolves m (finish_conversion_result ok m)"
  using evolves_after [OF faces(1) evolves_set_processing] evolves_face [OF faces(1)]
  by (simp add: finish_conversion_result_def Let_def)

section \<open>Every act of a worker\<close>

lemma evolves_step_failed: "same_face m m' \<Longrightarrow> evolves m (step_failed i err m')"
proof -
  assume f: "same_face m m'"
  then have f': "same_face m (job_done i [] m')" by (rule same_face_trans) simp
  show ?thesis
    using evolves_face [OF f'] evolves_after [OF f' evolves_auto_pause] by (simp add: step_failed_def Let_def)
qed

lemma evolves_client_work: "evolves m (client_work i act ws r m)"
proof (cases "client_step (j_token (m_jobs m ! i)) act r (m_client m)")
  case (Next c acts events)
  have "same_face m (job_done i (map Act acts @ ws) (publish_decisions events t (m\<lparr>m_client := c\<rparr>)))" for t
    by (rule same_face_trans [OF _ faces(5)], rule same_face_trans [OF faces(7) faces(2)])
  with Next show ?thesis by (simp add: client_work_def Let_def evolves_face)
next
  case (Failed c err)
  then show ?thesis by (simp add: client_work_def Let_def evolves_step_failed)
next
  case (Abandoned c)
  have "same_face m (job_done i [] ((if g then publish_decision e t else id) (m\<lparr>m_client := c\<rparr>)))" for g e t
    by (rule same_face_trans [OF _ faces(5)]) (simp add: same_face_def publish_decision_def)
  with Abandoned show ?thesis by (simp add: client_work_def Let_def evolves_face)
qed

lemma evolves_job_done: "evolves m m' \<Longrightarrow> evolves m (job_done i ws m')"
  by (erule evolves_before) simp

lemma evolves_finish_mapping: "evolves m (finish_mapping r m)"
proof -
  have "evolves m (set_processing p (publish_decisions es t (m\<lparr>m_glim := b\<rparr>)))" for p es t b
    by (rule evolves_after [of m "publish_decisions es t (m\<lparr>m_glim := b\<rparr>)"])
      (simp_all add: same_face_def publish_decisions_def)
  moreover have "evolves m (set_processing p (publish_decisions es t m))" for p es t
    by (rule evolves_after [of m "publish_decisions es t m"]) simp_all
  ultimately show ?thesis by (simp add: finish_mapping_def Let_def split: reply.split)
qed

lemma evolves_start_odometry: "evolves m (start_odometry i ws ok m)"
proof -
  have "same_face m (publish_decision e t (m\<lparr>m_glim_odom := True\<rparr>))" for e t
    by (simp add: same_face_def publish_decision_def)
  then show ?thesis
    by (auto simp: start_odometry_def intro: evolves_job_done evolves_face faces evolves_step_failed)
qed

lemma evolves_run_work: "evolves m (run_work i r m)"
proof (cases "length (m_jobs m) \<le> i \<or> j_work (m_jobs m ! i) = []")
  case True
  then show ?thesis by (auto simp: run_work_def Let_def)
next
  case False
  then obtain w ws where w: "\<not> length (m_jobs m) \<le> i" "j_work (m_jobs m ! i) = w # ws"
    by (cases "j_work (m_jobs m ! i)") auto
  show ?thesis
    unfolding run_work_def Let_def if_not_P [OF w(1)] w(2) list.case
    by (cases w) (simp_all add: evolves_client_work evolves_start_odometry evolves_job_done evolves_face evolves_finish_mapping)
qed

section \<open>Human requests\<close>

text \<open>What the actions of a transition leave, whether they are carried out or refused.\<close>

definition kept :: "string \<Rightarrow> manager \<Rightarrow> perform_result \<Rightarrow> bool" where
  "kept tid m res = (case res of
     Refused m' \<Rightarrow> same_face m m'
   | Raised m' \<Rightarrow> m' = m
   | Done m' f j \<Rightarrow> m_state m' = m_state m \<and> m_saved m' = m_saved m \<and> m_pubs m' = m_pubs m
       \<and> (m_released m' \<longrightarrow> m_released m \<and> tid \<in> {''TR-03'', ''TR-04''})
       \<and> (\<forall>s. st_mode (f s) = st_mode s \<and> state_revision (f s) = state_revision s))"

lemma kept_tr03: "kept ''TR-03'' m (tr03_start_mapping e m)"
proof -
  have f: "same_face m (publish_decision x ''TR-03'' (publish_decision y ''TR-03'' m))" for x y
    by (rule same_face_trans [OF faces(1) faces(1)])
  show ?thesis
    using f by (simp add: kept_def tr03_start_mapping_def Let_def publish_decision_def publish_decisions_def request_auto_record_def)
qed

lemma kept_tr04: "kept ''TR-04'' m (tr04_end_mapping e m)"
  by (simp add: kept_def tr04_end_mapping_def)

lemma kept_tr05: "kept tid m (tr05_start_autonomy e m)"
  by (simp add: kept_def tr05_start_autonomy_def Let_def split: option.split)

lemma kept_tr06: "kept tid m (tr06_pause m)"
  by (simp add: kept_def tr06_pause_def Let_def)

lemma kept_tr10: "kept tid m (tr10_resume e m)"
  by (simp add: kept_def tr10_resume_def Let_def split: option.split sum.split bool.split)

lemma kept_tr11: "kept tid m (tr11_12_end t m)"
  by (simp add: kept_def tr11_12_end_def Let_def)

lemma kept_perform: "kept tid m (perform tid e m)"
proof -
  have "kept tid m (Refused m)" by (simp add: kept_def)
  then show ?thesis unfolding perform_def by (simp add: kept_tr03 kept_tr04 kept_tr05 kept_tr06 kept_tr10 kept_tr11)
qed

lemma perform_Done:
  "perform tid e m = Done m' f j \<Longrightarrow> m_state m' = m_state m \<and> m_saved m' = m_saved m \<and> m_pubs m' = m_pubs m
     \<and> (m_released m' \<longrightarrow> m_released m \<and> tid \<in> {''TR-03'', ''TR-04''})
     \<and> (\<forall>s. st_mode (f s) = st_mode s \<and> state_revision (f s) = state_revision s)"
  using kept_perform [of tid m e] by (simp add: kept_def)

lemma perform_Refused: "perform tid e m = Refused m' \<Longrightarrow> same_face m m'"
  using kept_perform [of tid m e] by (simp add: kept_def)

lemma perform_Raised: "perform tid e m = Raised m' \<Longrightarrow> m' = m"
  using kept_perform [of tid m e] by (simp add: kept_def)

lemma request_new_state:
  assumes "new_state (request_transition ev s impl) = Some new"
  shows "human_edge ev (st_mode s) (st_mode new) (transition_id (request_transition ev s impl))
     \<and> new = accepted_state ev s (st_mode s) (st_mode new) \<and> state_revision new = state_revision s + 1"
  using assms by (cases rule: request_cases [of ev s impl]) (auto simp: accepted_simps)

definition answered :: "string \<Rightarrow> manager \<Rightarrow> manager \<Rightarrow> bool" where
  "answered ev m m' \<longleftrightarrow> (manager_inv m \<longrightarrow> manager_inv m')
     \<and> (m_state m' = m_state m \<or> state_revision (m_state m) < state_revision (m_state m'))
     \<and> (st_mode (m_state m') = st_mode (m_state m) \<or> (\<exists>tid. human_edge ev (st_mode (m_state m)) (st_mode (m_state m')) tid))"

lemma answered_face: "same_face m m' \<Longrightarrow> answered ev m m'"
  using same_face_inv [of m m'] by (simp add: answered_def same_face_def)

lemma answered_after: "same_face a b \<Longrightarrow> answered ev b c \<Longrightarrow> answered ev a c"
  using same_face_inv [of a b] by (simp add: answered_def same_face_def)

lemma released_not_manual:
  "manager_inv m \<Longrightarrow> m_released m \<Longrightarrow> human_edge ev (st_mode (m_state m)) t tid \<Longrightarrow> tid \<notin> {''TR-03'', ''TR-04''}"
  by (auto simp: manager_inv_def elim: human_edge.cases)

lemma answered_request: "answered ev m (fst (request ev e m))"
proof -
  let ?m = "if ev \<noteq> ''start_autonomy'' then m\<lparr>m_pending := None\<rparr> else m"
  let ?r = "request_transition ev (m_state ?m) IMPLEMENTED_TRANSITIONS"
  have f0: "same_face m ?m" by (simp add: same_face_def)
  have "answered ev ?m (fst (request ev e m))"
  proof (cases "new_state ?r")
    case None
    then have "fst (request ev e m) = publish_decision ''human_request'' (transition_id ?r) ?m"
      by (simp add: request_def Let_def)
    then show ?thesis by (simp only: answered_face [OF faces(1)])
  next
    case (Some new)
    note new = request_new_state [OF Some]
    show ?thesis
    proof (cases "perform (transition_id ?r) e ?m")
      case (Refused m')
      with Some have "fst (request ev e m) = publish_decision ''human_request'' (transition_id ?r) m'"
        by (simp add: request_def Let_def)
      with same_face_trans [OF perform_Refused [OF Refused] faces(1)] show ?thesis by (simp only: answered_face)
    next
      case (Raised m')
      with Some have "fst (request ev e m) = ?m\<lparr>m_down := True\<rparr>"
        using perform_Raised [OF Raised] by (simp add: request_def Let_def)
      then show ?thesis by (simp only: answered_face [OF faces(8)])
    next
      case (Done m' f j)
      note p = perform_Done [OF Done]
      let ?l = "publish_decision ''human_request'' (transition_id ?r) m'"
      from Some Done have res: "fst (request ev e m) = spawn j (set_state (f new) ?l)"
        by (simp add: request_def Let_def)
      have core: "manager_core ?l = manager_core ?m"
        using p by (simp add: publish_decision_def manager_core_def pubs_ordered_def pubs_hold_def)
      have "manager_inv (set_state (f new) ?l)" if "manager_inv ?m"
      proof (rule inv_set_state)
        show "manager_core ?l" using that core by (simp add: manager_inv_def)
        show "state_revision (m_state ?l) < state_revision (f new)" using p new by (simp add: publish_decision_def)
        assume "m_released ?l"
        with p have "m_released ?m" "transition_id ?r \<in> {''TR-03'', ''TR-04''}" by (auto simp: publish_decision_def)
        with released_not_manual [OF that this(1)] new show "st_mode (f new) = AUTONOMY" by blast
      qed
      then have inv: "manager_inv (spawn j (set_state (f new) ?l))" if "manager_inv ?m"
        using that same_face_inv [OF faces(3)] by blast
      have st: "m_state (spawn j (set_state (f new) ?l)) = f new" by (simp add: spawn_def set_state_def publish_state_def)
      show ?thesis unfolding res answered_def st using inv p new by auto
    qed
  qed
  with f0 show ?thesis by (rule answered_after)
qed

lemma answered_start: "answered ''start_autonomy'' m (fst (start_service q e m))"
proof (cases "start_precheck q m")
  case (Inl x)
  then show ?thesis using answered_face [OF faces(8)] by (simp add: start_service_def)
next
  case (Inr p)
  obtain refused mi where p: "p = (refused, mi)" by (cases p)
  have "same_face m (m\<lparr>m_pending := Some mi\<rparr>)" by (simp add: same_face_def)
  then have "answered ''start_autonomy'' m (fst (request ''start_autonomy'' e (m\<lparr>m_pending := Some mi\<rparr>)))"
    by (rule answered_after) (rule answered_request)
  with Inr p show ?thesis
    using answered_face [OF faces(1)] by (cases refused) (simp_all add: start_service_def)
qed

section \<open>Every event\<close>

text \<open>The mode transitions the design allows for an event.\<close>

fun mode_edge :: "event \<Rightarrow> mode \<Rightarrow> mode \<Rightarrow> bool" where
  "mode_edge (Service ev e) a b = (ev \<noteq> ''start_autonomy'' \<and> (\<exists>tid. human_edge ev a b tid))"
| "mode_edge (Start_service q e) a b = (\<exists>tid. human_edge ''start_autonomy'' a b tid)"
| "mode_edge ev a b = (a = AUTONOMY \<and> b = PAUSE)"

lemma evolves_observation: "evolves m (speed_state (m\<lparr>m_client := c\<rparr>))"
  by (rule evolves_after [of m "m\<lparr>m_client := c\<rparr>"]) simp_all

lemma evolves_keepout: "evolves m (let m = m\<lparr>m_client := c\<rparr> in if report then on_keepout m else m)"
  using evolves_after [OF faces(7) [of m c] evolves_on_keepout] evolves_face [OF faces(7) [of m c]] by (simp add: Let_def)

fun human_event :: "event \<Rightarrow> bool" where
  "human_event (Service ev e) = True"
| "human_event (Start_service q e) = True"
| "human_event _ = False"

lemma evolves_handle: "\<not> human_event ev \<Longrightarrow> evolves m (handle ev m)"
  by (cases ev) (simp_all add: evolves_run_work evolves_on_estimator evolves_timer evolves_feedback evolves_nav_result
      evolves_observation evolves_conversion evolves_keepout evolves_face same_face_def publish_decision_def
      split: prod.split)

lemma mode_edge_auto: "\<not> human_event ev \<Longrightarrow> mode_edge ev AUTONOMY PAUSE"
  by (cases ev) simp_all

lemma manager_step_cases:
  "(manager_inv m \<longrightarrow> manager_inv (manager_step m ev))
   \<and> (m_state (manager_step m ev) = m_state m \<or> state_revision (m_state m) < state_revision (m_state (manager_step m ev)))
   \<and> (st_mode (m_state (manager_step m ev)) = st_mode (m_state m)
       \<or> mode_edge ev (st_mode (m_state m)) (st_mode (m_state (manager_step m ev))))"
proof (cases "human_event ev")
  case True
  then show ?thesis
  proof (cases ev)
    case (Service n e)
    then show ?thesis using answered_request [of n m e] by (auto simp: manager_step_def answered_def)
  next
    case (Start_service q e)
    then show ?thesis using answered_start [of m q e] by (auto simp: manager_step_def answered_def)
  qed simp_all
next
  case False
  from evolves_handle [OF this, of m] mode_edge_auto [OF this] show ?thesis
    by (auto simp: manager_step_def evolves_def)
qed

lemma inv_boot: "manager_inv (manager_at d timeout)"
  by (auto simp: manager_at_def manager_inv_def manager_core_def record_current_def pubs_ordered_def pubs_hold_def hold_of_def
      publish_state_def publish_decision_def record_after_boot_def record_of_state_def)

definition booted :: "manager \<Rightarrow> bool" where
  "booted m \<longleftrightarrow> (\<exists>r timeout. m = manager_at (decide_boot r) timeout)"

text \<open>The interfaces on the manager: its invariant, the revision as a counter of the published state, and the
  mode transitions as the abstract system it refines.\<close>

interpretation mm: event_system booted manager_step manager_inv
proof
  show "booted s \<Longrightarrow> manager_inv s" for s by (auto simp: booted_def inv_boot)
  show "manager_inv s \<Longrightarrow> manager_inv (manager_step s e)" for s e using manager_step_cases by blast
qed

interpretation mm_rev: monotone_counter booted manager_step manager_inv "\<lambda>m. state_revision (m_state m)" m_state
proof
  show "state_revision (m_state s) \<le> state_revision (m_state (manager_step s e))" for s e
    using manager_step_cases [of s e] by auto
  show "state_revision (m_state (manager_step s e)) = state_revision (m_state s) \<Longrightarrow> m_state (manager_step s e) = m_state s" for s e
    using manager_step_cases [of s e] by auto
qed

interpretation mm_modes: refines_edges booted manager_step manager_inv "\<lambda>m. st_mode (m_state m)" mode_edge
proof
  show "st_mode (m_state (manager_step s e)) = st_mode (m_state s)
      \<or> mode_edge e (st_mode (m_state s)) (st_mode (m_state (manager_step s e)))" for s e
    using manager_step_cases by blast
qed

end
