(* ===== verification/Mode_Properties.thy ===== *)
theory Mode_Properties
  imports Mode_Safety
begin

text \<open>
  The properties of the mode manager: the hold on the vehicle, what releases it, who can start a
  drive, what a restart finds, and two interleavings of a worker with a callback.
\<close>

section \<open>Release of the hold\<close>

lemma released_simps [simp]:
  "m_released (publish_state m) = m_released m"
  "m_released (publish_decision e t m) = m_released m"
  "m_released (publish_decisions es t m) = m_released m"
  "m_released (set_state s m) = m_released m"
  "m_released (update_fields f m) = m_released m"
  "m_released (set_processing p m) = m_released m"
  "m_released (spawn j m) = m_released m"
  "m_released (request_auto_record k r t m) = m_released m"
  "m_released (job_done i ws m) = m_released m"
  "m_released (stop_odometry ok t m) = m_released m"
  by (simp_all add: publish_state_def publish_decision_def publish_decisions_def set_state_def update_fields_def
      set_processing_def spawn_def request_auto_record_def job_done_def stop_odometry_def)

text \<open>Callbacks that never release.\<close>

lemma released_auto_pause: "m_released (auto_pause tid stop m) \<Longrightarrow> m_released m"
  by (simp add: auto_pause_def split: option.split_asm)

lemma released_estimator_pause: "m_released (estimator_pause m) \<Longrightarrow> m_released m"
  by (auto simp: estimator_pause_def Let_def dest: released_auto_pause split: if_split_asm)

lemma released_step_failed: "m_released (step_failed i err m) \<Longrightarrow> m_released m"
  by (auto simp: step_failed_def Let_def dest: released_auto_pause split: if_split_asm)

lemma released_client_work: "m_released (client_work i act ws r m) \<Longrightarrow> m_released m"
  by (auto simp: client_work_def Let_def dest: released_step_failed split: outcome.split_asm if_split_asm)

lemma released_run_work: "m_released (run_work i r m) \<Longrightarrow> m_released m"
  by (auto simp: run_work_def Let_def start_odometry_def finish_mapping_def
      dest!: released_client_work released_step_failed
      split: if_split_asm list.split_asm work.split_asm reply.split_asm)

lemma released_on_nav_result: "m_released (on_nav_result table status m) \<Longrightarrow> m_released m"
  by (auto simp: on_nav_result_def Let_def dest: released_auto_pause
      split: goal_status.split_asm option.split_asm)

lemma released_nav_result: "m_released (nav_result table g status m) \<Longrightarrow> m_released m"
  by (auto simp: nav_result_def dest: released_on_nav_result split: if_split_asm)

lemma released_on_nav_feedback [simp]: "m_released (on_nav_feedback remaining m) = m_released m"
  by (simp add: on_nav_feedback_def Let_def)

lemma released_request: "m_released (fst (request ev e m)) \<Longrightarrow> m_released m"
proof -
  assume r: "m_released (fst (request ev e m))"
  let ?m = "if ev \<noteq> ''start_autonomy'' then m\<lparr>m_pending := None\<rparr> else m"
  have "m_released ?m"
  proof (cases "new_state (request_transition ev (m_state ?m) IMPLEMENTED_TRANSITIONS)")
    case None
    with r show ?thesis by (simp add: request_def Let_def split: if_split_asm)
  next
    case (Some new)
    with r kept_perform [of "transition_id (request_transition ev (m_state ?m) IMPLEMENTED_TRANSITIONS)" ?m e]
    show ?thesis
      by (cases "perform (transition_id (request_transition ev (m_state ?m) IMPLEMENTED_TRANSITIONS)) e ?m")
        (simp_all add: request_def Let_def kept_def same_face_def split: if_split_asm)
  qed
  then show ?thesis by (simp split: if_split_asm)
qed

lemma released_start: "m_released (fst (start_service q e m)) \<Longrightarrow> m_released m"
  by (auto simp: start_service_def dest: released_request split: sum.split_asm prod.split_asm bool.split_asm)

text \<open>The conditions of a release.\<close>

definition may_release :: "manager \<Rightarrow> bool" where
  "may_release m \<longleftrightarrow> st_mode (m_state m) = AUTONOMY \<and> m_goal_active m
     \<and> speed_limit_application_state (m_state m) = SL_APPLIED \<and> keepout_confirmed (m_client m)"

lemma released_try_release: "m_released (try_release m) \<Longrightarrow> m_released m \<or> may_release (try_release m)"
  by (auto simp: try_release_def may_release_def publish_state_def publish_decision_def split: if_split_asm)

lemma released_speed_state: "m_released (speed_state m) \<Longrightarrow> m_released m \<or> may_release (speed_state m)"
proof -
  assume r: "m_released (speed_state m)"
  show ?thesis
  proof (cases "client_speed_state (m_client m)")
    case (Inl x)
    with r show ?thesis by (simp add: speed_state_def)
  next
    case (Inr state)
    with r show ?thesis
      using released_try_release [of "update_fields (\<lambda>s. s\<lparr>speed_limit_application_state := state\<rparr>)
          (publish_decision ''speed_limit_application_state'' ''TR-05'' m)"] released_try_release [of m]
      by (auto simp: speed_state_def on_speed_state_def split: if_split_asm)
  qed
qed

lemma released_on_keepout: "m_released (on_keepout m) \<Longrightarrow> m_released m \<or> may_release (on_keepout m)"
  using released_try_release [of m]
    released_try_release [of "publish_decision (if keepout_confirmed (m_client m) then ''keepout_mask_confirmed''
       else ''keepout_mask_not_confirmed'') ''TR-05''
       (m\<lparr>m_keepout_last := Some (keepout_confirmed (m_client m), c_keepout_state (m_client m), c_keepout_info (m_client m))\<rparr>)"]
  by (auto simp: on_keepout_def Let_def split: if_split_asm)

lemma released_handle: "m_released (handle ev m) \<Longrightarrow> m_released m \<or> may_release (handle ev m)"
proof (cases ev)
  case (Work i r)
  assume "m_released (handle ev m)"
  with Work released_run_work show ?thesis by auto
next
  case (Estimator state stamp now)
  assume "m_released (handle ev m)"
  with Estimator show ?thesis by (auto simp: on_estimator_def Let_def dest: released_estimator_pause split: if_split_asm)
next
  case (Estimator_timer now)
  assume "m_released (handle ev m)"
  with Estimator_timer show ?thesis
    by (auto simp: check_estimator_timeout_def dest: released_estimator_pause split: if_split_asm option.split_asm)
next
  case (Feedback robot remaining)
  assume "m_released (handle ev m)"
  with Feedback show ?thesis by (auto simp: feedback_def dest: released_speed_state)
next
  case (Keepout_mask sha dims)
  assume r: "m_released (handle ev m)"
  obtain c report where c: "on_keepout_mask sha dims (m_client m) = (c, report)" by fastforce
  from r released_on_keepout [of "m\<lparr>m_client := c\<rparr>"] show ?thesis by (cases report) (auto simp: Keepout_mask c Let_def)
next
  case (Keepout_info kind topic base mult)
  assume r: "m_released (handle ev m)"
  obtain c report where c: "on_keepout_info kind topic base mult (m_client m) = (c, report)" by fastforce
  from r released_on_keepout [of "m\<lparr>m_client := c\<rparr>"] show ?thesis by (cases report) (auto simp: Keepout_info c Let_def)
qed (auto simp: finish_conversion_result_def Let_def dest: released_request released_start released_nav_result released_speed_state
    split: if_split_asm)

section \<open>Properties\<close>



text \<open>C2. The vehicle is released only under all conditions of the design: in the step that raises the release
  flag the mode is autonomy, a Nav2 goal is active, the speed limit state is "applied", and the
  keep-out mask and its filter info have been confirmed against the mission.\<close>

theorem release_needs_all_conditions:
  assumes "\<not> m_released m" and "m_released (manager_step m ev)"
  shows "st_mode (m_state (manager_step m ev)) = AUTONOMY \<and> m_goal_active (manager_step m ev)
     \<and> speed_limit_application_state (m_state (manager_step m ev)) = SL_APPLIED
     \<and> c_keepout_state (m_client (manager_step m ev)) = Some Match \<and> c_keepout_info (m_client (manager_step m ev))"
proof -
  from assms have "manager_step m ev = handle ev m" by (auto simp: manager_step_def split: if_split_asm)
  with assms released_handle [of ev m] show ?thesis by (auto simp: may_release_def keepout_confirmed_def)
qed

definition sample_driving :: manager where
  "sample_driving = (manager_at (decide_boot None) (Some 1))\<lparr>m_state := (fresh_state AUTONOMY)\<lparr>speed_limit_application_state := SL_APPLIED\<rparr>,
     m_goal_active := True, m_client := new_client\<lparr>c_keepout_expected := Some (''k'', 1, 1), c_keepout_info := True\<rparr>\<rparr>"

theorem release_needs_all_conditions_witness:
  "m_released (manager_step sample_driving (Keepout_mask ''k'' (1, 1)))
   \<and> c_keepout_state (m_client (manager_step sample_driving (Keepout_mask ''k'' (1, 1)))) = Some Match"
proof -
  have "\<not> m_released sample_driving \<and> m_released (manager_step sample_driving (Keepout_mask ''k'' (1, 1)))"
    unfolding manager_step_def handle.simps by code_simp
  with release_needs_all_conditions [of sample_driving "Keepout_mask ''k'' (1, 1)"] show ?thesis by blast
qed

text \<open>C3. Only a human starts a drive: from any reachable state outside autonomy, a run in which no autonomy
  start and no resume is requested never enters autonomy, and the hold stays on.\<close>

theorem drive_needs_human:
  assumes "manager_boot fmt parse record_file timeout = Inr m0" and "m = run manager_step m0 before"
    and "st_mode (m_state m) \<noteq> AUTONOMY"
    and "\<forall>ev \<in> set events. (\<forall>q e. ev \<noteq> Start_service q e) \<and> (\<forall>e. ev \<noteq> Service ''resume'' e)"
  shows "st_mode (m_state (run manager_step m events)) \<noteq> AUTONOMY \<and> hold_of (run manager_step m events)"
proof -
  from assms(1) have "booted m0" by (auto simp: manager_boot_def booted_def)
  then have inv: "manager_inv m" unfolding assms(2) by (rule mm.inv_reachable)
  have "b \<noteq> AUTONOMY" if "ev \<in> set events" "a \<noteq> AUTONOMY" "mode_edge ev a b" for ev a b
  proof -
    from that(1) assms(4) have "(\<forall>q e. ev \<noteq> Start_service q e) \<and> (\<forall>e. ev \<noteq> Service ''resume'' e)" by blast
    with that(2,3) show ?thesis by (cases ev) (auto elim: human_edge.cases)
  qed
  then have "st_mode (m_state (run manager_step m events)) \<noteq> AUTONOMY"
    using mm_modes.stays [OF inv, of "\<lambda>a. a \<noteq> AUTONOMY" events] assms(3) by blast
  then show ?thesis by (simp add: hold_of_def)
qed

theorem drive_needs_human_witness:
  "\<exists>m0. manager_boot (\<lambda>_. []) (\<lambda>_. None) Unreadable None = Inr m0
     \<and> hold_of (run manager_step m0 [Speed_limit (Fin 1), Conversion_result True])"
proof -
  obtain m0 where m0: "manager_boot (\<lambda>_. []) (\<lambda>_. None) Unreadable None = Inr m0" by (simp add: manager_boot_def)
  then have m0': "m0 = manager_at (decide_boot None) None" by (simp add: manager_boot_def)
  have "st_mode (m_state m0) \<noteq> AUTONOMY"
    by (simp add: m0' manager_at_def decide_boot_def fresh_state_def publish_decision_def publish_state_def Let_def)
  from drive_needs_human [OF m0, of m0 "[]" "[Speed_limit (Fin 1), Conversion_result True]"] this m0 show ?thesis by simp
qed




section \<open>What the manager does to its client\<close>

lemma client_simps [simp]:
  "m_client (publish_state m) = m_client m"
  "m_client (publish_decision e t m) = m_client m"
  "m_client (publish_decisions es t m) = m_client m"
  "m_client (set_state s m) = m_client m"
  "m_client (update_fields f m) = m_client m"
  "m_client (set_processing p m) = m_client m"
  "m_client (spawn j m) = m_client m"
  "m_client (request_auto_record k r t m) = m_client m"
  "m_client (job_done i ws m) = m_client m"
  "m_client (stop_odometry ok t m) = m_client m"
  "m_client (auto_pause t stop m) = m_client m"
  "m_client (try_release m) = m_client m"
  by (simp_all add: publish_state_def publish_decision_def publish_decisions_def set_state_def update_fields_def
      set_processing_def spawn_def request_auto_record_def job_done_def stop_odometry_def auto_pause_def try_release_def
      split: option.split)

lemma client_callbacks [simp]:
  "m_client (step_failed i err m) = m_client m"
  "m_client (on_speed_state s m) = m_client m"
  "m_client (speed_state m) = m_client m"
  "m_client (on_keepout m) = m_client m"
  "m_client (on_nav_feedback n m) = m_client m"
  "m_client (on_nav_result table status m) = m_client m"
  "m_client (start_odometry i ws ok m) = m_client m"
  "m_client (finish_mapping r m) = m_client m"
  "m_client (finish_conversion_result ok m) = m_client m"
  by (simp_all add: step_failed_def on_speed_state_def speed_state_def on_keepout_def on_nav_feedback_def
      on_nav_result_def start_odometry_def finish_mapping_def finish_conversion_result_def Let_def
      split: sum.split goal_status.split option.split reply.split)

lemma client_work_client: "m_client (client_work i act ws r m) = outcome_client (client_step (j_token (m_jobs m ! i)) act r (m_client m))"
  by (simp add: client_work_def Let_def split: outcome.split)

text \<open>A property of the client that its acts, its observations and a new token keep, whatever else the manager
  does.\<close>

locale client_property =
  fixes P :: "client \<Rightarrow> bool"
  assumes observe: "P c \<Longrightarrow> P (c\<lparr>c_limit := l\<rparr>)" "P c \<Longrightarrow> P (c\<lparr>c_mask := mk\<rparr>)" "P c \<Longrightarrow> P (c\<lparr>c_info := b\<rparr>)"
      "P c \<Longrightarrow> P (c\<lparr>c_robot := p\<rparr>)" "P c \<Longrightarrow> P (on_estimator_status st t c)"
      "P c \<Longrightarrow> P (fst (on_keepout_mask sha dims c))" "P c \<Longrightarrow> P (fst (on_keepout_info kind topic base mult c))"
    and new_token: "P c \<Longrightarrow> P (new_token c)"
    and goal_over: "P c \<Longrightarrow> P (c\<lparr>c_goal := None\<rparr>)"
    and act: "P c \<Longrightarrow> P (outcome_client (client_step tok act r c))"
begin

lemma work: "P (m_client m) \<Longrightarrow> P (m_client (run_work i r m))"
  by (simp add: run_work_def Let_def client_work_client act split: list.split work.split)

lemma perform:
  assumes "P (m_client m)"
  shows "(case perform tid e m of Refused m' \<Rightarrow> P (m_client m') | Raised m' \<Rightarrow> P (m_client m') | Done m' upd j \<Rightarrow> P (m_client m'))"
  using assms
  by (simp add: perform_def tr03_start_mapping_def tr04_end_mapping_def tr05_start_autonomy_def tr06_pause_def
      tr10_resume_def tr11_12_end_def Let_def new_token split: option.split sum.split bool.split)

lemma request:
  assumes "P (m_client m)"
  shows "P (m_client (fst (request ev e m)))"
proof -
  let ?m = "if ev \<noteq> ''start_autonomy'' then m\<lparr>m_pending := None\<rparr> else m"
  from assms have m: "P (m_client ?m)" by simp
  show ?thesis
  proof (cases "new_state (request_transition ev (m_state ?m) IMPLEMENTED_TRANSITIONS)")
    case None
    with assms show ?thesis by (simp add: request_def Let_def)
  next
    case (Some new)
    with perform [OF m, of "transition_id (request_transition ev (m_state ?m) IMPLEMENTED_TRANSITIONS)" e]
    show ?thesis
      by (cases "perform (transition_id (request_transition ev (m_state ?m) IMPLEMENTED_TRANSITIONS)) e ?m")
        (simp_all add: request_def Let_def)
  qed
qed

lemma start: "P (m_client m) \<Longrightarrow> P (m_client (fst (start_service q e m)))"
  by (simp add: start_service_def request split: sum.split prod.split bool.split)

lemma handle: "P (m_client m) \<Longrightarrow> P (m_client (handle ev m))"
  by (cases ev)
    (simp_all add: work request start on_estimator_def estimator_pause_def observe new_token goal_over
      check_estimator_timeout_def feedback_def nav_result_def Let_def case_prod_beta split: option.split)

lemma kept: "P (m_client m) \<Longrightarrow> P (m_client (run manager_step m events))"
  by (induction events arbitrary: m) (simp_all add: manager_step_def handle)

end

section \<open>A goal accepted after the pause\<close>

text \<open>A goal that the client does not hold and that was never cancelled; and: every goal it knows was accepted.\<close>

definition uncancelled :: "nat \<Rightarrow> client \<Rightarrow> bool" where
  "uncancelled g c \<longleftrightarrow> c_goal c \<noteq> Some g \<and> g \<notin> set (c_cancelled c) \<and> g \<le> c_accepted c"

definition knows_accepted :: "client \<Rightarrow> bool" where
  "knows_accepted c \<longleftrightarrow> (\<forall>g. c_goal c = Some g \<or> g \<in> set (c_cancelled c) \<longrightarrow> g \<le> c_accepted c)"

interpretation lost: client_property "uncancelled g" for g
proof
  show "uncancelled g c \<Longrightarrow> uncancelled g (outcome_client (client_step t act r c))" for t act r c
    by (cases "(t, act, r, c)" rule: client_step.cases)
      (auto simp: uncancelled_def awaited_def loc_round_def params_set_def goal_answered_def cancel_goal_def Let_def
        split: reply.split option.split)
qed (simp_all add: uncancelled_def new_token_def on_estimator_status_def on_keepout_mask_def on_keepout_info_def
    split: option.split)

interpretation known: client_property knows_accepted
proof
  show "knows_accepted c \<Longrightarrow> knows_accepted (outcome_client (client_step t act r c))" for t act r c
    by (cases "(t, act, r, c)" rule: client_step.cases)
      (auto simp: knows_accepted_def awaited_def loc_round_def params_set_def goal_answered_def cancel_goal_def Let_def
        le_SucI split: reply.split option.split)
qed (simp_all add: knows_accepted_def new_token_def on_estimator_status_def on_keepout_mask_def on_keepout_info_def
    split: option.split)

text \<open>C23. A goal that Nav2 accepts after the human paused or ended the run is lost: the worker sees that its token is
  old and gives up without cancelling the goal, and nothing that happens afterwards (a pause, an end,
  another run) ever cancels it, because no one holds its handle.\<close>

theorem late_goal_is_never_cancelled:
  assumes "manager_boot fmt parse record_file timeout = Inr m0" and "m = run manager_step m0 before"
    and "\<not> m_down m" and "i < length (m_jobs m)" and "j_work (m_jobs m ! i) = Act Goal_wait # rest"
    and "j_token (m_jobs m ! i) \<noteq> c_token (m_client m)"
  shows "c_accepted (m_client (manager_step m (Work i (Goal_answer True)))) = c_accepted (m_client m) + 1
     \<and> c_accepted (m_client m) + 1 \<notin> set (c_cancelled (m_client (run manager_step m (Work i (Goal_answer True) # events))))"
proof -
  let ?g = "c_accepted (m_client m) + 1" and ?m = "manager_step m (Work i (Goal_answer True))"
  from assms(1) have "m_client m0 = new_client"
    by (auto simp: manager_boot_def manager_at_def split: sum.split_asm)
  then have "knows_accepted (m_client m)"
    unfolding assms(2) using known.kept by (simp add: knows_accepted_def new_client_def)
  moreover from assms(3-) have "m_client ?m = (m_client m)\<lparr>c_accepted := ?g\<rparr>"
    by (simp add: manager_step_def run_work_def Let_def client_work_client goal_answered_def)
  ultimately have "uncancelled ?g (m_client ?m)" and "c_accepted (m_client ?m) = ?g"
    by (auto simp: uncancelled_def knows_accepted_def)
  with lost.kept [of ?g ?m events] show ?thesis by (simp add: uncancelled_def)
qed


section \<open>A concrete start\<close>

definition sample_start :: start_request where
  "sample_start = \<lparr>sr_mission = sample_request, sr_frame = ''map'', sr_pose = (Fin 0, Fin 0, Fin 0, Fin 1), sr_nav2_missing = False,
     sr_nodes = [LOCALIZATION_NODE], sr_libs = sample_mission_libs, sr_data = [],
     sr_disk = sample_mission_disk @ [([''maps'', ''m'', ''converted'', ''001'', ''pointcloud_map'', ''metadata.yaml''], File (Data [1])),
        ([''maps'', ''m'', ''converted'', ''001'', ''trajectory_imu.txt''], File (Data [1]))]\<rparr>"

definition sample_mission :: "mission option" where
  "sample_mission = (case resolve_mission (sr_libs sample_start) (sr_data sample_start) (sr_mission sample_start) (sr_disk sample_start) of
     Inr (Inr mi) \<Rightarrow> Some mi | _ \<Rightarrow> None)"

definition sample_env :: env where
  "sample_env = \<lparr>e_id = ''r'', e_now = 2, e_glim_ok = True, e_recorder = True\<rparr>"

definition fresh_boot :: manager where
  "fresh_boot = manager_at (decide_boot None) (Some 1)"

lemma fresh_boot_boots: "manager_boot fmt parse Unreadable (Some 1) = Inr fresh_boot"
  by (simp add: manager_boot_def fresh_boot_def)

lemma sample_precheck: "start_precheck sample_start fresh_boot = Inr (False, sample_mission)"
proof -
  have found: "case resolve_mission (sr_libs sample_start) (sr_data sample_start) (sr_mission sample_start) (sr_disk sample_start) of
     Inr (Inr mi) \<Rightarrow> check_localization_map (sr_disk sample_start) (mi_map_directory mi) = None | _ \<Rightarrow> False"
    by code_simp
  have boot: "st_mode (m_state fresh_boot) = MANUAL \<and> m_timeout fresh_boot = Some 1" by code_simp
  have pose: "check_initial_pose ''map'' (Fin 0) (Fin 0) (Fin 0) (Fin 1) = None" by (simp add: check_initial_pose_def)
  show ?thesis
    using found boot pose unfolding start_precheck_def sample_mission_def
    by (auto simp: sample_start_def split: sum.splits)
qed

text \<open>The worker of the first job alone, with the answers of its servers.\<close>

definition worker_step :: "manager \<Rightarrow> reply \<Rightarrow> manager" where
  "worker_step m r = (if m_down m then m else run_work 0 r m)"

lemma run_worker: "run manager_step m (map (Work 0) rs) = run worker_step m rs"
  by (induction rs arbitrary: m) (simp_all add: manager_step_def worker_step_def)

definition start_replies :: "reply list" where
  "start_replies = [Success True, Node_state Active, Node_state Active, Success True, Success True,
     Node_state Unconfigured, Results [True], Success True, At 0, Success True]"

definition nav2_replies :: "reply list" where
  "nav2_replies = [Success True, Results [True], Results [True], Results [True], Results [True], Success True, Success True]"

definition localized :: manager where
  "localized = on_estimator 2 1 1 (run worker_step
     (fst (request ''start_autonomy'' sample_env (fresh_boot\<lparr>m_pending := Some sample_mission\<rparr>))) start_replies)"

definition goal_asked :: manager where
  "goal_asked = run worker_step localized nav2_replies"

definition start_events :: "event list" where
  "start_events = Start_service sample_start sample_env # map (Work 0) start_replies @ [Estimator 2 1 1] @ map (Work 0) nav2_replies"

lemma goal_asked_reached: "run manager_step fresh_boot start_events = goal_asked"
proof -
  let ?m = "fst (request ''start_autonomy'' sample_env (fresh_boot\<lparr>m_pending := Some sample_mission\<rparr>))"
  have up: "\<not> m_down fresh_boot \<and> \<not> m_down (run worker_step ?m start_replies)" by code_simp
  have "manager_step fresh_boot (Start_service sample_start sample_env) = ?m"
    using up by (simp add: manager_step_def start_service_def sample_precheck)
  with up show ?thesis
    by (simp add: start_events_def run_worker goal_asked_def localized_def manager_step_def [of _ "Estimator 2 1 1"])
qed

lemma goal_asked_state:
  "\<not> m_down goal_asked" "length (m_jobs goal_asked) = 1" "j_work (m_jobs goal_asked ! 0) = [Act Goal_wait, Goal_started]"
  "st_mode (m_state goal_asked) = AUTONOMY"
  by code_simp+

theorem late_goal_is_never_cancelled_witness:
  "\<exists>m. m = run manager_step fresh_boot (start_events @ [Service ''pause'' sample_env])
     \<and> c_accepted (m_client m) + 1 \<notin> set (c_cancelled (m_client (run manager_step m
          [Work 0 (Goal_answer True), Service ''end_autonomy'' sample_env, Work 1 Not_ready, Work 2 Not_ready])))"
proof -
  let ?m = "fst (request ''pause'' sample_env goal_asked)"
  have "\<not> m_down ?m \<and> length (m_jobs ?m) = 2 \<and> j_work (m_jobs ?m ! 0) = [Act Goal_wait, Goal_started]
     \<and> j_token (m_jobs ?m ! 0) \<noteq> c_token (m_client ?m)"
    by code_simp
  moreover have "run manager_step fresh_boot (start_events @ [Service ''pause'' sample_env]) = ?m"
    using goal_asked_state(1) by (simp add: goal_asked_reached manager_step_def)
  ultimately show ?thesis
    using late_goal_is_never_cancelled [OF fresh_boot_boots refl, of "start_events @ [Service ''pause'' sample_env]" 0 "[Goal_started]"
        "[Service ''end_autonomy'' sample_env, Work 1 Not_ready, Work 2 Not_ready]"]
    by auto
qed




end
