(* ===== verification/Recorder.thy ===== *)
theory Recorder
  imports Contracts "HOL-Library.AList" "HOL-Library.List_Lexorder" "HOL-Library.Char_ord"
begin

text \<open>
  \<^verbatim>\<open>gouda_core/recorder_core.py\<close> (ND-04): the log and the rosbag recording of a session, the ranges in
  which nothing was recorded, and the status.

  The clock and the outcomes of the file writes are parameters: the \<open>n\<close>-th reading of the clock gives
  \<open>w_clock n\<close>, the \<open>n\<close>-th write to a file of the session works iff \<open>w_writes n\<close>.  The folders of a rosbag
  (\<^verbatim>\<open>bag_01\<close>, \<^verbatim>\<open>bag_02\<close>, ...) are their numbers.  The texts of the answers are constructors; the texts of
  exceptions are left out.
\<close>

section \<open>State\<close>

definition TRIGGER_HUMAN :: string where "TRIGGER_HUMAN = ''human''"
definition TRIGGER_AUTO_MAP_START :: string where "TRIGGER_AUTO_MAP_START = ''auto:map_start''"
definition TRIGGER_AUTO_AUTONOMY_START :: string where "TRIGGER_AUTO_AUTONOMY_START = ''auto:autonomy_start''"
definition AUTO_TRIGGERS :: "string list" where
  "AUTO_TRIGGERS = [TRIGGER_AUTO_MAP_START, TRIGGER_AUTO_AUTONOMY_START]"
definition NEVER_AUTO_START :: "string list" where
  "NEVER_AUTO_START = [''boot'', ''fault_recovery'', ''resume'', ''monitor_reconnect'', ''pc_restart'']"

datatype gap_kind = Stopped | Failure

record gap_range =
  g_start :: real
  g_end :: "real option"
  g_kind :: gap_kind

record rosbag_output =
  o_output :: nat
  o_started_by :: string
  o_started_at :: real
  o_stopped_at :: "real option"
  o_result :: string
  o_saved_at :: "real option"
  o_exit_code :: "int option"

record failure =
  f_time :: real
  f_what :: string
  f_output :: "nat option"

record finalize =
  z_output :: nat
  z_started_at :: real
  z_finished_at :: real
  z_ok :: bool
  z_exit_code :: int

record session =
  s_id :: string
  log_active :: bool
  log_started_by :: string
  rosbag_active :: bool
  rosbag_started_by :: string
  open_gap :: "gap_range option"
  gaps :: "gap_range list"
  failures :: "failure list"
  rosbag_outputs :: "rosbag_output list"
  rosbag_finalizing :: "(nat \<times> real) option" \<comment> \<open>output and start of the save\<close>
  last_finalize :: "finalize option"

datatype line =
    Record_start real string
  | Snapshot real string string pyval real
  | Record_stop real string
  | Record_failure real string nat
  | Message real string string pyval
  | Gap gap_range

record recorder =
  r_session :: "session option"
  r_last_gap :: "gap_range option"
  r_revision :: int
  r_last_received :: "(string \<times> string \<times> real \<times> pyval) list"
  r_lines :: "line list" \<comment> \<open>what was written to \<^verbatim>\<open>events.jsonl\<close> and \<^verbatim>\<open>gaps.jsonl\<close>, newest first\<close>
  r_ticks :: nat \<comment> \<open>readings of the clock\<close>
  r_writes :: nat

record world =
  w_clock :: "nat \<Rightarrow> real"
  w_writes :: "nat \<Rightarrow> bool"

definition new_recorder :: recorder where
  "new_recorder = \<lparr>r_session = None, r_last_gap = None, r_revision = 0, r_last_received = [], r_lines = [],
     r_ticks = 0, r_writes = 0\<rparr>"

definition new_session :: "string \<Rightarrow> session" where
  "new_session sid = \<lparr>s_id = sid, log_active = False, log_started_by = '''', rosbag_active = False, rosbag_started_by = '''',
     open_gap = None, gaps = [], failures = [], rosbag_outputs = [], rosbag_finalizing = None, last_finalize = None\<rparr>"

definition on_session :: "(session \<Rightarrow> session) \<Rightarrow> recorder \<Rightarrow> recorder" where
  "on_session f r = r\<lparr>r_session := map_option f (r_session r)\<rparr>"

definition tick :: "world \<Rightarrow> recorder \<Rightarrow> real \<times> recorder" where
  "tick w r = (w_clock w (r_ticks r), r\<lparr>r_ticks := r_ticks r + 1\<rparr>)"

definition bump :: "recorder \<Rightarrow> recorder" where
  "bump r = r\<lparr>r_revision := r_revision r + 1\<rparr>"

section \<open>Gaps and writes\<close>

text \<open>\<^verbatim>\<open>self.session.failures.append(...)\<close> with the time of the clock.\<close>

definition add_failure :: "world \<Rightarrow> string \<Rightarrow> nat option \<Rightarrow> recorder \<Rightarrow> recorder" where
  "add_failure w what out r = (let (t, r) = tick w r in
     on_session (\<lambda>s. s\<lparr>failures := failures s @ [\<lparr>f_time = t, f_what = what, f_output = out\<rparr>]\<rparr>) r)"

definition set_open_gap :: "world \<Rightarrow> gap_kind \<Rightarrow> recorder \<Rightarrow> recorder" where
  "set_open_gap w kind r = (case r_session r of
     None \<Rightarrow> r
   | Some s \<Rightarrow>
       if open_gap s \<noteq> None then r
       else let (t, r) = tick w r in on_session (\<lambda>s. s\<lparr>open_gap := Some \<lparr>g_start = t, g_end = None, g_kind = kind\<rparr>\<rparr>) r)"

text \<open>
  \<^verbatim>\<open>_append\<close> and \<^verbatim>\<open>_close_gap\<close> call each other: a write that works closes a gap of kind failure, and closing
  a gap writes it to \<^verbatim>\<open>gaps.jsonl\<close>.  By then no gap is open, so that this write closes nothing: it is
  \<open>write_line\<close>.
\<close>

definition write_line :: "world \<Rightarrow> line \<Rightarrow> string \<Rightarrow> recorder \<Rightarrow> recorder \<times> bool" where
  "write_line w l name r = (let ok = w_writes w (r_writes r); r = r\<lparr>r_writes := r_writes r + 1\<rparr> in
     if ok then (r\<lparr>r_lines := l # r_lines r\<rparr>, True)
     else if r_session r = None then (r, False)
     else (bump (set_open_gap w Failure (add_failure w name None r)), False))"

definition close_gap :: "world \<Rightarrow> recorder \<Rightarrow> recorder" where
  "close_gap w r = (case r_session r of
     None \<Rightarrow> r
   | Some s \<Rightarrow> (case open_gap s of
         None \<Rightarrow> r
       | Some g \<Rightarrow> let (t, r) = tick w r; g = g\<lparr>g_end := Some t\<rparr>;
             r = on_session (\<lambda>s. s\<lparr>gaps := gaps s @ [g], open_gap := None\<rparr>) (r\<lparr>r_last_gap := Some g\<rparr>)
           in fst (write_line w (Gap g) ''gaps.jsonl'' r)))"

definition append_event :: "world \<Rightarrow> line \<Rightarrow> recorder \<Rightarrow> recorder \<times> bool" where
  "append_event w l r = (let (r, ok) = write_line w l ''events.jsonl'' r in
     if ok \<and> (case r_session r of None \<Rightarrow> False
              | Some s \<Rightarrow> (case open_gap s of None \<Rightarrow> False | Some g \<Rightarrow> g_kind g = Failure))
     then (close_gap w r, True) else (r, ok))"

text \<open>\<^verbatim>\<open>_write_session_json\<close>: the file's content is the session; the clock is read for \<^verbatim>\<open>updated\<close>.\<close>

definition write_session :: "world \<Rightarrow> recorder \<Rightarrow> recorder" where
  "write_session w r =
     (if r_session r = None then r
      else let (t, r) = tick w r; ok = w_writes w (r_writes r); r = r\<lparr>r_writes := r_writes r + 1\<rparr> in
        if ok then r else add_failure w ''session.json'' None r)"

definition log_failure :: "world \<Rightarrow> string \<Rightarrow> nat \<Rightarrow> recorder \<Rightarrow> recorder" where
  "log_failure w what out r = (case r_session r of
     None \<Rightarrow> r
   | Some s \<Rightarrow> if log_active s then (let (t, r) = tick w r in fst (append_event w (Record_failure t what out) r)) else r)"

section \<open>The session\<close>

text \<open>The two \<^verbatim>\<open>mkdir\<close> are not guarded: their OSError leaves the operation, with the session already set.\<close>

definition ensure_session :: "world \<Rightarrow> string \<Rightarrow> bool \<Rightarrow> recorder \<Rightarrow> recorder \<times> unit result" where
  "ensure_session w sid mkdir_ok r =
     (if r_session r \<noteq> None then (r, Inr ())
      else let r = r\<lparr>r_session := Some (new_session sid)\<rparr> in
        if mkdir_ok then (write_session w r, Inr ()) else (r, Inl OSError))"

datatype answer =
    Not_permitted string | Already_active string string | Log_started string | Log_inactive | Left_running | Log_stopped
  | Human_only | Rosbag_already | Still_saving nat | Rosbag_start_failed | Rosbag_started nat | Rosbag_inactive
  | Rosbag_stop_failed | Rosbag_saving nat | Rosbag_stopped | Nothing_saved | Save_ended nat | Rosbag_failed nat

type_synonym reply_of = "(bool \<times> answer) result"

section \<open>Log recording\<close>

definition snapshots :: "world \<Rightarrow> recorder \<Rightarrow> recorder" where
  "snapshots w r = foldl (\<lambda>r (topic, kind, rx, payload).
     let (t, r) = tick w r in fst (append_event w (Snapshot rx kind topic payload t) r)) r (sort_key fst (r_last_received r))"

definition begin_log :: "world \<Rightarrow> string \<Rightarrow> recorder \<Rightarrow> recorder" where
  "begin_log w trigger r =
     (let r = on_session (\<lambda>s. s\<lparr>log_active := True, log_started_by := trigger\<rparr>) r;
          r = write_session w (bump (close_gap w r));
          (t, r) = tick w r
      in snapshots w (fst (append_event w (Record_start t trigger) r)))"

definition start_log :: "world \<Rightarrow> string \<Rightarrow> string \<Rightarrow> bool \<Rightarrow> recorder \<Rightarrow> recorder \<times> reply_of" where
  "start_log w trigger sid mkdir_ok r =
     (if trigger \<noteq> TRIGGER_HUMAN \<and> trigger \<notin> set AUTO_TRIGGERS then (r, Inr (False, Not_permitted trigger))
      else case ensure_session w sid mkdir_ok r of
          (r, Inl e) \<Rightarrow> (r, Inl e)
        | (r, Inr _) \<Rightarrow> (case r_session r of
            None \<Rightarrow> (r, Inr (False, Log_inactive))
          | Some s \<Rightarrow> if log_active s then (r, Inr (True, Already_active (log_started_by s) trigger))
              else (begin_log w trigger r, Inr (True, Log_started trigger))))"

definition end_log :: "world \<Rightarrow> string \<Rightarrow> recorder \<Rightarrow> recorder" where
  "end_log w trigger r =
     (let (t, r) = tick w r; r = fst (append_event w (Record_stop t trigger) r);
          r = on_session (\<lambda>s. s\<lparr>log_active := False, log_started_by := ''''\<rparr>) r
      in write_session w (bump (set_open_gap w Stopped r)))"

definition stop_log :: "world \<Rightarrow> string \<Rightarrow> recorder \<Rightarrow> recorder \<times> reply_of" where
  "stop_log w trigger r = (case r_session r of
     None \<Rightarrow> (r, Inr (True, Log_inactive))
   | Some s \<Rightarrow>
       if \<not> log_active s then (r, Inr (True, Log_inactive))
       else if trigger \<noteq> TRIGGER_HUMAN \<and> log_started_by s = TRIGGER_HUMAN then (r, Inr (True, Left_running))
       else (end_log w trigger r, Inr (True, Log_stopped)))"

definition stop_auto :: "world \<Rightarrow> recorder \<Rightarrow> recorder \<times> reply_of" where
  "stop_auto w = stop_log w ''auto:stop''"

definition auto_start_allowed :: "string \<Rightarrow> bool" where
  "auto_start_allowed event \<longleftrightarrow> event \<in> set AUTO_TRIGGERS \<and> event \<notin> set NEVER_AUTO_START"

definition record_message :: "world \<Rightarrow> string \<Rightarrow> string \<Rightarrow> real \<Rightarrow> pyval \<Rightarrow> recorder \<Rightarrow> recorder \<times> bool" where
  "record_message w kind topic rx payload r =
     (let r = r\<lparr>r_last_received := AList.update topic (kind, rx, payload) (r_last_received r)\<rparr> in
      case r_session r of
        None \<Rightarrow> (r, False)
      | Some s \<Rightarrow> if log_active s then append_event w (Message rx kind topic payload) r else (r, False))"


section \<open>Rosbag recording\<close>

function next_bag :: "nat list \<Rightarrow> nat \<Rightarrow> nat" where
  "next_bag existing n = (if n \<in> set existing then next_bag existing (n + 1) else n)"
  by pat_completeness auto
termination
proof (relation "measure (\<lambda>(existing, n). length (filter (\<lambda>k. n \<le> k) existing))", simp)
  show "((existing, n + 1), existing, n) \<in> measure (\<lambda>(existing, n). length (filter (\<lambda>k. n \<le> k) existing))"
    if "n \<in> set existing" for existing and n :: nat
  proof -
    have "filter (\<lambda>k. Suc n \<le> k) existing = filter (\<lambda>k. k \<noteq> n) (filter (\<lambda>k. n \<le> k) existing)"
      by (induction existing) auto
    moreover have "length (filter (\<lambda>k. k \<noteq> n) (filter (\<lambda>k. n \<le> k) existing)) < length (filter (\<lambda>k. n \<le> k) existing)"
      using that by (intro length_filter_less [of n]) auto
    ultimately show ?thesis by simp
  qed
qed

declare next_bag.simps [simp del]

definition next_rosbag_dir :: "nat list \<Rightarrow> session \<Rightarrow> nat" where
  "next_rosbag_dir existing s = next_bag existing (length (rosbag_outputs s) + 1)"

definition add_output :: "rosbag_output \<Rightarrow> recorder \<Rightarrow> recorder" where
  "add_output b = on_session (\<lambda>s. s\<lparr>rosbag_outputs := rosbag_outputs s @ [b]\<rparr>)"

text \<open>\<^verbatim>\<open>rosbag_outputs[-1].update(...)\<close>, where there is one.\<close>

definition update_last :: "(rosbag_output \<Rightarrow> rosbag_output) \<Rightarrow> recorder \<Rightarrow> recorder" where
  "update_last f = on_session (\<lambda>s. if rosbag_outputs s = [] then s
     else s\<lparr>rosbag_outputs := butlast (rosbag_outputs s) @ [f (last (rosbag_outputs s))]\<rparr>)"

definition rosbag_failed_start :: "world \<Rightarrow> string \<Rightarrow> nat \<Rightarrow> recorder \<Rightarrow> recorder" where
  "rosbag_failed_start w trigger out r =
     (let r = add_failure w ''rosbag_start'' (Some out) r; (t1, r) = tick w r; (t2, r) = tick w r;
          r = add_output \<lparr>o_output = out, o_started_by = trigger, o_started_at = t1, o_stopped_at = Some t2,
                o_result = ''start_failed'', o_saved_at = None, o_exit_code = None\<rparr> r
      in log_failure w ''rosbag_start'' out (write_session w (bump r)))"

definition rosbag_begun :: "world \<Rightarrow> string \<Rightarrow> nat \<Rightarrow> recorder \<Rightarrow> recorder" where
  "rosbag_begun w trigger out r =
     (let r = on_session (\<lambda>s. s\<lparr>rosbag_active := True, rosbag_started_by := trigger\<rparr>) r; (t, r) = tick w r;
          r = add_output \<lparr>o_output = out, o_started_by = trigger, o_started_at = t, o_stopped_at = None,
                o_result = ''recording'', o_saved_at = None, o_exit_code = None\<rparr> r
      in write_session w (bump r))"

text \<open>\<open>started\<close>: whether the callback \<^verbatim>\<open>_rosbag_start\<close> returned; \<open>existing\<close>: the folders that exist.\<close>

definition start_rosbag :: "world \<Rightarrow> string \<Rightarrow> string \<Rightarrow> bool \<Rightarrow> nat list \<Rightarrow> bool \<Rightarrow> recorder \<Rightarrow> recorder \<times> reply_of" where
  "start_rosbag w trigger sid mkdir_ok existing started r =
     (if trigger \<noteq> TRIGGER_HUMAN then (r, Inr (False, Human_only))
      else case ensure_session w sid mkdir_ok r of
          (r, Inl e) \<Rightarrow> (r, Inl e)
        | (r, Inr _) \<Rightarrow> (case r_session r of
            None \<Rightarrow> (r, Inr (False, Human_only))
          | Some s \<Rightarrow>
              if rosbag_active s then (r, Inr (True, Rosbag_already))
              else (case rosbag_finalizing s of
                  Some (out, _) \<Rightarrow> (r, Inr (False, Still_saving out))
                | None \<Rightarrow> let out = next_rosbag_dir existing s in
                    if started then (rosbag_begun w trigger out r, Inr (True, Rosbag_started out))
                    else (rosbag_failed_start w trigger out r, Inr (False, Rosbag_start_failed)))))"

definition last_output :: "session \<Rightarrow> nat" where
  "last_output s = (if rosbag_outputs s = [] then 0 else o_output (last (rosbag_outputs s)))"

definition stop_open_output :: "world \<Rightarrow> string \<Rightarrow> int option \<Rightarrow> recorder \<Rightarrow> recorder" where
  "stop_open_output w res code r = (case r_session r of
     None \<Rightarrow> r
   | Some s \<Rightarrow>
       if rosbag_outputs s \<noteq> [] \<and> o_stopped_at (last (rosbag_outputs s)) = None then
         let (t, r) = tick w r in
         update_last (\<lambda>b. b\<lparr>o_stopped_at := Some t, o_result := res,
             o_exit_code := if code = None then o_exit_code b else code\<rparr>) r
       else r)"

text \<open>\<open>saving\<close>: what \<^verbatim>\<open>_rosbag_stop\<close> returned, or that it raised.\<close>

definition stop_rosbag :: "world \<Rightarrow> bool option \<Rightarrow> recorder \<Rightarrow> recorder \<times> reply_of" where
  "stop_rosbag w saving r = (case r_session r of
     None \<Rightarrow> (r, Inr (True, Rosbag_inactive))
   | Some s \<Rightarrow>
       if \<not> rosbag_active s then (r, Inr (True, Rosbag_inactive))
       else let out = last_output s;
                r = stop_open_output w ''saving'' None (on_session (\<lambda>s. s\<lparr>rosbag_active := False, rosbag_started_by := ''''\<rparr>) r) in
         (case saving of
            None \<Rightarrow>
              (let r = update_last (\<lambda>b. b\<lparr>o_result := ''stop_failed''\<rparr>) (add_failure w ''rosbag_stop'' (Some out) r)
               in (log_failure w ''rosbag_stop'' out (write_session w (bump r)), Inr (False, Rosbag_stop_failed)))
          | Some True \<Rightarrow>
              (let (t, r) = tick w r; r = on_session (\<lambda>s. s\<lparr>rosbag_finalizing := Some (out, t)\<rparr>) r
               in (write_session w (bump r), Inr (True, Rosbag_saving out)))
          | Some False \<Rightarrow>
              (write_session w (bump (update_last (\<lambda>b. b\<lparr>o_result := ''stopped''\<rparr>) r)), Inr (True, Rosbag_stopped))))"

text \<open>The last entry with this output is updated, if there is one.\<close>

fun update_newest :: "nat \<Rightarrow> (rosbag_output \<Rightarrow> rosbag_output) \<Rightarrow> rosbag_output list \<Rightarrow> rosbag_output list" where
  "update_newest out f [] = []"
| "update_newest out f (b # bs) =
     (if out \<notin> o_output ` set bs \<and> o_output b = out then f b # bs else b # update_newest out f bs)"

definition rosbag_finalized :: "world \<Rightarrow> int \<Rightarrow> recorder \<Rightarrow> recorder \<times> reply_of" where
  "rosbag_finalized w code r = (case r_session r of
     None \<Rightarrow> (r, Inr (False, Nothing_saved))
   | Some s \<Rightarrow> (case rosbag_finalizing s of
         None \<Rightarrow> (r, Inr (False, Nothing_saved))
       | Some (out, since) \<Rightarrow>
           let ok = code = 0; r = on_session (\<lambda>s. s\<lparr>rosbag_finalizing := None\<rparr>) r;
               r = (if out \<in> o_output ` set (rosbag_outputs s) then let (t, r) = tick w r in
                      on_session (\<lambda>s. s\<lparr>rosbag_outputs := update_newest out
                        (\<lambda>b. b\<lparr>o_result := if ok then ''stopped'' else ''save_failed'', o_saved_at := Some t, o_exit_code := Some code\<rparr>)
                        (rosbag_outputs s)\<rparr>) r
                    else r);
               (t, r) = tick w r;
               r = on_session (\<lambda>s. s\<lparr>last_finalize := Some \<lparr>z_output = out, z_started_at = since, z_finished_at = t,
                     z_ok = ok, z_exit_code = code\<rparr>\<rparr>) r;
               r = (if ok then r else log_failure w ''rosbag_save'' out (add_failure w ''rosbag_save'' (Some out) r))
           in (write_session w (bump r), Inr (ok, Save_ended out))))"

definition rosbag_exited :: "world \<Rightarrow> int \<Rightarrow> recorder \<Rightarrow> recorder \<times> reply_of" where
  "rosbag_exited w code r = (case r_session r of
     None \<Rightarrow> (r, Inr (False, Rosbag_inactive))
   | Some s \<Rightarrow>
       if \<not> rosbag_active s then (r, Inr (False, Rosbag_inactive))
       else let out = last_output s; r = add_failure w ''rosbag_exited'' (Some out) r;
                r = on_session (\<lambda>s. s\<lparr>rosbag_active := False, rosbag_started_by := ''''\<rparr>) r;
                r = stop_open_output w ''failed'' (Some code) r
         in (log_failure w ''rosbag_exited'' out (write_session w (bump r)), Inr (True, Rosbag_failed out)))"

section \<open>Status\<close>

record recorder_status =
  t_log_active :: bool
  t_rosbag_active :: bool
  t_session_dir :: string
  t_auto_started_by :: string
  t_log_started_by :: string
  t_rosbag_started_by :: string
  t_last_gap :: "gap_range option"
  t_failures :: nat
  t_revision :: int
  t_rosbag_output :: "nat option"
  t_last_failure :: "failure option"
  t_saving :: "(nat \<times> real) option"
  t_last_save :: "finalize option"

definition status :: "recorder \<Rightarrow> recorder_status" where
  "status r = (case r_session r of
     None \<Rightarrow> \<lparr>t_log_active = False, t_rosbag_active = False, t_session_dir = '''', t_auto_started_by = '''', t_log_started_by = '''',
        t_rosbag_started_by = '''', t_last_gap = r_last_gap r, t_failures = 0, t_revision = r_revision r, t_rosbag_output = None,
        t_last_failure = None, t_saving = None, t_last_save = None\<rparr>
   | Some s \<Rightarrow> \<lparr>t_log_active = log_active s, t_rosbag_active = rosbag_active s, t_session_dir = s_id s,
        t_auto_started_by = (if log_started_by s \<in> set AUTO_TRIGGERS then log_started_by s else ''''),
        t_log_started_by = log_started_by s, t_rosbag_started_by = rosbag_started_by s,
        t_last_gap = (if open_gap s \<noteq> None then open_gap s else r_last_gap r), t_failures = length (failures s),
        t_revision = r_revision r,
        t_rosbag_output = (if rosbag_outputs s \<noteq> [] \<and> rosbag_active s then Some (last_output s) else None),
        t_last_failure = (if failures s = [] then None else Some (last (failures s))),
        t_saving = rosbag_finalizing s, t_last_save = last_finalize s\<rparr>)"

end
