(* ===== verification/Recorder_Properties.thy ===== *)
theory Recorder_Properties
  imports Recorder
begin

text \<open>
  The properties of the recorder: the gap ranges are the times in which nothing was recorded, a
  recording a human started is only stopped by a human, and only a human starts a rosbag.
\<close>

section \<open>Requests as events\<close>

datatype request =
    Start_log string string bool
  | Stop_log string
  | Received string string real pyval
  | Start_rosbag string string bool "nat list" bool
  | Stop_rosbag "bool option"
  | Bag_finalized int
  | Bag_exited int

fun recorder_step :: "world \<Rightarrow> recorder \<Rightarrow> request \<Rightarrow> recorder" where
  "recorder_step w r (Start_log trigger sid mk) = fst (start_log w trigger sid mk r)"
| "recorder_step w r (Stop_log trigger) = fst (stop_log w trigger r)"
| "recorder_step w r (Received kind topic t payload) = fst (record_message w kind topic t payload r)"
| "recorder_step w r (Start_rosbag trigger sid mk existing started) = fst (start_rosbag w trigger sid mk existing started r)"
| "recorder_step w r (Stop_rosbag saving) = fst (stop_rosbag w saving r)"
| "recorder_step w r (Bag_finalized code) = fst (rosbag_finalized w code r)"
| "recorder_step w r (Bag_exited code) = fst (rosbag_exited w code r)"

section \<open>What the helpers leave alone\<close>

type_synonym flags = "(bool \<times> string \<times> bool \<times> string \<times> (nat \<times> real) option) option"

definition flags :: "recorder \<Rightarrow> flags" where
  "flags r = map_option (\<lambda>s. (log_active s, log_started_by s, rosbag_active s, rosbag_started_by s, rosbag_finalizing s)) (r_session r)"

lemma session_on_session [simp]: "r_session (on_session f r) = map_option f (r_session r)"
  by (simp add: on_session_def)

lemma ticks_on_session [simp]: "r_ticks (on_session f r) = r_ticks r"
  by (simp add: on_session_def)

lemma session_primitives [simp]:
  "r_session (snd (tick w r)) = r_session r" "r_session (bump r) = r_session r" "r_ticks (bump r) = r_ticks r"
  by (simp_all add: tick_def bump_def)

lemma flags_write [simp]:
  "flags (add_failure w what out r) = flags r"
  "flags (set_open_gap w k r) = flags r"
  "flags (fst (write_line w l name r)) = flags r"
  "flags (close_gap w r) = flags r"
  "flags (write_session w r) = flags r"
  by (auto simp: flags_def add_failure_def set_open_gap_def write_line_def close_gap_def write_session_def tick_def bump_def
      Let_def on_session_def option.map_comp comp_def split: option.split)

lemma flags_append [simp]: "flags (fst (append_event w l r)) = flags r"
proof -
  obtain r' ok where w: "write_line w l ''events.jsonl'' r = (r', ok)" by fastforce
  with flags_write(3) [of w l "''events.jsonl''" r] have "flags r' = flags r" by simp
  then show ?thesis by (simp add: append_event_def w)
qed

lemma flags_log_failure [simp]: "flags (log_failure w what out r) = flags r"
  by (simp add: log_failure_def tick_def split: option.split) (simp add: flags_def)

lemma flags_snapshots [simp]: "flags (snapshots w r) = flags r"
proof -
  have "flags (foldl (\<lambda>r (topic, kind, t, payload). let (now, r) = tick w r in fst (append_event w (Snapshot t kind topic payload now) r)) r xs)
      = flags r" for xs
    by (induction xs arbitrary: r) (auto simp: tick_def Let_def, simp add: flags_def)
  then show ?thesis by (simp add: snapshots_def)
qed

lemma flags_outputs [simp]:
  "flags (snd (tick w r)) = flags r"
  "flags (bump r) = flags r"
  "flags (add_output b r) = flags r"
  "flags (update_last f r) = flags r"
  "flags (stop_open_output w res code r) = flags r"
  by (cases "r_session r"; simp add: flags_def tick_def bump_def add_output_def update_last_def stop_open_output_def Let_def)+

section \<open>The gap ranges\<close>

definition gap_times :: "session \<Rightarrow> real list" where
  "gap_times s = concat (map (\<lambda>g. [g_start g, the (g_end g)]) (gaps s)) @ (case open_gap s of None \<Rightarrow> [] | Some g \<Rightarrow> [g_start g])"

text \<open>The gaps are closed, follow each other in time and lie in the past; while the log is active only a
  failed write opens one.\<close>

definition gaps_ordered :: "world \<Rightarrow> recorder \<Rightarrow> bool" where
  "gaps_ordered w r \<longleftrightarrow> (\<forall>s. r_session r = Some s \<longrightarrow> sorted (gap_times s @ [w_clock w (r_ticks r)])
     \<and> (\<forall>g \<in> set (gaps s). g_end g \<noteq> None) \<and> (\<forall>g. open_gap s = Some g \<longrightarrow> g_end g = None))"

definition gaps_ok :: "world \<Rightarrow> recorder \<Rightarrow> bool" where
  "gaps_ok w r \<longleftrightarrow> gaps_ordered w r
     \<and> (\<forall>s g. r_session r = Some s \<and> log_active s \<and> open_gap s = Some g \<longrightarrow> g_kind g = Failure)"

lemma gaps_ok_ordered: "gaps_ok w r \<Longrightarrow> gaps_ordered w r"
  by (simp add: gaps_ok_def)

lemma gaps_ok_new: "gaps_ok w (r\<lparr>r_session := Some (new_session sid)\<rparr>)"
  by (simp add: gaps_ok_def gaps_ordered_def new_session_def gap_times_def)

lemma gaps_ok_other [simp]:
  "gaps_ok w (r\<lparr>r_writes := n\<rparr>) = gaps_ok w r" "gaps_ok w (r\<lparr>r_lines := ls\<rparr>) = gaps_ok w r"
  "gaps_ok w (r\<lparr>r_last_gap := g\<rparr>) = gaps_ok w r" "gaps_ok w (r\<lparr>r_last_received := d\<rparr>) = gaps_ok w r"
  "gaps_ok w (bump r) = gaps_ok w r"
  by (simp_all add: gaps_ok_def gaps_ordered_def)

lemma gaps_ok_session:
  "gaps_ok w r \<Longrightarrow> (\<And>s. gaps (f s) = gaps s \<and> open_gap (f s) = open_gap s \<and> (log_active (f s) \<longrightarrow> log_active s))
     \<Longrightarrow> gaps_ok w (on_session f r)"
  by (auto simp: gaps_ok_def gaps_ordered_def gap_times_def)

lemma gaps_ok_tick:
  assumes "mono (w_clock w)" and "gaps_ok w r"
  shows "gaps_ok w (snd (tick w r))"
proof -
  have "w_clock w (r_ticks r) \<le> w_clock w (Suc (r_ticks r))" using assms(1) by (simp add: mono_def)
  with assms(2) show ?thesis by (fastforce simp: gaps_ok_def gaps_ordered_def tick_def sorted_append)
qed

lemma gaps_ok_failure: "mono (w_clock w) \<Longrightarrow> gaps_ok w r \<Longrightarrow> gaps_ok w (add_failure w what out r)"
  using gaps_ok_tick [of w r] by (simp add: add_failure_def Let_def case_prod_beta gaps_ok_session)

lemma gaps_ok_open:
  assumes clock: "mono (w_clock w)" and "gaps_ok w r" and "kind = Failure \<or> (\<forall>s. r_session r = Some s \<longrightarrow> \<not> log_active s)"
  shows "gaps_ok w (set_open_gap w kind r)"
proof (cases "r_session r")
  case None
  with assms show ?thesis by (simp add: set_open_gap_def)
next
  case (Some s)
  have "w_clock w (r_ticks r) \<le> w_clock w (Suc (r_ticks r))" using clock by (simp add: mono_def)
  with assms Some show ?thesis
    by (fastforce simp: set_open_gap_def tick_def gaps_ok_def gaps_ordered_def gap_times_def sorted_append)
qed

lemma gaps_ok_write: "mono (w_clock w) \<Longrightarrow> gaps_ok w r \<Longrightarrow> gaps_ok w (fst (write_line w l name r))"
  by (simp add: write_line_def Let_def gaps_ok_open gaps_ok_failure)

lemma gaps_ok_close:
  assumes clock: "mono (w_clock w)" and "gaps_ordered w r"
  shows "gaps_ok w (close_gap w r)"
proof (cases "\<exists>s g. r_session r = Some s \<and> open_gap s = Some g")
  case False
  with assms show ?thesis by (auto simp: close_gap_def gaps_ok_def split: option.split)
next
  case True
  then obtain s g where s: "r_session r = Some s" "open_gap s = Some g" by blast
  have "w_clock w (r_ticks r) \<le> w_clock w (Suc (r_ticks r))" using clock by (simp add: mono_def)
  with assms s have "gaps_ok w (on_session (\<lambda>s. s\<lparr>gaps := gaps s @ [g\<lparr>g_end := Some (w_clock w (r_ticks r))\<rparr>], open_gap := None\<rparr>)
      (r\<lparr>r_ticks := r_ticks r + 1, r_last_gap := Some (g\<lparr>g_end := Some (w_clock w (r_ticks r))\<rparr>)\<rparr>))"
    by (fastforce simp: gaps_ok_def gaps_ordered_def gap_times_def sorted_append)
  with clock show ?thesis by (simp add: close_gap_def s tick_def Let_def gaps_ok_write)
qed

lemma gaps_ok_append: "mono (w_clock w) \<Longrightarrow> gaps_ok w r \<Longrightarrow> gaps_ok w (fst (append_event w l r))"
  using gaps_ok_write [of w r l "''events.jsonl''"] by (simp add: append_event_def case_prod_beta gaps_ok_close gaps_ok_ordered)

lemma gaps_ok_json: "mono (w_clock w) \<Longrightarrow> gaps_ok w r \<Longrightarrow> gaps_ok w (write_session w r)"
  by (simp add: write_session_def Let_def case_prod_beta gaps_ok_failure gaps_ok_tick)

lemma gaps_ok_log_failure: "mono (w_clock w) \<Longrightarrow> gaps_ok w r \<Longrightarrow> gaps_ok w (log_failure w what out r)"
  using gaps_ok_tick [of w r] by (simp add: log_failure_def Let_def case_prod_beta gaps_ok_append split: option.split)

lemma gaps_ok_snapshots:
  assumes clock: "mono (w_clock w)" and "gaps_ok w r"
  shows "gaps_ok w (snapshots w r)"
proof -
  have "gaps_ok w r \<Longrightarrow> gaps_ok w (foldl (\<lambda>r (topic, kind, t, payload).
     let (now, r) = tick w r in fst (append_event w (Snapshot t kind topic payload now) r)) r xs)" for xs
    by (induction xs arbitrary: r) (auto simp: Let_def case_prod_beta gaps_ok_tick [OF clock] gaps_ok_append [OF clock])
  with assms show ?thesis by (simp add: snapshots_def)
qed

lemma gaps_ok_outputs: "gaps_ok w r \<Longrightarrow> gaps_ok w (add_output b r)" "gaps_ok w r \<Longrightarrow> gaps_ok w (update_last f r)"
  by (simp_all add: add_output_def update_last_def gaps_ok_session)

lemma gaps_ok_stop_output: "mono (w_clock w) \<Longrightarrow> gaps_ok w r \<Longrightarrow> gaps_ok w (stop_open_output w res code r)"
  by (simp add: stop_open_output_def Let_def case_prod_beta gaps_ok_tick gaps_ok_outputs split: option.split)

lemmas gaps_kept = gaps_ok_tick gaps_ok_failure gaps_ok_write gaps_ok_append gaps_ok_json
  gaps_ok_log_failure gaps_ok_snapshots gaps_ok_outputs gaps_ok_stop_output gaps_ok_session

section \<open>Every operation keeps the gaps in order\<close>

lemma gaps_ok_ensure: "mono (w_clock w) \<Longrightarrow> gaps_ok w r \<Longrightarrow> gaps_ok w (fst (ensure_session w sid mk r))"
  by (simp add: ensure_session_def Let_def gaps_ok_json gaps_ok_new)

lemma gaps_ok_begin: "mono (w_clock w) \<Longrightarrow> gaps_ok w r \<Longrightarrow> gaps_ok w (begin_log w trigger r)"
proof -
  assume clock: "mono (w_clock w)" and ok: "gaps_ok w r"
  then have "gaps_ordered w (on_session (\<lambda>s. s\<lparr>log_active := True, log_started_by := trigger\<rparr>) r)"
    by (auto simp: gaps_ok_def gaps_ordered_def gap_times_def)
  with clock show ?thesis by (simp add: begin_log_def Let_def case_prod_beta gaps_ok_close gaps_kept)
qed

lemma gaps_ok_end: "mono (w_clock w) \<Longrightarrow> gaps_ok w r \<Longrightarrow> gaps_ok w (end_log w trigger r)"
  by (auto simp: end_log_def Let_def case_prod_beta intro!: gaps_ok_json gaps_ok_open gaps_ok_session gaps_ok_append gaps_ok_tick)

lemma gaps_ok_start_log: "mono (w_clock w) \<Longrightarrow> gaps_ok w r \<Longrightarrow> gaps_ok w (fst (start_log w trigger sid mk r))"
  using gaps_ok_ensure [of w r sid mk]
  by (auto simp: start_log_def gaps_ok_begin split: prod.split sum.split option.split)

lemma gaps_ok_stop_log: "mono (w_clock w) \<Longrightarrow> gaps_ok w r \<Longrightarrow> gaps_ok w (fst (stop_log w trigger r))"
  by (simp add: stop_log_def gaps_ok_end split: option.split)

lemma gaps_ok_record: "mono (w_clock w) \<Longrightarrow> gaps_ok w r \<Longrightarrow> gaps_ok w (fst (record_message w kind topic t p r))"
  by (simp add: record_message_def Let_def gaps_ok_append split: option.split)

lemma gaps_ok_rosbag: 
  assumes "mono (w_clock w)" and "gaps_ok w r"
  shows "gaps_ok w (rosbag_failed_start w trigger out r)" and "gaps_ok w (rosbag_begun w trigger out r)"
  using assms by (simp_all add: rosbag_failed_start_def rosbag_begun_def Let_def case_prod_beta gaps_kept)

lemma gaps_ok_start_rosbag: "mono (w_clock w) \<Longrightarrow> gaps_ok w r \<Longrightarrow> gaps_ok w (fst (start_rosbag w trigger sid mk ex started r))"
  using gaps_ok_ensure [of w r sid mk]
  by (auto simp: start_rosbag_def gaps_ok_rosbag Let_def split: prod.split sum.split option.split)

lemma gaps_ok_stop_rosbag: "mono (w_clock w) \<Longrightarrow> gaps_ok w r \<Longrightarrow> gaps_ok w (fst (stop_rosbag w saving r))"
  by (simp add: stop_rosbag_def Let_def case_prod_beta gaps_kept split: option.split bool.split)

lemma gaps_ok_finalized: "mono (w_clock w) \<Longrightarrow> gaps_ok w r \<Longrightarrow> gaps_ok w (fst (rosbag_finalized w code r))"
  by (simp add: rosbag_finalized_def Let_def case_prod_beta gaps_kept split: option.split)

lemma gaps_ok_exited: "mono (w_clock w) \<Longrightarrow> gaps_ok w r \<Longrightarrow> gaps_ok w (fst (rosbag_exited w code r))"
  by (simp add: rosbag_exited_def Let_def case_prod_beta gaps_kept split: option.split)

lemma gaps_ok_step: "mono (w_clock w) \<Longrightarrow> gaps_ok w r \<Longrightarrow> gaps_ok w (recorder_step w r req)"
  by (cases req) (simp_all add: gaps_ok_start_log gaps_ok_stop_log gaps_ok_record gaps_ok_start_rosbag gaps_ok_stop_rosbag
      gaps_ok_finalized gaps_ok_exited)

section \<open>The two recordings as an abstract state machine\<close>

text \<open>Log active, who started it, rosbag active, who started it, the save in progress; without a session nothing is
  active.\<close>

type_synonym recordings = "bool \<times> string \<times> bool \<times> string \<times> (nat \<times> real) option"

definition recordings :: "recorder \<Rightarrow> recordings" where
  "recordings r = (case flags r of None \<Rightarrow> (False, '''', False, '''', None) | Some f \<Rightarrow> f)"

fun recording_edge :: "request \<Rightarrow> recordings \<Rightarrow> recordings \<Rightarrow> bool" where
  "recording_edge (Start_log t sid mk) (la, ls, bag) (la', ls', bag') =
     (t \<in> {TRIGGER_HUMAN, TRIGGER_AUTO_MAP_START, TRIGGER_AUTO_AUTONOMY_START} \<and> \<not> la \<and> la' \<and> ls' = t \<and> bag' = bag)"
| "recording_edge (Stop_log t) (la, ls, bag) (la', ls', bag') =
     (la \<and> (t = TRIGGER_HUMAN \<or> ls \<noteq> TRIGGER_HUMAN) \<and> \<not> la' \<and> ls' = '''' \<and> bag' = bag)"
| "recording_edge (Received kind topic t p) f f' = False"
| "recording_edge (Start_rosbag t sid mk ex ok) (la, ls, ra, rs, fin) (la', ls', ra', rs', fin') =
     (t = TRIGGER_HUMAN \<and> \<not> ra \<and> fin = None \<and> ra' \<and> rs' = t \<and> (la', ls', fin') = (la, ls, fin))"
| "recording_edge (Stop_rosbag saving) (la, ls, ra, rs, fin) (la', ls', ra', rs', fin') =
     (ra \<and> \<not> ra' \<and> rs' = '''' \<and> (la', ls') = (la, ls) \<and> (fin' = fin \<or> saving = Some True))"
| "recording_edge (Bag_finalized code) (la, ls, ra, rs, fin) (la', ls', ra', rs', fin') =
     (fin \<noteq> None \<and> fin' = None \<and> (la', ls', ra', rs') = (la, ls, ra, rs))"
| "recording_edge (Bag_exited code) (la, ls, ra, rs, fin) (la', ls', ra', rs', fin') =
     (ra \<and> \<not> ra' \<and> rs' = '''' \<and> (la', ls', fin') = (la, ls, fin))"

lemma flags_on_session [simp]:
  "flags (on_session (\<lambda>s. s\<lparr>log_active := a, log_started_by := b\<rparr>) r) = map_option (\<lambda>(_, _, bag). (a, b, bag)) (flags r)"
  "flags (on_session (\<lambda>s. s\<lparr>rosbag_active := a, rosbag_started_by := b\<rparr>) r)
     = map_option (\<lambda>(la, ls, _, _, fin). (la, ls, a, b, fin)) (flags r)"
  "flags (on_session (\<lambda>s. s\<lparr>rosbag_finalizing := z\<rparr>) r) = map_option (\<lambda>(la, ls, ra, rs, _). (la, ls, ra, rs, z)) (flags r)"
  "flags (on_session (\<lambda>s. s\<lparr>last_finalize := l\<rparr>) r) = flags r"
  "flags (on_session (\<lambda>s. s\<lparr>rosbag_outputs := g s\<rparr>) r) = flags r"
  by (cases "r_session r"; simp add: flags_def)+

lemma flags_received [simp]: "flags (r\<lparr>r_last_received := d\<rparr>) = flags r"
  by (simp add: flags_def)

lemma flags_log [simp]:
  "flags (begin_log w t r) = map_option (\<lambda>(_, _, bag). (True, t, bag)) (flags r)"
  "flags (end_log w t r) = map_option (\<lambda>(_, _, bag). (False, '''', bag)) (flags r)"
  by (simp_all add: begin_log_def end_log_def Let_def case_prod_beta)

lemma flags_rosbag [simp]:
  "flags (rosbag_failed_start w t out r) = flags r"
  "flags (rosbag_begun w t out r) = map_option (\<lambda>(la, ls, _, _, fin). (la, ls, True, t, fin)) (flags r)"
  by (simp_all add: rosbag_failed_start_def rosbag_begun_def Let_def case_prod_beta)

lemma ensure_recordings:
  assumes "ensure_session w sid mk r = (r', x)"
  shows "recordings r' = recordings r"
proof -
  have "flags (r\<lparr>r_session := Some (new_session sid)\<rparr>) = Some (False, '''', False, '''', None)"
    by (simp add: flags_def new_session_def)
  moreover have "flags r = None" if "r_session r = None" using that by (simp add: flags_def)
  ultimately show ?thesis
    using assms by (auto simp: ensure_session_def recordings_def Let_def split: if_split_asm)
qed

lemma recordings_Some: "r_session r = Some s
    \<Longrightarrow> flags r = Some (log_active s, log_started_by s, rosbag_active s, rosbag_started_by s, rosbag_finalizing s)"
  by (simp add: flags_def)

lemma start_log_edge:
  "recordings (fst (start_log w t sid mk r)) = recordings r \<or> recording_edge (Start_log t sid mk) (recordings r) (recordings (fst (start_log w t sid mk r)))"
proof -
  obtain r' x where e: "ensure_session w sid mk r = (r', x)" by fastforce
  note same = ensure_recordings [OF e]
  show ?thesis
    by (cases "r_session r'"; cases x)
      (auto simp: start_log_def e recordings_def AUTO_TRIGGERS_def recordings_Some same [unfolded recordings_def, symmetric])
qed

lemma start_rosbag_edge:
  "recordings (fst (start_rosbag w t sid mk ex ok r)) = recordings r
   \<or> recording_edge (Start_rosbag t sid mk ex ok) (recordings r) (recordings (fst (start_rosbag w t sid mk ex ok r)))"
proof -
  obtain r' x where e: "ensure_session w sid mk r = (r', x)" by fastforce
  note same = ensure_recordings [OF e]
  show ?thesis
    by (cases "r_session r'"; cases x)
      (auto simp: start_rosbag_def e Let_def recordings_def recordings_Some same [unfolded recordings_def, symmetric] split: option.split)
qed

lemma recorder_step_edge:
  "recordings (recorder_step w r req) = recordings r \<or> recording_edge req (recordings r) (recordings (recorder_step w r req))"
proof (cases req)
  case (Start_log t sid mk)
  then show ?thesis using start_log_edge by simp
next
  case (Start_rosbag t sid mk ex ok)
  then show ?thesis using start_rosbag_edge by simp
next
  case (Stop_log t)
  then show ?thesis
    by (cases "r_session r") (auto simp: stop_log_def recordings_def recordings_Some)
next
  case (Received kind topic t p)
  then show ?thesis
    by (cases "r_session r") (auto simp: record_message_def recordings_def Let_def)
next
  case (Stop_rosbag saving)
  then show ?thesis
    by (cases "r_session r") (auto simp: stop_rosbag_def recordings_def recordings_Some Let_def case_prod_beta split: option.split bool.split)
next
  case (Bag_finalized code)
  then show ?thesis
    by (cases "r_session r") (auto simp: rosbag_finalized_def recordings_def recordings_Some Let_def case_prod_beta split: option.split)
next
  case (Bag_exited code)
  then show ?thesis
    by (cases "r_session r") (auto simp: rosbag_exited_def recordings_def recordings_Some Let_def case_prod_beta)
qed

definition recorder_inv :: "recorder \<Rightarrow> bool" where
  "recorder_inv r \<longleftrightarrow> (case recordings r of (la, ls, ra, rs, fin) \<Rightarrow>
     (la \<longrightarrow> ls = TRIGGER_HUMAN \<or> ls \<in> set AUTO_TRIGGERS) \<and> (\<not> la \<longrightarrow> ls = '''')
     \<and> (ra \<longrightarrow> rs = TRIGGER_HUMAN \<and> fin = None) \<and> (\<not> ra \<longrightarrow> rs = ''''))"

lemma recorder_inv_step: "recorder_inv r \<Longrightarrow> recorder_inv (recorder_step w r req)"
  using recorder_step_edge [of w r req]
  by (cases req; cases "recordings r"; cases "recordings (recorder_step w r req)")
    (auto simp: recorder_inv_def AUTO_TRIGGERS_def)

lemma recorder_inv_new: "recorder_inv new_recorder"
  by (simp add: recorder_inv_def recordings_def flags_def new_recorder_def)

interpretation rec: event_system "\<lambda>r. r = new_recorder" "recorder_step w" recorder_inv for w
  by unfold_locales (simp_all add: recorder_inv_new recorder_inv_step)

interpretation rec_log: refines_edges "\<lambda>r. r = new_recorder" "recorder_step w" recorder_inv recordings recording_edge for w
  by unfold_locales (rule recorder_step_edge)

section \<open>Not recording means a gap is open\<close>

definition log_on :: "recorder \<Rightarrow> bool" where
  "log_on r \<longleftrightarrow> fst (recordings r)"

lemma log_on_flags: "flags r' = flags r \<Longrightarrow> log_on r' = log_on r"
  by (simp add: log_on_def recordings_def)

lemma log_on_rosbag [simp]: "flags r' = map_option (\<lambda>(la, ls, ra, rs, fin). (la, ls, f ra rs fin)) (flags r) \<Longrightarrow> log_on r' = log_on r"
  by (cases "flags r") (simp_all add: log_on_def recordings_def split: prod.split)

text \<open>The helpers that may run while the log is off leave an open gap open.\<close>

definition gap_open :: "recorder \<Rightarrow> bool" where
  "gap_open r \<longleftrightarrow> (\<exists>s g. r_session r = Some s \<and> open_gap s = Some g)"

lemma gap_open_session: "(\<And>s. open_gap (f s) = open_gap s) \<Longrightarrow> gap_open (on_session f r) = gap_open r"
  by (cases "r_session r") (simp_all add: gap_open_def)

lemma gap_open_fields [simp]:
  "gap_open (r\<lparr>r_writes := n\<rparr>) = gap_open r" "gap_open (snd (tick w r)) = gap_open r" "gap_open (bump r) = gap_open r"
  by (simp_all add: gap_open_def)

lemma gap_open_failure [simp]: "gap_open (add_failure w what out r) = gap_open r"
  by (simp add: add_failure_def Let_def case_prod_beta gap_open_session)

lemma gap_open_outputs [simp]: "gap_open (add_output b r) = gap_open r" "gap_open (update_last f r) = gap_open r"
  by (simp_all add: add_output_def update_last_def gap_open_session)

lemma gap_open_helpers [simp]:
  "gap_open (write_session w r) = gap_open r" "gap_open (stop_open_output w res code r) = gap_open r"
  by (simp_all add: write_session_def stop_open_output_def Let_def case_prod_beta split: option.split)

lemma gap_open_quiet: "\<not> log_on r \<Longrightarrow> log_failure w what out r = r"
  by (auto simp: log_failure_def log_on_def recordings_def flags_def split: option.split)

lemma gap_open_opened: "r_session r \<noteq> None \<Longrightarrow> gap_open (set_open_gap w k r)"
  by (auto simp: gap_open_def set_open_gap_def tick_def split: option.split)

lemma gap_open_end:
  assumes "r_session r \<noteq> None"
  shows "gap_open (end_log w t r)"
proof -
  let ?r = "fst (append_event w (Record_stop (fst (tick w r)) t) (snd (tick w r)))"
  from assms have "flags r \<noteq> None" by (simp add: flags_def)
  then have "flags ?r \<noteq> None" by simp
  then have "r_session ?r \<noteq> None" unfolding flags_def by simp
  then have "gap_open (set_open_gap w Stopped (on_session (\<lambda>s. s\<lparr>log_active := False, log_started_by := ''''\<rparr>) ?r))"
    by (intro gap_open_opened) simp
  then show ?thesis unfolding end_log_def Let_def case_prod_beta gap_open_helpers gap_open_fields .
qed

section \<open>Off means a gap\<close>

definition covered :: "recorder \<Rightarrow> bool" where
  "covered r \<longleftrightarrow> log_on r \<or> gap_open r"

lemma log_on_eq: "log_on r \<longleftrightarrow> (case flags r of None \<Rightarrow> False | Some f \<Rightarrow> fst f)"
  by (simp add: log_on_def recordings_def split: option.split)

lemma log_on_helpers [simp]:
  "log_on (snd (tick w r)) = log_on r" "log_on (bump r) = log_on r" "log_on (write_session w r) = log_on r"
  "log_on (add_failure w what out r) = log_on r" "log_on (add_output b r) = log_on r" "log_on (update_last f r) = log_on r"
  "log_on (stop_open_output w res code r) = log_on r"
  "log_on (on_session (\<lambda>s. s\<lparr>last_finalize := l\<rparr>) r) = log_on r"
  "log_on (on_session (\<lambda>s. s\<lparr>rosbag_outputs := g s\<rparr>) r) = log_on r"
  by (simp_all add: log_on_eq)

lemma log_on_sessions [simp]:
  "log_on (on_session (\<lambda>s. s\<lparr>rosbag_active := a, rosbag_started_by := b\<rparr>) r) = log_on r"
  "log_on (on_session (\<lambda>s. s\<lparr>rosbag_finalizing := z\<rparr>) r) = log_on r"
  by (auto simp: log_on_eq split: option.split)

lemma covered_stop_rosbag: "\<not> log_on r \<Longrightarrow> gap_open (fst (stop_rosbag w saving r)) = gap_open r"
  by (simp add: stop_rosbag_def Let_def case_prod_beta gap_open_session gap_open_quiet split: option.split bool.split)

lemma covered_finalized: "\<not> log_on r \<Longrightarrow> gap_open (fst (rosbag_finalized w code r)) = gap_open r"
  by (simp add: rosbag_finalized_def Let_def case_prod_beta gap_open_session gap_open_quiet split: option.split)

lemma covered_exited: "\<not> log_on r \<Longrightarrow> gap_open (fst (rosbag_exited w code r)) = gap_open r"
  by (simp add: rosbag_exited_def Let_def case_prod_beta gap_open_session gap_open_quiet split: option.split)

lemma covered_begun:
  "\<not> log_on r \<Longrightarrow> gap_open (rosbag_failed_start w t out r) = gap_open r"
  "gap_open (rosbag_begun w t out r) = gap_open r"
  by (simp_all add: rosbag_failed_start_def rosbag_begun_def Let_def case_prod_beta gap_open_session gap_open_quiet)

lemma covered_start_rosbag:
  assumes "\<not> log_on r" and "gap_open r"
  shows "gap_open (fst (start_rosbag w t sid mk ex ok r))"
proof -
  from assms(2) have "ensure_session w sid mk r = (r, Inr ())" by (auto simp: gap_open_def ensure_session_def)
  with assms show ?thesis by (simp add: start_rosbag_def Let_def covered_begun split: option.split)
qed

lemma covered_step:
  assumes "covered r"
  shows "covered (recorder_step w r req)"
proof (cases "log_on (recorder_step w r req)")
  case True
  then show ?thesis by (simp add: covered_def)
next
  case off: False
  show ?thesis
  proof (cases "log_on r")
    case True
    with off have "fst (recordings r)" "recordings (recorder_step w r req) \<noteq> recordings r"
      by (auto simp: log_on_def)
    with recorder_step_edge [of w r req] off obtain t where t: "req = Stop_log t"
      by (cases req; cases "recordings r"; cases "recordings (recorder_step w r req)") (auto simp: log_on_def)
    from True obtain s where s: "r_session r = Some s" by (auto simp: log_on_eq flags_def split: option.split_asm)
    with off True t gap_open_end [of r w t] show ?thesis
      by (auto simp: covered_def stop_log_def log_on_eq flags_def split: if_split_asm)
  next
    case False
    with assms have "gap_open r" by (simp add: covered_def)
    then obtain s where s: "r_session r = Some s" by (auto simp: gap_open_def)
    have "gap_open (recorder_step w r req) \<or> log_on (recorder_step w r req)"
    proof (cases req)
      case (Start_log t sid mk)
      with s \<open>gap_open r\<close> show ?thesis by (auto simp: start_log_def ensure_session_def log_on_eq recordings_Some)
    next
      case (Stop_log t)
      with False s \<open>gap_open r\<close> show ?thesis by (simp add: stop_log_def log_on_eq recordings_Some)
    next
      case (Received kind topic t p)
      with False s \<open>gap_open r\<close> show ?thesis by (simp add: record_message_def Let_def log_on_eq recordings_Some gap_open_def)
    qed (use False \<open>gap_open r\<close> in
        \<open>simp_all add: covered_stop_rosbag covered_finalized covered_exited covered_start_rosbag\<close>)
    then show ?thesis by (auto simp: covered_def)
  qed
qed

lemma covered_run: "covered r \<Longrightarrow> covered (run (recorder_step w) r reqs)"
  by (induction reqs arbitrary: r) (simp_all add: covered_step)

lemma gaps_ok_run: "mono (w_clock w) \<Longrightarrow> gaps_ok w r \<Longrightarrow> gaps_ok w (run (recorder_step w) r reqs)"
  by (induction reqs arbitrary: r) (simp_all add: gaps_ok_step)

section \<open>Properties\<close>

text \<open>C25. The gap ranges account for the time in which the log was off: whatever is requested, and whichever writes
  fail, the gaps of a session are closed ranges that follow each other in time (given a clock that does
  not go back), an open gap comes after them, once the log has been on it is off only with a gap open,
  and while it is on an open gap can only be a failed write.\<close>

theorem gaps_account_for_time_off:
  assumes "mono (w_clock w)" and "r_session (run (recorder_step w) new_recorder reqs) = Some s"
  shows "sorted (gap_times s) \<and> (\<forall>g \<in> set (gaps s). g_end g \<noteq> None)
     \<and> ((\<exists>n. log_on (run (recorder_step w) new_recorder (take n reqs))) \<and> \<not> log_active s \<longrightarrow> open_gap s \<noteq> None)
     \<and> (\<forall>g. log_active s \<and> open_gap s = Some g \<longrightarrow> g_kind g = Failure)"
proof -
  let ?r = "run (recorder_step w) new_recorder reqs"
  have "gaps_ok w ?r"
    using assms(1) by (rule gaps_ok_run) (simp add: gaps_ok_def gaps_ordered_def new_recorder_def)
  with assms(2) have "sorted (gap_times s) \<and> (\<forall>g \<in> set (gaps s). g_end g \<noteq> None)
     \<and> (\<forall>g. log_active s \<and> open_gap s = Some g \<longrightarrow> g_kind g = Failure)"
    by (auto simp: gaps_ok_def gaps_ordered_def sorted_append)
  moreover have "open_gap s \<noteq> None"
    if "log_on (run (recorder_step w) new_recorder (take n reqs))" "\<not> log_active s" for n
  proof -
    from that(1) have "covered (run (recorder_step w) (run (recorder_step w) new_recorder (take n reqs)) (drop n reqs))"
      by (rule covered_run [OF iffD2 [OF covered_def disjI1]])
    then have "covered ?r" by (simp flip: run_append)
    with that(2) assms(2) show ?thesis by (simp add: covered_def log_on_eq recordings_Some gap_open_def)
  qed
  ultimately show ?thesis by blast
qed

definition sample_world :: world where
  "sample_world = \<lparr>w_clock = real, w_writes = (\<lambda>n. n \<noteq> 3)\<rparr>"

theorem gaps_account_for_time_off_witness:
  "\<exists>s. r_session (run (recorder_step sample_world) new_recorder [Start_log ''human'' ''s'' True, Stop_log ''human'']) = Some s
     \<and> open_gap s \<noteq> None \<and> sorted (gap_times s)"
proof -
  let ?reqs = "[Start_log ''human'' ''s'' True, Stop_log ''human'']"
  have "case r_session (run (recorder_step sample_world) new_recorder ?reqs) of None \<Rightarrow> False | Some s \<Rightarrow> \<not> log_active s"
    by code_simp
  then obtain s where s: "r_session (run (recorder_step sample_world) new_recorder ?reqs) = Some s" "\<not> log_active s"
    by (auto split: option.splits)
  have "log_on (run (recorder_step sample_world) new_recorder (take 1 ?reqs))" by code_simp
  moreover have "mono (w_clock sample_world)" by (simp add: sample_world_def incseq_def)
  ultimately show ?thesis using gaps_account_for_time_off [OF _ s(1)] s by blast
qed

text \<open>C26. A recording follows the rules of the design.  A log that a human started runs on, with its origin, until a
  human stops it, whatever else is requested (an automatic stop, an automatic start, anything of the
  rosbag); an active rosbag was started by a human and is never active while the previous one is still
  being saved.\<close>

theorem human_log_is_kept:
  assumes "fst (recordings r) \<and> fst (snd (recordings r)) = TRIGGER_HUMAN" and "Stop_log TRIGGER_HUMAN \<notin> set reqs"
    and "r = run (recorder_step w) new_recorder before" and "r' = run (recorder_step w) r reqs"
  shows "\<exists>s. r_session r' = Some s \<and> log_active s \<and> log_started_by s = TRIGGER_HUMAN
     \<and> (rosbag_active s \<longrightarrow> rosbag_started_by s = TRIGGER_HUMAN \<and> rosbag_finalizing s = None)"
proof -
  have inv: "recorder_inv r" unfolding assms(3) by (rule rec.inv_reachable) simp
  let ?P = "\<lambda>(f :: recordings). fst f \<and> fst (snd f) = TRIGGER_HUMAN"
  have keep: "?P b" if "req \<in> set reqs" "?P a" "recording_edge req a b" for req a b
  proof -
    from that(1) assms(2) have "req \<noteq> Stop_log TRIGGER_HUMAN" by blast
    with that(2,3) show ?thesis by (cases req; cases a; cases b) auto
  qed
  have "?P (recordings r')"
    unfolding assms(4) by (rule rec_log.stays [OF inv, of ?P], rule assms(1), erule (2) keep)
  moreover from rec.inv_run [OF inv] assms(4) have "recorder_inv r'" by simp
  ultimately show ?thesis
    by (cases "r_session r'") (auto simp: recordings_def flags_def recorder_inv_def)
qed

theorem human_log_is_kept_witness:
  "\<exists>s. r_session (run (recorder_step sample_world) new_recorder
      [Start_log ''human'' ''s'' True, Stop_log ''auto:stop'', Start_rosbag ''human'' ''s'' True [1] True]) = Some s
    \<and> log_active s \<and> rosbag_started_by s = TRIGGER_HUMAN"
proof -
  let ?r = "run (recorder_step sample_world) new_recorder [Start_log ''human'' ''s'' True]"
  let ?reqs = "[Stop_log ''auto:stop'', Start_rosbag ''human'' ''s'' True [1] True]"
  have "fst (recordings ?r) \<and> fst (snd (recordings ?r)) = TRIGGER_HUMAN" and "Stop_log TRIGGER_HUMAN \<notin> set ?reqs"
    and "case r_session (run (recorder_step sample_world) ?r ?reqs) of None \<Rightarrow> False | Some s \<Rightarrow> rosbag_active s"
    by code_simp+
  with human_log_is_kept [OF _ _ refl refl, of sample_world "[Start_log ''human'' ''s'' True]" ?reqs] show ?thesis
    by (auto split: option.splits)
qed

text \<open>The operations report failures as answers, but a folder of the session that cannot be made raises out of the
  start, with the session already set: the second request then goes on in a session without folders.\<close>

lemma start_without_folder_raises:
  "snd (start_log w TRIGGER_HUMAN sid False new_recorder) = Inl OSError"
  "r_session (fst (start_log w TRIGGER_HUMAN sid False new_recorder)) = Some (new_session sid)"
  by (simp_all add: start_log_def ensure_session_def new_recorder_def)

end
