(* ===== verification/Text_Data.thy ===== *)
theory Text_Data
  imports Prelude
begin

text \<open>
  Python's string methods as the code uses them (on ASCII text), and the comparisons of floats, in
  which NaN is neither smaller nor larger than anything.
\<close>

section \<open>Comparisons of floats\<close>

fun xlt :: "xfloat \<Rightarrow> xfloat \<Rightarrow> bool" where
  "xlt (Fin a) (Fin b) = (a < b)"
| "xlt (Fin a) PosInf = True"
| "xlt NegInf (Fin b) = True"
| "xlt NegInf PosInf = True"
| "xlt _ _ = False"

lemma xlt_NaN [simp]: "\<not> xlt NaN x" "\<not> xlt x NaN"
  by (cases x; simp)+

section \<open>Strings\<close>

text \<open>\<^verbatim>\<open>str.isspace\<close> of one character.\<close>

definition white :: "char \<Rightarrow> bool" where
  "white c \<longleftrightarrow> of_char c \<in> {9, 10, 11, 12, 13, 28, 29, 30, 31, 32 :: nat}"

text \<open>The characters at which \<^verbatim>\<open>str.splitlines\<close> ends a line (a carriage return with a line feed is one end).\<close>

definition line_end :: "char \<Rightarrow> bool" where
  "line_end c \<longleftrightarrow> of_char c \<in> {10, 11, 12, 13, 28, 29, 30 :: nat}"

definition lstrip :: "string \<Rightarrow> string" where
  "lstrip s = dropWhile white s"

definition strip :: "string \<Rightarrow> string" where
  "strip s = rev (lstrip (rev (lstrip s)))"

fun split_ws :: "string \<Rightarrow> string list" where
  "split_ws [] = []"
| "split_ws (c # s) =
     (if white c then split_ws s
      else (case split_ws s of
          [] \<Rightarrow> [[c]]
        | w # ws \<Rightarrow> if s = [] \<or> white (hd s) then [c] # w # ws else (c # w) # ws))"

fun splitlines :: "string \<Rightarrow> string list" where
  "splitlines [] = []"
| "splitlines (c # s) =
     (if line_end c then [] # splitlines (if of_char c = (13::nat) \<and> s \<noteq> [] \<and> of_char (hd s) = (10::nat) then tl s else s)
      else (case splitlines s of
          [] \<Rightarrow> [[c]]
        | l # ls \<Rightarrow> (c # l) # ls))"

definition startswith :: "string \<Rightarrow> string \<Rightarrow> bool" where
  "startswith s p \<longleftrightarrow> take (length p) s = p"

definition endswith :: "string \<Rightarrow> string \<Rightarrow> bool" where
  "endswith s p \<longleftrightarrow> length p \<le> length s \<and> drop (length s - length p) s = p"

text \<open>\<^verbatim>\<open>s.split(c)\<close> with a character.\<close>

fun split_on :: "char \<Rightarrow> string \<Rightarrow> string list" where
  "split_on d [] = [[]]"
| "split_on d (c # s) = (if c = d then [] # split_on d s else (case split_on d s of [] \<Rightarrow> [[c]] | w # ws \<Rightarrow> (c # w) # ws))"

lemma split_on_not_Nil [simp]: "split_on d s \<noteq> []"
  by (cases s) (simp_all split: list.split)

end
