(* ===== verification/Localization.thy ===== *)
theory Localization
  imports Text_Data Contracts
begin

text \<open>
  \<^verbatim>\<open>gouda_core/localization_core.py\<close> (ND-07) and \<^verbatim>\<open>gouda_core/odometry_core.py\<close> (ND-08): poses and their
  composition, the buffer of odometry poses with interpolation, the transform from the map to the
  odometry frame, the covariances, the trajectory of the mapping run, and the state of the estimator
  with its reason.

  Poses and times are finite numbers (reals); the settings and the two quality values, which are
  compared with thresholds, are floats with NaN.
\<close>

section \<open>Settings\<close>

definition DOUBLE_SETTINGS :: "string list" where
  "DOUBLE_SETTINGS = [''points_near_crop_m'', ''points_far_crop_m'', ''points_voxel_leaf_m'', ''twist_vx_variance'', ''twist_wz_variance'',
     ''initial_xy_variance'', ''initial_z_variance'', ''initial_roll_pitch_variance'', ''initial_yaw_variance'',
     ''status_period_s'', ''stale_timeout_s'', ''ndt_nvtl_min'', ''ekf_xy_stddev_max_m'', ''map_odom_future_offset_s'']"

definition INT_SETTINGS :: "string list" where
  "INT_SETTINGS = [''ekf_pose_no_update_max'', ''points_voxel_min_points'']"

text \<open>The frozen dataclass: its float fields and its integer fields by name.\<close>

record settings =
  s_double :: "string \<Rightarrow> xfloat"
  s_int :: "string \<Rightarrow> int"

definition stale_timeout :: "settings \<Rightarrow> xfloat" where "stale_timeout s = s_double s ''stale_timeout_s''"

definition POSITIVE :: "string list" where
  "POSITIVE = [''points_far_crop_m'', ''points_voxel_leaf_m'', ''status_period_s'', ''stale_timeout_s'', ''ekf_xy_stddev_max_m'']"

definition bad_settings :: "settings \<Rightarrow> string list" where
  "bad_settings s =
     filter (\<lambda>k. \<not> xlt (Fin 0) (s_double s k)) POSITIVE
     @ filter (\<lambda>k. k \<notin> set POSITIVE \<and> k \<noteq> ''ndt_nvtl_min'' \<and> xlt (s_double s k) (Fin 0)) DOUBLE_SETTINGS
     @ filter (\<lambda>k. s_int s k < 0) INT_SETTINGS
     @ (if s_int s ''points_voxel_min_points'' < 1 then [''points_voxel_min_points must be at least 1''] else [])
     @ (if \<not> xlt (s_double s ''points_near_crop_m'') (s_double s ''points_far_crop_m'')
        then [''points_near_crop_m must be smaller than points_far_crop_m''] else [])
     @ (if \<not> xlt (s_double s ''map_odom_future_offset_s'') (stale_timeout s)
        then [''map_odom_future_offset_s must be smaller than stale_timeout_s''] else [])"

text \<open>\<^verbatim>\<open>Settings.from_values\<close>; \<open>pf\<close> and \<open>pint\<close> are the numbers that strings spell.\<close>

definition settings_from_values :: "(string \<Rightarrow> xfloat option) \<Rightarrow> (string \<Rightarrow> int option) \<Rightarrow> (string \<times> pyval) list \<Rightarrow> settings result" where
  "settings_from_values pf pint values =
     (if filter (\<lambda>k. dict_get values k PNone = PNone) (DOUBLE_SETTINGS @ INT_SETTINGS) \<noteq> [] then Inl ValueError
      else res_bind (res_map (\<lambda>k. py_float pf (dict_get values k PNone)) DOUBLE_SETTINGS) (\<lambda>ds.
           res_bind (res_map (\<lambda>k. py_int pint (dict_get values k PNone)) INT_SETTINGS) (\<lambda>is.
             let s = \<lparr>s_double = (\<lambda>k. case map_of (zip DOUBLE_SETTINGS ds) k of None \<Rightarrow> Fin 0 | Some v \<Rightarrow> v),
                      s_int = (\<lambda>k. case map_of (zip INT_SETTINGS is) k of None \<Rightarrow> 0 | Some v \<Rightarrow> v)\<rparr>
             in if bad_settings s \<noteq> [] then Inl ValueError else Inr s)))"

definition with_map_odom_offset :: "settings \<Rightarrow> xfloat \<Rightarrow> settings" where
  "with_map_odom_offset s v =
     (if xlt (Fin 0) v \<and> xlt v (stale_timeout s) then s\<lparr>s_double := (s_double s)(''map_odom_future_offset_s'' := v)\<rparr> else s)"

definition future_stamp :: "int \<Rightarrow> int \<Rightarrow> real \<Rightarrow> int \<times> int" where
  "future_stamp sec nanosec offset =
     (let total = sec * 10 ^ 9 + nanosec + py_round (offset * 10 ^ 9) in (total div 10 ^ 9, total mod 10 ^ 9))"

text \<open>For the evaluation of examples: the roots of zero and one.\<close>

lemma sqrt_code [code]: "sqrt x = (if x = 0 then 0 else if x = 1 then 1 else sqrt x)"
  by simp

section \<open>Poses\<close>

type_synonym vec = "real \<times> real \<times> real"
type_synonym quat = "real \<times> real \<times> real \<times> real" \<comment> \<open>x, y, z, w\<close>
type_synonym pose = "vec \<times> quat"

fun quat_mul :: "quat \<Rightarrow> quat \<Rightarrow> quat" where
  "quat_mul (ax, ay, az, aw) (bx, by', bz, bw) =
     (aw * bx + ax * bw + ay * bz - az * by', aw * by' - ax * bz + ay * bw + az * bx,
      aw * bz + ax * by' - ay * bx + az * bw, aw * bw - ax * bx - ay * by' - az * bz)"

fun conj_quat :: "quat \<Rightarrow> quat" where
  "conj_quat (x, y, z, w) = (- x, - y, - z, w)"

fun rotate :: "quat \<Rightarrow> vec \<Rightarrow> vec" where
  "rotate q (x, y, z) = (case quat_mul (quat_mul q (x, y, z, 0)) (conj_quat q) of (a, b, c, d) \<Rightarrow> (a, b, c))"

fun vec_add :: "vec \<Rightarrow> vec \<Rightarrow> vec" where
  "vec_add (a, b, c) (x, y, z) = (a + x, b + y, c + z)"

definition compose :: "pose \<Rightarrow> pose \<Rightarrow> pose" where
  "compose a b = (vec_add (fst a) (rotate (snd a) (fst b)), quat_mul (snd a) (snd b))"

fun inverse_pose :: "pose \<Rightarrow> pose" where
  "inverse_pose (p, q) = (case rotate (conj_quat q) p of (x, y, z) \<Rightarrow> ((- x, - y, - z), conj_quat q))"

fun dot :: "quat \<Rightarrow> quat \<Rightarrow> real" where
  "dot (a, b, c, d) (x, y, z, w) = a * x + b * y + c * z + d * w"

fun lerp3 :: "real \<Rightarrow> vec \<Rightarrow> vec \<Rightarrow> vec" where
  "lerp3 t (a, b, c) (x, y, z) = (a + (x - a) * t, b + (y - b) * t, c + (z - c) * t)"

fun lerp4 :: "real \<Rightarrow> quat \<Rightarrow> quat \<Rightarrow> quat" where
  "lerp4 t (a, b, c, d) (x, y, z, w) = (a + (x - a) * t, b + (y - b) * t, c + (z - c) * t, d + (w - d) * t)"

fun neg_quat :: "quat \<Rightarrow> quat" where
  "neg_quat (x, y, z, w) = (- x, - y, - z, - w)"

fun div_quat :: "quat \<Rightarrow> real \<Rightarrow> quat" where
  "div_quat (x, y, z, w) n = (x / n, y / n, z / n, w / n)"

definition interpolate :: "pose \<Rightarrow> real \<Rightarrow> pose \<Rightarrow> real \<Rightarrow> real \<Rightarrow> pose result" where
  "interpolate p0 t0 p1 t1 t =
     (let a = (if t1 = t0 then 0 else (t - t0) / (t1 - t0));
          q1 = (if dot (snd p0) (snd p1) < 0 then neg_quat (snd p1) else snd p1);
          q = lerp4 a (snd p0) q1; n = sqrt (dot q q)
      in if n = 0 then Inl ZeroDivisionError else Inr (lerp3 a (fst p0) (fst p1), div_quat q n))"

text \<open>\<^verbatim>\<open>odometry_core.yaw\<close> and \<^verbatim>\<open>body_twist\<close>; \<open>atan2\<close> is the library's, a parameter.\<close>

fun yaw :: "(real \<Rightarrow> real \<Rightarrow> real) \<Rightarrow> quat \<Rightarrow> real" where
  "yaw atan2 (x, y, z, w) = atan2 (2 * (w * z + x * y)) (1 - 2 * (y * y + z * z))"

fun vec_sub :: "vec \<Rightarrow> vec \<Rightarrow> vec" where
  "vec_sub (a, b, c) (x, y, z) = (a - x, b - y, c - z)"

definition body_twist :: "(real \<Rightarrow> real \<Rightarrow> real) \<Rightarrow> pose \<Rightarrow> real \<Rightarrow> pose \<Rightarrow> real \<Rightarrow> (real \<times> real \<times> real \<times> real) option" where
  "body_twist atan2 prev t_prev cur t_cur =
     (let dt = t_cur - t_prev in
      if \<not> 0 < dt then None
      else case rotate (conj_quat (snd prev)) (vec_sub (fst cur) (fst prev)) of (vx, vy, vz) \<Rightarrow>
        let d = yaw atan2 (snd cur) - yaw atan2 (snd prev)
        in Some (vx / dt, vy / dt, vz / dt, atan2 (sin d) (cos d) / dt))"

section \<open>The odometry buffer\<close>

record odom_buffer =
  b_span :: real
  b_items :: "(real \<times> pose) list"

definition odom_add :: "real \<Rightarrow> pose \<Rightarrow> odom_buffer \<Rightarrow> odom_buffer" where
  "odom_add t p b =
     (if b_items b \<noteq> [] \<and> t \<le> fst (last (b_items b)) then b
      else b\<lparr>b_items := dropWhile (\<lambda>i. fst i < t - b_span b) (b_items b @ [(t, p)])\<rparr>)"

definition odom_newest :: "odom_buffer \<Rightarrow> real option" where
  "odom_newest b = (if b_items b = [] then None else Some (fst (last (b_items b))))"

fun odom_search :: "real \<Rightarrow> real \<times> pose \<Rightarrow> (real \<times> pose) list \<Rightarrow> pose option result" where
  "odom_search t prev [] = Inr None"
| "odom_search t prev (i # is) =
     (if t \<le> fst i then
        (if fst i = t then Inr (Some (snd i))
         else res_bind (interpolate (snd prev) (fst prev) (snd i) (fst i) t) (\<lambda>p. Inr (Some p)))
      else odom_search t i is)"

definition odom_at :: "real \<Rightarrow> odom_buffer \<Rightarrow> pose option result" where
  "odom_at t b =
     (if b_items b = [] \<or> t < fst (hd (b_items b)) \<or> fst (last (b_items b)) < t then Inr None
      else odom_search t (hd (b_items b)) (b_items b))"

section \<open>The transform from the map to the odometry frame\<close>

record map_odom_estimator =
  e_odom :: odom_buffer
  e_ekf :: "(real \<times> pose) list"
  e_map_odom :: "(real \<times> pose) option" \<comment> \<open>\<^verbatim>\<open>map_odom_time\<close> and \<^verbatim>\<open>map_odom\<close>\<close>

definition new_estimator :: "real \<Rightarrow> map_odom_estimator" where
  "new_estimator sp = \<lparr>e_odom = \<lparr>b_span = sp, b_items = []\<rparr>, e_ekf = [], e_map_odom = None\<rparr>"

definition estimator_compute :: "real \<Rightarrow> pose \<Rightarrow> map_odom_estimator \<Rightarrow> map_odom_estimator result" where
  "estimator_compute t map_base e = res_bind (odom_at t (e_odom e)) (\<lambda>odom_base. Inr (case odom_base of
     None \<Rightarrow> e
   | Some o' \<Rightarrow> e\<lparr>e_map_odom := Some (t, compose map_base (inverse_pose o'))\<rparr>))"

definition on_odometry :: "real \<Rightarrow> pose \<Rightarrow> map_odom_estimator \<Rightarrow> map_odom_estimator result" where
  "on_odometry t p e =
     (let e = e\<lparr>e_odom := odom_add t p (e_odom e)\<rparr> in
      case odom_newest (e_odom e) of
        None \<Rightarrow> if e_ekf e = [] then Inr e else Inl TypeError
      | Some newest \<Rightarrow>
          let usable = filter (\<lambda>i. fst i \<le> newest) (e_ekf e)
          in if usable \<noteq> [] \<and> (case e_map_odom e of None \<Rightarrow> True | Some (since, _) \<Rightarrow> since < fst (last usable))
             then estimator_compute (fst (last usable)) (snd (last usable)) e else Inr e)"

definition on_ekf_pose :: "real \<Rightarrow> pose \<Rightarrow> map_odom_estimator \<Rightarrow> map_odom_estimator result" where
  "on_ekf_pose t p e =
     (if e_ekf e \<noteq> [] \<and> t \<le> fst (last (e_ekf e)) then Inr e
      else let e = e\<lparr>e_ekf := dropWhile (\<lambda>i. fst i < t - b_span (e_odom e)) (e_ekf e @ [(t, p)])\<rparr>
        in case odom_newest (e_odom e) of
             None \<Rightarrow> Inr e
           | Some n \<Rightarrow> if t \<le> n then estimator_compute t p e else Inr e)"

definition estimator_reset :: "map_odom_estimator \<Rightarrow> map_odom_estimator" where
  "estimator_reset e = new_estimator (b_span (e_odom e))"

section \<open>Covariances, twist, initial pose\<close>

text \<open>Of a 6x6 row-major covariance with finite entries; a shorter list raises.\<close>

definition xy_stddev :: "real list \<Rightarrow> real result" where
  "xy_stddev cov =
     (if length cov \<le> 7 then Inl IndexError
      else let a = cov ! 0; b = (cov ! 1 + cov ! 6) / 2; c = cov ! 7; m = (a + c) / 2;
               d = sqrt (max (((a - c) / 2)\<^sup>2 + b * b) 0)
        in Inr (sqrt (max (m + d) 0)))"

definition twist_covariance :: "settings \<Rightarrow> xfloat list" where
  "twist_covariance s = (replicate 36 (Fin 0))[0 := s_double s ''twist_vx_variance'', 35 := s_double s ''twist_wz_variance'']"

definition initial_pose_covariance :: "settings \<Rightarrow> xfloat list" where
  "initial_pose_covariance s = (let xy = s_double s ''initial_xy_variance''; rp = s_double s ''initial_roll_pitch_variance'' in
     (replicate 36 (Fin 0))[7 := xy, 0 := xy, 14 := s_double s ''initial_z_variance'', 28 := rp, 21 := rp,
       35 := s_double s ''initial_yaw_variance''])"

text \<open>The rows of a TUM trajectory: \<open>pf\<close> is the number a word spells.\<close>

definition tum_row :: "(string \<Rightarrow> xfloat option) \<Rightarrow> string \<Rightarrow> xfloat list option" where
  "tum_row pf line = (let f = split_ws line in
     if length f \<noteq> 8 \<or> startswith (lstrip line) ''#'' \<or> list_ex (\<lambda>v. pf v = None) (take 4 f) then None
     else Some (map (\<lambda>v. the (pf v)) (take 4 f)))"

definition read_tum :: "(string \<Rightarrow> xfloat option) \<Rightarrow> string \<Rightarrow> xfloat list list" where
  "read_tum pf text = List.map_filter (tum_row pf) (splitlines text)"

text \<open>\<^verbatim>\<open>min\<close> with a key: the first of the smallest.\<close>

fun nearest :: "real \<Rightarrow> real \<Rightarrow> (real \<times> real \<times> real \<times> real) list \<Rightarrow> (real \<times> real \<times> real \<times> real) option" where
  "nearest x y [] = None"
| "nearest x y (r # rs) = (case nearest x y rs of
     None \<Rightarrow> Some r
   | Some b \<Rightarrow> if (fst (snd b) - x)\<^sup>2 + (fst (snd (snd b)) - y)\<^sup>2 < (fst (snd r) - x)\<^sup>2 + (fst (snd (snd r)) - y)\<^sup>2 then Some b else Some r)"

definition initial_height :: "(real \<times> real \<times> real \<times> real) list \<Rightarrow> real \<Rightarrow> real \<Rightarrow> real \<Rightarrow> (real \<times> real) option" where
  "initial_height trajectory x y imu_height = (case nearest x y trajectory of
     None \<Rightarrow> None
   | Some (t, bx, by', bz) \<Rightarrow> Some (bz - imu_height, sqrt ((bx - x)\<^sup>2 + (by' - y)\<^sup>2)))"


section \<open>Diagnostics\<close>

definition NDT_SCORE_KEY :: string where "NDT_SCORE_KEY = ''nearest_voxel_transformation_likelihood''"
definition EKF_NO_UPDATE_KEY :: string where "EKF_NO_UPDATE_KEY = ''pose_no_update_count''"
definition NDT_SCAN_STATUS_SUFFIX :: string where "NDT_SCAN_STATUS_SUFFIX = '': scan_matching_status''"
definition NDT_POINTS_KEPT_KEY :: string where "NDT_POINTS_KEPT_KEY = ''is_activated''"

text \<open>\<^verbatim>\<open>float(...)\<close> of the score, \<^verbatim>\<open>int(float(...))\<close> of the count; TypeError and ValueError are caught, the
  OverflowError of an infinite count is not.\<close>

definition score_of :: "(string \<Rightarrow> xfloat option) \<Rightarrow> pyval \<Rightarrow> xfloat option result" where
  "score_of pf v = (case py_float pf v of Inr x \<Rightarrow> Inr (Some x) | Inl e \<Rightarrow> if e \<in> {TypeError, ValueError} then Inr None else Inl e)"

definition count_of :: "(string \<Rightarrow> xfloat option) \<Rightarrow> pyval \<Rightarrow> int option result" where
  "count_of pf v = (case res_bind (py_float pf v) (\<lambda>x. py_int (\<lambda>_. None) (PFloat x)) of
     Inr i \<Rightarrow> Inr (Some i) | Inl e \<Rightarrow> if e \<in> {TypeError, ValueError} then Inr None else Inl e)"

record diagnostics =
  d_score :: "xfloat option"
  d_count :: "int option"

definition read_status :: "(string \<Rightarrow> xfloat option) \<Rightarrow> diagnostics \<Rightarrow> (string \<times> pyval) list \<Rightarrow> diagnostics result" where
  "read_status pf d values =
     res_bind (case map_of values NDT_SCORE_KEY of None \<Rightarrow> Inr d
        | Some v \<Rightarrow> res_bind (score_of pf v) (\<lambda>x. Inr (if x = None then d else d\<lparr>d_score := x\<rparr>))) (\<lambda>d.
     case map_of values EKF_NO_UPDATE_KEY of None \<Rightarrow> Inr d
        | Some v \<Rightarrow> res_bind (count_of pf v) (\<lambda>i. Inr (if i = None then d else d\<lparr>d_count := i\<rparr>)))"

definition read_diagnostics :: "(string \<Rightarrow> xfloat option) \<Rightarrow> (string \<times> (string \<times> pyval) list) list \<Rightarrow> diagnostics result" where
  "read_diagnostics pf statuses = foldl (\<lambda>d (name, values). res_bind d (\<lambda>d. read_status pf d values))
     (Inr \<lparr>d_score = None, d_count = None\<rparr>) statuses"

definition read_ndt_points :: "(string \<times> string \<times> (string \<times> pyval) list) list \<Rightarrow> (bool \<times> string) option" where
  "read_ndt_points statuses = foldl (\<lambda>out (name, message, values).
     if endswith name NDT_SCAN_STATUS_SUFFIX then Some (map_of values NDT_POINTS_KEPT_KEY \<noteq> None, message) else out) None statuses"

datatype points_wait = No_scan_status | Cloud_dropped string | Points_waiting

definition points_wait_detail :: "(bool \<times> string) option \<Rightarrow> points_wait" where
  "points_wait_detail seen = (case seen of
     None \<Rightarrow> No_scan_status
   | Some (kept, message) \<Rightarrow> if message \<noteq> '''' then Cloud_dropped message else Points_waiting)"

section \<open>The state of the estimator\<close>

datatype estimator_state = Uninitialized | Initializing | Normal | Unavailable

datatype phase = Unconfigured | Waiting | Initializing_phase | Running | Failed_phase

record inputs =
  in_phase :: phase
  in_phase_detail :: string
  in_localizer_running :: bool
  in_last_ekf_pose :: "real option"
  in_last_ndt_score :: "real option"
  in_last_ekf_diag :: "real option"
  in_last_odometry :: "real option"
  in_ndt_nvtl :: "xfloat option"
  in_no_update_count :: "int option"
  in_xy_stddev :: "xfloat option"
  in_has_map_odom :: bool

definition named_inputs :: "inputs \<Rightarrow> (string \<times> real option) list" where
  "named_inputs i = [(''ekf_pose'', in_last_ekf_pose i), (''ndt_diagnostics'', in_last_ndt_score i),
     (''ekf_diagnostics'', in_last_ekf_diag i), (''odometry'', in_last_odometry i)]"

definition oldest_age :: "real \<Rightarrow> inputs \<Rightarrow> real option" where
  "oldest_age now i = (let times = map snd (named_inputs i) in
     if list_ex (\<lambda>t. t = None) times then None else Some (now - Min (set (map the times))))"

text \<open>The reasons; the names are those of the inputs that are missing or stale, the text is the phase's detail.\<close>

datatype state_reason =
    Not_configured | Not_initialized | Init_failed string | Localizer_exited | Initializing_now string
  | Awaiting_inputs "string list" | Input_stale "string list" | Ndt_diagnostics_missing | Ndt_score_low xfloat
  | Ekf_diagnostics_missing | Ekf_pose_not_updated int | Ekf_covariance_large "xfloat option" | No_reason

definition evaluate :: "real \<Rightarrow> inputs \<Rightarrow> settings \<Rightarrow> estimator_state \<times> state_reason" where
  "evaluate now i s =
     (if in_phase i = Unconfigured then (Uninitialized, Not_configured)
      else if in_phase i = Waiting then (Uninitialized, Not_initialized)
      else if in_phase i = Failed_phase then (Unavailable, Init_failed (in_phase_detail i))
      else if \<not> in_localizer_running i then (Unavailable, Localizer_exited)
      else if in_phase i = Initializing_phase then (Initializing, Initializing_now (in_phase_detail i))
      else let first = map fst (filter (\<lambda>(n, t). t = None) (named_inputs i)) @ (if in_has_map_odom i then [] else [''map_odom'']) in
        if first \<noteq> [] then (Initializing, Awaiting_inputs first)
        else let stale = map fst (filter (\<lambda>(n, t). xlt (stale_timeout s) (Fin (now - the t))) (named_inputs i)) in
          if stale \<noteq> [] then (Unavailable, Input_stale stale)
          else (case in_ndt_nvtl i of
              None \<Rightarrow> (Unavailable, Ndt_diagnostics_missing)
            | Some score \<Rightarrow>
                if xlt score (s_double s ''ndt_nvtl_min'') then (Unavailable, Ndt_score_low score)
                else (case in_no_update_count i of
                    None \<Rightarrow> (Unavailable, Ekf_diagnostics_missing)
                  | Some n \<Rightarrow>
                      if s_int s ''ekf_pose_no_update_max'' < n then (Unavailable, Ekf_pose_not_updated n)
                      else if in_xy_stddev i = None \<or> (case in_xy_stddev i of None \<Rightarrow> True | Some d \<Rightarrow> xlt (s_double s ''ekf_xy_stddev_max_m'') d)
                      then (Unavailable, Ekf_covariance_large (in_xy_stddev i))
                      else (Normal, No_reason))))"

end
