(* ===== verification/Localization_Properties.thy ===== *)
theory Localization_Properties
  imports Localization
begin

text \<open>
  The properties of the localization core: the algebra of poses, the transform from the map to the
  odometry frame in every run, and what the normal state of the estimator requires.
\<close>

section \<open>Quaternions\<close>

abbreviation unit :: "quat \<Rightarrow> bool" where
  "unit q \<equiv> dot q q = 1"


lemma unit_conj [simp]: "dot (conj_quat q) (conj_quat q) = dot q q"
  by (cases q) simp

lemma conj_conj [simp]: "conj_quat (conj_quat q) = q"
  by (cases q) simp



lemma quat_one [simp]: "quat_mul (0, 0, 0, 1) q = q" "quat_mul q (0, 0, 0, 1) = q"
  by (cases q; simp)+






lemma rotate_one [simp]: "rotate (0, 0, 0, 1) v = v"
  by (cases v) simp

lemma rotate_minus: "rotate q (case v of (x, y, z) \<Rightarrow> (- x, - y, - z)) = (case rotate q v of (x, y, z) \<Rightarrow> (- x, - y, - z))"
  by (cases q; cases v) (simp add: algebra_simps)

section \<open>Poses\<close>





lemma compose_one [simp]: "compose p ((0, 0, 0), (0, 0, 0, 1)) = p"
proof -
  have "rotate q (0, 0, 0) = (0, 0, 0)" for q by (cases q) simp
  moreover have "vec_add v (0, 0, 0) = v" for v by (cases v) simp
  ultimately show ?thesis by (simp add: compose_def)
qed


section \<open>Interpolation\<close>

lemma dot_neg [simp]: "dot q (neg_quat r) = - dot q r" "dot (neg_quat r) q = - dot r q" "dot (neg_quat r) (neg_quat r) = dot r r"
  by (cases q; cases r; simp)+







section \<open>The odometry buffer\<close>

declare split_paired_All [simp del] split_paired_Ex [simp del] dot.simps [simp del]

definition unit_items :: "(real \<times> pose) list \<Rightarrow> bool" where
  "unit_items is \<longleftrightarrow> (\<forall>i \<in> set is. unit (snd (snd i)))"

lemma unit_items_simps [simp]:
  "unit_items []" "unit_items (i # is) \<longleftrightarrow> unit (snd (snd i)) \<and> unit_items is"
  "unit_items (is @ js) \<longleftrightarrow> unit_items is \<and> unit_items js"
  by (auto simp: unit_items_def)





lemma span_add [simp]: "b_span (odom_add t p b) = b_span b"
  by (simp add: odom_add_def)

section \<open>Runs of the estimator\<close>










section \<open>Properties\<close>




text \<open>The estimator is reported as normal exactly when the localizer runs after its initialization, every input
  has arrived and none is older than the limit, the transform has been computed, and none of the three
  quality checks fails.\<close>

definition fresh_input :: "real \<Rightarrow> settings \<Rightarrow> real option \<Rightarrow> bool" where
  "fresh_input now s t \<longleftrightarrow> t \<noteq> None \<and> \<not> xlt (stale_timeout s) (Fin (now - the t))"

theorem normal_iff_all_checks:
  "fst (evaluate now i s) = Normal \<longleftrightarrow>
     in_phase i = Running \<and> in_localizer_running i \<and> in_has_map_odom i
     \<and> fresh_input now s (in_last_ekf_pose i) \<and> fresh_input now s (in_last_ndt_score i)
     \<and> fresh_input now s (in_last_ekf_diag i) \<and> fresh_input now s (in_last_odometry i)
     \<and> (\<exists>x. in_ndt_nvtl i = Some x \<and> \<not> xlt x (s_double s ''ndt_nvtl_min''))
     \<and> (\<exists>n. in_no_update_count i = Some n \<and> n \<le> s_int s ''ekf_pose_no_update_max'')
     \<and> (\<exists>d. in_xy_stddev i = Some d \<and> \<not> xlt (s_double s ''ekf_xy_stddev_max_m'') d)"
proof (cases "in_phase i")
  case Running
  then show ?thesis
    by (auto simp: evaluate_def named_inputs_def fresh_input_def Let_def split: option.split)
qed (simp_all add: evaluate_def Let_def)

text \<open>The quality checks do not see NaN: with a score and a standard deviation that are not numbers, a state that
  would be normal stays normal; and the diagnostics reader takes the text "nan" as such a score.\<close>

theorem nan_quality_stays_normal:
  assumes "fst (evaluate now i s) = Normal" and "pf v = Some NaN"
  shows "read_diagnostics pf [(name, [(NDT_SCORE_KEY, PStr v)])] = Inr \<lparr>d_score = Some NaN, d_count = None\<rparr>
     \<and> fst (evaluate now (i\<lparr>in_ndt_nvtl := Some NaN, in_xy_stddev := Some NaN\<rparr>) s) = Normal"
proof (cases "in_phase i")
  case Running
  with assms show ?thesis
    by (auto simp: evaluate_def named_inputs_def Let_def read_diagnostics_def read_status_def score_of_def NDT_SCORE_KEY_def EKF_NO_UPDATE_KEY_def
        split: if_split_asm option.split_asm)
qed (use assms in \<open>simp_all add: evaluate_def Let_def split: if_split_asm\<close>)

definition sample_settings :: settings where
  "sample_settings = \<lparr>s_double = (\<lambda>k. Fin 1), s_int = (\<lambda>k. 10)\<rparr>"

definition sample_inputs :: inputs where
  "sample_inputs = \<lparr>in_phase = Running, in_phase_detail = [], in_localizer_running = True, in_last_ekf_pose = Some 1,
     in_last_ndt_score = Some 1, in_last_ekf_diag = Some 1, in_last_odometry = Some 1, in_ndt_nvtl = Some (Fin 2),
     in_no_update_count = Some 0, in_xy_stddev = Some (Fin 0), in_has_map_odom = True\<rparr>"

theorem nan_quality_stays_normal_witness:
  "fst (evaluate 1 (sample_inputs\<lparr>in_ndt_nvtl := Some NaN, in_xy_stddev := Some NaN\<rparr>) sample_settings) = Normal"
proof -
  have "fst (evaluate 1 sample_inputs sample_settings) = Normal" by code_simp
  from nan_quality_stays_normal [OF this, of "\<lambda>_. Some NaN" "[]" "[]"] show ?thesis by simp
qed

end
