(* ===== verification/Crc16.thy ===== *)
theory Crc16
  imports Prelude
begin

unbundle bit_operations_syntax

text \<open>
  The CRC all serial protocols of the vehicle share, and what it detects: every change of a
  single byte.
\<close>

section \<open>CRC-16/CCITT-FALSE\<close>

text \<open>
  \<^verbatim>\<open>binascii.crc_hqx(data, 0xFFFF)\<close> of the standard library: polynomial 0x1021, most significant
  bit first.
\<close>

definition crc_shift :: "16 word \<Rightarrow> 16 word" where
  "crc_shift c = (if bit c 15 then push_bit 1 c XOR 0x1021 else push_bit 1 c)"

definition crc_byte :: "16 word \<Rightarrow> byte \<Rightarrow> 16 word" where
  "crc_byte c b = (crc_shift ^^ 8) (c XOR push_bit 8 (ucast b))"

definition crc_hqx :: "bytes \<Rightarrow> 16 word \<Rightarrow> 16 word" where
  "crc_hqx data c = foldl crc_byte c data"

definition crc16 :: "bytes \<Rightarrow> nat" where
  "crc16 data = unat (crc_hqx data 0xFFFF)"

section \<open>The CRC\<close>

lemma funpow_8: "(f ^^ 8) x = f (f (f (f (f (f (f (f x)))))))"
  by (simp add: numeral_eq_Suc)

lemmas crc_eval = crc16_def crc_hqx_def crc_byte_def funpow_8 crc_shift_def

lemma crc16_check: "crc16 [0x31, 0x32, 0x33, 0x34, 0x35, 0x36, 0x37, 0x38, 0x39] = 0x29B1"
  by (simp add: crc_eval)

lemma crc16_bound: "crc16 data < 65536"
  using unsigned_less [of "crc_hqx data 0xFFFF"] by (simp add: crc16_def)

lemma bit_crc_shift:
  "bit (crc_shift x) n \<longleftrightarrow>
     (0 < n \<and> n < 16 \<and> bit x (n - 1)) \<noteq> (bit x 15 \<and> bit (0x1021 :: 16 word) n)"
proof -
  have "bit (push_bit 1 x) n \<longleftrightarrow> 0 < n \<and> n < 16 \<and> bit x (n - 1)"
    unfolding bit_push_bit_iff by (auto simp: possible_bit_word)
  then show ?thesis unfolding crc_shift_def by (cases "bit x 15") (simp_all only: bit_xor_iff if_True if_False, auto)
qed

text \<open>One shift can be undone: the lowest bit tells whether the polynomial was added.\<close>

lemma crc_shift_inj: "crc_shift c = crc_shift d \<Longrightarrow> c = d"
proof (rule bit_word_eqI)
  fix n
  assume eq: "crc_shift c = crc_shift d" and n: "n < LENGTH(16)"
  have low: "bit (crc_shift x) 0 \<longleftrightarrow> bit x 15" for x
    by (simp add: bit_crc_shift)
  then have top: "bit c 15 \<longleftrightarrow> bit d 15" using eq by metis
  have up: "bit (crc_shift x) (Suc n) \<longleftrightarrow> bit x n \<noteq> (bit x 15 \<and> bit (0x1021 :: 16 word) (Suc n))"
    if "n < 15" for x
    using that by (simp only: bit_crc_shift) simp
  show "bit c n \<longleftrightarrow> bit d n"
  proof (cases "n = 15")
    case True
    with top show ?thesis by simp
  next
    case False
    with n have "n < 15" by simp
    with up [of c] up [of d] eq top show ?thesis by metis
  qed
qed

lemma crc_shifts_inj: "(crc_shift ^^ k) c = (crc_shift ^^ k) d \<Longrightarrow> c = d"
  by (induction k) (auto dest: crc_shift_inj)

lemma crc_byte_inj_state: "crc_byte c b = crc_byte d b \<Longrightarrow> c = d"
proof -
  assume "crc_byte c b = crc_byte d b"
  then have "c XOR push_bit 8 (ucast b) = d XOR push_bit 8 (ucast b)"
    unfolding crc_byte_def by (rule crc_shifts_inj)
  then have "(c XOR push_bit 8 (ucast b)) XOR push_bit 8 (ucast b) = (d XOR push_bit 8 (ucast b)) XOR push_bit 8 (ucast b)"
    by simp
  then show ?thesis by (simp only: xor.assoc xor_self_eq xor.right_neutral)
qed

lemma crc_byte_inj_byte: "crc_byte c a = crc_byte c b \<Longrightarrow> a = b"
proof -
  assume "crc_byte c a = crc_byte c b"
  then have "c XOR push_bit 8 (ucast a) = c XOR push_bit 8 (ucast b)"
    unfolding crc_byte_def by (rule crc_shifts_inj)
  then have "c XOR (c XOR push_bit 8 (ucast a)) = c XOR (c XOR push_bit 8 (ucast b))" by simp
  then have eq: "push_bit 8 (ucast a :: 16 word) = push_bit 8 (ucast b)"
    by (simp only: xor.assoc [symmetric] xor_self_eq xor.left_neutral)
  show "a = b"
  proof (rule bit_word_eqI)
    fix n assume n: "n < LENGTH(8)"
    from eq have "bit (push_bit 8 (ucast a :: 16 word)) (n + 8) = bit (push_bit 8 (ucast b :: 16 word)) (n + 8)"
      by simp
    with n show "bit a n = bit b n" by (simp add: bit_push_bit_iff bit_ucast_iff)
  qed
qed

lemma crc_hqx_inj: "crc_hqx data c = crc_hqx data d \<Longrightarrow> c = d"
proof (induction data arbitrary: c d)
  case Nil
  then show ?case by (simp add: crc_hqx_def)
next
  case (Cons b bs)
  then have "crc_byte c b = crc_byte d b" by (simp add: crc_hqx_def)
  then show ?case by (rule crc_byte_inj_state)
qed

text \<open>Changing one byte of the data changes the CRC.\<close>

lemma crc16_one_byte: "a \<noteq> b \<Longrightarrow> crc16 (pre @ a # post) \<noteq> crc16 (pre @ b # post)"
proof
  assume "a \<noteq> b" and eq: "crc16 (pre @ a # post) = crc16 (pre @ b # post)"
  let ?c = "crc_hqx pre 0xFFFF"
  from eq have "crc_hqx post (crc_byte ?c a) = crc_hqx post (crc_byte ?c b)"
    unfolding crc16_def by (intro unsigned_word_eqI [where 'a = nat]) (simp add: crc_hqx_def)
  then have "crc_byte ?c a = crc_byte ?c b" by (rule crc_hqx_inj)
  with \<open>a \<noteq> b\<close> show False by (blast dest: crc_byte_inj_byte)
qed

end
