(* ===== verification/Esp32_Protocol.thy ===== *)
theory Esp32_Protocol
  imports Contracts Crc16
begin

unbundle bit_operations_syntax

text \<open>
  \<^verbatim>\<open>gouda_core/esp32_protocol.py\<close> (IFD-17 / IFD-43): the PC-ESP32 serial protocol v4.  Frames,
  the CRC, the encoders and decoders of every payload and the resynchronising parser.  A frame is
  \<^verbatim>\<open>A5 5A | 4 | kind | length u16 | seq u32 | sender ms u32 | payload | CRC u16\<close>, little-endian,
  the CRC over everything but the sync bytes and itself.
\<close>

section \<open>Constants\<close>

definition SYNC :: bytes where "SYNC = [0xA5, 0x5A]"
definition VERSION :: int where "VERSION = 4"
definition HEADER_SIZE :: nat where "HEADER_SIZE = 14"
definition MAX_PAYLOAD :: nat where "MAX_PAYLOAD = 64"
definition HELLO :: int where "HELLO = 0x01"
definition COMMAND :: int where "COMMAND = 0x02"
definition SET_CONFIG :: int where "SET_CONFIG = 0x03"
definition GET_STATUS :: int where "GET_STATUS = 0x08"
definition GET_CONFIG :: int where "GET_CONFIG = 0x09"
definition HELLO_REPLY :: int where "HELLO_REPLY = 0x80"
definition STATUS :: int where "STATUS = 0x81"
definition EVENT :: int where "EVENT = 0x82"
definition CONFIG :: int where "CONFIG = 0x84"
definition ACK :: int where "ACK = 0x85"
definition AXIS_LIMIT :: int where "AXIS_LIMIT = 10000"
definition FLAG_PC_ENABLE_REQUEST :: int where "FLAG_PC_ENABLE_REQUEST = 1"
definition NEVER :: int where "NEVER = 0xFFFFFFFF"

definition CONFIG_KEYS :: "string list" where
  "CONFIG_KEYS = [''dac_neutral_mv'', ''dac_min_mv'', ''dac_max_mv'', ''dac_full_scale_mv'',
     ''pc_command_watchdog_ms'', ''bt_report_timeout_ms'', ''manual_deadzone_q10000'',
     ''manual_release_neutral_ms'', ''status_period_ms'']"

definition SECONDS_TO_MS :: "(string \<times> string) list" where
  "SECONDS_TO_MS = [(''pc_command_watchdog_s'', ''pc_command_watchdog_ms''),
     (''bt_report_timeout_s'', ''bt_report_timeout_ms'')]"

definition SOURCE_NAMES :: "(int \<times> string) list" where
  "SOURCE_NAMES = [(0, ''none''), (1, ''manual''), (2, ''pc'')]"

definition REASON_NAMES :: "(int \<times> string) list" where
  "REASON_NAMES = [(0, ''boot''), (1, ''config_invalid''), (2, ''bt_disconnected''), (3, ''bt_stale''),
     (4, ''waiting_center''), (5, ''manual_override''), (6, ''pc_disabled''), (7, ''pc_stale''),
     (8, ''neutral_recovery_wait''), (9, ''pc_control''), (10, ''manual_neutral'')]"

definition EVENT_NAMES :: "(int \<times> string) list" where
  "EVENT_NAMES = [(0, ''boot''), (1, ''config_loaded_nvs''), (2, ''config_loaded_build''), (3, ''config_set''),
     (4, ''config_rejected''), (5, ''bt_connected''), (6, ''bt_disconnected''), (7, ''bt_stale''),
     (8, ''manual_override_begin''), (9, ''manual_override_end''), (10, ''pc_enabled''),
     (11, ''pc_disabled_stale''), (12, ''pc_disabled_request''), (13, ''pc_frame_rejected'')]"

definition ACK_RESULTS :: "(int \<times> string) list" where
  "ACK_RESULTS = [(0, ''accepted''), (1, ''payload_invalid''), (2, ''token_mismatch''),
     (3, ''config_invalid''), (4, ''store_failed'')]"

section \<open>Frames\<close>

record frame =
  fr_kind :: int
  fr_seq :: int
  fr_sender_ms :: int
  fr_payload :: bytes

definition frame_head :: "int \<Rightarrow> int \<Rightarrow> int \<Rightarrow> bytes \<Rightarrow> bytes" where
  "frame_head kind seq sender_ms payload = SYNC @ le_bytes 1 (nat VERSION) @ le_bytes 1 (nat kind)
     @ le_bytes 2 (length payload) @ le_bytes 4 (nat seq) @ le_bytes 4 (nat sender_ms)"

definition encode_frame :: "int \<Rightarrow> int \<Rightarrow> int \<Rightarrow> bytes \<Rightarrow> bytes result" where
  "encode_frame kind seq sender_ms payload =
     (if \<not> (0 \<le> kind \<and> kind \<le> 255) \<or> \<not> (0 \<le> seq \<and> seq < 2 ^ 32) \<or> \<not> (0 \<le> sender_ms \<and> sender_ms < 2 ^ 32)
      then Inl ValueError
      else if MAX_PAYLOAD < length payload then Inl ValueError
      else let body = frame_head kind seq sender_ms payload @ payload
           in Inr (body @ le_bytes 2 (crc16 (drop 2 body))))"

definition clamp_axis :: "int \<Rightarrow> int" where
  "clamp_axis q = max (- AXIS_LIMIT) (min AXIS_LIMIT q)"

text \<open>\<^verbatim>\<open>v & 0xFFFFFFFF\<close> of an unbounded int.\<close>

definition u32 :: "int \<Rightarrow> int" where
  "u32 v = v mod 2 ^ 32"

definition command_payload :: "int \<Rightarrow> int \<Rightarrow> int \<Rightarrow> int \<Rightarrow> bytes result" where
  "command_payload token x y flags = pack_seq [pack_u 4 token, pack_s16 x, pack_s16 y, pack_u 1 flags]"

definition encode_command :: "int \<Rightarrow> int \<Rightarrow> int \<Rightarrow> int \<Rightarrow> int \<Rightarrow> int \<Rightarrow> bytes result" where
  "encode_command seq sender_ms boot_token x y flags =
     res_bind (command_payload (u32 boot_token) (clamp_axis x) (clamp_axis y) (flags mod 256))
       (encode_frame COMMAND seq sender_ms)"

definition encode_hello :: "int \<Rightarrow> int \<Rightarrow> int \<Rightarrow> bytes result" where
  "encode_hello seq sender_ms session_id =
     res_bind (pack_u 4 (u32 session_id)) (encode_frame HELLO seq sender_ms)"

definition encode_get :: "int \<Rightarrow> int \<Rightarrow> int \<Rightarrow> int \<Rightarrow> bytes result" where
  "encode_get kind seq sender_ms boot_token =
     (if kind \<notin> {GET_STATUS, GET_CONFIG} then Inl ValueError
      else res_bind (pack_u 4 (u32 boot_token)) (encode_frame kind seq sender_ms))"

section \<open>Configuration\<close>

text \<open>\<^verbatim>\<open>int(round(v))\<close> of a number; \<^verbatim>\<open>round\<close> of a float that is not finite raises.\<close>

fun int_round :: "pyval \<Rightarrow> int result" where
  "int_round (PInt i) = Inr i"
| "int_round (PBool b) = Inr (if b then 1 else 0)"
| "int_round (PFloat (Fin r)) = Inr (py_round r)"
| "int_round (PFloat NaN) = Inl ValueError"
| "int_round (PFloat _) = Inl OverflowError"
| "int_round _ = Inl TypeError"

definition config_item :: "(string \<times> pyval) list \<Rightarrow> string \<Rightarrow> int result" where
  "config_item cfg k =
     (let v = dict_get cfg k (PInt 0) in
      res_bind (if v = PNone then Inr 0 else int_round v) (\<lambda>i.
        if 0 \<le> i \<and> i \<le> 0xFFFF then Inr i else Inl ValueError))"

definition config_items :: "(string \<times> pyval) list \<Rightarrow> int list result" where
  "config_items cfg = res_bind (res_map (config_item cfg) CONFIG_KEYS) (\<lambda>vals. Inr (vals @ [0]))"

definition encode_set_config :: "int \<Rightarrow> int \<Rightarrow> int \<Rightarrow> (string \<times> pyval) list \<Rightarrow> bytes result" where
  "encode_set_config seq sender_ms boot_token cfg =
     res_bind (config_items cfg) (\<lambda>items.
     res_bind (pack_seq (pack_u 4 (u32 boot_token) # map (pack_u 2) items))
       (encode_frame SET_CONFIG seq sender_ms))"

text \<open>
  \<^verbatim>\<open>float(v)\<close>: \<open>parse\<close> is Python's reading of a string (\<open>None\<close>: ValueError).
\<close>

fun py_float :: "(string \<Rightarrow> xfloat option) \<Rightarrow> pyval \<Rightarrow> xfloat result" where
  "py_float parse (PInt i) = Inr (Fin (of_int i))"
| "py_float parse (PBool b) = Inr (Fin (if b then 1 else 0))"
| "py_float parse (PFloat x) = Inr x"
| "py_float parse (PStr s) = (case parse s of None \<Rightarrow> Inl ValueError | Some x \<Rightarrow> Inr x)"
| "py_float parse _ = Inl TypeError"

fun times_1000 :: "xfloat \<Rightarrow> xfloat" where
  "times_1000 (Fin r) = Fin (r * 1000)"
| "times_1000 x = x"

text \<open>One assignment \<^verbatim>\<open>out[k] = v\<close> of a dict kept in insertion order.\<close>

fun dict_put :: "('k \<times> 'v) list \<Rightarrow> 'k \<Rightarrow> 'v \<Rightarrow> ('k \<times> 'v) list" where
  "dict_put [] k v = [(k, v)]"
| "dict_put ((k', v') # r) k v = (if k' = k then (k, v) # r else (k', v') # dict_put r k v)"

fun config_from_params :: "(string \<Rightarrow> xfloat option) \<Rightarrow> (string \<times> pyval) list
    \<Rightarrow> (string \<times> int) list \<Rightarrow> (string \<times> int) list result" where
  "config_from_params parse [] out = Inr out"
| "config_from_params parse ((k, v) # r) out =
     (case map_of SECONDS_TO_MS k of
        Some k' \<Rightarrow> res_bind (py_float parse v) (\<lambda>x. res_bind (int_round (PFloat (times_1000 x))) (\<lambda>i.
                     config_from_params parse r (dict_put out k' i)))
      | None \<Rightarrow> if k \<in> set CONFIG_KEYS
                then res_bind (int_round v) (\<lambda>i. config_from_params parse r (dict_put out k i))
                else config_from_params parse r out)"

definition decode_config_items :: "int list \<Rightarrow> (string \<times> int) list" where
  "decode_config_items items = zip CONFIG_KEYS items"

section \<open>Decoders\<close>

record status =
  s_source :: string
  s_reason :: string
  s_config_generation :: int
  s_manual_x :: int
  s_manual_y :: int
  s_pc_x :: int
  s_pc_y :: int
  s_applied_x :: int
  s_applied_y :: int
  s_target_x_mv :: int
  s_target_y_mv :: int
  s_dac_x :: int
  s_dac_y :: int
  s_pc_age_ms :: "int option"
  s_bt_age_ms :: "int option"
  s_last_pc_seq :: int
  s_uptime_ms :: int
  s_bt_connected :: bool
  s_bt_fresh :: bool
  s_centered :: bool
  s_pc_enabled :: bool
  s_pc_fresh :: bool
  s_config_valid :: bool

definition decode_age :: "int \<Rightarrow> int option" where
  "decode_age v = (if v = NEVER then None else Some v)"

definition decode_status :: "bytes \<Rightarrow> status result" where
  "decode_status payload =
     (if length payload \<noteq> 42 then Inl ValueError
      else case (map_of SOURCE_NAMES (u_at 0 1 payload), map_of REASON_NAMES (u_at 1 1 payload)) of
        (Some source, Some reason) \<Rightarrow>
          let flags = u_at 2 1 payload in
          Inr \<lparr>s_source = source, s_reason = reason, s_config_generation = u_at 3 1 payload,
             s_manual_x = s16_at 4 payload, s_manual_y = s16_at 6 payload,
             s_pc_x = s16_at 8 payload, s_pc_y = s16_at 10 payload,
             s_applied_x = s16_at 12 payload, s_applied_y = s16_at 14 payload,
             s_target_x_mv = u_at 16 2 payload, s_target_y_mv = u_at 18 2 payload,
             s_dac_x = u_at 20 2 payload, s_dac_y = u_at 22 2 payload,
             s_pc_age_ms = decode_age (u_at 24 4 payload), s_bt_age_ms = decode_age (u_at 28 4 payload),
             s_last_pc_seq = u_at 32 4 payload, s_uptime_ms = u_at 36 4 payload,
             s_bt_connected = bit flags 0, s_bt_fresh = bit flags 1, s_centered = bit flags 2,
             s_pc_enabled = bit flags 3, s_pc_fresh = bit flags 4, s_config_valid = bit flags 5\<rparr>
      | _ \<Rightarrow> Inl ValueError)"

record hello_reply =
  h_session_id :: int
  h_boot_token :: int
  h_config_valid :: bool
  h_config_generation :: int
  h_protocol_version :: int

definition decode_hello_reply :: "bytes \<Rightarrow> hello_reply result" where
  "decode_hello_reply payload =
     (if length payload \<noteq> 12 then Inl StructError
      else Inr \<lparr>h_session_id = u_at 0 4 payload, h_boot_token = u_at 4 4 payload,
                h_config_valid = (u_at 8 1 payload \<noteq> 0), h_config_generation = u_at 9 1 payload,
                h_protocol_version = u_at 10 2 payload\<rparr>)"

text \<open>Names of codes; an unknown code is formatted into the name in the source.\<close>

datatype code_name = Known string | Unknown int

definition name_of :: "(int \<times> string) list \<Rightarrow> int \<Rightarrow> code_name" where
  "name_of names c = (case map_of names c of None \<Rightarrow> Unknown c | Some s \<Rightarrow> Known s)"

record event_msg =
  e_code :: int
  e_name :: code_name
  e_arg :: int
  e_esp_ms :: int

definition decode_event :: "bytes \<Rightarrow> event_msg result" where
  "decode_event payload =
     (if length payload \<noteq> 6 then Inl StructError
      else Inr \<lparr>e_code = u_at 0 1 payload, e_name = name_of EVENT_NAMES (u_at 0 1 payload),
                e_arg = u_at 1 1 payload, e_esp_ms = u_at 2 4 payload\<rparr>)"

record config_msg =
  c_config_valid :: bool
  c_config_generation :: int
  c_items :: "(string \<times> int) list"

text \<open>\<^verbatim>\<open>unpack_from\<close> asks for at least the 22 bytes it reads.\<close>

definition decode_config :: "bytes \<Rightarrow> config_msg result" where
  "decode_config payload =
     (if length payload < 22 then Inl StructError
      else Inr \<lparr>c_config_valid = (u_at 0 1 payload \<noteq> 0), c_config_generation = u_at 1 1 payload,
                c_items = decode_config_items (map (\<lambda>i. u_at (2 + 2 * i) 2 payload) [0 ..< 10])\<rparr>)"

record ack_msg =
  a_request_type :: int
  a_result :: int
  a_result_name :: code_name

definition decode_ack :: "bytes \<Rightarrow> ack_msg result" where
  "decode_ack payload =
     (if length payload \<noteq> 2 then Inl StructError
      else Inr \<lparr>a_request_type = u_at 0 1 payload, a_result = u_at 1 1 payload,
                a_result_name = name_of ACK_RESULTS (u_at 1 1 payload)\<rparr>)"

record command_msg =
  cmd_boot_token :: int
  cmd_x :: int
  cmd_y :: int
  cmd_flags :: int

definition decode_command :: "bytes \<Rightarrow> command_msg result" where
  "decode_command payload =
     (if length payload \<noteq> 9 then Inl StructError
      else Inr \<lparr>cmd_boot_token = u_at 0 4 payload, cmd_x = s16_at 4 payload, cmd_y = s16_at 6 payload,
                cmd_flags = u_at 8 1 payload\<rparr>)"

section \<open>The parser\<close>

text \<open>\<^verbatim>\<open>buf.find(SYNC)\<close>.\<close>

fun find_sync :: "bytes \<Rightarrow> nat option" where
  "find_sync (a # b # r) =
     (if [a, b] = SYNC then Some 0 else map_option Suc (find_sync (b # r)))"
| "find_sync _ = None"

text \<open>
  What the loop does with a buffer that begins with the sync bytes: wait for more bytes, reject
  one byte (wrong version, length or CRC), or take a frame of that many bytes.
\<close>

datatype examined = Incomplete | Rejected | Taken frame nat

definition examine :: "bytes \<Rightarrow> examined" where
  "examine b =
     (if length b < HEADER_SIZE then Incomplete
      else let ver = u_at 2 1 b; kind = u_at 3 1 b; len = nat (u_at 4 2 b); seq = u_at 6 4 b; ms = u_at 10 4 b in
        if ver \<noteq> VERSION \<or> MAX_PAYLOAD < len then Rejected
        else let total = HEADER_SIZE + len + 2 in
          if length b < total then Incomplete
          else let body = take (HEADER_SIZE + len) b; crc_rx = nat (u_at (HEADER_SIZE + len) 2 b) in
            if crc16 (drop 2 body) \<noteq> crc_rx then Rejected
            else Taken \<lparr>fr_kind = kind, fr_seq = seq, fr_sender_ms = ms, fr_payload = drop HEADER_SIZE body\<rparr> total)"

lemma examine_Taken_total: "examine b = Taken f n \<Longrightarrow> 0 < n \<and> n \<le> length b"
  by (auto simp: examine_def Let_def HEADER_SIZE_def split: if_splits)

lemma find_sync_bound: "find_sync b = Some i \<Longrightarrow> i + 2 \<le> length b"
  by (induction b arbitrary: i rule: find_sync.induct) (auto split: if_splits)

text \<open>The loop of \<^verbatim>\<open>feed\<close> on a buffer: the frames, the number of rejections, the buffer left.\<close>

function parse_buf :: "bytes \<Rightarrow> frame list \<times> nat \<times> bytes" where
  "parse_buf buf =
     (case find_sync buf of
        None \<Rightarrow> ([], 0, [])
      | Some i \<Rightarrow>
          let b = drop i buf in
          (case examine b of
             Incomplete \<Rightarrow> ([], 0, b)
           | Rejected \<Rightarrow> (case parse_buf (drop 1 b) of (fs, r, rest) \<Rightarrow> (fs, r + 1, rest))
           | Taken f n \<Rightarrow> (case parse_buf (drop n b) of (fs, r, rest) \<Rightarrow> (f # fs, r, rest))))"
  by pat_completeness auto
termination
  by (relation "measure length") (auto dest: find_sync_bound examine_Taken_total)

declare parse_buf.simps [simp del]

record parser =
  p_buf :: bytes
  p_rejected :: nat

definition new_parser :: parser where
  "new_parser = \<lparr>p_buf = [], p_rejected = 0\<rparr>"

definition feed :: "parser \<Rightarrow> bytes \<Rightarrow> parser \<times> frame list" where
  "feed p data = (case parse_buf (p_buf p @ data) of (fs, r, rest) \<Rightarrow>
     (p\<lparr>p_buf := rest, p_rejected := p_rejected p + r\<rparr>, fs))"

definition newer_sequence :: "int \<Rightarrow> int \<Rightarrow> bool" where
  "newer_sequence candidate previous =
     (let delta = u32 (candidate - previous) in delta \<noteq> 0 \<and> delta < 0x80000000)"

section \<open>Encoded frames\<close>

lemmas sizes = HEADER_SIZE_def MAX_PAYLOAD_def VERSION_def SYNC_def

lemma encode_frame_Inr:
  "encode_frame kind seq ms payload = Inr e \<longleftrightarrow>
     0 \<le> kind \<and> kind \<le> 255 \<and> 0 \<le> seq \<and> seq < 2 ^ 32 \<and> 0 \<le> ms \<and> ms < 2 ^ 32 \<and> length payload \<le> MAX_PAYLOAD
     \<and> e = frame_head kind seq ms payload @ payload
            @ le_bytes 2 (crc16 (drop 2 (frame_head kind seq ms payload @ payload)))"
  by (auto simp: encode_frame_def Let_def)

lemma length_frame_head [simp]: "length (frame_head kind seq ms payload) = HEADER_SIZE"
  by (simp add: frame_head_def sizes)

lemma length_encode_frame: "encode_frame kind seq ms payload = Inr e \<Longrightarrow> length e = HEADER_SIZE + length payload + 2"
  by (auto simp: encode_frame_Inr)

lemma frame_head_fields:
  assumes "0 \<le> kind" "kind \<le> 255" "0 \<le> seq" "seq < 2 ^ 32" "0 \<le> ms" "ms < 2 ^ 32" "length payload \<le> MAX_PAYLOAD"
  shows "u_at 2 1 (frame_head kind seq ms payload @ r) = VERSION"
    and "u_at 3 1 (frame_head kind seq ms payload @ r) = kind"
    and "u_at 4 2 (frame_head kind seq ms payload @ r) = int (length payload)"
    and "u_at 6 4 (frame_head kind seq ms payload @ r) = seq"
    and "u_at 10 4 (frame_head kind seq ms payload @ r) = ms"
  using assms by (simp_all add: frame_head_def u_at_def sizes nat_less_iff uint_word_of_int)

lemma find_sync_SYNC: "find_sync (SYNC @ r) = Some 0"
  by (simp add: SYNC_def)

lemma find_sync_frame: "find_sync (frame_head kind seq ms payload @ r) = Some 0"
  by (simp add: frame_head_def find_sync_SYNC)

lemma examine_encoded:
  assumes "encode_frame kind seq ms payload = Inr e"
  shows "examine (e @ r) = Taken \<lparr>fr_kind = kind, fr_seq = seq, fr_sender_ms = ms, fr_payload = payload\<rparr> (length e)"
proof -
  from assms [unfolded encode_frame_Inr]
  have rng: "0 \<le> kind" "kind \<le> 255" "0 \<le> seq" "seq < 2 ^ 32" "0 \<le> ms" "ms < 2 ^ 32" "length payload \<le> MAX_PAYLOAD"
    and e: "e = frame_head kind seq ms payload @ payload
            @ le_bytes 2 (crc16 (drop 2 (frame_head kind seq ms payload @ payload)))" by auto
  let ?h = "frame_head kind seq ms payload"
  let ?crc = "crc16 (drop 2 (?h @ payload))"
  have body: "take (HEADER_SIZE + length payload) (e @ r) = ?h @ payload" by (simp add: e)
  have "drop (HEADER_SIZE + length payload) (e @ r) = le_bytes 2 ?crc @ r" by (simp add: e)
  then have crc: "u_at (HEADER_SIZE + length payload) 2 (e @ r) = int ?crc"
    using crc16_bound by (simp add: u_at_def)
  have len: "length e = HEADER_SIZE + length payload + 2" by (simp add: e)
  have fields: "u_at 2 1 (e @ r) = VERSION" "u_at 3 1 (e @ r) = kind" "u_at 4 2 (e @ r) = int (length payload)"
    "u_at 6 4 (e @ r) = seq" "u_at 10 4 (e @ r) = ms"
    unfolding e append_assoc by (rule frame_head_fields [OF rng])+
  show ?thesis
    unfolding examine_def Let_def fields nat_int body crc using rng(7) by (simp add: len)
qed

lemma parse_encoded:
  assumes "encode_frame kind seq ms payload = Inr e"
  shows "parse_buf (e @ r) = (case parse_buf r of (fs, k, rest) \<Rightarrow>
           (\<lparr>fr_kind = kind, fr_seq = seq, fr_sender_ms = ms, fr_payload = payload\<rparr> # fs, k, rest))"
proof -
  have "find_sync (e @ r) = Some 0"
    using assms by (auto simp: encode_frame_Inr find_sync_frame)
  with examine_encoded [OF assms] show ?thesis by (subst parse_buf.simps) simp
qed

text \<open>Conversely, what the parser takes is byte for byte an encoded frame.\<close>

lemma le_bytes_u_at:
  assumes "off + n \<le> length b" shows "le_bytes n (nat (u_at off n b)) = take n (drop off b)"
proof -
  have "length (take n (drop off b)) = n" using assms by simp
  with le_bytes_le_val [of "take n (drop off b)"] show ?thesis by (simp add: u_at_def)
qed

lemma take_split: "take (m + n) xs = take m xs @ take n (drop m xs)"
  by (simp add: take_add)

lemma examine_sound:
  assumes sync: "find_sync b = Some 0" and ex: "examine b = Taken f n"
  shows "encode_frame (fr_kind f) (fr_seq f) (fr_sender_ms f) (fr_payload f) = Inr (take n b)"
proof -
  let ?len = "nat (u_at 4 2 b)"
  from ex have long: "HEADER_SIZE \<le> length b" and ver: "u_at 2 1 b = VERSION" and max: "?len \<le> MAX_PAYLOAD"
    and tot: "HEADER_SIZE + ?len + 2 \<le> length b" and n: "n = HEADER_SIZE + ?len + 2"
    and crc: "crc16 (drop 2 (take (HEADER_SIZE + ?len) b)) = nat (u_at (HEADER_SIZE + ?len) 2 b)"
    and f: "f = \<lparr>fr_kind = u_at 3 1 b, fr_seq = u_at 6 4 b, fr_sender_ms = u_at 10 4 b,
                fr_payload = drop HEADER_SIZE (take (HEADER_SIZE + ?len) b)\<rparr>"
    by (auto simp: examine_def Let_def split: if_splits)
  have pl: "length (fr_payload f) = ?len" using tot by (simp add: f)
  from sync have "take 2 b = SYNC"
    by (cases b rule: find_sync.cases) (auto simp: numeral_2_eq_2 split: if_splits)
  moreover have "le_bytes 1 (nat VERSION) = take 1 (drop 2 b)" "le_bytes 1 (nat (u_at 3 1 b)) = take 1 (drop 3 b)"
    "le_bytes 2 ?len = take 2 (drop 4 b)" "le_bytes 4 (nat (u_at 6 4 b)) = take 4 (drop 6 b)"
    "le_bytes 4 (nat (u_at 10 4 b)) = take 4 (drop 10 b)"
    using long le_bytes_u_at [of 2 1 b] le_bytes_u_at [of 3 1 b] unfolding ver [symmetric]
    by (simp_all add: le_bytes_u_at HEADER_SIZE_def)
  ultimately have "frame_head (fr_kind f) (fr_seq f) (fr_sender_ms f) (fr_payload f)
      = take 2 b @ take 1 (drop 2 b) @ take 1 (drop 3 b) @ take 2 (drop 4 b) @ take 4 (drop 6 b) @ take 4 (drop 10 b)"
    unfolding frame_head_def pl by (simp add: f)
  also have "\<dots> = take HEADER_SIZE b"
    using take_split [of 2 1 b] take_split [of 3 1 b] take_split [of 4 2 b] take_split [of 6 4 b] take_split [of 10 4 b]
    by (simp add: HEADER_SIZE_def)
  finally have head: "frame_head (fr_kind f) (fr_seq f) (fr_sender_ms f) (fr_payload f) = take HEADER_SIZE b" .
  have "take HEADER_SIZE b @ fr_payload f = take (HEADER_SIZE + ?len) b"
    using long by (simp add: f take_split drop_take)
  note body = head [THEN arg_cong, of "\<lambda>h. h @ fr_payload f", unfolded this]
  have "le_bytes 2 (nat (u_at (HEADER_SIZE + ?len) 2 b)) = take 2 (drop (HEADER_SIZE + ?len) b)"
    using tot by (intro le_bytes_u_at) simp
  then have "take n b = (frame_head (fr_kind f) (fr_seq f) (fr_sender_ms f) (fr_payload f) @ fr_payload f)
      @ le_bytes 2 (crc16 (drop 2 (frame_head (fr_kind f) (fr_seq f) (fr_sender_ms f) (fr_payload f) @ fr_payload f)))"
    unfolding body crc n take_split [of "HEADER_SIZE + ?len" 2] by simp
  moreover have "0 \<le> u_at o' m b \<and> u_at o' m b < 256 ^ m" for o' m by (rule u_at_bounds)
  note this [of 3 1] this [of 6 4] this [of 10 4]
  ultimately show ?thesis
    using max pl by (simp add: encode_frame_Inr) (simp add: f)
qed

section \<open>More bytes\<close>

lemma find_sync_append: "find_sync a = Some i \<Longrightarrow> find_sync (a @ b) = Some i"
  by (induction a arbitrary: i rule: find_sync.induct) (auto split: if_splits)

lemma find_sync_append_None:
  "find_sync a = None \<Longrightarrow> a = [] \<or> last a \<noteq> 0xA5 \<Longrightarrow>
     find_sync (a @ b) = map_option (\<lambda>i. i + length a) (find_sync b)"
proof (induction a rule: find_sync.induct)
  case (1 x y r)
  then show ?case by (auto simp: SYNC_def option.map_comp comp_def split: if_splits)
next
  case "2_1"
  then show ?case by (simp add: option.map_ident)
next
  case "2_2"
  then show ?case by (cases b) (auto simp: SYNC_def comp_def)
qed

lemma find_sync_drop: "find_sync b = Some i \<Longrightarrow> find_sync (drop i b) = Some 0"
  by (induction b arbitrary: i rule: find_sync.induct) (auto split: if_splits)

lemma take_drop_append: "off + n \<le> length a \<Longrightarrow> take n (drop off (a @ b)) = take n (drop off a)"
  by simp

lemma u_at_append: "off + n \<le> length a \<Longrightarrow> u_at off n (a @ b) = u_at off n a"
  by (simp add: u_at_def)

lemma examine_append: "examine a \<noteq> Incomplete \<Longrightarrow> examine (a @ b) = examine a"
  by (auto simp: examine_def Let_def u_at_append HEADER_SIZE_def split: if_splits)

lemma parse_buf_drop:
  "find_sync a = Some i \<Longrightarrow> parse_buf (a @ b) = parse_buf (drop i a @ b)"
  using find_sync_bound [of a i] find_sync_drop [of a i]
  by (simp add: parse_buf.simps [of "a @ b"] parse_buf.simps [of "drop i a @ b"] find_sync_append)

definition v4_scan :: "bytes \<Rightarrow> frame list \<times> bytes" where
  "v4_scan b = (case parse_buf b of (fs, k, rest) \<Rightarrow> (fs, rest))"

definition v4_safe_cut :: "bytes \<Rightarrow> bool" where
  "v4_safe_cut a \<longleftrightarrow> snd (v4_scan a) \<noteq> [] \<or> a = [] \<or> last a \<noteq> 0xA5"

lemma v4_scan_simps:
  "find_sync b = None \<Longrightarrow> v4_scan b = ([], [])"
  "find_sync b = Some i \<Longrightarrow> examine (drop i b) = Incomplete \<Longrightarrow> v4_scan b = ([], drop i b)"
  "find_sync b = Some i \<Longrightarrow> examine (drop i b) = Rejected \<Longrightarrow> v4_scan b = v4_scan (drop 1 (drop i b))"
  "find_sync b = Some i \<Longrightarrow> examine (drop i b) = Taken f n \<Longrightarrow>
     v4_scan b = (f # fst (v4_scan (drop n (drop i b))), snd (v4_scan (drop n (drop i b))))"
  by (simp_all add: v4_scan_def parse_buf.simps [of b] split: prod.splits)

lemma v4_scan_skip:
  "find_sync (a @ b) = map_option (\<lambda>i. i + length a) (find_sync b) \<Longrightarrow> v4_scan (a @ b) = v4_scan b"
  by (cases "find_sync b") (simp_all add: v4_scan_def parse_buf.simps [of b] parse_buf.simps [of "a @ b"])

lemma last_drop_neq: "a = [] \<or> last a \<noteq> x \<Longrightarrow> drop n a = [] \<or> last (drop n a) \<noteq> x"
  by (cases "n < length a") auto

lemma v4_scan_more:
  "v4_safe_cut a \<Longrightarrow> v4_scan (a @ b) =
     (fst (v4_scan a) @ fst (v4_scan (snd (v4_scan a) @ b)), snd (v4_scan (snd (v4_scan a) @ b)))"
proof (induction a rule: parse_buf.induct)
  case (1 a)
  show ?case
  proof (cases "find_sync a")
    case None
    with "1.prems" have "a = [] \<or> last a \<noteq> 0xA5" by (auto simp: v4_safe_cut_def v4_scan_simps)
    with None have "find_sync (a @ b) = map_option (\<lambda>i. i + length a) (find_sync b)"
      by (rule find_sync_append_None)
    then have "v4_scan (a @ b) = v4_scan b" by (rule v4_scan_skip)
    with None show ?thesis by (simp add: v4_scan_simps)
  next
    case (Some i)
    let ?a = "drop i a"
    have whole: "find_sync (a @ b) = Some i" "drop i (a @ b) = ?a @ b"
      using Some find_sync_bound [OF Some] by (simp_all add: find_sync_append)
    have tail: "a' = [] \<or> last a' \<noteq> 0xA5" if "a' = drop n ?a" "a = [] \<or> last a \<noteq> 0xA5" for a' n
      using that last_drop_neq [of a "0xA5" "n + i"] by (simp add: add.commute)
    show ?thesis
    proof (cases "examine ?a")
      case Incomplete
      have "v4_scan (a @ b) = v4_scan (?a @ b)"
        using parse_buf_drop [OF Some, of b] by (simp add: v4_scan_def)
      with Incomplete Some show ?thesis by (simp add: v4_scan_simps)
    next
      case Rejected
      then have rej: "examine (?a @ b) = Rejected" by (simp add: examine_append)
      have ne: "?a \<noteq> []" using find_sync_bound [OF Some] by simp
      have "v4_safe_cut (drop 1 ?a)"
        using "1.prems" tail [of "drop 1 ?a" 1] Some Rejected by (auto simp: v4_safe_cut_def v4_scan_simps)
      with "1.IH"(1) [OF Some refl Rejected] Some Rejected rej whole ne show ?thesis
        by (simp add: v4_scan_simps)
    next
      case (Taken f n)
      then have tak: "examine (?a @ b) = Taken f n" by (simp add: examine_append)
      have n: "n \<le> length ?a" using examine_Taken_total [OF Taken] by simp
      have "v4_safe_cut (drop n ?a)"
        using "1.prems" tail [of "drop n ?a" n] Some Taken by (auto simp: v4_safe_cut_def v4_scan_simps)
      with "1.IH"(2) [OF Some refl Taken] Some Taken tak whole n show ?thesis
        by (simp add: v4_scan_simps)
    qed
  qed
qed

interpretation v4: stream_parser v4_scan v4_safe_cut
  by unfold_locales (simp add: v4_scan_more)

section \<open>What the parser delivers\<close>

definition encodes :: "frame \<Rightarrow> bytes \<Rightarrow> bool" where
  "encodes f e \<longleftrightarrow> encode_frame (fr_kind f) (fr_seq f) (fr_sender_ms f) (fr_payload f) = Inr e"

text \<open>The bytes of a stream: frames with anything between them.\<close>

fun interleaved :: "bytes list \<Rightarrow> bytes list \<Rightarrow> bytes" where
  "interleaved (g # gs) (e # es) = g @ e @ interleaved gs es"
| "interleaved gs es = []"

lemma parse_buf_sound:
  "parse_buf buf = (fs, k, rest) \<Longrightarrow>
     \<exists>gs es post. list_all2 encodes fs es \<and> length gs = length fs \<and> buf = interleaved gs es @ post"
proof (induction buf arbitrary: fs k rest rule: parse_buf.induct)
  case (1 buf)
  show ?case
  proof (cases "find_sync buf")
    case None
    with "1.prems" have "fs = []" by (simp add: parse_buf.simps [of buf])
    then show ?thesis by (intro exI [of _ "[]"] exI [of _ buf]) simp
  next
    case (Some i)
    let ?b = "drop i buf"
    show ?thesis
    proof (cases "examine ?b")
      case Incomplete
      with Some "1.prems" have "fs = []" by (simp add: parse_buf.simps [of buf])
      then show ?thesis by (intro exI [of _ "[]"] exI [of _ buf]) simp
    next
      case Rejected
      with Some "1.prems" obtain k' where "parse_buf (drop 1 ?b) = (fs, k', rest)"
        by (auto simp: parse_buf.simps [of buf] split: prod.splits)
      with "1.IH"(1) [OF Some refl Rejected] obtain gs es post where
        ih: "list_all2 encodes fs es" "length gs = length fs" "drop 1 ?b = interleaved gs es @ post" by blast
      have split: "buf = take (i + 1) buf @ drop 1 ?b" by (simp add: add.commute)
      show ?thesis
      proof (cases fs)
        case Nil
        then show ?thesis by (intro exI [of _ "[]"] exI [of _ buf]) simp
      next
        case (Cons f fs')
        with ih obtain g gs' e es' where "gs = g # gs'" "es = e # es'"
          by (cases gs; cases es) auto
        with ih split have "buf = interleaved ((take (i + 1) buf @ g) # gs') es @ post"
          by (metis append_assoc interleaved.simps(1))
        with ih \<open>gs = g # gs'\<close> show ?thesis by (metis length_Cons)
      qed
    next
      case (Taken f n)
      with Some "1.prems" obtain fs' k' where fs: "fs = f # fs'" "parse_buf (drop n ?b) = (fs', k', rest)"
        by (auto simp: parse_buf.simps [of buf] split: prod.splits)
      with "1.IH"(2) [OF Some refl Taken] obtain gs es post where
        ih: "list_all2 encodes fs' es" "length gs = length fs'" "drop n ?b = interleaved gs es @ post" by blast
      have "encodes f (take n ?b)"
        unfolding encodes_def by (rule examine_sound [OF find_sync_drop [OF Some] Taken])
      moreover have "buf = take i buf @ take n ?b @ drop n ?b" by (simp only: append_take_drop_id)
      then have "buf = interleaved (take i buf # gs) (take n ?b # es) @ post" unfolding ih(3) by simp
      ultimately show ?thesis using ih fs
        by (intro exI [of _ "take i buf # gs"] exI [of _ "take n ?b # es"] exI [of _ post]) simp
    qed
  qed
qed

lemma interleaved_member:
  "length gs = length es \<Longrightarrow> e \<in> set es \<Longrightarrow> \<exists>pre post. interleaved gs es = pre @ e @ post"
proof (induction gs es rule: interleaved.induct)
  case (1 g gs e' es)
  then show ?case
    by (cases "e = e'") (auto, metis append_assoc)
qed simp_all

lemma parse_concat:
  "list_all2 encodes fs es \<Longrightarrow> parse_buf (concat es) = (fs, 0, [])"
proof (induction rule: list_all2_induct)
  case Nil
  then show ?case by (simp add: parse_buf.simps)
next
  case (Cons f fs e es)
  then show ?case by (simp add: encodes_def parse_encoded)
qed

primrec feed_run :: "parser \<Rightarrow> bytes list \<Rightarrow> parser \<times> frame list" where
  "feed_run p [] = (p, [])"
| "feed_run p (c # cs) = (case feed p c of (p1, fs) \<Rightarrow> case feed_run p1 cs of (p2, gs) \<Rightarrow> (p2, fs @ gs))"

lemma feed_run_frames: "snd (feed_run p cs) = feed_all v4_scan (p_buf p) cs"
  by (induction cs arbitrary: p) (simp_all add: feed_def v4_scan_def split_beta)

lemma fst_v4_scan: "fst (v4_scan b) = fst (parse_buf b)"
  by (simp add: v4_scan_def split: prod.splits)

section \<open>Properties of the framing\<close>

text \<open>C11. Round trip: a stream of encoded frames gives back exactly these frames, nothing rejected and
  nothing left over; and so it does in chunks of any size, as long as no chunk ends in the first
  sync byte.\<close>

theorem v4_stream_roundtrip:
  assumes "list_all2 encodes fs es"
  shows "feed new_parser (concat es) = (new_parser, fs)
     \<and> (\<forall>cs. cs \<noteq> [] \<and> concat cs = concat es \<and> (\<forall>c \<in> set cs. c \<noteq> [] \<and> last c \<noteq> 0xA5)
          \<longrightarrow> snd (feed_run new_parser cs) = fs)"
proof (intro conjI allI impI)
  show "feed new_parser (concat es) = (new_parser, fs)"
    using parse_concat [OF assms] by (simp add: feed_def new_parser_def)
  fix cs assume cs: "cs \<noteq> [] \<and> concat cs = concat es \<and> (\<forall>c \<in> set cs. c \<noteq> [] \<and> last c \<noteq> 0xA5)"
  then have "feed_all v4_scan [] cs = fst (v4_scan ([] @ concat cs))"
    by (intro v4.feed_all_concat) (auto simp: v4_safe_cut_def)
  with cs show "snd (feed_run new_parser cs) = fs"
    using parse_concat [OF assms] by (simp add: feed_run_frames new_parser_def fst_v4_scan)
qed

definition sample_frame :: frame where
  "sample_frame = \<lparr>fr_kind = 8, fr_seq = 1, fr_sender_ms = 0, fr_payload = [0x78, 0x56, 0x34, 0x12]\<rparr>"

definition sample_bytes :: bytes where
  "sample_bytes = [0xA5, 0x5A, 4, 8, 4, 0, 1, 0, 0, 0, 0, 0, 0, 0, 0x78, 0x56, 0x34, 0x12, 0xB7, 0xE3]"

lemma sample_encodes: "encodes sample_frame sample_bytes"
proof -
  have head: "frame_head 8 1 0 [0x78, 0x56, 0x34, 0x12] = [0xA5, 0x5A, 4, 8, 4, 0, 1, 0, 0, 0, 0, 0, 0, 0]"
    by (simp add: frame_head_def sizes le_bytes_eval)
  have crc: "crc16 [4, 8, 4, 0, 1, 0, 0, 0, 0, 0, 0, 0, 0x78, 0x56, 0x34, 0x12] = 0xE3B7"
    by (simp add: crc_eval)
  have "le_bytes 2 0xE3B7 = [0xB7, 0xE3]" by (simp add: le_bytes_eval)
  then show ?thesis
    by (simp add: encodes_def encode_frame_def sample_frame_def sample_bytes_def head crc MAX_PAYLOAD_def)
qed

theorem v4_stream_roundtrip_witness:
  "snd (feed_run new_parser [take 3 sample_bytes, drop 3 sample_bytes @ sample_bytes]) = [sample_frame, sample_frame]"
proof -
  have "list_all2 encodes [sample_frame, sample_frame] [sample_bytes, sample_bytes]"
    by (simp add: sample_encodes)
  from v4_stream_roundtrip [OF this] show ?thesis
    by (elim conjE allE [of _ "[take 3 sample_bytes, drop 3 sample_bytes @ sample_bytes]"])
       (simp add: sample_bytes_def)
qed

text \<open>C12. Nothing is guessed: the bytes the parser has consumed and keeps contain, in this order and
  without overlap, a valid encoding of every frame it delivers.\<close>

theorem v4_parser_sound:
  assumes "feed p data = (p', fs)"
  shows "\<exists>gs es post. list_all2 encodes fs es \<and> length gs = length fs \<and> p_buf p @ data = interleaved gs es @ post"
proof -
  from assms obtain k rest where "parse_buf (p_buf p @ data) = (fs, k, rest)"
    by (auto simp: feed_def split: prod.splits)
  then show ?thesis by (rule parse_buf_sound)
qed

lemma v4_member_encoded:
  assumes "feed p data = (p', fs)" and "f \<in> set fs"
  shows "\<exists>e pre post. encodes f e \<and> p_buf p @ data = pre @ e @ post"
proof -
  from assms(1) obtain k rest where "parse_buf (p_buf p @ data) = (fs, k, rest)"
    by (auto simp: feed_def split: prod.splits)
  from parse_buf_sound [OF this] obtain gs es post where
    r: "list_all2 encodes fs es" "length gs = length fs" "p_buf p @ data = interleaved gs es @ post" by blast
  from r(1) assms(2) obtain e where "e \<in> set es" "encodes f e"
    by (metis in_set_conv_nth list_all2_conv_all_nth)
  with r interleaved_member [of gs es e] show ?thesis
    by (metis append_assoc list_all2_lengthD)
qed

lemma sample_parse: "feed new_parser sample_bytes = (new_parser, [sample_frame])"
  using parse_concat [of "[sample_frame]" "[sample_bytes]"] sample_encodes
  by (simp add: feed_def new_parser_def)

theorem v4_parser_sound_witness:
  "\<exists>gs es post. list_all2 encodes [sample_frame] es \<and> length gs = 1 \<and> sample_bytes = interleaved gs es @ post"
  using v4_parser_sound [OF sample_parse] by (simp add: new_parser_def)






text \<open>A frame cut between its two sync bytes is lost, although the parser delivers it when it
  arrives in one piece: the first sync byte alone is thrown away with the buffer.\<close>

theorem v4_split_sync_loses_frame:
  assumes "encodes f e"
  shows "snd (feed_run new_parser [e]) = [f] \<and> hd e = 0xA5
       \<and> f \<notin> set (snd (feed_run new_parser [[0xA5], tl e]))"
proof -
  from assms obtain e1 where head: "e = 0xA5 # e1" by (auto simp: encodes_def encode_frame_Inr frame_head_def SYNC_def)
  have first: "feed new_parser [0xA5] = (new_parser, [])"
    by (simp add: feed_def new_parser_def parse_buf.simps)
  have "snd (feed_run new_parser [e]) = [f]"
    using parse_concat [of "[f]" "[e]"] assms by (simp add: feed_def new_parser_def)
  moreover have "f \<notin> set (snd (feed new_parser (tl e)))"
  proof
    assume "f \<in> set (snd (feed new_parser (tl e)))"
    then obtain e' pre post where "encodes f e'" "tl e = pre @ e' @ post"
      using v4_member_encoded [of new_parser "tl e" "fst (feed new_parser (tl e))" "snd (feed new_parser (tl e))" f]
      by (auto simp: new_parser_def)
    moreover have "e' = e" using \<open>encodes f e'\<close> assms by (simp add: encodes_def)
    ultimately have "length (tl e) = length pre + length e + length post" by simp
    then show False by (simp add: head)
  qed
  moreover have "hd e = 0xA5" by (simp add: head)
  ultimately show ?thesis by (simp add: first split_beta)
qed

theorem v4_split_sync_loses_frame_witness:
  "sample_frame \<notin> set (snd (feed_run new_parser [[0xA5], tl sample_bytes]))"
  using v4_split_sync_loses_frame [OF sample_encodes] by simp

section \<open>Payload round trips\<close>

lemma clamp_axis_bounds: "- AXIS_LIMIT \<le> clamp_axis q \<and> clamp_axis q \<le> AXIS_LIMIT"
  by (auto simp: clamp_axis_def AXIS_LIMIT_def)

lemma clamp_axis_id: "- AXIS_LIMIT \<le> q \<Longrightarrow> q \<le> AXIS_LIMIT \<Longrightarrow> clamp_axis q = q"
  by (simp add: clamp_axis_def)

lemma u32_bounds: "0 \<le> u32 v \<and> u32 v < 2 ^ 32"
  by (simp add: u32_def)

lemma command_payload_Inr:
  "command_payload token x y flags = Inr pl \<longleftrightarrow>
     0 \<le> token \<and> token < 2 ^ 32 \<and> - 32768 \<le> x \<and> x < 32768 \<and> - 32768 \<le> y \<and> y < 32768 \<and> 0 \<le> flags \<and> flags < 256
     \<and> pl = le_bytes 4 (nat token) @ le_bytes 2 (s16_enc x) @ le_bytes 2 (s16_enc y) @ le_bytes 1 (nat flags)"
  by (auto simp: command_payload_def pack_u_Inr pack_s16_Inr)

lemma decode_command_payload:
  assumes "command_payload token x y flags = Inr pl"
  shows "length pl = 9"
    and "decode_command pl = Inr \<lparr>cmd_boot_token = token, cmd_x = x, cmd_y = y, cmd_flags = flags\<rparr>"
proof -
  from assms have r: "0 \<le> token" "token < 2 ^ 32" "- 32768 \<le> x" "x < 32768" "- 32768 \<le> y" "y < 32768"
      "0 \<le> flags" "flags < 256"
    and pl: "pl = le_bytes 4 (nat token) @ le_bytes 2 (s16_enc x) @ le_bytes 2 (s16_enc y) @ le_bytes 1 (nat flags)"
    by (auto simp: command_payload_Inr)
  show len: "length pl = 9" by (simp add: pl del: le_bytes.simps)
  have "u_at 0 4 pl = token"
    using u_at_le_bytes [of token 4 "[]" 0 "le_bytes 2 (s16_enc x) @ le_bytes 2 (s16_enc y) @ le_bytes 1 (nat flags)"] r
    by (simp add: pl)
  moreover have "s16_at 4 pl = x"
    using s16_at_le_bytes [of x "le_bytes 4 (nat token)" 4 "le_bytes 2 (s16_enc y) @ le_bytes 1 (nat flags)"] r
    by (simp add: pl)
  moreover have "s16_at 6 pl = y"
    using s16_at_le_bytes [of y "le_bytes 4 (nat token) @ le_bytes 2 (s16_enc x)" 6 "le_bytes 1 (nat flags)"] r
    by (simp add: pl)
  moreover have "u_at 8 1 pl = flags"
    using u_at_le_bytes [of flags 1 "le_bytes 4 (nat token) @ le_bytes 2 (s16_enc x) @ le_bytes 2 (s16_enc y)" 8 "[]"] r
    by (simp add: pl)
  ultimately show "decode_command pl = Inr \<lparr>cmd_boot_token = token, cmd_x = x, cmd_y = y, cmd_flags = flags\<rparr>"
    using len by (simp add: decode_command_def)
qed

text \<open>An encoder's frame, fed to the parser, comes out with its payload.\<close>

lemma feed_encoded:
  "encode_frame kind seq ms payload = Inr e \<Longrightarrow>
     feed new_parser e = (new_parser, [\<lparr>fr_kind = kind, fr_seq = seq, fr_sender_ms = ms, fr_payload = payload\<rparr>])"
  using parse_encoded [of kind seq ms payload e "[]"] by (simp add: feed_def new_parser_def parse_buf.simps)

text \<open>A COMMAND reaches the other side as it was meant: for a sequence number and a time in range the
  encoder always gives a frame, the parser delivers exactly one frame from it, and its payload
  decodes to the token modulo 2^32 and the axes limited to -10000 .. 10000.\<close>

theorem command_roundtrip:
  assumes "0 \<le> seq" "seq < 2 ^ 32" "0 \<le> ms" "ms < 2 ^ 32"
  shows "\<exists>e pl. encode_command seq ms token x y flags = Inr e
     \<and> feed new_parser e = (new_parser, [\<lparr>fr_kind = COMMAND, fr_seq = seq, fr_sender_ms = ms, fr_payload = pl\<rparr>])
     \<and> decode_command pl = Inr \<lparr>cmd_boot_token = token mod 2 ^ 32, cmd_x = clamp_axis x, cmd_y = clamp_axis y,
                               cmd_flags = flags mod 256\<rparr>
     \<and> - AXIS_LIMIT \<le> clamp_axis x \<and> clamp_axis x \<le> AXIS_LIMIT
     \<and> (- AXIS_LIMIT \<le> x \<and> x \<le> AXIS_LIMIT \<longrightarrow> clamp_axis x = x)"
proof -
  have ax: "- 32768 \<le> clamp_axis q" "clamp_axis q < 32768" for q
    using clamp_axis_bounds [of q] by (auto simp: AXIS_LIMIT_def)
  define pl where "pl = le_bytes 4 (nat (u32 token)) @ le_bytes 2 (s16_enc (clamp_axis x))
     @ le_bytes 2 (s16_enc (clamp_axis y)) @ le_bytes 1 (nat (flags mod 256))"
  then have pl: "command_payload (u32 token) (clamp_axis x) (clamp_axis y) (flags mod 256) = Inr pl"
    unfolding command_payload_Inr using u32_bounds [of token] ax by simp
  from decode_command_payload [OF pl] have "length pl \<le> MAX_PAYLOAD" by (simp add: MAX_PAYLOAD_def)
  then obtain e where e: "encode_frame COMMAND seq ms pl = Inr e"
    using assms by (simp add: encode_frame_def COMMAND_def Let_def)
  then have "encode_command seq ms token x y flags = Inr e" by (simp add: encode_command_def pl)
  with feed_encoded [OF e] decode_command_payload(2) [OF pl] show ?thesis
    using clamp_axis_bounds [of x] clamp_axis_id [of x] by (auto simp: u32_def)
qed

theorem command_roundtrip_witness:
  "\<exists>e pl. encode_command 7 1000 0x1234 20000 (- 5000) 1 = Inr e
     \<and> decode_command pl = Inr \<lparr>cmd_boot_token = 0x1234, cmd_x = 10000, cmd_y = - 5000, cmd_flags = 1\<rparr>"
  using command_roundtrip [of 7 1000 "0x1234" 20000 "- 5000" 1]
  by (auto simp: clamp_axis_def AXIS_LIMIT_def)

section \<open>Configuration items\<close>

lemma config_item_bounds: "config_item cfg k = Inr i \<Longrightarrow> 0 \<le> i \<and> i \<le> 0xFFFF"
  by (auto simp: config_item_def Let_def split: if_splits)

lemma config_items_Inr:
  assumes "config_items cfg = Inr items"
  shows "length items = 10" and "\<forall>i \<in> set items. 0 \<le> i \<and> i \<le> 0xFFFF"
proof -
  from assms obtain vals where v: "res_map (config_item cfg) CONFIG_KEYS = Inr vals" "items = vals @ [0]"
    by (auto simp: config_items_def)
  from length_res_map [OF v(1)] show "length items = 10" using v(2) by (simp add: CONFIG_KEYS_def)
  have "0 \<le> i \<and> i \<le> 0xFFFF" if "i \<in> set vals" for i
    using res_map_member [OF v(1) that] by (blast dest: config_item_bounds)
  then show "\<forall>i \<in> set items. 0 \<le> i \<and> i \<le> 0xFFFF" using v(2) by auto
qed

lemma pack_items:
  "\<forall>i \<in> set items. 0 \<le> i \<and> i \<le> 0xFFFF \<Longrightarrow>
     pack_seq (map (pack_u 2) items) = Inr (concat (map (\<lambda>i. le_bytes 2 (nat i)) items))"
proof (induction items)
  case Nil
  then show ?case by simp
next
  case (Cons i items)
  then have "pack_u 2 i = Inr (le_bytes 2 (nat i))" by (simp add: pack_u_def)
  with Cons show ?case by simp
qed

lemma length_pack_items [simp]: "length (concat (map (\<lambda>i. le_bytes 2 (nat i)) items)) = 2 * length items"
  by (induction items) simp_all

lemma drop_pack_items:
  "drop (2 * n) (concat (map (\<lambda>i. le_bytes 2 (nat i)) items)) = concat (map (\<lambda>i. le_bytes 2 (nat i)) (drop n items))"
proof (induction n arbitrary: items)
  case 0
  then show ?case by simp
next
  case (Suc n)
  then show ?case by (cases items) (simp_all del: le_bytes.simps)
qed

lemma u_at_pack_items:
  assumes "\<forall>i \<in> set items. 0 \<le> i \<and> i \<le> 0xFFFF" and "n < length items" and "length pre = off"
  shows "u_at (off + 2 * n) 2 (pre @ concat (map (\<lambda>i. le_bytes 2 (nat i)) items)) = items ! n"
proof -
  have "items ! n \<in> set items" using assms(2) by simp
  with assms(1) have i: "0 \<le> items ! n" "items ! n < 256 ^ 2" by force+
  have "drop n items = items ! n # drop (Suc n) items" using assms(2) by (simp add: Cons_nth_drop_Suc)
  then have "drop (off + 2 * n) (pre @ concat (map (\<lambda>i. le_bytes 2 (nat i)) items))
      = le_bytes 2 (nat (items ! n)) @ concat (map (\<lambda>i. le_bytes 2 (nat i)) (drop (Suc n) items))"
    using assms(3) drop_pack_items [of n items] by simp
  with i show ?thesis by (simp add: u_at_def nat_less_iff)
qed

lemma set_config_roundtrip:
  assumes "encode_set_config seq ms token cfg = Inr e"
  shows "\<exists>items pl. config_items cfg = Inr items \<and> length pl = 24 \<and> u_at 0 4 pl = u32 token
     \<and> map (\<lambda>i. u_at (4 + 2 * i) 2 pl) [0 ..< 10] = items
     \<and> feed new_parser e = (new_parser, [\<lparr>fr_kind = SET_CONFIG, fr_seq = seq, fr_sender_ms = ms, fr_payload = pl\<rparr>])"
proof -
  from assms obtain items pl where items: "config_items cfg = Inr items"
    and pl: "pack_seq (pack_u 4 (u32 token) # map (pack_u 2) items) = Inr pl"
    and e: "encode_frame SET_CONFIG seq ms pl = Inr e"
    by (auto simp: encode_set_config_def simp del: pack_seq.simps)
  note len = config_items_Inr(1) [OF items] and rng = config_items_Inr(2) [OF items]
  have tok: "pack_u 4 (u32 token) = Inr (le_bytes 4 (nat (u32 token)))"
    using u32_bounds [of token] by (simp add: pack_u_def)
  from pl have pl': "pl = le_bytes 4 (nat (u32 token)) @ concat (map (\<lambda>i. le_bytes 2 (nat i)) items)"
    by (simp add: tok pack_items [OF rng])
  have "map (\<lambda>i. u_at (4 + 2 * i) 2 pl) [0 ..< 10] = map (\<lambda>i. items ! i) [0 ..< 10]"
    unfolding pl' using len by (intro map_cong refl u_at_pack_items [OF rng]) simp_all
  also have "\<dots> = items" using len by (metis map_nth)
  finally have "map (\<lambda>i. u_at (4 + 2 * i) 2 pl) [0 ..< 10] = items" .
  moreover have "length pl = 24" by (simp only: pl' length_append length_le_bytes length_pack_items len)
  moreover have "u_at 0 4 pl = u32 token"
    unfolding pl' using u_at_le_bytes [of "u32 token" 4 "[]" 0] u32_bounds [of token] by simp
  ultimately show ?thesis using items feed_encoded [OF e] by blast
qed

section \<open>Sequence numbers\<close>

lemma newer_sequence_advance:
  assumes "0 < k" "k < 2 ^ 31" shows "newer_sequence (u32 (s + k)) s"
proof -
  have "u32 (u32 (s + k) - s) = k mod 2 ^ 32" by (simp add: u32_def mod_diff_left_eq)
  also have "\<dots> = k" using assms by simp
  finally show ?thesis using assms by (simp add: newer_sequence_def Let_def)
qed

lemma newer_sequence_asym: "newer_sequence a b \<Longrightarrow> \<not> newer_sequence b a"
proof
  assume "newer_sequence a b" "newer_sequence b a"
  then have d: "0 < u32 (a - b)" "u32 (a - b) < 2 ^ 31" "0 < u32 (b - a)" "u32 (b - a) < 2 ^ 31"
    using u32_bounds [of "a - b"] u32_bounds [of "b - a"] by (auto simp: newer_sequence_def Let_def)
  have "u32 (u32 (a - b) + u32 (b - a)) = 0" by (simp add: u32_def mod_add_eq)
  moreover have "u32 (u32 (a - b) + u32 (b - a)) = u32 (a - b) + u32 (b - a)"
    using d by (simp add: u32_def [of "u32 (a - b) + u32 (b - a)"])
  ultimately show False using d by simp
qed

lemma newer_sequence_irrefl: "\<not> newer_sequence a a"
  using newer_sequence_asym by blast

end
