(* ===== verification/Motion_Core.thy ===== *)
theory Motion_Core
  imports Contracts
begin

text \<open>
  \<^verbatim>\<open>gouda_core/motion_core.py\<close> (ND-11): from \<^verbatim>\<open>cmd_vel\<close> to the normalized joystick command, with
  a neutral output while the motion hold is true, missing or old and while the velocity command
  is missing, old or not finite.  Times are seconds as exact reals.  The fields of the settings
  and of the compensation are dynamic values until they are validated.
\<close>

section \<open>Settings\<close>

record 'a motion_settings =
  cmd_vel_timeout_s :: 'a
  max_linear_speed_mps :: 'a
  max_angular_speed_radps :: 'a
  motion_hold_timeout_s :: 'a
  max_reverse_speed_mps :: 'a

text \<open>
  \<^verbatim>\<open>isinstance(v, (int, float)) and math.isfinite(v) and v > 0\<close>, with the number when it holds
  (a Python bool is an int).
\<close>

fun positive_finite :: "pyval \<Rightarrow> real result" where
  "positive_finite (PBool b) = (if b then Inr 1 else Inl ValueError)"
| "positive_finite v = (case finite_number v of None \<Rightarrow> Inl ValueError
     | Some r \<Rightarrow> if 0 < r then Inr r else Inl ValueError)"

text \<open>\<^verbatim>\<open>validate\<close> raises at the first bad field; when it does not raise, the fields are numbers.\<close>

definition motion_validate :: "pyval motion_settings \<Rightarrow> real motion_settings result" where
  "motion_validate s =
     res_bind (positive_finite (cmd_vel_timeout_s s)) (\<lambda>a.
     res_bind (positive_finite (max_linear_speed_mps s)) (\<lambda>b.
     res_bind (positive_finite (max_angular_speed_radps s)) (\<lambda>c.
     res_bind (positive_finite (motion_hold_timeout_s s)) (\<lambda>d.
     res_bind (positive_finite (max_reverse_speed_mps s)) (\<lambda>e.
       Inr \<lparr>cmd_vel_timeout_s = a, max_linear_speed_mps = b, max_angular_speed_radps = c,
            motion_hold_timeout_s = d, max_reverse_speed_mps = e\<rparr>)))))"

section \<open>Dead-band compensation\<close>

datatype direction = Forward | Reverse | Turn

definition COMPENSATION_DIRECTIONS :: "direction list" where
  "COMPENSATION_DIRECTIONS = [Forward, Reverse, Turn]"

record compensation =
  forward_min :: pyval
  forward_threshold :: pyval
  reverse_min :: pyval
  reverse_threshold :: pyval
  turn_min :: pyval
  turn_threshold :: pyval
  comp_revision :: int

fun comp_min :: "compensation \<Rightarrow> direction \<Rightarrow> pyval" where
  "comp_min c Forward = forward_min c"
| "comp_min c Reverse = reverse_min c"
| "comp_min c Turn = turn_min c"

fun comp_threshold :: "compensation \<Rightarrow> direction \<Rightarrow> pyval" where
  "comp_threshold c Forward = forward_threshold c"
| "comp_threshold c Reverse = reverse_threshold c"
| "comp_threshold c Turn = turn_threshold c"

definition NO_COMPENSATION :: compensation where
  "NO_COMPENSATION = \<lparr>forward_min = PNone, forward_threshold = PNone, reverse_min = PNone,
     reverse_threshold = PNone, turn_min = PNone, turn_threshold = PNone, comp_revision = 0\<rparr>"

text \<open>The problems: the fields (minimum or threshold of a direction) set outside [0, 1).\<close>

datatype comp_field = Min direction | Threshold direction

definition outside_unit :: "pyval \<Rightarrow> bool" where
  "outside_unit v = (case finite_number v of None \<Rightarrow> False | Some x \<Rightarrow> \<not> (0 \<le> x \<and> x < 1))"

definition problems :: "compensation \<Rightarrow> comp_field list" where
  "problems c = concat (map (\<lambda>d.
       (if outside_unit (comp_min c d) then [Min d] else [])
     @ (if outside_unit (comp_threshold c d) then [Threshold d] else [])) COMPENSATION_DIRECTIONS)"

definition pair :: "compensation \<Rightarrow> direction \<Rightarrow> (real \<times> real) option" where
  "pair c d = (case (finite_number (comp_min c d), finite_number (comp_threshold c d)) of
     (Some m, Some t) \<Rightarrow> Some (m, t) | _ \<Rightarrow> None)"

definition active_directions :: "compensation \<Rightarrow> direction list" where
  "active_directions c = filter (\<lambda>d. pair c d \<noteq> None) COMPENSATION_DIRECTIONS"

text \<open>\<^verbatim>\<open>math.copysign\<close> for a second argument that is not zero.\<close>

definition copysign :: "real \<Rightarrow> real \<Rightarrow> real" where
  "copysign x y = (if y < 0 then - \<bar>x\<bar> else \<bar>x\<bar>)"

fun compensate :: "real \<Rightarrow> (real \<times> real) option \<Rightarrow> real" where
  "compensate v None = v"
| "compensate v (Some (m, t)) =
     (if v = 0 then v
      else if \<bar>v\<bar> < t then 0
      else copysign (m + (1 - m) * \<bar>v\<bar>) v)"

section \<open>The core\<close>

datatype out_reason =
    Hold_not_received
  | Hold_true
  | Hold_expired
  | Cmd_not_received
  | Cmd_stale
  | Cmd_not_finite
  | Drive

record motion_output =
  out_forward :: real
  out_turn :: real
  out_neutral :: bool
  out_reason :: out_reason
  out_hold_reason :: string
  normalized_forward :: real
  normalized_turn :: real

definition neutral_output :: "out_reason \<Rightarrow> string \<Rightarrow> motion_output" where
  "neutral_output r h = \<lparr>out_forward = 0, out_turn = 0, out_neutral = True, out_reason = r,
     out_hold_reason = h, normalized_forward = 0, normalized_turn = 0\<rparr>"

definition clamp_unit :: "real \<Rightarrow> real" where
  "clamp_unit v = max (- 1) (min 1 v)"

record motion_state =
  m_settings :: "real motion_settings"
  m_cmd :: "(xfloat \<times> xfloat) option"
  m_cmd_time :: "real option"
  m_hold :: "bool option"
  m_hold_reason :: string
  m_hold_mode :: int
  m_hold_time :: "real option"
  m_compensation :: compensation

definition motion_init :: "pyval motion_settings \<Rightarrow> motion_state result" where
  "motion_init raw = res_bind (motion_validate raw) (\<lambda>s.
     Inr \<lparr>m_settings = s, m_cmd = None, m_cmd_time = None, m_hold = None, m_hold_reason = '''',
          m_hold_mode = 0, m_hold_time = None, m_compensation = NO_COMPENSATION\<rparr>)"

definition on_cmd_vel :: "xfloat \<Rightarrow> xfloat \<Rightarrow> real \<Rightarrow> motion_state \<Rightarrow> motion_state" where
  "on_cmd_vel vx wz t s = s\<lparr>m_cmd := Some (vx, wz), m_cmd_time := Some t\<rparr>"

definition on_motion_hold :: "bool \<Rightarrow> string \<Rightarrow> int \<Rightarrow> real \<Rightarrow> motion_state \<Rightarrow> motion_state" where
  "on_motion_hold h r mode t s =
     s\<lparr>m_hold := Some h, m_hold_reason := r, m_hold_mode := mode, m_hold_time := Some t\<rparr>"

definition set_compensation :: "compensation \<Rightarrow> motion_state \<Rightarrow> motion_state \<times> comp_field list" where
  "set_compensation c s =
     (let bad = problems c in (if bad = [] then s\<lparr>m_compensation := c\<rparr> else s, bad))"

text \<open>The drive branch of \<^verbatim>\<open>output\<close>: both components finite.\<close>

definition drive_output :: "motion_state \<Rightarrow> real \<Rightarrow> real \<Rightarrow> motion_output" where
  "drive_output s vx wz =
     (let nf = clamp_unit (vx / (if 0 \<le> vx then max_linear_speed_mps (m_settings s)
                                 else max_reverse_speed_mps (m_settings s)));
          nt = clamp_unit (wz / max_angular_speed_radps (m_settings s));
          c = m_compensation s;
          forward = compensate nf (pair c (if 0 \<le> nf then Forward else Reverse));
          turn = compensate nt (pair c Turn)
      in \<lparr>out_forward = forward, out_turn = turn, out_neutral = (forward = 0 \<and> turn = 0),
          out_reason = Drive, out_hold_reason = '''', normalized_forward = nf, normalized_turn = nt\<rparr>)"

text \<open>
  \<^verbatim>\<open>output(t)\<close>.  A time that is \<open>None\<close> while its value is set would be a TypeError
  in the subtraction; it does not happen (see \<open>motion_inv\<close>).
\<close>

definition motion_output :: "motion_state \<Rightarrow> real \<Rightarrow> motion_output result" where
  "motion_output s t =
     (case m_hold s of
        None \<Rightarrow> Inr (neutral_output Hold_not_received '''')
      | Some True \<Rightarrow> Inr (neutral_output Hold_true (m_hold_reason s))
      | Some False \<Rightarrow>
         (case m_hold_time s of None \<Rightarrow> Inl TypeError | Some th \<Rightarrow>
          if motion_hold_timeout_s (m_settings s) < t - th
          then Inr (neutral_output Hold_expired (m_hold_reason s))
          else
           (case m_cmd s of
              None \<Rightarrow> Inr (neutral_output Cmd_not_received '''')
            | Some (vx, wz) \<Rightarrow>
               (case m_cmd_time s of None \<Rightarrow> Inl TypeError | Some tc \<Rightarrow>
                if cmd_vel_timeout_s (m_settings s) < t - tc
                then Inr (neutral_output Cmd_stale '''')
                else if \<not> (isfinite vx \<and> isfinite wz) then Inr (neutral_output Cmd_not_finite '''')
                else Inr (drive_output s (fin_val vx) (fin_val wz))))))"

text \<open>The state report, the ages as options.\<close>

record motion_report =
  rep_cmd_age :: "real option"
  rep_hold :: "bool option"
  rep_hold_reason :: string
  rep_hold_mode :: int
  rep_hold_age :: "real option"
  rep_compensation_revision :: int
  rep_compensated_directions :: "direction list"

definition motion_report :: "motion_state \<Rightarrow> real \<Rightarrow> motion_report" where
  "motion_report s t =
     \<lparr>rep_cmd_age = map_option (\<lambda>tc. t - tc) (m_cmd_time s), rep_hold = m_hold s,
      rep_hold_reason = m_hold_reason s, rep_hold_mode = m_hold_mode s,
      rep_hold_age = map_option (\<lambda>th. t - th) (m_hold_time s),
      rep_compensation_revision = comp_revision (m_compensation s),
      rep_compensated_directions = active_directions (m_compensation s)\<rparr>"

section \<open>Events\<close>

datatype motion_event =
    Cmd_vel xfloat xfloat real
  | Motion_hold bool string int real
  | Set_compensation compensation

fun motion_step :: "motion_state \<Rightarrow> motion_event \<Rightarrow> motion_state" where
  "motion_step s (Cmd_vel vx wz t) = on_cmd_vel vx wz t s"
| "motion_step s (Motion_hold h r mode t) = on_motion_hold h r mode t s"
| "motion_step s (Set_compensation c) = fst (set_compensation c s)"

lemmas motion_step_defs = on_cmd_vel_def on_motion_hold_def set_compensation_def Let_def

section \<open>Compensation\<close>

lemma outside_unitD: "\<not> outside_unit v \<Longrightarrow> finite_number v = Some x \<Longrightarrow> 0 \<le> x \<and> x < 1"
  by (simp add: outside_unit_def)

lemma problems_Nil:
  "problems c = [] \<longleftrightarrow> (\<forall>d. \<not> outside_unit (comp_min c d) \<and> \<not> outside_unit (comp_threshold c d))"
proof -
  have "(\<forall>d. P d) \<longleftrightarrow> P Forward \<and> P Reverse \<and> P Turn" for P
    by (metis direction.exhaust)
  then show ?thesis by (auto simp: problems_def COMPENSATION_DIRECTIONS_def)
qed

lemma pair_bounds:
  "problems c = [] \<Longrightarrow> pair c d = Some (m, t) \<Longrightarrow> 0 \<le> m \<and> m < 1 \<and> 0 \<le> t \<and> t < 1"
  by (auto simp: problems_Nil pair_def split: option.splits dest: outside_unitD)

lemma no_compensation_ok: "problems NO_COMPENSATION = []"
  by (simp add: problems_def NO_COMPENSATION_def outside_unit_def COMPENSATION_DIRECTIONS_def)

text \<open>A compensated amount: zero below the threshold, at least the amount itself above it.\<close>

lemma compensate_pos:
  assumes "0 \<le> m" "m < 1" "0 < v" "v \<le> 1"
  shows "compensate v (Some (m, t)) = (if v < t then 0 else m + (1 - m) * v)"
    and "v \<le> m + (1 - m) * v" and "m + (1 - m) * v \<le> 1"
proof -
  have "0 \<le> m * (1 - v)" using assms by simp
  then show "v \<le> m + (1 - m) * v" by (simp add: algebra_simps)
  moreover have "0 \<le> (1 - m) * (1 - v)" using assms by simp
  then show "m + (1 - m) * v \<le> 1" by (simp add: algebra_simps)
  moreover note assms
  ultimately show "compensate v (Some (m, t)) = (if v < t then 0 else m + (1 - m) * v)"
    using assms by (simp add: copysign_def)
qed

lemma compensate_minus: "compensate (- v) p = - compensate v p"
  by (cases p) (auto simp: copysign_def split: prod.splits)

lemma compensate_abs: "\<bar>compensate v p\<bar> = compensate \<bar>v\<bar> p"
proof (cases p)
  case None
  then show ?thesis by simp
next
  case (Some q)
  obtain m t where q: "q = (m, t)" by (cases q)
  show ?thesis unfolding Some q by (auto simp: copysign_def)
qed

definition fair_pair :: "(real \<times> real) option \<Rightarrow> bool" where
  "fair_pair p = (case p of None \<Rightarrow> True | Some (m, t) \<Rightarrow> 0 \<le> m \<and> m < 1)"

lemma fair_pair_of: "problems c = [] \<Longrightarrow> fair_pair (pair c d)"
  using pair_bounds by (auto simp: fair_pair_def split: option.splits)

lemma compensate_bounds:
  assumes p: "fair_pair p" and v: "\<bar>v\<bar> \<le> 1"
  shows "\<bar>compensate v p\<bar> \<le> 1"
    and "compensate v p \<noteq> 0 \<Longrightarrow> \<bar>v\<bar> \<le> \<bar>compensate v p\<bar> \<and> sgn (compensate v p) = sgn v"
proof -
  have pos: "0 \<le> compensate w p \<and> compensate w p \<le> 1 \<and> (compensate w p \<noteq> 0 \<longrightarrow> w \<le> compensate w p)"
    if "0 < w" "w \<le> 1" for w
  proof (cases p)
    case None
    with that show ?thesis by simp
  next
    case (Some q)
    obtain m t where "q = (m, t)" by (cases q)
    with Some p have "p = Some (m, t)" "0 \<le> m" "m < 1" by (auto simp: fair_pair_def)
    with compensate_pos(1) [of m w t] compensate_pos(2,3) [of m w] that show ?thesis by auto
  qed
  consider "v = 0" | "0 < v" | "0 < - v" by linarith
  note signs = this
  have z: "compensate 0 p = 0" by (cases p) auto
  from signs show "\<bar>compensate v p\<bar> \<le> 1"
    using pos [of v] pos [of "- v"] z v by cases (auto simp: compensate_minus)
  from signs show "\<bar>v\<bar> \<le> \<bar>compensate v p\<bar> \<and> sgn (compensate v p) = sgn v" if "compensate v p \<noteq> 0"
    using pos [of v] pos [of "- v"] z v that by cases (auto simp: compensate_minus)
qed

section \<open>Invariant and interfaces\<close>

definition motion_inv :: "motion_state \<Rightarrow> bool" where
  "motion_inv s \<longleftrightarrow>
     0 < cmd_vel_timeout_s (m_settings s) \<and> 0 < max_linear_speed_mps (m_settings s)
   \<and> 0 < max_angular_speed_radps (m_settings s) \<and> 0 < motion_hold_timeout_s (m_settings s)
   \<and> 0 < max_reverse_speed_mps (m_settings s)
   \<and> (m_cmd s = None \<longleftrightarrow> m_cmd_time s = None) \<and> (m_hold s = None \<longleftrightarrow> m_hold_time s = None)
   \<and> problems (m_compensation s) = []"

lemma positive_finite_pos: "positive_finite v = Inr r \<Longrightarrow> 0 < r"
  by (cases v rule: positive_finite.cases) (auto split: if_splits option.splits)

lemma motion_init_Inr:
  "motion_init raw = Inr s \<Longrightarrow> motion_inv s \<and> m_hold s = None \<and> m_cmd s = None
     \<and> m_hold_time s = None \<and> m_cmd_time s = None"
  by (auto simp: motion_init_def motion_validate_def motion_inv_def no_compensation_ok
      dest!: positive_finite_pos)

interpretation motion: event_system "\<lambda>s. \<exists>raw. motion_init raw = Inr s" motion_step motion_inv
proof
  show "motion_inv s" if "\<exists>raw. motion_init raw = Inr s" for s
    using that motion_init_Inr by blast
  show "motion_inv (motion_step s e)" if "motion_inv s" for s e
    using that by (cases e) (auto simp: motion_inv_def motion_step_defs)
qed

lemma motion_output_returns: "motion_inv s \<Longrightarrow> \<exists>o'. motion_output s t = Inr o'"
  by (auto simp: motion_inv_def motion_output_def split: option.splits bool.splits)

definition quiet_result :: "motion_output result \<Rightarrow> bool" where
  "quiet_result r = (case r of Inl e \<Rightarrow> True | Inr o' \<Rightarrow> out_neutral o' \<and> out_forward o' = 0 \<and> out_turn o' = 0)"

fun hold_msg :: "motion_event \<Rightarrow> (bool \<times> real) option" where
  "hold_msg (Motion_hold h r mode t) = Some (h, t)"
| "hold_msg _ = None"

fun cmd_msg :: "motion_event \<Rightarrow> ((xfloat \<times> xfloat) \<times> real) option" where
  "cmd_msg (Cmd_vel vx wz t) = Some ((vx, wz), t)"
| "cmd_msg _ = None"

lemma hold_msg_Some: "hold_msg e = Some (h, t) \<longleftrightarrow> (\<exists>r mode. e = Motion_hold h r mode t)"
  by (cases e) auto

lemma cmd_msg_Some: "cmd_msg e = Some ((vx, wz), t) \<longleftrightarrow> e = Cmd_vel vx wz t"
  by (cases e) auto

definition with_time :: "'a option \<Rightarrow> real option \<Rightarrow> ('a \<times> real) option" where
  "with_time v t = (case (v, t) of (Some x, Some u) \<Rightarrow> Some (x, u) | _ \<Rightarrow> None)"

lemma with_time_Some [simp]: "with_time (Some x) (Some u) = Some (x, u)"
  by (simp add: with_time_def)

lemmas quiet_simps = quiet_result_def motion_output_def neutral_output_def with_time_def

interpretation hold_watch: watchdog motion_step "\<lambda>s. with_time (m_hold s) (m_hold_time s)" hold_msg snd
  "\<lambda>s. motion_hold_timeout_s (m_settings s)" motion_output quiet_result
proof
  fix s :: motion_state and e :: motion_event and t :: real and v :: "bool \<times> real"
  show "with_time (m_hold (motion_step s e)) (m_hold_time (motion_step s e)) =
      (case hold_msg e of None \<Rightarrow> with_time (m_hold s) (m_hold_time s) | Some v \<Rightarrow> Some v)"
    by (cases e) (simp_all add: motion_step_defs)
  show "motion_hold_timeout_s (m_settings (motion_step s e)) = motion_hold_timeout_s (m_settings s)"
    by (cases e) (simp_all add: motion_step_defs)
  show "quiet_result (motion_output s t)" if "with_time (m_hold s) (m_hold_time s) = None"
    using that by (auto simp: quiet_simps split: option.splits bool.splits)
  show "quiet_result (motion_output s t)" if "with_time (m_hold s) (m_hold_time s) = Some v"
    "motion_hold_timeout_s (m_settings s) < t - snd v"
    using that by (auto simp: quiet_simps split: option.splits bool.splits)
qed

interpretation cmd_watch: watchdog motion_step "\<lambda>s. with_time (m_cmd s) (m_cmd_time s)" cmd_msg snd
  "\<lambda>s. cmd_vel_timeout_s (m_settings s)" motion_output quiet_result
proof
  fix s :: motion_state and e :: motion_event and t :: real and v :: "(xfloat \<times> xfloat) \<times> real"
  show "with_time (m_cmd (motion_step s e)) (m_cmd_time (motion_step s e)) =
      (case cmd_msg e of None \<Rightarrow> with_time (m_cmd s) (m_cmd_time s) | Some v \<Rightarrow> Some v)"
    by (cases e) (simp_all add: motion_step_defs)
  show "cmd_vel_timeout_s (m_settings (motion_step s e)) = cmd_vel_timeout_s (m_settings s)"
    by (cases e) (simp_all add: motion_step_defs)
  show "quiet_result (motion_output s t)" if "with_time (m_cmd s) (m_cmd_time s) = None"
    using that by (auto simp: quiet_simps split: option.splits bool.splits)
  show "quiet_result (motion_output s t)" if "with_time (m_cmd s) (m_cmd_time s) = Some v"
    "cmd_vel_timeout_s (m_settings s) < t - snd v"
    using that by (auto simp: quiet_simps split: option.splits bool.splits)
qed

section \<open>The output\<close>

lemma clamp_unit_bounds: "\<bar>clamp_unit v\<bar> \<le> 1"
  by (auto simp: clamp_unit_def max_def min_def)

lemma clamp_unit_sgn: "sgn (clamp_unit v) = sgn v"
  by (auto simp: clamp_unit_def max_def min_def sgn_if)

lemma clamp_unit_mono: "v \<le> w \<Longrightarrow> clamp_unit v \<le> clamp_unit w"
  by (auto simp: clamp_unit_def)

lemma sgn_divide_pos: "0 < (b :: real) \<Longrightarrow> sgn (a / b) = sgn a"
  by (simp add: sgn_divide)

text \<open>The drive branch is reached exactly with a fresh false hold and a fresh finite command.\<close>

lemma drive_output_reason [simp]: "out_reason (drive_output s vx wz) = Drive"
  by (simp add: drive_output_def Let_def)

lemma motion_output_drive_iff:
  "(motion_output s t = Inr o' \<and> out_reason o' = Drive) \<longleftrightarrow>
     (\<exists>th vx wz tc. m_hold s = Some False \<and> m_hold_time s = Some th
        \<and> t - th \<le> motion_hold_timeout_s (m_settings s)
        \<and> m_cmd s = Some (Fin vx, Fin wz) \<and> m_cmd_time s = Some tc
        \<and> t - tc \<le> cmd_vel_timeout_s (m_settings s) \<and> o' = drive_output s vx wz)"
  (is "?L \<longleftrightarrow> ?R")
proof
  assume ?R
  then show ?L by (auto simp: motion_output_def)
next
  assume ?L
  then show ?R
    by (auto simp: motion_output_def neutral_output_def isfinite_iff not_less
        split: option.splits bool.splits if_split_asm)
qed

lemma motion_output_not_drive:
  "motion_output s t = Inr o' \<Longrightarrow> out_reason o' \<noteq> Drive \<Longrightarrow>
     out_neutral o' \<and> out_forward o' = 0 \<and> out_turn o' = 0 \<and> normalized_forward o' = 0 \<and> normalized_turn o' = 0"
  by (auto simp: motion_output_def neutral_output_def split: option.splits bool.splits if_split_asm)

lemma drive_output_axes:
  assumes "motion_inv s"
  shows "\<bar>out_forward (drive_output s vx wz)\<bar> \<le> 1" and "\<bar>out_turn (drive_output s vx wz)\<bar> \<le> 1"
    and "out_forward (drive_output s vx wz) \<noteq> 0 \<Longrightarrow> sgn (out_forward (drive_output s vx wz)) = sgn vx
           \<and> \<bar>normalized_forward (drive_output s vx wz)\<bar> \<le> \<bar>out_forward (drive_output s vx wz)\<bar>"
    and "out_turn (drive_output s vx wz) \<noteq> 0 \<Longrightarrow> sgn (out_turn (drive_output s vx wz)) = sgn wz"
    and "out_neutral (drive_output s vx wz) \<longleftrightarrow> out_forward (drive_output s vx wz) = 0 \<and> out_turn (drive_output s vx wz) = 0"
proof -
  from assms have fair: "fair_pair (pair (m_compensation s) d)" for d
    by (simp add: motion_inv_def fair_pair_of)
  from assms have pos: "0 < max_linear_speed_mps (m_settings s)" "0 < max_reverse_speed_mps (m_settings s)"
    "0 < max_angular_speed_radps (m_settings s)"
    by (simp_all add: motion_inv_def)
  note b = compensate_bounds [OF fair clamp_unit_bounds]
  show "\<bar>out_forward (drive_output s vx wz)\<bar> \<le> 1" "\<bar>out_turn (drive_output s vx wz)\<bar> \<le> 1"
    by (simp_all add: drive_output_def Let_def b(1))
  show "sgn (out_forward (drive_output s vx wz)) = sgn vx
           \<and> \<bar>normalized_forward (drive_output s vx wz)\<bar> \<le> \<bar>out_forward (drive_output s vx wz)\<bar>"
    if "out_forward (drive_output s vx wz) \<noteq> 0"
    using that pos b(2) by (auto simp: drive_output_def Let_def clamp_unit_sgn sgn_divide_pos split: if_splits)
  show "sgn (out_turn (drive_output s vx wz)) = sgn wz" if "out_turn (drive_output s vx wz) \<noteq> 0"
    using that pos b(2) by (auto simp: drive_output_def Let_def clamp_unit_sgn sgn_divide_pos)
  show "out_neutral (drive_output s vx wz) \<longleftrightarrow>
      out_forward (drive_output s vx wz) = 0 \<and> out_turn (drive_output s vx wz) = 0"
    by (simp add: drive_output_def Let_def)
qed

section \<open>Properties\<close>

text \<open>C9. Whatever the motion controller received, a command other than neutral is sent only while the
  last motion hold received is false and fresh and the last velocity command received is fresh
  and finite.\<close>

theorem drive_needs_fresh_inputs:
  assumes "motion_init raw = Inr s" and "motion_output (run motion_step s es) t = Inr o'"
    and "\<not> out_neutral o'"
  shows "(\<exists>r mode th xs ys. es = xs @ Motion_hold False r mode th # ys \<and> (\<forall>y \<in> set ys. hold_msg y = None)
            \<and> t - th \<le> motion_hold_timeout_s (m_settings s))
       \<and> (\<exists>vx wz tc xs ys. es = xs @ Cmd_vel (Fin vx) (Fin wz) tc # ys \<and> (\<forall>y \<in> set ys. cmd_msg y = None)
            \<and> t - tc \<le> cmd_vel_timeout_s (m_settings s))"
proof
  let ?s = "run motion_step s es"
  from assms(1) have init: "with_time (m_hold s) (m_hold_time s) = None" "with_time (m_cmd s) (m_cmd_time s) = None"
    by (auto dest!: motion_init_Inr simp: with_time_def)
  from assms(2,3) have act: "\<not> quiet_result (motion_output ?s t)" by (simp add: quiet_result_def)
  from assms(2,3) have "out_reason o' = Drive" using motion_output_not_drive by blast
  with assms(2) obtain th vx wz tc where now: "m_hold ?s = Some False" "m_hold_time ?s = Some th"
    "m_cmd ?s = Some (Fin vx, Fin wz)" "m_cmd_time ?s = Some tc"
    using motion_output_drive_iff by blast
  from hold_watch.active_needs_message [OF init(1) act] now
  obtain xs e ys where "es = xs @ e # ys" "\<exists>r mode. e = Motion_hold False r mode th" "\<forall>y \<in> set ys. hold_msg y = None"
    "t - th \<le> motion_hold_timeout_s (m_settings s)" by (auto simp: hold_msg_Some)
  then show "\<exists>r mode th xs ys. es = xs @ Motion_hold False r mode th # ys \<and> (\<forall>y \<in> set ys. hold_msg y = None)
            \<and> t - th \<le> motion_hold_timeout_s (m_settings s)"
    by blast
  from cmd_watch.active_needs_message [OF init(2) act] now
  obtain xs e ys where "es = xs @ e # ys" "e = Cmd_vel (Fin vx) (Fin wz) tc" "\<forall>y \<in> set ys. cmd_msg y = None"
    "t - tc \<le> cmd_vel_timeout_s (m_settings s)" by (auto simp: cmd_msg_Some)
  then show "\<exists>vx wz tc xs ys. es = xs @ Cmd_vel (Fin vx) (Fin wz) tc # ys \<and> (\<forall>y \<in> set ys. cmd_msg y = None)
            \<and> t - tc \<le> cmd_vel_timeout_s (m_settings s)"
    by blast
qed

definition sample_settings :: "pyval motion_settings" where
  "sample_settings = \<lparr>cmd_vel_timeout_s = PFloat (Fin (7/10)), max_linear_speed_mps = PInt 1,
     max_angular_speed_radps = PInt 2, motion_hold_timeout_s = PInt 1, max_reverse_speed_mps = PFloat (Fin (1/2))\<rparr>"

definition sample_start :: motion_state where
  "sample_start = \<lparr>m_settings = \<lparr>cmd_vel_timeout_s = 7/10, max_linear_speed_mps = 1,
     max_angular_speed_radps = 2, motion_hold_timeout_s = 1, max_reverse_speed_mps = 1/2\<rparr>,
     m_cmd = None, m_cmd_time = None, m_hold = None, m_hold_reason = '''',
     m_hold_mode = 0, m_hold_time = None, m_compensation = NO_COMPENSATION\<rparr>"

definition sample_inputs :: "motion_event list" where
  "sample_inputs = [Motion_hold False '''' 3 10, Cmd_vel (Fin (- (1/4))) (Fin 1) (101/10)]"

lemma sample_init: "motion_init sample_settings = Inr sample_start"
  by (simp add: motion_init_def motion_validate_def sample_settings_def sample_start_def)

definition sample_drive :: motion_output where
  "sample_drive = \<lparr>out_forward = - (1/2), out_turn = 1/2, out_neutral = False, out_reason = Drive,
     out_hold_reason = '''', normalized_forward = - (1/2), normalized_turn = 1/2\<rparr>"

lemma sample_output: "motion_output (run motion_step sample_start sample_inputs) (104/10) = Inr sample_drive"
  by (simp add: sample_start_def sample_inputs_def sample_drive_def motion_step_defs motion_output_def
      drive_output_def clamp_unit_def pair_def NO_COMPENSATION_def)

theorem drive_needs_fresh_inputs_witness:
  "\<exists>r mode th xs ys. sample_inputs = xs @ Motion_hold False r mode th # ys \<and> (\<forall>y \<in> set ys. hold_msg y = None)"
  using drive_needs_fresh_inputs [OF sample_init sample_output] by (simp add: sample_drive_def) blast

text \<open>C10. After any inputs the motion controller gives an output (the constructor returned, no later call
  raises), both axes are within [-1, 1], neutral is reported exactly when both are zero, and an
  axis that is not zero has the sign of the commanded velocity and at least the normalized
  amount.\<close>

theorem motion_output_total_and_bounded:
  assumes "motion_init raw = Inr s"
  shows "\<exists>o'. motion_output (run motion_step s es) t = Inr o'
     \<and> \<bar>out_forward o'\<bar> \<le> 1 \<and> \<bar>out_turn o'\<bar> \<le> 1
     \<and> (out_neutral o' \<longleftrightarrow> out_forward o' = 0 \<and> out_turn o' = 0)
     \<and> (out_forward o' \<noteq> 0 \<longrightarrow> \<bar>normalized_forward o'\<bar> \<le> \<bar>out_forward o'\<bar>
          \<and> (\<exists>vx wz. m_cmd (run motion_step s es) = Some (Fin vx, Fin wz) \<and> sgn (out_forward o') = sgn vx))
     \<and> (out_turn o' \<noteq> 0 \<longrightarrow>
          (\<exists>vx wz. m_cmd (run motion_step s es) = Some (Fin vx, Fin wz) \<and> sgn (out_turn o') = sgn wz))"
proof -
  let ?s = "run motion_step s es"
  from assms have inv: "motion_inv ?s" by (intro motion.inv_reachable) blast
  then obtain o' where out: "motion_output ?s t = Inr o'" using motion_output_returns by blast
  note axes = drive_output_axes [OF inv]
  show ?thesis
  proof (cases "out_reason o' = Drive")
    case True
    with out obtain vx wz where "m_cmd ?s = Some (Fin vx, Fin wz)" "o' = drive_output ?s vx wz"
      using motion_output_drive_iff by blast
    with out axes show ?thesis by fastforce
  next
    case False
    with out motion_output_not_drive [OF out] show ?thesis by auto
  qed
qed

theorem motion_output_total_and_bounded_witness:
  "\<exists>o'. motion_output (run motion_step sample_start sample_inputs) (104/10) = Inr o' \<and> \<bar>out_forward o'\<bar> \<le> 1"
  using motion_output_total_and_bounded [OF sample_init, of sample_inputs "104/10"] by blast

text \<open>The compensated amount of a direction with a valid minimum and threshold: below the threshold
  it is zero, from the threshold on it grows with the commanded amount, never below the minimum
  and never above full deflection; left and right, forward and backward are symmetric.\<close>

theorem compensation_curve:
  assumes "problems c = []" and "pair c d = Some (m, t)" and "0 \<le> v" "v \<le> w" "w \<le> 1"
  shows "compensate v (pair c d) \<le> compensate w (pair c d) \<and> compensate w (pair c d) \<le> 1
     \<and> compensate (- w) (pair c d) = - compensate w (pair c d)
     \<and> (compensate w (pair c d) = 0 \<longleftrightarrow> w = 0 \<or> w < t)
     \<and> (compensate w (pair c d) \<noteq> 0 \<longrightarrow> m \<le> compensate w (pair c d) \<and> w \<le> compensate w (pair c d))"
proof -
  from pair_bounds [OF assms(1,2)] have m: "0 \<le> m" "m < 1" "0 \<le> t" by auto
  note c = compensate_pos [OF m(1,2)]
  have mono: "m + (1 - m) * v \<le> m + (1 - m) * w" using m assms by (simp add: mult_left_mono)
  have ge: "0 \<le> (1 - m) * w" using m assms by simp
  consider "v = 0" "w = 0" | "v = 0" "0 < w" | "0 < v" "0 < w" using assms by linarith
  then have "compensate v (pair c d) \<le> compensate w (pair c d) \<and> compensate w (pair c d) \<le> 1
     \<and> (compensate w (pair c d) = 0 \<longleftrightarrow> w = 0 \<or> w < t)
     \<and> (compensate w (pair c d) \<noteq> 0 \<longrightarrow> m \<le> compensate w (pair c d) \<and> w \<le> compensate w (pair c d))"
    using c(1) [of v t] c(1) [of w t] c(2) [of w] c(3) [of w] mono ge m assms by cases auto
  then show ?thesis by (simp add: compensate_minus)
qed

definition sample_compensation :: compensation where
  "sample_compensation = NO_COMPENSATION\<lparr>forward_min := PFloat (Fin (1/4)), forward_threshold := PFloat (Fin (1/20))\<rparr>"

theorem compensation_curve_witness:
  "compensate (1/2) (pair sample_compensation Forward) = 5/8
   \<and> compensate (1/2) (pair sample_compensation Forward) \<le> compensate 1 (pair sample_compensation Forward)"
  using compensation_curve [of sample_compensation Forward "1/4" "1/20" "1/2" 1]
  by (simp add: sample_compensation_def NO_COMPENSATION_def pair_def problems_def outside_unit_def
      COMPENSATION_DIRECTIONS_def copysign_def)

end
