(* ===== verification/Vehicle_Core.thy ===== *)
theory Vehicle_Core
  imports Esp32_Protocol Motion_Core
begin

text \<open>
  \<^verbatim>\<open>gouda_core/vehicle_core.py\<close> (ND-12): what the vehicle bridge sends to the ESP32 and when
  (\<open>bridge_*\<close>), and the USB link counter of a driving session (\<open>link_*\<close>, DEC-177).
\<close>

section \<open>Bridge\<close>

record 'a bridge_settings =
  joystick_timeout_s :: 'a
  send_period_s :: 'a

definition bridge_validate :: "pyval bridge_settings \<Rightarrow> real bridge_settings result" where
  "bridge_validate s =
     res_bind (positive_finite (joystick_timeout_s s)) (\<lambda>a.
     res_bind (positive_finite (send_period_s s)) (\<lambda>b.
       Inr \<lparr>joystick_timeout_s = a, send_period_s = b\<rparr>))"

datatype command_reason = Inactive | Joy_not_received | Joy_stale | Joy_not_finite | Forwarded

record command_decision =
  cd_send :: bool
  cd_x :: int
  cd_y :: int
  cd_flags :: int
  cd_reason :: command_reason

definition to_wire :: "real \<Rightarrow> real \<Rightarrow> int \<times> int" where
  "to_wire forward turn =
     (clamp_axis (py_round (- turn * of_int AXIS_LIMIT)), clamp_axis (py_round (forward * of_int AXIS_LIMIT)))"

record bridge_state =
  b_settings :: "real bridge_settings"
  b_joy :: "(xfloat \<times> xfloat) option"
  b_joy_time :: "real option"
  b_boot_token :: "int option"
  b_config_valid :: "bool option"
  b_config_generation :: "int option"
  b_last_status :: "status option"
  b_last_uptime_ms :: "int option"
  b_last_sent :: "(int \<times> int) option"
  b_seq :: int

definition bridge_init :: "pyval bridge_settings \<Rightarrow> bridge_state result" where
  "bridge_init raw = res_bind (bridge_validate raw) (\<lambda>s.
     Inr \<lparr>b_settings = s, b_joy = None, b_joy_time = None, b_boot_token = None, b_config_valid = None,
          b_config_generation = None, b_last_status = None, b_last_uptime_ms = None, b_last_sent = None,
          b_seq = 0\<rparr>)"

definition on_joystick :: "xfloat \<Rightarrow> xfloat \<Rightarrow> real \<Rightarrow> bridge_state \<Rightarrow> bridge_state" where
  "on_joystick forward turn t s = s\<lparr>b_joy := Some (forward, turn), b_joy_time := Some t\<rparr>"

definition on_hello_reply :: "hello_reply \<Rightarrow> bridge_state \<Rightarrow> bridge_state \<times> bool" where
  "on_hello_reply r s =
     (s\<lparr>b_boot_token := Some (h_boot_token r), b_config_valid := Some (h_config_valid r),
        b_config_generation := Some (h_config_generation r)\<rparr>,
      Some (h_boot_token r) \<noteq> b_boot_token s)"

definition on_status :: "status \<Rightarrow> bridge_state \<Rightarrow> bridge_state \<times> bool" where
  "on_status st s =
     (s\<lparr>b_last_uptime_ms := Some (s_uptime_ms st), b_last_status := Some st,
        b_config_valid := Some (s_config_valid st)\<rparr>,
      case b_last_uptime_ms s of None \<Rightarrow> False | Some u \<Rightarrow> s_uptime_ms st < u)"

definition next_seq :: "bridge_state \<Rightarrow> bridge_state \<times> int" where
  "next_seq s = (let q = u32 (b_seq s + 1); q = (if q = 0 then 1 else q) in (s\<lparr>b_seq := q\<rparr>, q))"

definition bridge_command :: "bridge_state \<Rightarrow> real \<Rightarrow> bool \<Rightarrow> command_decision result" where
  "bridge_command s t active =
     (let neutral = (\<lambda>r. \<lparr>cd_send = True, cd_x = 0, cd_y = 0, cd_flags = FLAG_PC_ENABLE_REQUEST, cd_reason = r\<rparr>) in
      if \<not> active then Inr \<lparr>cd_send = False, cd_x = 0, cd_y = 0, cd_flags = 0, cd_reason = Inactive\<rparr>
      else (case b_joy s of
          None \<Rightarrow> Inr (neutral Joy_not_received)
        | Some (forward, turn) \<Rightarrow>
           (case b_joy_time s of None \<Rightarrow> Inl TypeError | Some tj \<Rightarrow>
            if joystick_timeout_s (b_settings s) < t - tj then Inr (neutral Joy_stale)
            else if \<not> (isfinite forward \<and> isfinite turn) then Inr (neutral Joy_not_finite)
            else let (x, y) = to_wire (fin_val forward) (fin_val turn) in
              Inr \<lparr>cd_send = True, cd_x = x, cd_y = y, cd_flags = FLAG_PC_ENABLE_REQUEST, cd_reason = Forwarded\<rparr>)))"

text \<open>
  \<^verbatim>\<open>status_key_values\<close>: an absent value is empty, a bool is lower case, the rest is Python's
  \<^verbatim>\<open>str\<close> (\<open>fmt\<close>).
\<close>

fun status_value :: "(pyval \<Rightarrow> string) \<Rightarrow> pyval \<Rightarrow> string" where
  "status_value fmt PNone = ''''"
| "status_value fmt (PBool b) = (if b then ''true'' else ''false'')"
| "status_value fmt (PStr s) = s"
| "status_value fmt v = fmt v"

definition status_key_values :: "(pyval \<Rightarrow> string) \<Rightarrow> (string \<times> pyval) list \<Rightarrow> (string \<times> string) list" where
  "status_key_values fmt kvs = map (\<lambda>(k, v). (k, status_value fmt v)) kvs"

section \<open>USB link counter\<close>

datatype link = Link_not_open | Link_up | Link_down
datatype session_kind = Mapping_session | Autonomy_session

definition MODE_MANUAL :: int where "MODE_MANUAL = 1"
definition MODE_MAPPING :: int where "MODE_MAPPING = 2"
definition MODE_AUTONOMY :: int where "MODE_AUTONOMY = 3"
definition MODE_PAUSE :: int where "MODE_PAUSE = 4"

text \<open>\<^verbatim>\<open>round(x, 3)\<close> of a number of seconds.\<close>

record session_summary =
  ss_kind :: "session_kind option"
  ss_started_at :: "real option"
  ss_ended_at :: real
  ss_disconnects :: int
  ss_reconnects :: int
  ss_down_total_s :: real

record link_state =
  l_link :: link
  l_session :: "session_kind option"
  l_started_at :: "real option"
  l_disconnects :: int
  l_reconnects :: int
  l_last_down_at :: "real option"
  l_last_up_at :: "real option"
  l_down_since :: "real option"
  l_down_total :: real
  l_last_session :: "session_summary option"
  l_revision :: int

definition link_init :: link_state where
  "link_init = \<lparr>l_link = Link_not_open, l_session = None, l_started_at = None, l_disconnects = 0,
     l_reconnects = 0, l_last_down_at = None, l_last_up_at = None, l_down_since = None,
     l_down_total = 0, l_last_session = None, l_revision = 0\<rparr>"

definition outage :: "link_state \<Rightarrow> real \<Rightarrow> real" where
  "outage s now = (case l_down_since s of None \<Rightarrow> 0 | Some t \<Rightarrow> now - t)"

definition link_summary :: "link_state \<Rightarrow> real \<Rightarrow> session_summary" where
  "link_summary s now = \<lparr>ss_kind = l_session s, ss_started_at = l_started_at s, ss_ended_at = now,
     ss_disconnects = l_disconnects s, ss_reconnects = l_reconnects s,
     ss_down_total_s = round3 (l_down_total s + outage s now)\<rparr>"

datatype session_change = Session_started session_kind | Session_ended session_summary

definition link_on_mode :: "int \<Rightarrow> real \<Rightarrow> link_state \<Rightarrow> link_state \<times> session_change option" where
  "link_on_mode mode now s =
     (let in_session = mode \<in> {MODE_MAPPING, MODE_AUTONOMY, MODE_PAUSE} in
      if in_session \<and> l_session s = None then
        let kind = (if mode = MODE_MAPPING then Mapping_session else Autonomy_session) in
        (s\<lparr>l_session := Some kind, l_started_at := Some now, l_disconnects := 0, l_reconnects := 0,
           l_last_down_at := None, l_last_up_at := None, l_down_total := 0,
           l_down_since := (if l_link s = Link_down then Some now else None),
           l_revision := l_revision s + 1\<rparr>,
         Some (Session_started kind))
      else if \<not> in_session \<and> l_session s \<noteq> None then
        let summary = link_summary s now in
        (s\<lparr>l_last_session := Some summary, l_session := None, l_started_at := None, l_down_since := None,
           l_revision := l_revision s + 1\<rparr>,
         Some (Session_ended summary))
      else (s, None))"

definition link_on_link :: "link \<Rightarrow> real \<Rightarrow> link_state \<Rightarrow> link_state \<times> bool" where
  "link_on_link state now s =
     (if state = l_link s then (s, False)
      else
        let was_down = (l_link s = Link_down);
            s = s\<lparr>l_link := state\<rparr>;
            s = (if l_session s \<noteq> None then
                   if state = Link_down then
                     s\<lparr>l_disconnects := l_disconnects s + 1, l_last_down_at := Some now, l_down_since := Some now\<rparr>
                   else if was_down then
                     let s = (if state = Link_up \<and> l_last_down_at s \<noteq> None
                              then s\<lparr>l_reconnects := l_reconnects s + 1, l_last_up_at := Some now\<rparr> else s);
                         s = s\<lparr>l_down_total := l_down_total s + outage s now\<rparr>
                     in s\<lparr>l_down_since := None\<rparr>
                   else s
                 else s)
        in (s\<lparr>l_revision := l_revision s + 1\<rparr>, True))"

record link_report =
  lr_link :: link
  lr_session :: "session_kind option"
  lr_started_at :: "real option"
  lr_disconnects :: "int option"
  lr_reconnects :: "int option"
  lr_last_down_at :: "real option"
  lr_last_up_at :: "real option"
  lr_down_since :: "real option"
  lr_down_total_s :: "real option"
  lr_last_session :: "session_summary option"
  lr_revision :: int

definition link_status :: "link_state \<Rightarrow> real \<Rightarrow> link_report" where
  "link_status s now =
     (let in_session = (l_session s \<noteq> None);
          down_total = l_down_total s + (if in_session then outage s now else 0) in
      \<lparr>lr_link = l_link s, lr_session = l_session s, lr_started_at = l_started_at s,
       lr_disconnects = (if in_session then Some (l_disconnects s) else None),
       lr_reconnects = (if in_session then Some (l_reconnects s) else None),
       lr_last_down_at = (if in_session then l_last_down_at s else None),
       lr_last_up_at = (if in_session then l_last_up_at s else None),
       lr_down_since = (if in_session then l_down_since s else None),
       lr_down_total_s = (if in_session then Some (round3 down_total) else None),
       lr_last_session = l_last_session s, lr_revision = l_revision s\<rparr>)"

section \<open>Bridge: invariant and watchdog\<close>

datatype bridge_event =
    Joystick xfloat xfloat real
  | Got_hello_reply hello_reply
  | Got_status status
  | Take_seq

fun bridge_step :: "bridge_state \<Rightarrow> bridge_event \<Rightarrow> bridge_state" where
  "bridge_step s (Joystick f w t) = on_joystick f w t s"
| "bridge_step s (Got_hello_reply r) = fst (on_hello_reply r s)"
| "bridge_step s (Got_status st) = fst (on_status st s)"
| "bridge_step s Take_seq = fst (next_seq s)"

definition bridge_inv :: "bridge_state \<Rightarrow> bool" where
  "bridge_inv s \<longleftrightarrow> 0 < joystick_timeout_s (b_settings s) \<and> (b_joy s = None \<longleftrightarrow> b_joy_time s = None)
     \<and> 0 \<le> b_seq s \<and> b_seq s < 2 ^ 32"

lemmas bridge_step_defs = on_joystick_def on_hello_reply_def on_status_def next_seq_def Let_def

lemma bridge_init_Inr:
  "bridge_init raw = Inr s \<Longrightarrow> bridge_inv s \<and> b_joy s = None \<and> b_joy_time s = None"
  by (auto simp: bridge_init_def bridge_validate_def bridge_inv_def dest!: positive_finite_pos)

interpretation bridge: event_system "\<lambda>s. \<exists>raw. bridge_init raw = Inr s" bridge_step bridge_inv
proof
  show "bridge_inv s" if "\<exists>raw. bridge_init raw = Inr s" for s
    using that bridge_init_Inr by blast
  show "bridge_inv (bridge_step s e)" if "bridge_inv s" for s e
    using that u32_bounds [of "b_seq s + 1"] by (cases e) (auto simp: bridge_inv_def bridge_step_defs)
qed

fun joy_msg :: "bridge_event \<Rightarrow> ((xfloat \<times> xfloat) \<times> real) option" where
  "joy_msg (Joystick f w t) = Some ((f, w), t)"
| "joy_msg _ = None"

lemma joy_msg_Some: "joy_msg e = Some ((f, w), t) \<longleftrightarrow> e = Joystick f w t"
  by (cases e) auto

definition quiet_command :: "command_decision result \<Rightarrow> bool" where
  "quiet_command r = (case r of Inl e \<Rightarrow> True | Inr c \<Rightarrow> cd_x c = 0 \<and> cd_y c = 0)"

lemmas quiet_command_simps = quiet_command_def bridge_command_def with_time_def Let_def

interpretation joy_watch: watchdog bridge_step "\<lambda>s. with_time (b_joy s) (b_joy_time s)" joy_msg snd
  "\<lambda>s. joystick_timeout_s (b_settings s)" "\<lambda>s t. bridge_command s t active" quiet_command for active
proof
  fix s :: bridge_state and e :: bridge_event and t :: real and v :: "(xfloat \<times> xfloat) \<times> real"
  show "with_time (b_joy (bridge_step s e)) (b_joy_time (bridge_step s e)) =
      (case joy_msg e of None \<Rightarrow> with_time (b_joy s) (b_joy_time s) | Some v \<Rightarrow> Some v)"
    by (cases e) (simp_all add: bridge_step_defs)
  show "joystick_timeout_s (b_settings (bridge_step s e)) = joystick_timeout_s (b_settings s)"
    by (cases e) (simp_all add: bridge_step_defs)
  show "quiet_command (bridge_command s t active)" if "with_time (b_joy s) (b_joy_time s) = None"
    using that by (auto simp: quiet_command_simps split: option.splits)
  show "quiet_command (bridge_command s t active)" if "with_time (b_joy s) (b_joy_time s) = Some v"
    "joystick_timeout_s (b_settings s) < t - snd v"
    using that by (auto simp: quiet_command_simps split: option.splits)
qed

lemma bridge_command_cases:
  "bridge_inv s \<Longrightarrow>
     bridge_command s t active = Inr \<lparr>cd_send = active, cd_x = 0, cd_y = 0,
        cd_flags = (if active then FLAG_PC_ENABLE_REQUEST else 0), cd_reason = r\<rparr>
   \<or> (\<exists>f w tj x y. active \<and> b_joy s = Some (Fin f, Fin w) \<and> b_joy_time s = Some tj \<and> to_wire f w = (x, y)
        \<and> t - tj \<le> joystick_timeout_s (b_settings s)
        \<and> bridge_command s t active = Inr \<lparr>cd_send = True, cd_x = x, cd_y = y,
            cd_flags = FLAG_PC_ENABLE_REQUEST, cd_reason = Forwarded\<rparr>)"
  if "r = (if \<not> active then Inactive else case b_joy s of None \<Rightarrow> Joy_not_received
       | Some (f, w) \<Rightarrow> (case b_joy_time s of None \<Rightarrow> Joy_stale | Some tj \<Rightarrow>
            if joystick_timeout_s (b_settings s) < t - tj then Joy_stale else Joy_not_finite))"
  unfolding that
  by (auto simp: bridge_command_def bridge_inv_def isfinite_iff Let_def not_less
      split: option.splits prod.splits xfloat.splits)

lemma to_wire_bounds:
  "to_wire f w = (x, y) \<Longrightarrow> - AXIS_LIMIT \<le> x \<and> x \<le> AXIS_LIMIT \<and> - AXIS_LIMIT \<le> y \<and> y \<le> AXIS_LIMIT"
  using clamp_axis_bounds by (auto simp: to_wire_def)

lemma clamp_axis_round_exact:
  assumes "\<bar>v\<bar> \<le> 1" shows "clamp_axis (py_round (v * of_int AXIS_LIMIT)) = py_round (v * of_int AXIS_LIMIT)"
proof (rule clamp_axis_id)
  from assms have "- 1 \<le> v" "v \<le> 1" by linarith+
  then show "- AXIS_LIMIT \<le> py_round (v * of_int AXIS_LIMIT)" "py_round (v * of_int AXIS_LIMIT) \<le> AXIS_LIMIT"
    by (auto intro!: py_round_ge py_round_le simp: AXIS_LIMIT_def)
qed

lemma to_wire_accuracy:
  assumes "to_wire f w = (x, y)" "\<bar>f\<bar> \<le> 1" "\<bar>w\<bar> \<le> 1"
  shows "\<bar>of_int x + w * 10000\<bar> \<le> 1/2 \<and> \<bar>of_int y - f * 10000\<bar> \<le> 1/2"
proof -
  from assms have x: "x = py_round ((- w) * of_int AXIS_LIMIT)" and y: "y = py_round (f * of_int AXIS_LIMIT)"
    using clamp_axis_round_exact [of "- w"] clamp_axis_round_exact [of f] by (auto simp: to_wire_def)
  show ?thesis
    using py_round_near [of "(- w) * of_int AXIS_LIMIT"] py_round_near [of "f * of_int AXIS_LIMIT"]
    unfolding x y by (simp add: AXIS_LIMIT_def)
qed

section \<open>Properties of the bridge\<close>

text \<open>After any inputs the bridge gives a command; it is sent exactly while the node is active and then
  carries the enable flag; axes other than zero need the last joystick input to be fresh and
  finite, and they are that input, scaled and limited, to within half a unit when it is within
  full deflection.\<close>

theorem bridge_sends_only_fresh_input:
  assumes "bridge_init raw = Inr s"
  shows "\<exists>c. bridge_command (run bridge_step s es) t active = Inr c
     \<and> cd_send c = active \<and> cd_flags c = (if active then FLAG_PC_ENABLE_REQUEST else 0)
     \<and> \<bar>cd_x c\<bar> \<le> 10000 \<and> \<bar>cd_y c\<bar> \<le> 10000
     \<and> (cd_x c \<noteq> 0 \<or> cd_y c \<noteq> 0 \<longrightarrow> active \<and>
          (\<exists>f w tj xs ys. es = xs @ Joystick (Fin f) (Fin w) tj # ys \<and> (\<forall>y \<in> set ys. joy_msg y = None)
             \<and> t - tj \<le> joystick_timeout_s (b_settings s)
             \<and> (\<bar>f\<bar> \<le> 1 \<and> \<bar>w\<bar> \<le> 1 \<longrightarrow> \<bar>of_int (cd_x c) + w * 10000\<bar> \<le> 1/2 \<and> \<bar>of_int (cd_y c) - f * 10000\<bar> \<le> 1/2)))"
proof -
  let ?s = "run bridge_step s es"
  from assms have inv: "bridge_inv ?s" by (intro bridge.inv_reachable) blast
  from assms have init: "with_time (b_joy s) (b_joy_time s) = None"
    by (auto dest!: bridge_init_Inr simp: with_time_def)
  note run_limit = joy_watch.limit_run [of s es]
  consider r where "bridge_command ?s t active = Inr \<lparr>cd_send = active, cd_x = 0, cd_y = 0,
        cd_flags = (if active then FLAG_PC_ENABLE_REQUEST else 0), cd_reason = r\<rparr>"
    | f w tj x y where "active" "b_joy ?s = Some (Fin f, Fin w)" "b_joy_time ?s = Some tj" "to_wire f w = (x, y)"
        "t - tj \<le> joystick_timeout_s (b_settings s)"
        "bridge_command ?s t active = Inr \<lparr>cd_send = True, cd_x = x, cd_y = y,
            cd_flags = FLAG_PC_ENABLE_REQUEST, cd_reason = Forwarded\<rparr>"
    using bridge_command_cases [OF refl inv] run_limit by metis
  then show ?thesis
  proof cases
    case 1
    then show ?thesis by simp
  next
    case 2
    from joy_watch.latest [OF init, of es "((Fin f, Fin w), tj)"] 2
    obtain xs e ys where "es = xs @ e # ys" "joy_msg e = Some ((Fin f, Fin w), tj)" "\<forall>y \<in> set ys. joy_msg y = None"
      by auto
    then have "\<exists>xs ys. es = xs @ Joystick (Fin f) (Fin w) tj # ys \<and> (\<forall>y \<in> set ys. joy_msg y = None)"
      by (auto simp: joy_msg_Some)
    moreover have "\<bar>x\<bar> \<le> 10000 \<and> \<bar>y\<bar> \<le> 10000" using to_wire_bounds [OF 2(4)] by (simp add: AXIS_LIMIT_def abs_le_iff)
    ultimately show ?thesis using 2 to_wire_accuracy [OF 2(4)] by simp blast
  qed
qed

definition sample_bridge :: bridge_state where
  "sample_bridge = \<lparr>b_settings = \<lparr>joystick_timeout_s = 1/2, send_period_s = 1/20\<rparr>, b_joy = None, b_joy_time = None,
     b_boot_token = None, b_config_valid = None, b_config_generation = None, b_last_status = None,
     b_last_uptime_ms = None, b_last_sent = None, b_seq = 0\<rparr>"

lemma sample_bridge_init:
  "bridge_init \<lparr>joystick_timeout_s = PFloat (Fin (1/2)), send_period_s = PFloat (Fin (1/20))\<rparr> = Inr sample_bridge"
  by (simp add: bridge_init_def bridge_validate_def sample_bridge_def)

theorem bridge_sends_only_fresh_input_witness:
  "\<exists>c. bridge_command (run bridge_step sample_bridge [Joystick (Fin (1/2)) (Fin 0) 3]) (31/10) True = Inr c \<and> cd_send c"
  using bridge_sends_only_fresh_input [OF sample_bridge_init, of "[Joystick (Fin (1/2)) (Fin 0) 3]" "31/10" True]
  by blast

text \<open>The sequence numbers the bridge takes are accepted by the firmware's comparison: each one is newer
  than the one before, also over the wrap-around, and none of them is zero.\<close>

theorem bridge_seq_always_newer:
  assumes "bridge_init raw = Inr s"
  shows "newer_sequence (snd (next_seq (run bridge_step s es))) (b_seq (run bridge_step s es))
     \<and> 0 < snd (next_seq (run bridge_step s es)) \<and> snd (next_seq (run bridge_step s es)) < 2 ^ 32
     \<and> b_seq (fst (next_seq (run bridge_step s es))) = snd (next_seq (run bridge_step s es))"
proof -
  let ?q = "b_seq (run bridge_step s es)"
  from assms have inv: "bridge_inv (run bridge_step s es)" by (intro bridge.inv_reachable) blast
  have nxt: "snd (next_seq (run bridge_step s es)) = u32 (?q + (if ?q = 2 ^ 32 - 1 then 2 else 1))"
  proof (cases "?q = 2 ^ 32 - 1")
    case True
    then show ?thesis by (simp add: next_seq_def Let_def u32_def)
  next
    case False
    with inv have "u32 (?q + 1) = ?q + 1" "?q + 1 \<noteq> 0" by (simp_all add: bridge_inv_def u32_def)
    with False show ?thesis by (simp add: next_seq_def Let_def)
  qed
  have "newer_sequence (u32 (?q + (if ?q = 2 ^ 32 - 1 then 2 else 1))) ?q"
    by (rule newer_sequence_advance) simp_all
  moreover have "0 < snd (next_seq (run bridge_step s es)) \<and> snd (next_seq (run bridge_step s es)) < 2 ^ 32"
    using u32_bounds [of "?q + 1"] by (auto simp: next_seq_def Let_def)
  moreover have "b_seq (fst (next_seq (run bridge_step s es))) = snd (next_seq (run bridge_step s es))"
    by (simp add: next_seq_def Let_def)
  ultimately show ?thesis by (simp only: nxt)
qed

theorem bridge_seq_always_newer_witness:
  "newer_sequence (snd (next_seq sample_bridge)) 0 \<and> snd (next_seq sample_bridge) = 1"
  using bridge_seq_always_newer [OF sample_bridge_init, of "[]"]
  by (simp add: sample_bridge_def next_seq_def u32_def)

section \<open>The link counter over time\<close>

text \<open>Events come with the time since the event before (negative delays do not occur).\<close>

datatype link_event = Mode_is int | Link_is link

fun link_tick :: "link_state \<times> real \<Rightarrow> real \<times> link_event \<Rightarrow> link_state \<times> real" where
  "link_tick (s, now) (d, Mode_is m) = (fst (link_on_mode m (now + max 0 d) s), now + max 0 d)"
| "link_tick (s, now) (d, Link_is l) = (fst (link_on_link l (now + max 0 d) s), now + max 0 d)"

definition link_inv :: "link_state \<times> real \<Rightarrow> bool" where
  "link_inv p \<longleftrightarrow> (case p of (s, now) \<Rightarrow>
     (l_down_since s \<noteq> None \<longleftrightarrow> l_session s \<noteq> None \<and> l_link s = Link_down)
   \<and> (l_session s \<noteq> None \<longleftrightarrow> l_started_at s \<noteq> None)
   \<and> 0 \<le> l_reconnects s \<and> 0 \<le> l_disconnects s \<and> 0 \<le> l_revision s
   \<and> (l_session s \<noteq> None \<longrightarrow> (l_last_down_at s = None \<longleftrightarrow> l_disconnects s = 0)
        \<and> l_reconnects s + (if l_link s = Link_down \<and> l_last_down_at s \<noteq> None then 1 else 0) \<le> l_disconnects s)
   \<and> (\<forall>t0. l_started_at s = Some t0 \<longrightarrow> t0 \<le> now \<and> 0 \<le> l_down_total s
        \<and> (case l_down_since s of None \<Rightarrow> l_down_total s \<le> now - t0
           | Some d \<Rightarrow> d \<le> now \<and> l_down_total s \<le> d - t0)))"

lemmas link_defs = link_on_mode_def link_on_link_def outage_def Let_def

lemma link_inv_mode:
  assumes "link_inv (s, now)" "now \<le> t" shows "link_inv (fst (link_on_mode m t s), t)"
  using assms by (auto simp: link_inv_def link_defs split: option.splits)

lemma link_inv_link:
  assumes "link_inv (s, now)" "now \<le> t" shows "link_inv (fst (link_on_link l t s), t)"
  using assms
  by (cases "l_link s"; cases l; cases "l_session s"; cases "l_down_since s"; cases "l_last_down_at s")
     (auto simp: link_inv_def link_defs)

interpretation link: event_system "\<lambda>p. fst p = link_init" link_tick link_inv
proof
  show "link_inv p" if "fst p = link_init" for p
    using that by (auto simp: link_inv_def link_init_def)
  show "link_inv (link_tick p e)" if "link_inv p" for p e
    using that link_inv_mode link_inv_link
    by (cases p; cases e; cases "snd e") auto
qed

lemma link_status_outage:
  assumes "link_inv (s, now)" "l_started_at s = Some t0"
  shows "0 \<le> l_down_total s + outage s now \<and> l_down_total s + outage s now \<le> now - t0"
  using assms by (auto simp: link_inv_def outage_def split: option.splits)

text \<open>In a session the reported reconnects never exceed the disconnects, the current outage is
  reported exactly while the link is down, and the total outage is between zero and the length of
  the session, rounded; outside a session no counts are reported.\<close>

theorem link_counts_consistent:
  assumes "run link_tick (link_init, t0) es = (s, now)"
  shows "if l_session s = None
     then lr_disconnects (link_status s now) = None \<and> lr_reconnects (link_status s now) = None
        \<and> lr_down_total_s (link_status s now) = None \<and> lr_started_at (link_status s now) = None
     else (\<exists>d r b total. lr_disconnects (link_status s now) = Some d \<and> lr_reconnects (link_status s now) = Some r
        \<and> 0 \<le> r \<and> r \<le> d \<and> (lr_down_since (link_status s now) \<noteq> None \<longleftrightarrow> l_link s = Link_down)
        \<and> lr_started_at (link_status s now) = Some b \<and> 0 \<le> total \<and> total \<le> now - b
        \<and> lr_down_total_s (link_status s now) = Some (round3 total))"
proof -
  from assms have inv: "link_inv (s, now)" using link.inv_reachable [of "(link_init, t0)" es] by simp
  show ?thesis
  proof (cases "l_session s")
    case None
    with inv show ?thesis by (simp add: link_status_def link_inv_def)
  next
    case (Some k)
    with inv obtain b where b: "l_started_at s = Some b" by (auto simp: link_inv_def)
    with link_status_outage [OF inv b] Some inv show ?thesis
      by (simp add: link_status_def Let_def link_inv_def split: if_splits) blast+
  qed
qed

theorem link_counts_consistent_witness:
  "lr_disconnects (link_status (fst (run link_tick (link_init, 0)
       [(1, Link_is Link_up), (1, Mode_is 3), (1, Link_is Link_down), (2, Link_is Link_up)])) 5) = Some 1
   \<and> lr_reconnects (link_status (fst (run link_tick (link_init, 0)
       [(1, Link_is Link_up), (1, Mode_is 3), (1, Link_is Link_down), (2, Link_is Link_up)])) 5) = Some 1"
proof -
  let ?es = "[(1, Link_is Link_up), (1, Mode_is 3), (1, Link_is Link_down), (2, Link_is Link_up)]"
  have "run link_tick (link_init, 0) ?es = (fst (run link_tick (link_init, 0) ?es), 5)" by simp
  from link_counts_consistent [OF this] show ?thesis
    by (simp add: link_defs link_init_def link_status_def MODE_AUTONOMY_def MODE_MAPPING_def MODE_PAUSE_def)
qed

end
