(* ===== verification/Vehicle_Nodes.thy ===== *)
theory Vehicle_Nodes
  imports Vehicle_Core
begin

text \<open>
  The two lifecycle nodes of the vehicle output: \<^verbatim>\<open>gouda_core/motion_controller_node.py\<close> (ND-11, \<open>mc_*\<close>)
  around the motion core, and \<^verbatim>\<open>gouda_core/vehicle_bridge_node.py\<close> (ND-12, \<open>vb_*\<close>) around the bridge core,
  with the serial transport and its reopening after the USB link was lost.

  The lifecycle library calls a handler only in the state it belongs to; it is a parameter that is
  written out as the guards of the two step functions.  What the port does with a write is the
  parameter \<open>w_port\<close> (the outcome of the \<open>n\<close>-th write).  The recorded decisions are their event names.
\<close>

section \<open>Lifecycle\<close>

datatype node_state = Unconfigured | Inactive_state | Active_state | Finalized

section \<open>Motion controller\<close>

record controller =
  mc_state :: node_state
  mc_core :: "motion_state option"
  mc_period :: "real option"
  mc_timer :: bool
  mc_last_reason :: "(out_reason \<times> string \<times> bool) option"
  mc_compensation :: compensation
  mc_joy :: "(real \<times> real) list" \<comment> \<open>published axes, newest first\<close>
  mc_log :: "string list"
  mc_raised :: bool

definition new_controller :: controller where
  "new_controller = \<lparr>mc_state = Unconfigured, mc_core = None, mc_period = None, mc_timer = False, mc_last_reason = None,
     mc_compensation = NO_COMPENSATION, mc_joy = [], mc_log = [], mc_raised = False\<rparr>"

definition mc_decision :: "string \<Rightarrow> controller \<Rightarrow> controller" where
  "mc_decision e c = c\<lparr>mc_log := e # mc_log c\<rparr>"

text \<open>The parameters as read by \<^verbatim>\<open>optional_double\<close>; a missing one refuses the configuration.\<close>

record controller_values =
  v_cmd_vel_timeout :: "xfloat option"
  v_max_linear :: "xfloat option"
  v_max_angular :: "xfloat option"
  v_period :: "xfloat option"
  v_hold_timeout :: "xfloat option"
  v_max_reverse :: "xfloat option"

definition mc_on_configure :: "controller_values \<Rightarrow> controller \<Rightarrow> controller" where
  "mc_on_configure v c =
     (case (v_cmd_vel_timeout v, v_max_linear v, v_max_angular v, v_period v, v_hold_timeout v, v_max_reverse v) of
        (Some a, Some b, Some d, Some p, Some h, Some r) \<Rightarrow>
          (case motion_init \<lparr>cmd_vel_timeout_s = PFloat a, max_linear_speed_mps = PFloat b, max_angular_speed_radps = PFloat d,
               motion_hold_timeout_s = PFloat h, max_reverse_speed_mps = PFloat r\<rparr> of
             Inl _ \<Rightarrow> mc_decision ''configure_refused'' c
           | Inr core \<Rightarrow> mc_decision ''settings'' (c\<lparr>mc_core := Some (fst (set_compensation (mc_compensation c) core)),
               mc_period := Some (fin_val p), mc_state := Inactive_state\<rparr>))
      | _ \<Rightarrow> mc_decision ''configure_refused'' c)"

definition mc_on_activate :: "controller \<Rightarrow> controller" where
  "mc_on_activate c = mc_decision ''activated'' (c\<lparr>mc_timer := True, mc_state := Active_state\<rparr>)"

definition mc_on_deactivate :: "controller \<Rightarrow> controller" where
  "mc_on_deactivate c = mc_decision ''deactivated'' (c\<lparr>mc_timer := False, mc_state := Inactive_state\<rparr>)"

definition mc_on_cleanup :: "controller \<Rightarrow> controller" where
  "mc_on_cleanup c = c\<lparr>mc_core := None, mc_state := Unconfigured\<rparr>"

definition mc_on_shutdown :: "controller \<Rightarrow> controller" where
  "mc_on_shutdown c = c\<lparr>mc_timer := False, mc_state := Finalized\<rparr>"

text \<open>\<^verbatim>\<open>compensation_from_msg\<close>: a value that is not finite is not set.\<close>

definition msg_value :: "xfloat \<Rightarrow> pyval" where
  "msg_value x = (if isfinite x then PFloat x else PNone)"

record compensation_msg =
  cm_forward :: "xfloat \<times> xfloat"
  cm_reverse :: "xfloat \<times> xfloat"
  cm_turn :: "xfloat \<times> xfloat"
  cm_revision :: int

definition compensation_from_msg :: "compensation_msg \<Rightarrow> compensation" where
  "compensation_from_msg m = \<lparr>forward_min = msg_value (fst (cm_forward m)), forward_threshold = msg_value (snd (cm_forward m)),
     reverse_min = msg_value (fst (cm_reverse m)), reverse_threshold = msg_value (snd (cm_reverse m)),
     turn_min = msg_value (fst (cm_turn m)), turn_threshold = msg_value (snd (cm_turn m)), comp_revision = cm_revision m\<rparr>"

definition mc_on_compensation :: "compensation_msg \<Rightarrow> controller \<Rightarrow> controller" where
  "mc_on_compensation m c =
     (let k = compensation_from_msg m in
      if problems k \<noteq> [] then mc_decision ''compensation_refused'' c
      else mc_decision ''compensation_settings''
        (c\<lparr>mc_compensation := k, mc_core := map_option (\<lambda>core. fst (set_compensation k core)) (mc_core c)\<rparr>))"

definition mc_publish :: "real \<Rightarrow> controller \<Rightarrow> controller" where
  "mc_publish t c = (case mc_core c of
     None \<Rightarrow> c
   | Some core \<Rightarrow> (case motion_output core t of
         Inl _ \<Rightarrow> c\<lparr>mc_raised := True\<rparr>
       | Inr out \<Rightarrow>
           let c = c\<lparr>mc_joy := (out_forward out, out_turn out) # mc_joy c\<rparr>;
               reason = (out_reason out, out_hold_reason out, out_neutral out)
           in if mc_last_reason c \<noteq> Some reason
              then mc_decision (if out_neutral out then ''output_neutral'' else ''output_drive'') (c\<lparr>mc_last_reason := Some reason\<rparr>)
              else c))"

datatype controller_event =
    Mc_configure controller_values
  | Mc_activate
  | Mc_deactivate
  | Mc_cleanup
  | Mc_shutdown
  | Mc_cmd_vel xfloat xfloat real
  | Mc_hold bool string int real
  | Mc_compensation compensation_msg
  | Mc_timer real

fun controller_step :: "controller \<Rightarrow> controller_event \<Rightarrow> controller" where
  "controller_step c (Mc_configure v) = (if mc_state c = Unconfigured then mc_on_configure v c else c)"
| "controller_step c Mc_activate = (if mc_state c = Inactive_state then mc_on_activate c else c)"
| "controller_step c Mc_deactivate = (if mc_state c = Active_state then mc_on_deactivate c else c)"
| "controller_step c Mc_cleanup = (if mc_state c = Inactive_state then mc_on_cleanup c else c)"
| "controller_step c Mc_shutdown = (if mc_state c = Finalized then c else mc_on_shutdown c)"
| "controller_step c (Mc_cmd_vel vx wz t) = c\<lparr>mc_core := map_option (on_cmd_vel vx wz t) (mc_core c)\<rparr>"
| "controller_step c (Mc_hold h r mode t) = c\<lparr>mc_core := map_option (on_motion_hold h r mode t) (mc_core c)\<rparr>"
| "controller_step c (Mc_compensation m) = mc_on_compensation m c"
| "controller_step c (Mc_timer t) = (if mc_timer c then mc_publish t c else c)"

section \<open>Vehicle bridge\<close>

datatype port = No_port | Port_up | Port_down

datatype write_outcome = Written | Buffer_full | Write_failed

record bridge_node =
  vb_state :: node_state
  vb_core :: "bridge_state option"
  vb_port :: port \<comment> \<open>the transport: none, with an open device, waiting for the device\<close>
  vb_parser :: parser
  vb_timer :: bool
  vb_joy_sub :: bool
  vb_link :: link_state
  vb_session_id :: int
  vb_config :: "(string \<times> int) list"
  vb_last_reason :: "command_reason option option" \<comment> \<open>\<open>Some None\<close>: \<^verbatim>\<open>no_token\<close>\<close>
  vb_pending_ack :: "int option"
  vb_sent :: "bytes list" \<comment> \<open>frames the device took, newest first\<close>
  vb_writes :: nat
  vb_status :: "status list"
  vb_log :: "string list"

definition new_bridge_node :: "int \<Rightarrow> bridge_node" where
  "new_bridge_node time = \<lparr>vb_state = Unconfigured, vb_core = None, vb_port = No_port, vb_parser = new_parser, vb_timer = False,
     vb_joy_sub = False, vb_link = link_init, vb_session_id = u32 time, vb_config = [], vb_last_reason = None, vb_pending_ack = None,
     vb_sent = [], vb_writes = 0, vb_status = [], vb_log = []\<rparr>"

definition vb_decision :: "string \<Rightarrow> bridge_node \<Rightarrow> bridge_node" where
  "vb_decision e n = n\<lparr>vb_log := e # vb_log n\<rparr>"

text \<open>\<^verbatim>\<open>_on_link(False, ...)\<close>: the link is counted as down; nothing without a core.\<close>

definition vb_link_down :: "real \<Rightarrow> bridge_node \<Rightarrow> bridge_node" where
  "vb_link_down now n =
     (if vb_core n = None then n
      else vb_decision ''serial_disconnected'' (n\<lparr>vb_link := fst (link_on_link Link_down now (vb_link n))\<rparr>))"

text \<open>\<^verbatim>\<open>SerialTransport._drop\<close> and \<^verbatim>\<open>write\<close>.\<close>

definition transport_drop :: "real \<Rightarrow> bridge_node \<Rightarrow> bridge_node" where
  "transport_drop now n = (if vb_port n = Port_up then vb_link_down now (n\<lparr>vb_port := Port_down\<rparr>) else n)"

definition transport_write :: "(nat \<Rightarrow> write_outcome) \<Rightarrow> real \<Rightarrow> bytes \<Rightarrow> bridge_node \<Rightarrow> bridge_node" where
  "transport_write w now b n =
     (if vb_port n \<noteq> Port_up then n
      else let k = vb_writes n; n = n\<lparr>vb_writes := k + 1\<rparr> in
        (case w k of
           Written \<Rightarrow> n\<lparr>vb_sent := b # vb_sent n\<rparr>
         | Buffer_full \<Rightarrow> vb_decision ''serial_error'' n
         | Write_failed \<Rightarrow> transport_drop now n))"

text \<open>The clock of an event: monotonic milliseconds (masked to 32 bits), monotonic and wall seconds.\<close>

record clock =
  k_ms :: int
  k_mono :: real
  k_wall :: real

text \<open>A frame with the next sequence number; the exception of its encoder, if it raises.\<close>

definition vb_send :: "(nat \<Rightarrow> write_outcome) \<Rightarrow> clock \<Rightarrow> (int \<Rightarrow> bytes result) \<Rightarrow> bridge_node \<Rightarrow> bridge_node \<times> unit result" where
  "vb_send w k enc n = (case vb_core n of
     None \<Rightarrow> (n, Inl AttributeError)
   | Some core \<Rightarrow> let (core, q) = next_seq core; n = n\<lparr>vb_core := Some core\<rparr> in
       (case enc q of
          Inl e \<Rightarrow> (n, Inl e)
        | Inr b \<Rightarrow> (transport_write w (k_wall k) b n, Inr ())))"

definition vb_start_session :: "(nat \<Rightarrow> write_outcome) \<Rightarrow> clock \<Rightarrow> bridge_node \<Rightarrow> bridge_node \<times> unit result" where
  "vb_start_session w k n = (case vb_send w k (\<lambda>q. encode_hello q (u32 (k_ms k)) (vb_session_id n)) n of
     (n, Inl e) \<Rightarrow> (n, Inl e)
   | (n, Inr _) \<Rightarrow> (vb_decision ''hello_sent'' n, Inr ()))"

definition vb_register_config :: "(nat \<Rightarrow> write_outcome) \<Rightarrow> clock \<Rightarrow> bridge_node \<Rightarrow> bridge_node \<times> unit result" where
  "vb_register_config w k n =
     (if vb_config n = [] then (vb_decision ''config_not_registered'' n, Inr ())
      else case vb_core n of
          None \<Rightarrow> (n, Inl AttributeError)
        | Some core \<Rightarrow>
            (case vb_send w k (\<lambda>q. case b_boot_token core of None \<Rightarrow> Inl TypeError
                | Some token \<Rightarrow> encode_set_config q (u32 (k_ms k)) token (map (\<lambda>(s, i). (s, PInt i)) (vb_config n))) n of
               (n, Inl e) \<Rightarrow> (n, Inl e)
             | (n, Inr _) \<Rightarrow> (vb_decision ''config_sent'' (n\<lparr>vb_pending_ack := Some SET_CONFIG\<rparr>), Inr ())))"

definition vb_on_link_up :: "(nat \<Rightarrow> write_outcome) \<Rightarrow> clock \<Rightarrow> bridge_node \<Rightarrow> bridge_node" where
  "vb_on_link_up w k n =
     (if vb_core n = None then n
      else fst (vb_start_session w k (vb_decision ''serial_reconnected''
        (n\<lparr>vb_link := fst (link_on_link Link_up (k_wall k) (vb_link n)), vb_parser := new_parser\<rparr>))))"

section \<open>Bridge: lifecycle\<close>

record bridge_values =
  bv_port :: string
  bv_joystick_timeout :: "xfloat option"
  bv_send_period :: "xfloat option"
  bv_config :: "(string \<times> int) list result" \<comment> \<open>what \<^verbatim>\<open>load_firmware_config\<close> gives, or raises\<close>
  bv_open :: bool \<comment> \<open>the device opens\<close>

definition set_link :: "link \<Rightarrow> real \<Rightarrow> bridge_node \<Rightarrow> bridge_node" where
  "set_link l now n = n\<lparr>vb_link := fst (link_on_link l now (vb_link n))\<rparr>"

definition vb_on_configure :: "(nat \<Rightarrow> write_outcome) \<Rightarrow> clock \<Rightarrow> bridge_values \<Rightarrow> bridge_node \<Rightarrow> bridge_node" where
  "vb_on_configure w k v n =
     (case (bv_joystick_timeout v, bv_send_period v) of
        (Some a, Some p) \<Rightarrow>
          if bv_port v = '''' then vb_decision ''configure_refused'' n
          else (case (bridge_init \<lparr>joystick_timeout_s = PFloat a, send_period_s = PFloat p\<rparr>, bv_config v) of
              (Inr core, Inr cfg) \<Rightarrow>
                if bv_open v
                then fst (vb_start_session w k (set_link Link_up (k_wall k) (vb_decision ''settings''
                  (n\<lparr>vb_core := Some core, vb_config := cfg, vb_port := Port_up, vb_joy_sub := True, vb_state := Inactive_state\<rparr>))))
                else vb_decision ''configure_refused'' (n\<lparr>vb_config := cfg, vb_core := None\<rparr>)
            | _ \<Rightarrow> vb_decision ''configure_refused'' (n\<lparr>vb_core := None\<rparr>))
      | _ \<Rightarrow> vb_decision ''configure_refused'' n)"

definition vb_on_activate :: "bridge_node \<Rightarrow> bridge_node" where
  "vb_on_activate n = vb_decision ''activated'' (n\<lparr>vb_timer := True, vb_state := Active_state\<rparr>)"

definition vb_on_deactivate :: "bridge_node \<Rightarrow> bridge_node" where
  "vb_on_deactivate n = vb_decision ''deactivated'' (n\<lparr>vb_timer := False, vb_last_reason := None, vb_state := Inactive_state\<rparr>)"

definition vb_on_cleanup :: "real \<Rightarrow> bridge_node \<Rightarrow> bridge_node" where
  "vb_on_cleanup now n =
     set_link Link_not_open now (n\<lparr>vb_joy_sub := False, vb_port := No_port, vb_core := None, vb_state := Unconfigured\<rparr>)"

definition vb_on_shutdown :: "bridge_node \<Rightarrow> bridge_node" where
  "vb_on_shutdown n = n\<lparr>vb_timer := False, vb_port := No_port, vb_state := Finalized\<rparr>"

section \<open>Bridge: frames from the ESP32\<close>

definition vb_handle :: "(nat \<Rightarrow> write_outcome) \<Rightarrow> clock \<Rightarrow> frame \<Rightarrow> bridge_node \<Rightarrow> bridge_node \<times> unit result" where
  "vb_handle w k f n = (case vb_core n of
     None \<Rightarrow> (n, Inl AttributeError)
   | Some core \<Rightarrow>
       if fr_kind f = HELLO_REPLY then
         (case decode_hello_reply (fr_payload f) of
            Inl e \<Rightarrow> (n, Inl e)
          | Inr r \<Rightarrow> let (core, changed) = on_hello_reply r core; n = vb_decision ''hello_reply'' (n\<lparr>vb_core := Some core\<rparr>) in
              if changed \<or> \<not> h_config_valid r then vb_register_config w k n else (n, Inr ()))
       else if fr_kind f = STATUS then
         (case decode_status (fr_payload f) of
            Inl e \<Rightarrow> (n, Inl e)
          | Inr s \<Rightarrow> let (core, rebooted) = on_status s core; n = n\<lparr>vb_core := Some core\<rparr> in
              (case (if rebooted then vb_start_session w k (vb_decision ''esp32_rebooted'' n) else (n, Inr ())) of
                 (n, Inl e) \<Rightarrow> (n, Inl e)
               | (n, Inr _) \<Rightarrow> (n\<lparr>vb_status := s # vb_status n\<rparr>, Inr ())))
       else if fr_kind f = EVENT then
         (case decode_event (fr_payload f) of
            Inl e \<Rightarrow> (n, Inl e)
          | Inr e \<Rightarrow> let n = vb_decision ''esp32_event'' n in if e_code e = 0 then vb_start_session w k n else (n, Inr ()))
       else if fr_kind f = ACK then
         (case decode_ack (fr_payload f) of Inl e \<Rightarrow> (n, Inl e) | Inr a \<Rightarrow> (vb_decision ''esp32_ack'' n, Inr ()))
       else if fr_kind f = CONFIG then
         (case decode_config (fr_payload f) of Inl e \<Rightarrow> (n, Inl e) | Inr c \<Rightarrow> (vb_decision ''esp32_config'' n, Inr ()))
       else (n, Inr ()))"

definition vb_frame :: "(nat \<Rightarrow> write_outcome) \<Rightarrow> clock \<Rightarrow> bridge_node \<Rightarrow> frame \<Rightarrow> bridge_node" where
  "vb_frame w k n f = (case vb_handle w k f n of (n, Inl _) \<Rightarrow> vb_decision ''frame_decode_failed'' n | (n, Inr _) \<Rightarrow> n)"

definition vb_on_bytes :: "(nat \<Rightarrow> write_outcome) \<Rightarrow> clock \<Rightarrow> bytes \<Rightarrow> bridge_node \<Rightarrow> bridge_node" where
  "vb_on_bytes w k data n =
     (if vb_core n = None then n
      else let (p, frames) = feed (vb_parser n) data in foldl (vb_frame w k) (n\<lparr>vb_parser := p\<rparr>) frames)"

section \<open>Bridge: joystick and COMMAND\<close>

definition vb_on_joy :: "real \<Rightarrow> xfloat list \<Rightarrow> bridge_node \<Rightarrow> bridge_node" where
  "vb_on_joy since axes n =
     (if vb_joy_sub n \<and> 2 \<le> length axes then n\<lparr>vb_core := map_option (on_joystick (axes ! 0) (axes ! 1) since) (vb_core n)\<rparr> else n)"

definition vb_send_command :: "(nat \<Rightarrow> write_outcome) \<Rightarrow> clock \<Rightarrow> bridge_node \<Rightarrow> bridge_node \<times> unit result" where
  "vb_send_command w k n = (case vb_core n of
     None \<Rightarrow> (n, Inr ())
   | Some core \<Rightarrow>
       if vb_port n = No_port then (n, Inr ())
       else (case bridge_command core (k_mono k) True of
          Inl e \<Rightarrow> (n, Inl e)
        | Inr d \<Rightarrow>
            if \<not> cd_send d then (n, Inr ())
            else (case b_boot_token core of
                None \<Rightarrow>
                  if vb_last_reason n \<noteq> Some None
                  then vb_start_session w k (vb_decision ''command_not_sent'' (n\<lparr>vb_last_reason := Some None\<rparr>))
                  else (n, Inr ())
              | Some token \<Rightarrow>
                  (case vb_send w k (\<lambda>q. encode_command q (u32 (k_ms k)) token (cd_x d) (cd_y d) (cd_flags d)) n of
                     (n, Inl e) \<Rightarrow> (n, Inl e)
                   | (n, Inr _) \<Rightarrow>
                       (if vb_last_reason n \<noteq> Some (Some (cd_reason d))
                        then vb_decision ''command_output'' (n\<lparr>vb_last_reason := Some (Some (cd_reason d))\<rparr>) else n, Inr ())))))"

section \<open>Bridge: events\<close>

datatype bridge_node_event =
    Vb_configure bridge_values
  | Vb_activate
  | Vb_deactivate
  | Vb_cleanup
  | Vb_shutdown
  | Vb_mode int
  | Vb_read_failed
  | Vb_device bool \<comment> \<open>a device event; whether the port opens\<close>
  | Vb_bytes bytes
  | Vb_joy "xfloat list"
  | Vb_timer

definition vb_on_mode :: "real \<Rightarrow> int \<Rightarrow> bridge_node \<Rightarrow> bridge_node" where
  "vb_on_mode now mode n = (case link_on_mode mode now (vb_link n) of
     (l, None) \<Rightarrow> n\<lparr>vb_link := l\<rparr>
   | (l, Some (Session_started kind)) \<Rightarrow> vb_decision ''link_count_started'' (n\<lparr>vb_link := l\<rparr>)
   | (l, Some (Session_ended s)) \<Rightarrow> vb_decision ''link_count_ended'' (n\<lparr>vb_link := l\<rparr>))"

definition vb_device_event :: "(nat \<Rightarrow> write_outcome) \<Rightarrow> clock \<Rightarrow> bool \<Rightarrow> bridge_node \<Rightarrow> bridge_node" where
  "vb_device_event w k opens n =
     (if vb_port n \<noteq> Port_down then n
      else if opens then vb_on_link_up w k (n\<lparr>vb_port := Port_up\<rparr>) else vb_decision ''serial_error'' n)"

fun bridge_node_step :: "(nat \<Rightarrow> write_outcome) \<Rightarrow> bridge_node \<Rightarrow> clock \<times> bridge_node_event \<Rightarrow> bridge_node" where
  "bridge_node_step w n (k, Vb_configure v) = (if vb_state n = Unconfigured then vb_on_configure w k v n else n)"
| "bridge_node_step w n (k, Vb_activate) = (if vb_state n = Inactive_state then vb_on_activate n else n)"
| "bridge_node_step w n (k, Vb_deactivate) = (if vb_state n = Active_state then vb_on_deactivate n else n)"
| "bridge_node_step w n (k, Vb_cleanup) = (if vb_state n = Inactive_state then vb_on_cleanup (k_wall k) n else n)"
| "bridge_node_step w n (k, Vb_shutdown) = (if vb_state n = Finalized then n else vb_on_shutdown n)"
| "bridge_node_step w n (k, Vb_mode mode) = vb_on_mode (k_wall k) mode n"
| "bridge_node_step w n (k, Vb_read_failed) = transport_drop (k_wall k) n"
| "bridge_node_step w n (k, Vb_device opens) = vb_device_event w k opens n"
| "bridge_node_step w n (k, Vb_bytes data) = (if vb_port n = Port_up then vb_on_bytes w k data n else n)"
| "bridge_node_step w n (k, Vb_joy axes) = vb_on_joy (k_mono k) axes n"
| "bridge_node_step w n (k, Vb_timer) = (if vb_timer n then fst (vb_send_command w k n) else n)"


section \<open>What the bridge writes\<close>

definition adds :: "(bytes \<Rightarrow> bool) \<Rightarrow> bridge_node \<Rightarrow> bridge_node \<Rightarrow> bool" where
  "adds P n n' \<longleftrightarrow> (\<exists>new. vb_sent n' = new @ vb_sent n \<and> (\<forall>b \<in> set new. P b))"

lemma adds_same [simp]: "vb_sent n' = vb_sent n \<Longrightarrow> adds P n n'"
  by (simp add: adds_def)





lemma sent_simps [simp]:
  "vb_sent (vb_decision e n) = vb_sent n" "vb_sent (vb_link_down now n) = vb_sent n" "vb_sent (transport_drop now n) = vb_sent n"
  "vb_sent (set_link l now n) = vb_sent n"
  by (simp_all add: vb_decision_def vb_link_down_def transport_drop_def set_link_def)























lemma port_decision [simp]: "vb_port (vb_decision e n) = vb_port n"
  by (simp add: vb_decision_def)


section \<open>The timer runs only in the active state\<close>

definition ctrl :: "bridge_node \<Rightarrow> node_state \<times> bool" where
  "ctrl n = (vb_state n, vb_timer n)"

lemma ctrl_simps [simp]:
  "ctrl (vb_decision e n) = ctrl n" "ctrl (vb_link_down now n) = ctrl n" "ctrl (transport_drop now n) = ctrl n"
  "ctrl (set_link l now n) = ctrl n" "ctrl (n\<lparr>vb_core := c\<rparr>) = ctrl n" "ctrl (n\<lparr>vb_parser := p\<rparr>) = ctrl n"
  "ctrl (n\<lparr>vb_status := st\<rparr>) = ctrl n" "ctrl (n\<lparr>vb_link := l'\<rparr>) = ctrl n" "ctrl (n\<lparr>vb_port := pt\<rparr>) = ctrl n"
  "ctrl (n\<lparr>vb_config := cf\<rparr>) = ctrl n" "ctrl (n\<lparr>vb_joy_sub := j\<rparr>) = ctrl n"
  "ctrl (n\<lparr>vb_state := ns\<rparr>) = (ns, snd (ctrl n))" "ctrl (n\<lparr>vb_timer := tm\<rparr>) = (fst (ctrl n), tm)"
  "ctrl (n\<lparr>vb_pending_ack := a\<rparr>) = ctrl n" "ctrl (n\<lparr>vb_last_reason := r\<rparr>) = ctrl n" "ctrl (n\<lparr>vb_writes := i\<rparr>) = ctrl n"
  by (simp_all add: ctrl_def vb_decision_def vb_link_down_def transport_drop_def set_link_def)

lemma ctrl_write [simp]: "ctrl (transport_write w now b n) = ctrl n"
  by (simp add: transport_write_def Let_def split: write_outcome.split) (simp add: ctrl_def)

lemma ctrl_send: "vb_send w k enc n = (n', r) \<Longrightarrow> ctrl n' = ctrl n"
  by (auto simp: vb_send_def Let_def case_prod_beta split: option.split_asm sum.split_asm)

lemma ctrl_start: "vb_start_session w k n = (n', r) \<Longrightarrow> ctrl n' = ctrl n"
  by (auto simp: vb_start_session_def dest: ctrl_send split: prod.split_asm sum.split_asm)

lemma ctrl_register: "vb_register_config w k n = (n', r) \<Longrightarrow> ctrl n' = ctrl n"
  by (auto simp: vb_register_config_def dest: ctrl_send split: if_split_asm option.split_asm prod.split_asm sum.split_asm)

lemma ctrl_handle:
  assumes "vb_handle w k f n = (n', r)"
  shows "ctrl n' = ctrl n"
proof (cases "vb_core n")
  case None
  with assms show ?thesis by (simp add: vb_handle_def)
next
  case (Some core)
  have status: "ctrl n' = ctrl m" if "(case vb_start_session w k m of
     (n, Inl e) \<Rightarrow> (n, Inl e) | (n, Inr _) \<Rightarrow> (n\<lparr>vb_status := s # vb_status n\<rparr>, Inr ())) = (n', r)" for m s
    using that by (auto dest: ctrl_start split: prod.split_asm sum.split_asm)
  from assms show ?thesis
    unfolding vb_handle_def Some option.case
    by (auto simp: on_hello_reply_def on_status_def Let_def dest!: ctrl_register ctrl_start status
        split: if_split_asm sum.split_asm)
qed

lemma ctrl_bytes [simp]: "ctrl (vb_on_bytes w k data n) = ctrl n"
proof -
  have "ctrl (vb_frame w k n f) = ctrl n" for n f
    using ctrl_handle by (auto simp: vb_frame_def split: prod.split sum.split)
  then have "ctrl (foldl (vb_frame w k) n frames) = ctrl n" for n frames
    by (induction frames arbitrary: n) simp_all
  then show ?thesis by (simp add: vb_on_bytes_def case_prod_beta)
qed

lemma ctrl_device [simp]: "ctrl (vb_device_event w k opens n) = ctrl n"
  by (auto simp: vb_device_event_def vb_on_link_up_def fst_def dest: ctrl_start split: prod.split)

lemma ctrl_command [simp]: "ctrl (fst (vb_send_command w k n)) = ctrl n"
proof -
  obtain n' r where r: "vb_send_command w k n = (n', r)" by fastforce
  then have "ctrl n' = ctrl n"
    by (auto simp: vb_send_command_def dest!: ctrl_start ctrl_send
        split: option.split_asm if_split_asm sum.split_asm prod.split_asm)
  with r show ?thesis by simp
qed






definition sample_payload :: bytes where
  "sample_payload = le_bytes 4 7 @ le_bytes 4 9 @ [1, 0] @ le_bytes 2 4"

definition sample_reply :: bytes where
  "sample_reply = (case encode_frame HELLO_REPLY 1 0 sample_payload of Inl e \<Rightarrow> [] | Inr b \<Rightarrow> b)"

definition sample_values :: bridge_values where
  "sample_values = \<lparr>bv_port = ''p'', bv_joystick_timeout = Some (Fin 1), bv_send_period = Some (Fin 1), bv_config = Inr [], bv_open = True\<rparr>"

definition sample_clock :: clock where
  "sample_clock = \<lparr>k_ms = 5, k_mono = 1, k_wall = 1\<rparr>"

definition sample_before :: "(clock \<times> bridge_node_event) list" where
  "sample_before = map (\<lambda>ev. (sample_clock, ev)) [Vb_configure sample_values, Vb_bytes sample_reply, Vb_activate, Vb_joy [Fin 1, Fin 0]]"

definition sample_active :: bridge_node where
  "sample_active = run (bridge_node_step (\<lambda>_. Written)) (new_bridge_node 3) sample_before"

lemma send_written:
  "vb_core n = Some core \<Longrightarrow> vb_port n = Port_up \<Longrightarrow> next_seq core = (core', q) \<Longrightarrow> enc q = Inr b \<Longrightarrow>
     vb_send (\<lambda>_. Written) k enc n = (n\<lparr>vb_core := Some core', vb_writes := vb_writes n + 1, vb_sent := b # vb_sent n\<rparr>, Inr ())"
  by (simp add: vb_send_def transport_write_def Let_def)

lemma next_seq_range: "next_seq core = (core', q) \<Longrightarrow> 0 \<le> q \<and> q < 2 ^ 32"
  by (auto simp: next_seq_def Let_def u32_def split: if_split_asm)

lemma hello_frame: "0 \<le> q \<Longrightarrow> q < 2 ^ 32 \<Longrightarrow> \<exists>b. encode_hello q (u32 ms) sid = Inr b"
  using u32_bounds [of ms] u32_bounds [of sid]
  by (auto simp: encode_hello_def pack_u_def encode_frame_Inr MAX_PAYLOAD_def HELLO_def)

lemma command_frame: "0 \<le> q \<Longrightarrow> q < 2 ^ 32 \<Longrightarrow> \<exists>b. encode_command q (u32 ms) token x y flags = Inr b"
proof -
  assume q: "0 \<le> q" "q < 2 ^ 32"
  have "\<exists>pl. command_payload (u32 token) (clamp_axis x) (clamp_axis y) (flags mod 256) = Inr pl \<and> length pl = 9"
    using u32_bounds [of token] clamp_axis_bounds [of x] clamp_axis_bounds [of y] decode_command_payload(1)
    by (auto simp: command_payload_Inr AXIS_LIMIT_def)
  then show ?thesis
    using q u32_bounds [of ms] by (auto simp: encode_command_def encode_frame_Inr MAX_PAYLOAD_def COMMAND_def)
qed

lemma sample_reply_parsed: "feed new_parser sample_reply = (new_parser,
    [\<lparr>fr_kind = HELLO_REPLY, fr_seq = 1, fr_sender_ms = 0, fr_payload = sample_payload\<rparr>])"
proof -
  have "\<exists>b. encode_frame HELLO_REPLY 1 0 sample_payload = Inr b"
    by (simp add: encode_frame_Inr MAX_PAYLOAD_def HELLO_REPLY_def sample_payload_def)
  then obtain b where b: "encode_frame HELLO_REPLY 1 0 sample_payload = Inr b" ..
  from feed_encoded [OF b] show ?thesis
    unfolding sample_reply_def b sum.case .
qed

lemma sample_reply_decoded: "decode_hello_reply sample_payload =
    Inr \<lparr>h_session_id = 7, h_boot_token = 9, h_config_valid = True, h_config_generation = 0, h_protocol_version = 4\<rparr>"
  by (simp add: decode_hello_reply_def u_at_def le_bytes_eval sample_payload_def)

text \<open>The node after the run of the sample: active, device open, the token and the joystick command known.\<close>

lemma sample_active_state:
  "vb_state sample_active = Active_state \<and> vb_port sample_active = Port_up \<and> vb_timer sample_active
     \<and> (\<exists>core. vb_core sample_active = Some core \<and> b_boot_token core = Some 9 \<and> b_joy core = Some (Fin 1, Fin 0)
          \<and> b_joy_time core = Some 1 \<and> joystick_timeout_s (b_settings core) = 1)"
proof -
  let ?step = "bridge_node_step (\<lambda>_. Written)"
  have "\<exists>core. bridge_init \<lparr>joystick_timeout_s = PFloat (Fin 1), send_period_s = PFloat (Fin 1)\<rparr> = Inr core
      \<and> joystick_timeout_s (b_settings core) = 1 \<and> b_boot_token core = None"
    by (simp add: bridge_init_def bridge_validate_def)
  then obtain core where core: "bridge_init \<lparr>joystick_timeout_s = PFloat (Fin 1), send_period_s = PFloat (Fin 1)\<rparr> = Inr core"
    "joystick_timeout_s (b_settings core) = 1" "b_boot_token core = None" by blast
  obtain core' q where q: "next_seq core = (core', q)" by fastforce
  from q core have core': "joystick_timeout_s (b_settings core') = 1" "b_boot_token core' = None"
    by (auto simp: next_seq_def Let_def)
  from hello_frame next_seq_range [OF q] obtain b where b: "encode_hello q (u32 5) (u32 3) = Inr b" by blast
  define n1 where "n1 = ?step (new_bridge_node 3) (sample_clock, Vb_configure sample_values)"
  have n1: "vb_state n1 = Inactive_state" "vb_port n1 = Port_up" "vb_core n1 = Some core'" "vb_parser n1 = new_parser" "vb_joy_sub n1"
      "vb_config n1 = []"
    unfolding n1_def
    by (simp_all add: new_bridge_node_def vb_on_configure_def sample_values_def sample_clock_def core vb_start_session_def
        set_link_def vb_decision_def send_written q b)
  define n2 where "n2 = ?step n1 (sample_clock, Vb_bytes sample_reply)"
  have n2: "vb_state n2 = Inactive_state" "vb_port n2 = Port_up" "vb_joy_sub n2"
      "\<exists>c. vb_core n2 = Some c \<and> b_boot_token c = Some 9 \<and> joystick_timeout_s (b_settings c) = 1"
    unfolding n2_def
    by (simp_all add: n1 vb_on_bytes_def sample_reply_parsed vb_frame_def vb_handle_def sample_reply_decoded on_hello_reply_def
        vb_register_config_def vb_decision_def core' Let_def split: if_splits)
  have run: "sample_active = ?step (?step n2 (sample_clock, Vb_activate)) (sample_clock, Vb_joy [Fin 1, Fin 0])"
    by (simp add: sample_active_def sample_before_def n2_def n1_def run_def)
  show ?thesis
    unfolding run using n2
    by (auto simp: vb_on_activate_def vb_on_joy_def on_joystick_def vb_decision_def sample_clock_def)
qed


section \<open>The session after the device came back\<close>

lemma next_seq_keeps:
  "next_seq core = (core', q) \<Longrightarrow> b_boot_token core' = b_boot_token core \<and> b_joy core' = b_joy core \<and> b_joy_time core' = b_joy_time core"
  by (auto simp: next_seq_def Let_def)

definition joy_timed :: "bridge_state \<Rightarrow> bool" where
  "joy_timed core \<longleftrightarrow> b_joy core = None \<or> b_joy_time core \<noteq> None"

text \<open>The node is up with a core, a token and possibly more frames sent than before.\<close>

definition resumed :: "bridge_node \<Rightarrow> int option \<Rightarrow> bridge_node \<Rightarrow> bool" where
  "resumed n token n' \<longleftrightarrow> (\<exists>core others. vb_core n' = Some core \<and> joy_timed core \<and> b_boot_token core = token \<and> vb_port n' = Port_up
     \<and> vb_timer n' = vb_timer n \<and> vb_sent n' = others @ vb_sent n)"

lemma register_resumed:
  assumes "vb_core n = Some core" and "vb_port n = Port_up" and "joy_timed core"
  shows "resumed n (b_boot_token core) (fst (vb_register_config (\<lambda>_. Written) k n))"
proof (cases "vb_config n = []")
  case True
  with assms show ?thesis by (auto simp: vb_register_config_def resumed_def vb_decision_def)
next
  case False
  define enc where "enc = (\<lambda>q. case b_boot_token core of None \<Rightarrow> Inl TypeError
      | Some token \<Rightarrow> encode_set_config q (u32 (k_ms k)) token (map (\<lambda>(s, i). (s, PInt i)) (vb_config n)))"
  obtain core' q where q: "next_seq core = (core', q)" by fastforce
  with assms(3) next_seq_keeps [OF q] have core': "joy_timed core'" "b_boot_token core' = b_boot_token core"
    by (auto simp: joy_timed_def)
  have reg: "vb_register_config (\<lambda>_. Written) k n = (case vb_send (\<lambda>_. Written) k enc n of
      (n, Inl e) \<Rightarrow> (n, Inl e) | (n, Inr _) \<Rightarrow> (vb_decision ''config_sent'' (n\<lparr>vb_pending_ack := Some SET_CONFIG\<rparr>), Inr ()))"
    using False assms(1) by (simp add: vb_register_config_def enc_def)
  show ?thesis
  proof (cases "enc q")
    case (Inl e)
    then have "vb_send (\<lambda>_. Written) k enc n = (n\<lparr>vb_core := Some core'\<rparr>, Inl e)"
      using assms q by (simp add: vb_send_def Let_def)
    with core' assms(2) show ?thesis by (simp add: reg resumed_def)
  next
    case (Inr b)
    note sent = send_written [OF assms(1,2) q, of enc b k, OF Inr]
    show ?thesis
      unfolding reg sent using core' assms(2) by (simp add: resumed_def vb_decision_def)
  qed
qed

text \<open>C36. The drive is resumed after the USB link was lost (DEC-176): when the device is back and takes the frames, the
  node reopens it and sends HELLO with its session; when the reply arrives and the timer ticks, a COMMAND
  with the token of this reply is sent, without any operation of a human and whatever was in the parser
  when the link broke.\<close>

theorem link_back_resumes_commands:
  assumes "vb_core n = Some core" and "vb_port n = Port_down" and "vb_timer n" and "joy_timed core"
    and "feed new_parser reply = (p, [f])" and "fr_kind f = HELLO_REPLY" and "decode_hello_reply (fr_payload f) = Inr r"
  shows "\<exists>hello others cmd q q' x y flags.
     vb_sent (run (bridge_node_step (\<lambda>_. Written)) n [(k1, Vb_device True), (k2, Vb_bytes reply), (k3, Vb_timer)]) = cmd # others @ hello # vb_sent n
     \<and> encode_hello q (u32 (k_ms k1)) (vb_session_id n) = Inr hello
     \<and> encode_command q' (u32 (k_ms k3)) (h_boot_token r) x y flags = Inr cmd"
proof -
  let ?step = "bridge_node_step (\<lambda>_. Written)"
  obtain core1 q1 where q1: "next_seq core = (core1, q1)" by fastforce
  from hello_frame next_seq_range [OF q1] obtain hello where hello: "encode_hello q1 (u32 (k_ms k1)) (vb_session_id n) = Inr hello" by blast
  from next_seq_keeps [OF q1] assms(4) have joy1: "joy_timed core1" by (auto simp: joy_timed_def)
  define n1 where "n1 = ?step n (k1, Vb_device True)"
  have n1: "vb_core n1 = Some core1" "vb_port n1 = Port_up" "vb_parser n1 = new_parser" "vb_timer n1" "vb_sent n1 = hello # vb_sent n"
    unfolding n1_def
    by (simp_all add: assms(1-3) vb_device_event_def vb_on_link_up_def vb_start_session_def vb_decision_def send_written q1 hello)
  define core2 where "core2 = fst (on_hello_reply r core1)"
  have core2: "joy_timed core2" "b_boot_token core2 = Some (h_boot_token r)"
    using joy1 by (simp_all add: core2_def on_hello_reply_def joy_timed_def)
  define m where "m = vb_decision ''hello_reply'' (n1\<lparr>vb_parser := p, vb_core := Some core2\<rparr>)"
  have m: "vb_core m = Some core2" "vb_port m = Port_up" "vb_timer m" "vb_sent m = vb_sent n1"
    by (simp_all add: m_def vb_decision_def n1)
  define n2 where "n2 = ?step n1 (k2, Vb_bytes reply)"
  have "n2 = vb_frame (\<lambda>_. Written) k2 (n1\<lparr>vb_parser := p\<rparr>) f"
    unfolding n2_def by (simp add: n1 vb_on_bytes_def assms(5))
  also have "\<dots> = (if snd (on_hello_reply r core1) \<or> \<not> h_config_valid r
      then (case vb_register_config (\<lambda>_. Written) k2 m of (n, Inl _) \<Rightarrow> vb_decision ''frame_decode_failed'' n | (n, Inr _) \<Rightarrow> n) else m)"
    by (simp add: vb_frame_def vb_handle_def n1 assms(6,7) on_hello_reply_def Let_def m_def core2_def)
  finally have n2: "n2 = \<dots>" .
  have "resumed m (b_boot_token core2) n2"
  proof (cases "snd (on_hello_reply r core1) \<or> \<not> h_config_valid r")
    case True
    obtain m' a where m': "vb_register_config (\<lambda>_. Written) k2 m = (m', a)" by fastforce
    have res: "resumed m (b_boot_token core2) m'" using register_resumed [OF m(1,2) core2(1), of k2] m' by simp
    have "n2 = (case a of Inl _ \<Rightarrow> vb_decision ''frame_decode_failed'' m' | Inr _ \<Rightarrow> m')"
      using True n2 m' by (cases a) simp_all
    with res show ?thesis by (cases a) (simp_all add: resumed_def vb_decision_def)
  next
    case False
    with n2 m core2 show ?thesis by (simp add: resumed_def)
  qed
  then obtain core3 others where n2': "vb_core n2 = Some core3" "joy_timed core3" "b_boot_token core3 = Some (h_boot_token r)"
    "vb_port n2 = Port_up" "vb_timer n2" "vb_sent n2 = others @ hello # vb_sent n"
    using core2(2) m n1(5) by (auto simp: resumed_def)
  have "\<exists>d. bridge_command core3 (k_mono k3) True = Inr d \<and> cd_send d"
    using n2'(2) by (auto simp: bridge_command_def joy_timed_def Let_def split: option.split prod.split)
  then obtain d where d: "bridge_command core3 (k_mono k3) True = Inr d" "cd_send d" by blast
  obtain core4 q4 where q4: "next_seq core3 = (core4, q4)" by fastforce
  from command_frame next_seq_range [OF q4] obtain cmd where
    cmd: "encode_command q4 (u32 (k_ms k3)) (h_boot_token r) (cd_x d) (cd_y d) (cd_flags d) = Inr cmd" by blast
  have "vb_sent (?step n2 (k3, Vb_timer)) = cmd # vb_sent n2"
    by (simp add: n2' vb_send_command_def d send_written q4 cmd vb_decision_def)
  then have "vb_sent (run ?step n [(k1, Vb_device True), (k2, Vb_bytes reply), (k3, Vb_timer)]) = cmd # others @ hello # vb_sent n"
    by (simp add: n2'(6) flip: n1_def n2_def del: bridge_node_step.simps)
  with hello cmd show ?thesis by blast
qed

definition sample_unplugged :: bridge_node where
  "sample_unplugged = bridge_node_step (\<lambda>_. Written) sample_active (sample_clock, Vb_read_failed)"

theorem link_back_resumes_commands_witness:
  "\<exists>cmd others hello. vb_sent (run (bridge_node_step (\<lambda>_. Written)) sample_unplugged
       [(sample_clock, Vb_device True), (sample_clock, Vb_bytes sample_reply), (sample_clock, Vb_timer)]) = cmd # others @ hello # vb_sent sample_unplugged
     \<and> vb_port sample_unplugged = Port_down"
proof -
  from sample_active_state obtain core where core: "vb_core sample_active = Some core" "b_joy_time core = Some 1"
    and up: "vb_port sample_active = Port_up" "vb_timer sample_active" by blast
  have down: "vb_core sample_unplugged = Some core" "vb_port sample_unplugged = Port_down" "vb_timer sample_unplugged"
    using core up by (simp_all add: sample_unplugged_def transport_drop_def vb_link_down_def vb_decision_def)
  have "joy_timed core" using core(2) by (simp add: joy_timed_def)
  from link_back_resumes_commands [OF down this sample_reply_parsed] sample_reply_decoded down(2)
  show ?thesis by (simp del: run.simps bridge_node_step.simps) blast
qed

end
