(* ===== verification/Esp32_Sim.thy ===== *)
theory Esp32_Sim
  imports Esp32_Protocol
begin

text \<open>
  \<^verbatim>\<open>gouda_core/esp32_sim.py\<close> (ND-17): the PC-side model of the firmware core.  Configuration check,
  voltage map, Bluetooth and serial inputs, the periodic tick and the arbitration between the
  gamepad and the PC.  Operations that may raise return a result; the nudge loop of the voltage map
  is a partial function (\<open>None\<close>: it does not end).
\<close>

section \<open>Constants and configuration\<close>

definition SRC_NONE :: int where "SRC_NONE = 0"
definition SRC_MANUAL :: int where "SRC_MANUAL = 1"
definition SRC_PC :: int where "SRC_PC = 2"
definition R_CONFIG_INVALID :: int where "R_CONFIG_INVALID = 1"
definition R_BT_DISCONNECTED :: int where "R_BT_DISCONNECTED = 2"
definition R_BT_STALE :: int where "R_BT_STALE = 3"
definition R_WAITING_CENTER :: int where "R_WAITING_CENTER = 4"
definition R_MANUAL_OVERRIDE :: int where "R_MANUAL_OVERRIDE = 5"
definition R_PC_DISABLED :: int where "R_PC_DISABLED = 6"
definition R_PC_STALE :: int where "R_PC_STALE = 7"
definition R_NEUTRAL_RECOVERY_WAIT :: int where "R_NEUTRAL_RECOVERY_WAIT = 8"
definition R_PC_CONTROL :: int where "R_PC_CONTROL = 9"
definition R_MANUAL_NEUTRAL :: int where "R_MANUAL_NEUTRAL = 10"
definition E_BOOT :: int where "E_BOOT = 0"
definition E_CONFIG_LOADED_BUILD :: int where "E_CONFIG_LOADED_BUILD = 2"
definition E_BT_STALE :: int where "E_BT_STALE = 7"
definition E_MANUAL_OVERRIDE_BEGIN :: int where "E_MANUAL_OVERRIDE_BEGIN = 8"
definition E_MANUAL_OVERRIDE_END :: int where "E_MANUAL_OVERRIDE_END = 9"
definition E_PC_DISABLED_STALE :: int where "E_PC_DISABLED_STALE = 11"

type_synonym sim_config = "(string \<times> int) list"

definition cfg_get :: "sim_config \<Rightarrow> string \<Rightarrow> int result" where
  "cfg_get c k = (case map_of c k of None \<Rightarrow> Inl KeyError | Some v \<Rightarrow> Inr v)"

text \<open>A missing key makes the whole check false (the KeyError is caught).\<close>

definition config_valid :: "sim_config \<Rightarrow> bool" where
  "config_valid c =
     (case (map_of c ''dac_min_mv'', map_of c ''dac_neutral_mv'', map_of c ''dac_max_mv'',
            map_of c ''dac_full_scale_mv'', map_of c ''pc_command_watchdog_ms'',
            map_of c ''bt_report_timeout_ms'', map_of c ''manual_deadzone_q10000'') of
        (Some lo, Some n, Some hi, Some fs, Some wd, Some bt, Some dz) \<Rightarrow>
          0 < lo \<and> lo < n \<and> n < hi \<and> hi \<le> fs \<and> wd > 0 \<and> bt > 0 \<and> 0 \<le> dz \<and> dz < AXIS_LIMIT
      | _ \<Rightarrow> False)"

section \<open>Voltage map\<close>

definition inside_circle :: "int \<Rightarrow> int \<Rightarrow> int \<Rightarrow> int \<Rightarrow> bool" where
  "inside_circle x y lo hi =
     (let dx = 2 * x - (lo + hi); dy = 2 * y - (lo + hi); d = hi - lo in dx * dx + dy * dy \<le> d * d)"

text \<open>One turn of the loop that moves a rounded point back inside.\<close>

definition nudge_step :: "int \<Rightarrow> int \<Rightarrow> int \<times> int \<Rightarrow> int \<times> int" where
  "nudge_step lo hi p = (case p of (ox, oy) \<Rightarrow>
     let dx = 2 * ox - (lo + hi); dy = 2 * oy - (lo + hi) in
     if \<bar>dx\<bar> \<ge> \<bar>dy\<bar> then (ox + (if dx > 0 then - 1 else 1), oy)
     else (ox, oy + (if dy > 0 then - 1 else 1)))"

partial_function (option) nudge :: "int \<Rightarrow> int \<Rightarrow> int \<times> int \<Rightarrow> (int \<times> int) option" where
  "nudge lo hi p = (if inside_circle (fst p) (snd p) lo hi then Some p else nudge lo hi (nudge_step lo hi p))"

definition hypot :: "real \<Rightarrow> real \<Rightarrow> real" where
  "hypot x y = sqrt (x * x + y * y)"

definition map_voltage :: "real \<Rightarrow> real \<Rightarrow> int \<Rightarrow> int \<Rightarrow> int \<Rightarrow> (int \<times> int) result" where
  "map_voltage x y neutral lo hi =
     (let mag = hypot x y in
      if mag = 0 then Inr (neutral, neutral)
      else
        let ux = x / mag; uy = y / mag;
            center = of_int (lo + hi) / 2; radius = of_int (hi - lo) / 2; offset = of_int neutral - center;
            dot = offset * (ux + uy);
            distance = - dot + sqrt (max 0 (dot * dot + radius * radius - 2 * offset * offset));
            travel = min mag 1 * distance;
            ox = py_round (of_int neutral + ux * travel); oy = py_round (of_int neutral + uy * travel)
        in (case nudge lo hi (ox, oy) of None \<Rightarrow> Inl NoReturn | Some p \<Rightarrow> Inr p))"

definition dac_code :: "int \<Rightarrow> int \<Rightarrow> int result" where
  "dac_code mv full_scale =
     (if full_scale = 0 then Inl ZeroDivisionError
      else Inr (min 4095 ((mv * 4095 + full_scale div 2) div full_scale)))"

definition manual_vector :: "int \<Rightarrow> int \<Rightarrow> int \<Rightarrow> (real \<times> real) result" where
  "manual_vector x_q y_q deadzone_q =
     (let x = max (- 1) (min 1 (of_int x_q / of_int AXIS_LIMIT)); y = max (- 1) (min 1 (of_int y_q / of_int AXIS_LIMIT));
          r = hypot x y; dz = of_int deadzone_q / of_int AXIS_LIMIT in
      if r \<le> dz then Inr (0, 0)
      else if 1 - dz = 0 then Inl ZeroDivisionError
      else let m = (min r 1 - dz) / (1 - dz) in
        if r = 0 then Inl ZeroDivisionError else Inr (x * m / r, y * m / r))"

section \<open>State\<close>

record sim =
  z_boot_token :: int
  z_config :: "sim_config option"
  z_now :: int
  z_config_generation :: int
  z_events :: "(int \<times> int \<times> int) list"
  z_out :: bytes
  z_bt_connected :: bool
  z_bt_have_report :: bool
  z_bt_last :: int
  z_centered :: bool
  z_manual :: "real \<times> real"
  z_bt_stale_flagged :: bool
  z_pc_enabled :: bool
  z_pc_have_cmd :: bool
  z_pc_last :: int
  z_pc_cmd :: "int \<times> int"
  z_pc_have_seq :: bool
  z_pc_last_seq :: int
  z_last_manual_active :: "int option"
  z_manual_active_prev :: bool
  z_tx_seq :: int
  z_status_last :: "int option"
  z_parser :: parser

definition cfg_valid :: "sim \<Rightarrow> bool" where
  "cfg_valid s = (case z_config s of None \<Rightarrow> False | Some c \<Rightarrow> config_valid c)"

text \<open>\<^verbatim>\<open>self.config[k]\<close>; subscripting \<open>None\<close> is a TypeError.\<close>

definition config_at :: "sim \<Rightarrow> string \<Rightarrow> int result" where
  "config_at s k = (case z_config s of None \<Rightarrow> Inl TypeError | Some c \<Rightarrow> cfg_get c k)"

text \<open>\<^verbatim>\<open>self.out += encode_frame(kind, self._seq(), self.now_ms, payload)\<close>.\<close>

definition sim_send :: "int \<Rightarrow> (int \<Rightarrow> bytes result) \<Rightarrow> sim \<Rightarrow> sim result" where
  "sim_send kind payload s =
     (let q = u32 (z_tx_seq s + 1) in
      res_bind (payload (z_now s)) (\<lambda>pl.
      res_bind (encode_frame kind q (z_now s) pl) (\<lambda>e.
        Inr (s\<lparr>z_tx_seq := q, z_out := z_out s @ e\<rparr>))))"

definition sim_event :: "int \<Rightarrow> int \<Rightarrow> sim \<Rightarrow> sim result" where
  "sim_event code arg s =
     sim_send EVENT (\<lambda>now. pack_seq [pack_u 1 code, pack_u 1 arg, pack_u 4 now])
       (s\<lparr>z_events := z_events s @ [(code, arg, z_now s)]\<rparr>)"


definition sim_blank :: "int \<Rightarrow> sim_config option \<Rightarrow> sim" where
  "sim_blank token cfg = \<lparr>z_boot_token = token, z_config = cfg, z_now = 0, z_config_generation = 0, z_events = [],
     z_out = [], z_bt_connected = False, z_bt_have_report = False, z_bt_last = 0, z_centered = False,
     z_manual = (0, 0), z_bt_stale_flagged = False, z_pc_enabled = False, z_pc_have_cmd = False, z_pc_last = 0,
     z_pc_cmd = (0, 0), z_pc_have_seq = False, z_pc_last_seq = 0, z_last_manual_active = None,
     z_manual_active_prev = False, z_tx_seq = 0, z_status_last = None, z_parser = new_parser\<rparr>"

definition sim_boot :: "int \<Rightarrow> sim_config option \<Rightarrow> sim result" where
  "sim_boot token cfg =
     res_bind (sim_event E_BOOT 0 (sim_blank token cfg)) (\<lambda>s.
       case cfg of None \<Rightarrow> Inr s
       | Some c \<Rightarrow> sim_event E_CONFIG_LOADED_BUILD (if config_valid c then 1 else 0) s)"

definition bt_fresh :: "sim \<Rightarrow> bool result" where
  "bt_fresh s =
     (if cfg_valid s then
        if z_bt_connected s \<and> z_bt_have_report s
        then res_bind (config_at s ''bt_report_timeout_ms'') (\<lambda>t. Inr (z_now s - z_bt_last s < t))
        else Inr False
      else Inr False)"

definition pc_fresh :: "sim \<Rightarrow> bool result" where
  "pc_fresh s =
     (if cfg_valid s then
        if z_pc_have_cmd s
        then res_bind (config_at s ''pc_command_watchdog_ms'') (\<lambda>t. Inr (z_now s - z_pc_last s < t))
        else Inr False
      else Inr False)"

section \<open>Bluetooth inputs\<close>



definition bt_report :: "int \<Rightarrow> int \<Rightarrow> int \<Rightarrow> sim \<Rightarrow> sim result" where
  "bt_report x_q y_q now s0 =
     (let s = s0\<lparr>z_now := now\<rparr> in
      if \<not> z_bt_connected s then Inr s
      else
        res_bind (if cfg_valid s \<and> z_bt_have_report s
                  then res_bind (config_at s ''bt_report_timeout_ms'') (\<lambda>t. Inr (t \<le> now - z_bt_last s))
                  else Inr False) (\<lambda>gap.
        let s = (if gap then s\<lparr>z_centered := False, z_manual := (0, 0)\<rparr> else s);
            s = s\<lparr>z_bt_last := now, z_bt_have_report := True, z_bt_stale_flagged := False\<rparr> in
        res_bind (if cfg_valid s then config_at s ''manual_deadzone_q10000'' else Inr AXIS_LIMIT) (\<lambda>dz.
        res_bind (manual_vector x_q y_q dz) (\<lambda>v.
          let centered = (z_centered s \<or> v = (0, 0)) in
          Inr (s\<lparr>z_centered := centered, z_manual := (if centered then v else (0, 0))\<rparr>)))))"

section \<open>Arbitration\<close>

record applied =
  ap_source :: int
  ap_reason :: int
  ap_x :: real
  ap_y :: real
  ap_target_mv :: "(int \<times> int) option"
  ap_dac :: "(int \<times> int) option"

text \<open>Which source owns the output, why, and the vector it applies.\<close>

definition arbitrate :: "sim \<Rightarrow> bool \<Rightarrow> bool \<Rightarrow> (int \<times> int \<times> real \<times> real) result" where
  "arbitrate s btf pcf =
     (if btf \<and> z_centered s \<and> z_manual s \<noteq> (0, 0)
      then Inr (SRC_MANUAL, R_MANUAL_OVERRIDE, fst (z_manual s), snd (z_manual s))
      else
        res_bind (case z_last_manual_active s of None \<Rightarrow> Inr True
          | Some t \<Rightarrow> res_bind (config_at s ''manual_release_neutral_ms'') (\<lambda>r. Inr (r \<le> z_now s - t))) (\<lambda>release_ok.
        if z_pc_enabled s \<and> pcf then
          if release_ok
          then Inr (SRC_PC, R_PC_CONTROL, of_int (fst (z_pc_cmd s)) / of_int AXIS_LIMIT,
                    of_int (snd (z_pc_cmd s)) / of_int AXIS_LIMIT)
          else Inr (SRC_NONE, R_NEUTRAL_RECOVERY_WAIT, 0, 0)
        else
          Inr (SRC_NONE,
               if z_bt_connected s \<and> z_bt_have_report s \<and> \<not> btf then R_BT_STALE
               else if z_bt_connected s \<and> btf \<and> \<not> z_centered s then R_WAITING_CENTER
               else if z_pc_have_cmd s \<and> \<not> pcf then R_PC_STALE
               else if btf \<and> z_centered s then R_MANUAL_NEUTRAL
               else if \<not> z_bt_connected s \<and> \<not> z_pc_have_cmd s then R_BT_DISCONNECTED
               else R_PC_DISABLED, 0, 0)))"

definition applied :: "sim \<Rightarrow> applied result" where
  "applied s =
     (if \<not> cfg_valid s
      then Inr \<lparr>ap_source = SRC_NONE, ap_reason = R_CONFIG_INVALID, ap_x = 0, ap_y = 0, ap_target_mv = None, ap_dac = None\<rparr>
      else
        res_bind (bt_fresh s) (\<lambda>btf. res_bind (pc_fresh s) (\<lambda>pcf.
        res_bind (arbitrate s btf pcf) (\<lambda>(src, reason, x, y).
        res_bind (config_at s ''dac_neutral_mv'') (\<lambda>neutral.
        res_bind (config_at s ''dac_min_mv'') (\<lambda>lo.
        res_bind (config_at s ''dac_max_mv'') (\<lambda>hi.
        res_bind (config_at s ''dac_full_scale_mv'') (\<lambda>fs.
        res_bind (map_voltage x y neutral lo hi) (\<lambda>(tx, ty).
        res_bind (dac_code tx fs) (\<lambda>cx. res_bind (dac_code ty fs) (\<lambda>cy.
          Inr \<lparr>ap_source = src, ap_reason = reason, ap_x = x, ap_y = y,
               ap_target_mv = Some (tx, ty), ap_dac = Some (cx, cy)\<rparr>)))))))))))"

section \<open>Status frame\<close>

definition status_flags :: "sim \<Rightarrow> bool \<Rightarrow> bool \<Rightarrow> int" where
  "status_flags s btf pcf =
     (if z_bt_connected s then 1 else 0) + (if btf then 2 else 0) + (if z_centered s then 4 else 0)
     + (if z_pc_enabled s then 8 else 0) + (if pcf then 16 else 0) + (if cfg_valid s then 32 else 0)"

definition q10000 :: "real \<Rightarrow> int" where
  "q10000 v = py_round (max (- 1) (min 1 v) * of_int AXIS_LIMIT)"

definition status_payload :: "sim \<Rightarrow> applied \<Rightarrow> int \<Rightarrow> bytes result" where
  "status_payload s a flags =
     pack_seq [pack_u 1 (ap_source a), pack_u 1 (ap_reason a), pack_u 1 flags, pack_u 1 (z_config_generation s),
       pack_s16 (q10000 (fst (z_manual s))), pack_s16 (q10000 (snd (z_manual s))),
       pack_s16 (fst (z_pc_cmd s)), pack_s16 (snd (z_pc_cmd s)),
       pack_s16 (q10000 (ap_x a)), pack_s16 (q10000 (ap_y a)),
       pack_u 2 (case ap_target_mv a of None \<Rightarrow> 0 | Some t \<Rightarrow> fst t),
       pack_u 2 (case ap_target_mv a of None \<Rightarrow> 0 | Some t \<Rightarrow> snd t),
       pack_u 2 (case ap_dac a of None \<Rightarrow> 0 | Some d \<Rightarrow> fst d),
       pack_u 2 (case ap_dac a of None \<Rightarrow> 0 | Some d \<Rightarrow> snd d),
       pack_u 4 (if z_pc_have_cmd s then z_now s - z_pc_last s else NEVER),
       pack_u 4 (if z_bt_have_report s then z_now s - z_bt_last s else NEVER),
       pack_u 4 (if z_pc_have_seq s then z_pc_last_seq s else 0), pack_u 4 (u32 (z_now s)), pack_u 2 0]"

text \<open>\<^verbatim>\<open>self.out += self.status_frame()\<close>.\<close>

definition send_status :: "sim \<Rightarrow> sim result" where
  "send_status s =
     res_bind (applied s) (\<lambda>a. res_bind (bt_fresh s) (\<lambda>btf. res_bind (pc_fresh s) (\<lambda>pcf.
       sim_send STATUS (\<lambda>now. status_payload s a (status_flags s btf pcf)) s)))"

section \<open>Serial input\<close>






definition sim_drain :: "sim \<Rightarrow> sim \<times> bytes" where
  "sim_drain s = (s\<lparr>z_out := []\<rparr>, z_out s)"


section \<open>Periodic tick\<close>

definition tick_stale :: "sim \<Rightarrow> sim result" where
  "tick_stale s =
     res_bind (bt_fresh s) (\<lambda>btf.
     res_bind (if z_bt_connected s \<and> z_bt_have_report s \<and> \<not> btf \<and> \<not> z_bt_stale_flagged s
               then sim_event E_BT_STALE 0 (s\<lparr>z_centered := False, z_manual := (0, 0), z_bt_stale_flagged := True\<rparr>)
               else Inr s) (\<lambda>s.
     res_bind (pc_fresh s) (\<lambda>pcf.
       if z_pc_enabled s \<and> \<not> pcf then sim_event E_PC_DISABLED_STALE 0 (s\<lparr>z_pc_enabled := False\<rparr>)
       else Inr s)))"

definition tick_status :: "sim \<Rightarrow> sim result" where
  "tick_status s =
     res_bind (config_at s ''status_period_ms'') (\<lambda>period.
       if 0 < period \<and> (case z_status_last s of None \<Rightarrow> True | Some t \<Rightarrow> period \<le> z_now s - t)
       then res_bind (send_status s) (\<lambda>s. Inr (s\<lparr>z_status_last := Some (z_now s)\<rparr>))
       else Inr s)"

definition tick_override :: "int \<Rightarrow> applied \<Rightarrow> sim \<Rightarrow> sim result" where
  "tick_override now a s =
     (let active = (ap_source a = SRC_MANUAL);
          s = (if active then s\<lparr>z_last_manual_active := Some now\<rparr> else s) in
      if active \<noteq> z_manual_active_prev s
      then res_bind (sim_event (if active then E_MANUAL_OVERRIDE_BEGIN else E_MANUAL_OVERRIDE_END) 0 s)
             (\<lambda>s. Inr (s\<lparr>z_manual_active_prev := active\<rparr>))
      else Inr s)"

definition sim_tick :: "int \<Rightarrow> sim \<Rightarrow> (sim \<times> bytes) result" where
  "sim_tick now s0 =
     (let s = s0\<lparr>z_now := now\<rparr> in
      if cfg_valid s then
        res_bind (tick_stale s) (\<lambda>s.
        res_bind (applied s) (\<lambda>a.
        res_bind (tick_override now a s) (\<lambda>s.
        res_bind (tick_status s) (\<lambda>s. Inr (sim_drain s)))))
      else Inr (sim_drain s))"

section \<open>The voltage map stays inside the circle\<close>

definition off_center :: "int \<Rightarrow> int \<Rightarrow> int \<times> int \<Rightarrow> nat" where
  "off_center lo hi p = nat (\<bar>2 * fst p - (lo + hi)\<bar> + \<bar>2 * snd p - (lo + hi)\<bar>)"

text \<open>Outside a circle of diameter two or more, the larger coordinate is two or more off the centre.\<close>

lemma outside_far:
  fixes dx dy d :: int
  assumes "2 \<le> d" and out: "\<not> dx * dx + dy * dy \<le> d * d" and ge: "\<bar>dy\<bar> \<le> \<bar>dx\<bar>"
  shows "2 \<le> \<bar>dx\<bar>"
proof (rule ccontr)
  assume "\<not> 2 \<le> \<bar>dx\<bar>"
  with ge have small: "\<bar>dx\<bar> \<le> 1" "\<bar>dy\<bar> \<le> 1" by linarith+
  have "dx * dx = \<bar>dx\<bar> * \<bar>dx\<bar>" "dy * dy = \<bar>dy\<bar> * \<bar>dy\<bar>" by (simp_all add: abs_mult_self_eq)
  moreover have "\<bar>dx\<bar> * \<bar>dx\<bar> \<le> 1 * 1" "\<bar>dy\<bar> * \<bar>dy\<bar> \<le> 1 * 1" using small by (intro mult_mono; simp)+
  moreover have "2 * 2 \<le> d * d" using assms(1) by (intro mult_mono) simp_all
  ultimately show False using out by linarith
qed

lemma closer_by_two:
  fixes o' lo hi :: int
  assumes "2 \<le> \<bar>2 * o' - (lo + hi)\<bar>"
  shows "\<bar>2 * (o' + (if 2 * o' - (lo + hi) > 0 then - 1 else 1)) - (lo + hi)\<bar> < \<bar>2 * o' - (lo + hi)\<bar>"
  using assms by (cases "2 * o' - (lo + hi) > 0") auto

lemma nudge_step_closer:
  assumes "2 \<le> hi - lo" and "\<not> inside_circle (fst p) (snd p) lo hi"
  shows "off_center lo hi (nudge_step lo hi p) < off_center lo hi p"
proof -
  obtain ox oy where p: "p = (ox, oy)" by (cases p)
  define dx where "dx = 2 * ox - (lo + hi)"
  define dy where "dy = 2 * oy - (lo + hi)"
  have out: "\<not> dx * dx + dy * dy \<le> (hi - lo) * (hi - lo)"
    using assms(2) by (simp add: p inside_circle_def Let_def dx_def dy_def)
  have step: "nudge_step lo hi p = (if \<bar>dx\<bar> \<ge> \<bar>dy\<bar> then (ox + (if dx > 0 then - 1 else 1), oy)
      else (ox, oy + (if dy > 0 then - 1 else 1)))"
    by (simp only: p nudge_step_def Let_def prod.case dx_def dy_def)
  show ?thesis
  proof (cases "\<bar>dy\<bar> \<le> \<bar>dx\<bar>")
    case True
    from True have "nudge_step lo hi p = (ox + (if dx > 0 then - 1 else 1), oy)" by (simp only: step if_True)
    moreover from closer_by_two [of ox lo hi] outside_far [OF assms(1) out True]
    have "\<bar>2 * (ox + (if dx > 0 then - 1 else 1)) - (lo + hi)\<bar> < \<bar>2 * ox - (lo + hi)\<bar>" by (simp only: dx_def)
    ultimately show ?thesis unfolding off_center_def p by (auto simp only: fst_conv snd_conv)
  next
    case False
    with out have "2 \<le> \<bar>dy\<bar>" using outside_far [OF assms(1), of dy dx] by (simp add: add.commute)
    with closer_by_two [of oy lo hi]
    have "\<bar>2 * (oy + (if dy > 0 then - 1 else 1)) - (lo + hi)\<bar> < \<bar>2 * oy - (lo + hi)\<bar>" by (simp only: dy_def)
    moreover from False have "nudge_step lo hi p = (ox, oy + (if dy > 0 then - 1 else 1))" by (simp only: step if_False)
    ultimately show ?thesis unfolding off_center_def p by (auto simp only: fst_conv snd_conv)
  qed
qed

lemma nudge_ends:
  assumes "2 \<le> hi - lo"
  shows "\<exists>q. nudge lo hi p = Some q \<and> inside_circle (fst q) (snd q) lo hi"
proof (induction "off_center lo hi p" arbitrary: p rule: less_induct)
  case less
  show ?case
  proof (cases "inside_circle (fst p) (snd p) lo hi")
    case True
    then show ?thesis by (subst nudge.simps) simp
  next
    case False
    with less nudge_step_closer [OF assms False] show ?thesis by (subst nudge.simps) simp
  qed
qed

text \<open>A circle of diameter one holds no integer point: there the loop never ends.\<close>

lemma nudge_diameter_one: "\<not> inside_circle x y lo (lo + 1)"
proof -
  have "1 \<le> \<bar>2 * x - (lo + (lo + 1))\<bar>" "1 \<le> \<bar>2 * y - (lo + (lo + 1))\<bar>" by presburger+
  then have "1 * 1 \<le> \<bar>2 * x - (lo + (lo + 1))\<bar> * \<bar>2 * x - (lo + (lo + 1))\<bar>"
    "1 * 1 \<le> \<bar>2 * y - (lo + (lo + 1))\<bar> * \<bar>2 * y - (lo + (lo + 1))\<bar>" by (intro mult_mono; simp)+
  then show ?thesis by (simp add: inside_circle_def Let_def abs_mult_self_eq)
qed

lemma inside_circle_box:
  assumes "inside_circle x y lo hi" "lo \<le> hi"
  shows "lo \<le> x \<and> x \<le> hi \<and> lo \<le> y \<and> y \<le> hi"
proof -
  let ?dx = "2 * x - (lo + hi)" and ?dy = "2 * y - (lo + hi)" and ?d = "hi - lo"
  from assms(1) have c: "?dx * ?dx + ?dy * ?dy \<le> ?d * ?d" by (simp add: inside_circle_def Let_def)
  then have "?dx\<^sup>2 \<le> ?d\<^sup>2" "?dy\<^sup>2 \<le> ?d\<^sup>2"
    using zero_le_square [of ?dx] zero_le_square [of ?dy] unfolding power2_eq_square by linarith+
  then have "\<bar>?dx\<bar> \<le> ?d" "\<bar>?dy\<bar> \<le> ?d" using assms(2) by (auto intro: power2_le_imp_le simp: abs_le_square_iff)
  then show ?thesis by linarith
qed

lemma map_voltage_box:
  assumes "lo < n" "n < hi"
  shows "\<exists>tx ty. map_voltage x y n lo hi = Inr (tx, ty) \<and> lo \<le> tx \<and> tx \<le> hi \<and> lo \<le> ty \<and> ty \<le> hi"
proof (cases "hypot x y = 0")
  case True
  with assms show ?thesis by (simp add: map_voltage_def)
next
  case False
  then obtain p where m: "map_voltage x y n lo hi = (case nudge lo hi p of None \<Rightarrow> Inl NoReturn | Some p \<Rightarrow> Inr p)"
    unfolding map_voltage_def Let_def if_not_P [OF False] by blast
  have "2 \<le> hi - lo" using assms by simp
  from nudge_ends [OF this] obtain q where "nudge lo hi p = Some q" "inside_circle (fst q) (snd q) lo hi" by blast
  with m inside_circle_box [of "fst q" "snd q" lo hi] assms show ?thesis by (cases q) simp
qed

lemma dac_code_range:
  assumes "0 \<le> mv" "mv \<le> fs" "0 < fs"
  shows "\<exists>c. dac_code mv fs = Inr c \<and> 0 \<le> c \<and> c \<le> 4095"
  using assms by (auto simp: dac_code_def intro!: pos_imp_zdiv_nonneg_iff [THEN iffD2])

lemma dac_code_mono:
  "0 < fs \<Longrightarrow> m \<le> n \<Longrightarrow> dac_code m fs = Inr a \<Longrightarrow> dac_code n fs = Inr b \<Longrightarrow> a \<le> b"
  by (auto simp: dac_code_def intro!: min.mono zdiv_mono1)

section \<open>Arbitration\<close>

definition sim_ready :: "sim \<Rightarrow> bool" where
  "sim_ready s \<longleftrightarrow> (\<exists>c. z_config s = Some c \<and> config_valid c \<and> (\<forall>k \<in> set CONFIG_KEYS. map_of c k \<noteq> None))"

definition cfg_val :: "sim \<Rightarrow> string \<Rightarrow> int" where
  "cfg_val s k = (case z_config s of None \<Rightarrow> 0 | Some c \<Rightarrow> (case map_of c k of None \<Rightarrow> 0 | Some v \<Rightarrow> v))"

lemma sim_ready_get: "sim_ready s \<Longrightarrow> k \<in> set CONFIG_KEYS \<Longrightarrow> config_at s k = Inr (cfg_val s k)"
  by (auto simp: sim_ready_def config_at_def cfg_get_def cfg_val_def)

lemma sim_ready_keys:
  assumes "sim_ready s"
  shows "config_at s ''dac_neutral_mv'' = Inr (cfg_val s ''dac_neutral_mv'')"
    "config_at s ''dac_min_mv'' = Inr (cfg_val s ''dac_min_mv'')"
    "config_at s ''dac_max_mv'' = Inr (cfg_val s ''dac_max_mv'')"
    "config_at s ''dac_full_scale_mv'' = Inr (cfg_val s ''dac_full_scale_mv'')"
    "config_at s ''pc_command_watchdog_ms'' = Inr (cfg_val s ''pc_command_watchdog_ms'')"
    "config_at s ''bt_report_timeout_ms'' = Inr (cfg_val s ''bt_report_timeout_ms'')"
    "config_at s ''manual_deadzone_q10000'' = Inr (cfg_val s ''manual_deadzone_q10000'')"
    "config_at s ''manual_release_neutral_ms'' = Inr (cfg_val s ''manual_release_neutral_ms'')"
    "config_at s ''status_period_ms'' = Inr (cfg_val s ''status_period_ms'')"
  using assms by (auto intro!: sim_ready_get simp: CONFIG_KEYS_def)

lemma sim_ready_valid: "sim_ready s \<Longrightarrow> cfg_valid s"
  by (auto simp: sim_ready_def cfg_valid_def)

lemma config_validD:
  "config_valid c \<Longrightarrow> \<exists>lo n hi fs wd bt dz. map_of c ''dac_min_mv'' = Some lo \<and> map_of c ''dac_neutral_mv'' = Some n
     \<and> map_of c ''dac_max_mv'' = Some hi \<and> map_of c ''dac_full_scale_mv'' = Some fs
     \<and> map_of c ''pc_command_watchdog_ms'' = Some wd \<and> map_of c ''bt_report_timeout_ms'' = Some bt
     \<and> map_of c ''manual_deadzone_q10000'' = Some dz
     \<and> 0 < lo \<and> lo < n \<and> n < hi \<and> hi \<le> fs \<and> 0 < wd \<and> 0 < bt \<and> 0 \<le> dz \<and> dz < AXIS_LIMIT"
  unfolding config_valid_def prod.case by (simp split: option.split_asm)

lemma sim_ready_order:
  assumes "sim_ready s"
  shows "0 < cfg_val s ''dac_min_mv'' \<and> cfg_val s ''dac_min_mv'' < cfg_val s ''dac_neutral_mv''
     \<and> cfg_val s ''dac_neutral_mv'' < cfg_val s ''dac_max_mv''
     \<and> cfg_val s ''dac_max_mv'' \<le> cfg_val s ''dac_full_scale_mv''"
proof -
  from assms obtain c where c: "z_config s = Some c" "config_valid c" by (auto simp: sim_ready_def)
  from config_validD [OF c(2)] show ?thesis by (elim exE conjE) (simp add: cfg_val_def c(1))
qed

text \<open>The freshness tests with a complete configuration, as booleans.\<close>

definition bt_is_fresh :: "sim \<Rightarrow> bool" where
  "bt_is_fresh s \<longleftrightarrow> z_bt_connected s \<and> z_bt_have_report s \<and> z_now s - z_bt_last s < cfg_val s ''bt_report_timeout_ms''"

definition pc_is_fresh :: "sim \<Rightarrow> bool" where
  "pc_is_fresh s \<longleftrightarrow> z_pc_have_cmd s \<and> z_now s - z_pc_last s < cfg_val s ''pc_command_watchdog_ms''"

definition manual_is_active :: "sim \<Rightarrow> bool" where
  "manual_is_active s \<longleftrightarrow> bt_is_fresh s \<and> z_centered s \<and> z_manual s \<noteq> (0, 0)"

definition release_is_over :: "sim \<Rightarrow> bool" where
  "release_is_over s \<longleftrightarrow> (case z_last_manual_active s of None \<Rightarrow> True
     | Some t \<Rightarrow> cfg_val s ''manual_release_neutral_ms'' \<le> z_now s - t)"

lemma fresh_results:
  assumes "sim_ready s" shows "bt_fresh s = Inr (bt_is_fresh s)" "pc_fresh s = Inr (pc_is_fresh s)"
  using sim_ready_valid [OF assms] sim_ready_keys [OF assms]
  by (auto simp: bt_fresh_def pc_fresh_def bt_is_fresh_def pc_is_fresh_def)

definition owner :: "sim \<Rightarrow> int" where
  "owner s = (if manual_is_active s then SRC_MANUAL
     else if z_pc_enabled s \<and> pc_is_fresh s \<and> release_is_over s then SRC_PC else SRC_NONE)"

lemma arbitrate_owner:
  assumes "sim_ready s"
  shows "\<exists>reason x y. arbitrate s (bt_is_fresh s) (pc_is_fresh s) = Inr (owner s, reason, x, y)
     \<and> (owner s = SRC_NONE \<longrightarrow> x = 0 \<and> y = 0) \<and> (owner s = SRC_MANUAL \<longrightarrow> (x, y) = z_manual s)
     \<and> (owner s = SRC_PC \<longrightarrow> x = of_int (fst (z_pc_cmd s)) / of_int AXIS_LIMIT \<and> y = of_int (snd (z_pc_cmd s)) / of_int AXIS_LIMIT)"
proof (cases "manual_is_active s")
  case True
  then have "arbitrate s (bt_is_fresh s) (pc_is_fresh s) =
      Inr (SRC_MANUAL, R_MANUAL_OVERRIDE, fst (z_manual s), snd (z_manual s))"
    by (simp add: arbitrate_def manual_is_active_def)
  with True show ?thesis
    by (cases "z_manual s") (simp add: owner_def SRC_MANUAL_def SRC_NONE_def SRC_PC_def)
next
  case False
  then have na: "\<not> (bt_is_fresh s \<and> z_centered s \<and> z_manual s \<noteq> (0, 0))" by (simp add: manual_is_active_def)
  have rel: "(case z_last_manual_active s of None \<Rightarrow> Inr True
      | Some t \<Rightarrow> res_bind (config_at s ''manual_release_neutral_ms'') (\<lambda>r. Inr (r \<le> z_now s - t))) = Inr (release_is_over s)"
    using sim_ready_keys(8) [OF assms] by (simp add: release_is_over_def split: option.splits)
  have "arbitrate s (bt_is_fresh s) (pc_is_fresh s) = res_bind (Inr (release_is_over s)) (\<lambda>release_ok.
        if z_pc_enabled s \<and> pc_is_fresh s then
          if release_ok
          then Inr (SRC_PC, R_PC_CONTROL, of_int (fst (z_pc_cmd s)) / of_int AXIS_LIMIT,
                    of_int (snd (z_pc_cmd s)) / of_int AXIS_LIMIT)
          else Inr (SRC_NONE, R_NEUTRAL_RECOVERY_WAIT, 0, 0)
        else
          Inr (SRC_NONE,
               if z_bt_connected s \<and> z_bt_have_report s \<and> \<not> bt_is_fresh s then R_BT_STALE
               else if z_bt_connected s \<and> bt_is_fresh s \<and> \<not> z_centered s then R_WAITING_CENTER
               else if z_pc_have_cmd s \<and> \<not> pc_is_fresh s then R_PC_STALE
               else if bt_is_fresh s \<and> z_centered s then R_MANUAL_NEUTRAL
               else if \<not> z_bt_connected s \<and> \<not> z_pc_have_cmd s then R_BT_DISCONNECTED
               else R_PC_DISABLED, 0, 0))"
    unfolding arbitrate_def if_not_P [OF na] rel ..
  with False show ?thesis
    by (cases "release_is_over s"; cases "z_pc_enabled s \<and> pc_is_fresh s")
       (simp_all add: owner_def SRC_PC_def SRC_NONE_def SRC_MANUAL_def)
qed

lemma applied_ready:
  assumes "sim_ready s"
  shows "\<exists>a tx ty cx cy. applied s = Inr a \<and> ap_source a = owner s
     \<and> (owner s = SRC_NONE \<longrightarrow> ap_x a = 0 \<and> ap_y a = 0) \<and> (owner s = SRC_MANUAL \<longrightarrow> (ap_x a, ap_y a) = z_manual s)
     \<and> (owner s = SRC_PC \<longrightarrow> ap_x a = of_int (fst (z_pc_cmd s)) / of_int AXIS_LIMIT \<and> ap_y a = of_int (snd (z_pc_cmd s)) / of_int AXIS_LIMIT)
     \<and> ap_target_mv a = Some (tx, ty) \<and> ap_dac a = Some (cx, cy)
     \<and> map_voltage (ap_x a) (ap_y a) (cfg_val s ''dac_neutral_mv'') (cfg_val s ''dac_min_mv'') (cfg_val s ''dac_max_mv'') = Inr (tx, ty)
     \<and> cfg_val s ''dac_min_mv'' \<le> tx \<and> tx \<le> cfg_val s ''dac_max_mv''
     \<and> cfg_val s ''dac_min_mv'' \<le> ty \<and> ty \<le> cfg_val s ''dac_max_mv''
     \<and> 0 \<le> cx \<and> cx \<le> 4095 \<and> 0 \<le> cy \<and> cy \<le> 4095"
proof -
  from arbitrate_owner [OF assms] obtain reason x y where
    arb: "arbitrate s (bt_is_fresh s) (pc_is_fresh s) = Inr (owner s, reason, x, y)"
    "owner s = SRC_NONE \<longrightarrow> x = 0 \<and> y = 0" "owner s = SRC_MANUAL \<longrightarrow> (x, y) = z_manual s"
    "owner s = SRC_PC \<longrightarrow> x = of_int (fst (z_pc_cmd s)) / of_int AXIS_LIMIT \<and> y = of_int (snd (z_pc_cmd s)) / of_int AXIS_LIMIT" by blast
  note ord = sim_ready_order [OF assms]
  from map_voltage_box [of "cfg_val s ''dac_min_mv''" "cfg_val s ''dac_neutral_mv''" "cfg_val s ''dac_max_mv''" x y] ord
  obtain tx ty where mv: "map_voltage x y (cfg_val s ''dac_neutral_mv'') (cfg_val s ''dac_min_mv'') (cfg_val s ''dac_max_mv'') = Inr (tx, ty)"
    "cfg_val s ''dac_min_mv'' \<le> tx" "tx \<le> cfg_val s ''dac_max_mv''"
    "cfg_val s ''dac_min_mv'' \<le> ty" "ty \<le> cfg_val s ''dac_max_mv''" by blast
  from dac_code_range [of tx "cfg_val s ''dac_full_scale_mv''"] dac_code_range [of ty "cfg_val s ''dac_full_scale_mv''"] mv ord
  obtain cx cy where dac: "dac_code tx (cfg_val s ''dac_full_scale_mv'') = Inr cx" "0 \<le> cx" "cx \<le> 4095"
    "dac_code ty (cfg_val s ''dac_full_scale_mv'') = Inr cy" "0 \<le> cy" "cy \<le> 4095" by fastforce
  have "applied s = Inr \<lparr>ap_source = owner s, ap_reason = reason, ap_x = x, ap_y = y,
      ap_target_mv = Some (tx, ty), ap_dac = Some (cx, cy)\<rparr>"
    using sim_ready_valid [OF assms]
    by (simp only: applied_def not_True_eq_False if_False fresh_results [OF assms] res_bind.simps
        arb(1) prod.case sim_ready_keys [OF assms] mv(1) dac)
  with arb mv dac show ?thesis by simp
qed

section \<open>What each operation changes\<close>

lemma sim_send_frame:
  "sim_send kind payload s = Inr s' \<Longrightarrow> \<exists>q b. s' = s\<lparr>z_tx_seq := q, z_out := b\<rparr>"
  by (auto simp: sim_send_def Let_def)

lemma sim_event_frame:
  "sim_event code arg s = Inr s' \<Longrightarrow> \<exists>ev q b. s' = s\<lparr>z_events := ev, z_tx_seq := q, z_out := b\<rparr>"
  by (auto simp: sim_event_def dest!: sim_send_frame)


lemma send_status_frame: "send_status s = Inr s' \<Longrightarrow> \<exists>q b. s' = s\<lparr>z_tx_seq := q, z_out := b\<rparr>"
  by (auto simp: send_status_def dest!: sim_send_frame)


text \<open>The part of the state that decides whether the PC may drive.\<close>

definition pc_part :: "sim \<Rightarrow> bool \<times> bool \<times> int \<times> (int \<times> int)" where
  "pc_part s = (z_pc_enabled s, z_pc_have_cmd s, z_pc_last s, z_pc_cmd s)"









section \<open>The other operations do not enable the PC\<close>

lemma tick_stale_pc:
  assumes "tick_stale s = Inr s'"
  shows "\<exists>e. (z_pc_enabled s', z_pc_have_cmd s', z_pc_last s', z_pc_cmd s') = (e, z_pc_have_cmd s, z_pc_last s, z_pc_cmd s)
     \<and> (e \<longrightarrow> z_pc_enabled s \<and> pc_fresh s' = Inr True) \<and> z_config s' = z_config s \<and> z_now s' = z_now s"
proof -
  from assms obtain btf s1 pcf where
    s1: "(if z_bt_connected s \<and> z_bt_have_report s \<and> \<not> btf \<and> \<not> z_bt_stale_flagged s
               then sim_event E_BT_STALE 0 (s\<lparr>z_centered := False, z_manual := (0, 0), z_bt_stale_flagged := True\<rparr>)
               else Inr s) = Inr s1"
    and pcf: "pc_fresh s1 = Inr pcf"
    and s': "(if z_pc_enabled s1 \<and> \<not> pcf then sim_event E_PC_DISABLED_STALE 0 (s1\<lparr>z_pc_enabled := False\<rparr>)
       else Inr s1) = Inr s'"
    by (auto simp: tick_stale_def)
  from s1 have "pc_part s1 = pc_part s \<and> z_config s1 = z_config s \<and> z_now s1 = z_now s"
    by (auto simp: pc_part_def split: if_splits dest!: sim_event_frame)
  moreover have "if z_pc_enabled s1 \<and> \<not> pcf then pc_part s' = (False, snd (pc_part s1)) \<and> z_config s' = z_config s1 \<and> z_now s' = z_now s1
      else s' = s1"
    using s' by (auto simp: pc_part_def dest!: sim_event_frame)
  ultimately show ?thesis using pcf by (auto simp: pc_part_def split: if_splits)
qed

lemma tick_status_pc: "tick_status s = Inr s' \<Longrightarrow> pc_part s' = pc_part s \<and> z_config s' = z_config s \<and> z_now s' = z_now s"
  by (auto simp: tick_status_def pc_part_def split: if_splits option.splits dest!: send_status_frame)

lemma sim_tick_pc:
  assumes "sim_tick now s = Inr (s', bytes)"
  shows "(z_pc_have_cmd s', z_pc_last s', z_pc_cmd s', z_config s') = (z_pc_have_cmd s, z_pc_last s, z_pc_cmd s, z_config s)
     \<and> z_now s' = now \<and> (z_pc_enabled s' \<longrightarrow> z_pc_enabled s) \<and> (z_pc_enabled s' \<and> cfg_valid s \<longrightarrow> pc_fresh s' = Inr True)"
proof (cases "cfg_valid (s\<lparr>z_now := now\<rparr>)")
  case False
  with assms show ?thesis by (auto simp: sim_tick_def sim_drain_def cfg_valid_def)
next
  case True
  with assms obtain s1 a s2 s3 where s1: "tick_stale (s\<lparr>z_now := now\<rparr>) = Inr s1"
    and s2: "tick_override now a s1 = Inr s2" and s3: "tick_status s2 = Inr s3" and out: "(s', bytes) = sim_drain s3"
    by (auto simp: sim_tick_def Let_def)
  from s2 have "pc_part s2 = pc_part s1 \<and> z_config s2 = z_config s1 \<and> z_now s2 = z_now s1"
    by (auto simp: tick_override_def Let_def pc_part_def split: if_split_asm dest!: sim_event_frame)
  with tick_status_pc [OF s3] have "pc_part s3 = pc_part s1 \<and> z_config s3 = z_config s1 \<and> z_now s3 = z_now s1" by simp
  moreover from this have "pc_fresh s3 = pc_fresh s1"
    by (simp add: pc_fresh_def cfg_valid_def config_at_def pc_part_def)
  moreover have "s' = s3\<lparr>z_out := []\<rparr>" using out by (simp add: sim_drain_def)
  moreover have "pc_fresh (s3\<lparr>z_out := []\<rparr>) = pc_fresh s3"
    by (simp add: pc_fresh_def cfg_valid_def config_at_def)
  ultimately show ?thesis using tick_stale_pc [OF s1] by (auto simp: pc_part_def)
qed






section \<open>Properties\<close>


definition sample_config :: sim_config where
  "sample_config = [(''dac_neutral_mv'', 1650), (''dac_min_mv'', 1000), (''dac_max_mv'', 2300), (''dac_full_scale_mv'', 3300),
     (''pc_command_watchdog_ms'', 300), (''bt_report_timeout_ms'', 200), (''manual_deadzone_q10000'', 800),
     (''manual_release_neutral_ms'', 500), (''status_period_ms'', 100)]"

definition sample_sim :: sim where
  "sample_sim = (sim_blank 0x12345678 (Some sample_config))\<lparr>z_now := 1000, z_pc_enabled := True, z_pc_have_cmd := True,
     z_pc_last := 900, z_pc_cmd := (0, 5000), z_pc_have_seq := True, z_pc_last_seq := 4\<rparr>"

lemma sample_ready: "sim_ready sample_sim"
  by (simp add: sim_ready_def sample_sim_def sim_blank_def sample_config_def config_valid_def CONFIG_KEYS_def AXIS_LIMIT_def)








lemma sim_event_returns:
  assumes "0 \<le> z_now s" "z_now s < 2 ^ 32" "0 \<le> code" "code < 256" "0 \<le> arg" "arg < 256"
  shows "\<exists>ev q b. sim_event code arg s = Inr (s\<lparr>z_events := ev, z_tx_seq := q, z_out := b\<rparr>)"
proof -
  from assms have "pack_seq [pack_u 1 code, pack_u 1 arg, pack_u 4 (z_now s)]
      = Inr (le_bytes 1 (nat code) @ le_bytes 1 (nat arg) @ le_bytes 4 (nat (z_now s)))"
    by (simp add: pack_u_def)
  moreover have "encode_frame EVENT (u32 (z_tx_seq s + 1)) (z_now s)
      (le_bytes 1 (nat code) @ le_bytes 1 (nat arg) @ le_bytes 4 (nat (z_now s))) \<noteq> Inl e" for e
    using assms u32_bounds [of "z_tx_seq s + 1"] by (simp add: encode_frame_def EVENT_def MAX_PAYLOAD_def Let_def)
  then obtain e where "encode_frame EVENT (u32 (z_tx_seq s + 1)) (z_now s)
      (le_bytes 1 (nat code) @ le_bytes 1 (nat arg) @ le_bytes 4 (nat (z_now s))) = Inr e"
    by (metis sum.exhaust)
  ultimately have "sim_event code arg s = Inr (s\<lparr>z_events := z_events s @ [(code, arg, z_now s)],
      z_tx_seq := u32 (z_tx_seq s + 1), z_out := z_out s @ e\<rparr>)"
    by (simp add: sim_event_def sim_send_def Let_def del: pack_seq.simps)
  then show ?thesis by blast
qed



text \<open>The watchdog: after a periodic tick the PC is still enabled only if its last accepted COMMAND is
  younger than the configured time, and a tick never enables the PC nor counts as a command.\<close>

theorem sim_tick_watchdog:
  assumes "sim_ready s" and "sim_tick now s = Inr (s', bytes)"
  shows "(z_pc_enabled s' \<longrightarrow> z_pc_enabled s \<and> z_pc_have_cmd s \<and> now - z_pc_last s < cfg_val s ''pc_command_watchdog_ms'')
     \<and> (z_pc_have_cmd s', z_pc_last s', z_pc_cmd s') = (z_pc_have_cmd s, z_pc_last s, z_pc_cmd s)"
proof -
  note t = sim_tick_pc [OF assms(2)]
  with assms(1) have "sim_ready s'" by (simp add: sim_ready_def)
  then have "pc_fresh s' = Inr (pc_is_fresh s')" by (rule fresh_results)
  with t sim_ready_valid [OF assms(1)] show ?thesis
    by (auto simp: pc_is_fresh_def cfg_val_def)
qed

lemma sample_tick: "\<exists>s' b. sim_tick 2000 (sample_sim\<lparr>z_status_last := Some 1990\<rparr>) = Inr (s', b)"
proof -
  let ?s = "sample_sim\<lparr>z_status_last := Some 1990, z_now := 2000\<rparr>"
  have ready: "sim_ready ?s" using sample_ready by (simp add: sim_ready_def)
  have fresh: "bt_fresh ?s = Inr False" "pc_fresh ?s = Inr False"
    using fresh_results [OF ready]
    by (simp_all add: bt_is_fresh_def pc_is_fresh_def sample_sim_def sim_blank_def cfg_val_def sample_config_def)
  obtain ev q b where e: "sim_event E_PC_DISABLED_STALE 0 (?s\<lparr>z_pc_enabled := False\<rparr>) =
      Inr (?s\<lparr>z_pc_enabled := False, z_events := ev, z_tx_seq := q, z_out := b\<rparr>)"
    using sim_event_returns [of "?s\<lparr>z_pc_enabled := False\<rparr>" E_PC_DISABLED_STALE 0] by (auto simp: E_PC_DISABLED_STALE_def)
  let ?s1 = "?s\<lparr>z_pc_enabled := False, z_events := ev, z_tx_seq := q, z_out := b\<rparr>"
  have stale: "tick_stale ?s = Inr ?s1"
  proof -
    have "z_bt_connected ?s = False" "z_pc_enabled ?s = True" by (simp_all add: sample_sim_def sim_blank_def)
    with e show ?thesis by (simp add: tick_stale_def fresh)
  qed
  have ready1: "sim_ready ?s1" using ready by (simp add: sim_ready_def)
  from applied_ready [OF ready1] obtain a where a: "applied ?s1 = Inr a" "ap_source a = owner ?s1" by blast
  have "owner ?s1 = SRC_NONE"
    by (simp add: owner_def manual_is_active_def bt_is_fresh_def sample_sim_def sim_blank_def)
  with a have over: "tick_override 2000 a ?s1 = Inr ?s1"
    by (simp add: tick_override_def SRC_NONE_def SRC_MANUAL_def sample_sim_def sim_blank_def)
  have status: "tick_status ?s1 = Inr ?s1"
    by (simp add: tick_status_def sim_ready_keys(9) [OF ready1])
       (simp add: cfg_val_def sample_sim_def sim_blank_def sample_config_def)
  show ?thesis
    using sim_ready_valid [OF ready] stale a over status by (simp add: sim_tick_def Let_def sim_drain_def)
qed

theorem sim_tick_watchdog_witness:
  "\<exists>s' b. sim_tick 2000 (sample_sim\<lparr>z_status_last := Some 1990\<rparr>) = Inr (s', b) \<and> \<not> z_pc_enabled s'"
proof -
  have ready: "sim_ready (sample_sim\<lparr>z_status_last := Some 1990\<rparr>)" using sample_ready by (simp add: sim_ready_def)
  from sample_tick obtain s' b where t: "sim_tick 2000 (sample_sim\<lparr>z_status_last := Some 1990\<rparr>) = Inr (s', b)" by blast
  with sim_tick_watchdog [OF ready t] show ?thesis
    by (auto simp: cfg_val_def sample_sim_def sim_blank_def sample_config_def)
qed

text \<open>Before a configuration is registered the gamepad report of a stick pushed into a corner raises a
  ZeroDivisionError instead of being read as neutral: the zone that should swallow everything has
  radius one, and the clamped stick vector is longer than one.\<close>

theorem sim_unconfigured_corner_report_raises:
  assumes "\<not> cfg_valid s" and "z_bt_connected s"
  shows "bt_report x y now s = Inl ZeroDivisionError \<longleftrightarrow>
     1 < hypot (max (- 1) (min 1 (of_int x / 10000))) (max (- 1) (min 1 (of_int y / 10000)))"
proof -
  have inv: "\<not> cfg_valid (s\<lparr>z_now := now\<rparr>)"
    "\<not> cfg_valid (s\<lparr>z_now := now, z_bt_last := now, z_bt_have_report := True, z_bt_stale_flagged := False\<rparr>)"
    using assms(1) by (simp_all add: cfg_valid_def)
  then have "bt_report x y now s = Inl ZeroDivisionError \<longleftrightarrow> manual_vector x y AXIS_LIMIT = Inl ZeroDivisionError"
    using assms(2) by (simp add: bt_report_def Let_def)
  also have "\<dots> \<longleftrightarrow> 1 < hypot (max (- 1) (min 1 (of_int x / 10000))) (max (- 1) (min 1 (of_int y / 10000)))"
    by (simp add: manual_vector_def AXIS_LIMIT_def Let_def not_le)
  finally show ?thesis .
qed

theorem sim_unconfigured_corner_report_raises_witness:
  "bt_report 10000 10000 0 ((sim_blank 1 None)\<lparr>z_bt_connected := True\<rparr>) = Inl ZeroDivisionError"
proof -
  have "\<not> cfg_valid ((sim_blank 1 None)\<lparr>z_bt_connected := True\<rparr>)" "z_bt_connected ((sim_blank 1 None)\<lparr>z_bt_connected := True\<rparr>)"
    by (simp_all add: cfg_valid_def sim_blank_def)
  from sim_unconfigured_corner_report_raises [OF this, of 10000 10000 0] show ?thesis
    by (simp add: hypot_def)
qed

section \<open>Status frames\<close>

lemma odd_flag_sum:
  "bit (status_flags s btf pcf) 0 = z_bt_connected s" "bit (status_flags s btf pcf) 1 = btf"
  "bit (status_flags s btf pcf) 2 = z_centered s" "bit (status_flags s btf pcf) 3 = z_pc_enabled s"
  "bit (status_flags s btf pcf) 4 = pcf" "bit (status_flags s btf pcf) 5 = cfg_valid s"
  unfolding status_flags_def
  by (cases "z_bt_connected s"; cases btf; cases "z_centered s"; cases "z_pc_enabled s"; cases pcf;
      cases "cfg_valid s"; simp add: bit_iff_odd)+

lemma status_flags_range: "0 \<le> status_flags s btf pcf \<and> status_flags s btf pcf < 256"
  by (simp add: status_flags_def)

text \<open>Reading back a packed sequence of fields.\<close>

lemma pack_seq_Cons: "pack_seq (r # rs) = Inr b \<longleftrightarrow> (\<exists>c d. r = Inr c \<and> pack_seq rs = Inr d \<and> b = c @ d)"
  by auto

fun layout :: "(nat \<times> int) list \<Rightarrow> bytes" where
  "layout [] = []"
| "layout ((n, v) # fs) = le_bytes n (nat v) @ layout fs"

definition in_range :: "nat \<times> int \<Rightarrow> bool" where
  "in_range f \<longleftrightarrow> 0 \<le> snd f \<and> snd f < 256 ^ fst f"

lemma length_layout: "length (layout fs) = sum_list (map fst fs)"
  by (induction fs rule: layout.induct) simp_all

lemma u_at_layout:
  assumes "i < length fs" "in_range (fs ! i)"
  shows "u_at (sum_list (map fst (take i fs))) (fst (fs ! i)) (layout fs) = snd (fs ! i)"
  using assms
proof (induction fs arbitrary: i rule: layout.induct)
  case 1
  then show ?case by simp
next
  case (2 n v fs)
  show ?case
  proof (cases i)
    case 0
    with 2 u_at_le_bytes [of v n "[]" 0 "layout fs"] show ?thesis by (simp add: in_range_def)
  next
    case (Suc j)
    with 2 have "u_at (sum_list (map fst (take j fs))) (fst (fs ! j)) (layout fs) = snd (fs ! j)" by simp
    then show ?thesis by (simp add: Suc u_at_def)
  qed
qed

definition status_fields :: "sim \<Rightarrow> applied \<Rightarrow> int \<Rightarrow> (nat \<times> int) list" where
  "status_fields s a flags =
     [(1, ap_source a), (1, ap_reason a), (1, flags), (1, z_config_generation s),
      (2, int (s16_enc (q10000 (fst (z_manual s))))), (2, int (s16_enc (q10000 (snd (z_manual s))))),
      (2, int (s16_enc (fst (z_pc_cmd s)))), (2, int (s16_enc (snd (z_pc_cmd s)))),
      (2, int (s16_enc (q10000 (ap_x a)))), (2, int (s16_enc (q10000 (ap_y a)))),
      (2, case ap_target_mv a of None \<Rightarrow> 0 | Some t \<Rightarrow> fst t), (2, case ap_target_mv a of None \<Rightarrow> 0 | Some t \<Rightarrow> snd t),
      (2, case ap_dac a of None \<Rightarrow> 0 | Some d \<Rightarrow> fst d), (2, case ap_dac a of None \<Rightarrow> 0 | Some d \<Rightarrow> snd d),
      (4, if z_pc_have_cmd s then z_now s - z_pc_last s else NEVER),
      (4, if z_bt_have_report s then z_now s - z_bt_last s else NEVER),
      (4, if z_pc_have_seq s then z_pc_last_seq s else 0), (4, u32 (z_now s)), (2, 0)]"

lemma pack_s16_unsigned: "pack_s16 v = Inr b \<Longrightarrow> pack_u 2 (int (s16_enc v)) = Inr b"
  using s16_enc_bound [of v] by (simp add: pack_s16_Inr pack_u_Inr)

lemma pack_seq_layout:
  "list_all2 (\<lambda>r f. \<forall>b. r = Inr b \<longrightarrow> pack_u (fst f) (snd f) = Inr b) rs fs \<Longrightarrow> pack_seq rs = Inr b \<Longrightarrow>
     b = layout fs \<and> (\<forall>f \<in> set fs. in_range f)"
proof (induction rs fs arbitrary: b rule: list_all2_induct)
  case Nil
  then show ?case by simp
next
  case (Cons r rs f fs)
  then obtain c d where "r = Inr c" "pack_seq rs = Inr d" "b = c @ d" by auto
  with Cons show ?case by (cases f) (auto simp: pack_u_Inr in_range_def)
qed

lemma status_payload_layout:
  assumes "status_payload s a flags = Inr b"
  shows "b = layout (status_fields s a flags)" and "\<forall>f \<in> set (status_fields s a flags). in_range f"
  using pack_seq_layout [OF _ assms [unfolded status_payload_def], of "status_fields s a flags"]
  by (auto simp: status_fields_def pack_s16_unsigned)

lemma s16_at_u_at: "s16_at off b = s16_dec (nat (u_at off 2 b))"
  by (simp add: s16_at_def u_at_def)

lemma q10000_range: "- 10000 \<le> q10000 v \<and> q10000 v \<le> 10000"
proof -
  have "of_int (- 10000) \<le> max (- 1) (min 1 v) * of_int AXIS_LIMIT" "max (- 1) (min 1 v) * of_int AXIS_LIMIT \<le> of_int 10000"
    by (auto simp: AXIS_LIMIT_def max_def min_def)
  then show ?thesis unfolding q10000_def using py_round_ge py_round_le by blast
qed

definition status_of :: "sim \<Rightarrow> applied \<Rightarrow> bool \<Rightarrow> bool \<Rightarrow> string \<Rightarrow> string \<Rightarrow> status" where
  "status_of s a btf pcf source reason =
     \<lparr>s_source = source, s_reason = reason, s_config_generation = z_config_generation s,
      s_manual_x = q10000 (fst (z_manual s)), s_manual_y = q10000 (snd (z_manual s)),
      s_pc_x = fst (z_pc_cmd s), s_pc_y = snd (z_pc_cmd s),
      s_applied_x = q10000 (ap_x a), s_applied_y = q10000 (ap_y a),
      s_target_x_mv = (case ap_target_mv a of None \<Rightarrow> 0 | Some t \<Rightarrow> fst t),
      s_target_y_mv = (case ap_target_mv a of None \<Rightarrow> 0 | Some t \<Rightarrow> snd t),
      s_dac_x = (case ap_dac a of None \<Rightarrow> 0 | Some d \<Rightarrow> fst d),
      s_dac_y = (case ap_dac a of None \<Rightarrow> 0 | Some d \<Rightarrow> snd d),
      s_pc_age_ms = decode_age (if z_pc_have_cmd s then z_now s - z_pc_last s else NEVER),
      s_bt_age_ms = decode_age (if z_bt_have_report s then z_now s - z_bt_last s else NEVER),
      s_last_pc_seq = (if z_pc_have_seq s then z_pc_last_seq s else 0), s_uptime_ms = u32 (z_now s),
      s_bt_connected = z_bt_connected s, s_bt_fresh = btf, s_centered = z_centered s,
      s_pc_enabled = z_pc_enabled s, s_pc_fresh = pcf, s_config_valid = cfg_valid s\<rparr>"

text \<open>The STATUS payload the firmware model sends decodes, field by field, to its state: source and
  reason by name, the vectors in units of 1/10000, voltages, DAC codes, ages (absent when there was
  no command or report), the last sequence number, the time modulo 2^32 and the six flags.\<close>

theorem status_roundtrip:
  assumes "status_payload s a (status_flags s btf pcf) = Inr b"
    and "map_of SOURCE_NAMES (ap_source a) = Some source" "map_of REASON_NAMES (ap_reason a) = Some reason"
    and "z_pc_cmd s = (px, py)" "- 32768 \<le> px" "px < 32768" "- 32768 \<le> py" "py < 32768"
  shows "decode_status b = Inr (status_of s a btf pcf source reason)"
proof -
  let ?F = "status_fields s a (status_flags s btf pcf)"
  from status_payload_layout [OF assms(1)] have b: "b = layout ?F" and r: "\<forall>f \<in> set ?F. in_range f" by auto
  have n: "length ?F = 19" by (simp add: status_fields_def)
  have at: "u_at (sum_list (map fst (take i ?F))) (fst (?F ! i)) b = snd (?F ! i)" if "i < 19" for i
    unfolding b by (rule u_at_layout) (use n r that in auto)
  have len: "length b = 42" unfolding b length_layout by (simp add: status_fields_def)
  have head:
    "u_at 0 1 b = ap_source a"
    "u_at 1 1 b = ap_reason a"
    "u_at 2 1 b = status_flags s btf pcf"
    "u_at 3 1 b = z_config_generation s"
    "u_at 4 2 b = int (s16_enc (q10000 (fst (z_manual s))))"
    "u_at 6 2 b = int (s16_enc (q10000 (snd (z_manual s))))"
    "u_at 8 2 b = int (s16_enc (fst (z_pc_cmd s)))"
    "u_at 10 2 b = int (s16_enc (snd (z_pc_cmd s)))"
    "u_at 12 2 b = int (s16_enc (q10000 (ap_x a)))"
    "u_at 14 2 b = int (s16_enc (q10000 (ap_y a)))"
    using at [of 0] at [of 1] at [of 2] at [of 3] at [of 4] at [of 5] at [of 6] at [of 7] at [of 8] at [of 9]
    by (simp_all add: status_fields_def numeral_2_eq_2 [symmetric])
  have rest: "u_at 16 2 b = (case ap_target_mv a of None \<Rightarrow> 0 | Some t \<Rightarrow> fst t)"
    "u_at 18 2 b = (case ap_target_mv a of None \<Rightarrow> 0 | Some t \<Rightarrow> snd t)"
    "u_at 20 2 b = (case ap_dac a of None \<Rightarrow> 0 | Some d \<Rightarrow> fst d)" "u_at 22 2 b = (case ap_dac a of None \<Rightarrow> 0 | Some d \<Rightarrow> snd d)"
    "u_at 24 4 b = (if z_pc_have_cmd s then z_now s - z_pc_last s else NEVER)"
    "u_at 28 4 b = (if z_bt_have_report s then z_now s - z_bt_last s else NEVER)"
    "u_at 32 4 b = (if z_pc_have_seq s then z_pc_last_seq s else 0)" "u_at 36 4 b = u32 (z_now s)"
    using at [of 10] at [of 11] at [of 12] at [of 13] at [of 14] at [of 15] at [of 16] at [of 17]
    by (simp_all add: status_fields_def)
  have q: "- 32768 \<le> q10000 v" "q10000 v < 32768" for v using q10000_range [of v] by auto
  show ?thesis
    using len assms(2-) q unfolding decode_status_def s16_at_u_at head rest
    by (simp add: s16_dec_enc status_of_def odd_flag_sum odd_flag_sum(2) [unfolded One_nat_def] Let_def)
qed

definition sample_applied :: applied where
  "sample_applied = \<lparr>ap_source = 2, ap_reason = 9, ap_x = 0, ap_y = 1/2, ap_target_mv = Some (1650, 1975), ap_dac = Some (2048, 2451)\<rparr>"

theorem status_roundtrip_witness:
  "\<exists>b. status_payload sample_sim sample_applied (status_flags sample_sim False True) = Inr b
     \<and> decode_status b = Inr (status_of sample_sim sample_applied False True ''pc'' ''pc_control'')"
proof -
  have q: "pack_s16 (q10000 v) = Inr (le_bytes 2 (s16_enc (q10000 v)))" for v
    using q10000_range [of v] by (simp add: pack_s16_def)
  have fl: "0 \<le> status_flags sample_sim False True" "status_flags sample_sim False True < 256"
    using status_flags_range [of sample_sim False True] by simp_all
  have s: "z_pc_cmd sample_sim = (0, 5000)" "z_config_generation sample_sim = 0" "z_pc_have_cmd sample_sim"
    "z_now sample_sim = 1000" "z_pc_last sample_sim = 900" "\<not> z_bt_have_report sample_sim" "z_pc_have_seq sample_sim"
    "z_pc_last_seq sample_sim = 4"
    by (simp_all add: sample_sim_def sim_blank_def)
  have "\<exists>b. status_payload sample_sim sample_applied (status_flags sample_sim False True) = Inr b"
    by (simp add: status_payload_def q s) (simp add: fl pack_u_def pack_s16_def sample_applied_def u32_def NEVER_def)
  then obtain b where b: "status_payload sample_sim sample_applied (status_flags sample_sim False True) = Inr b" by blast
  have "decode_status b = Inr (status_of sample_sim sample_applied False True ''pc'' ''pc_control'')"
    by (rule status_roundtrip [OF b, of _ _ 0 5000]) (simp_all add: sample_applied_def SOURCE_NAMES_def REASON_NAMES_def s)
  with b show ?thesis by blast
qed

end
