(* ===== verification/Png.thy ===== *)
theory Png
  imports Prelude
begin

text \<open>
  \<^verbatim>\<open>gouda_core/png.py\<close>: the grayscale / RGB PNG encoder of the monitor and the PGM header parser.
  The CRC and the compression of zlib are parameters.  The header parser is a partial function:
  \<open>None\<close> means that its loop never ends.
\<close>

section \<open>PNG\<close>

type_synonym zlib = "(bytes \<Rightarrow> nat) \<times> (bytes \<Rightarrow> bytes)" \<comment> \<open>\<^verbatim>\<open>zlib.crc32\<close>, \<^verbatim>\<open>zlib.compress\<close>\<close>

definition be32 :: "nat \<Rightarrow> bytes" where
  "be32 v = rev (le_bytes 4 v)"

definition chunk :: "zlib \<Rightarrow> bytes \<Rightarrow> bytes \<Rightarrow> bytes" where
  "chunk z tag data = be32 (length data) @ tag @ data @ be32 (fst z (tag @ data))"

definition ihdr :: bytes where "ihdr = [0x49, 0x48, 0x44, 0x52]"
definition idat :: bytes where "idat = [0x49, 0x44, 0x41, 0x54]"
definition iend :: bytes where "iend = [0x49, 0x45, 0x4E, 0x44]"
definition png_magic :: bytes where "png_magic = [0x89, 0x50, 0x4E, 0x47, 0x0D, 0x0A, 0x1A, 0x0A]"

definition scanlines :: "nat \<Rightarrow> nat \<Rightarrow> bytes \<Rightarrow> bytes" where
  "scanlines stride height rows = concat (map (\<lambda>y. 0 # take stride (drop (y * stride) rows)) [0 ..< height])"

definition encode_png :: "zlib \<Rightarrow> nat \<Rightarrow> byte \<Rightarrow> nat \<Rightarrow> nat \<Rightarrow> bytes \<Rightarrow> bytes result" where
  "encode_png z channels colour width height rows =
     (if length rows \<noteq> width * height * channels then Inl ValueError
      else Inr (png_magic @ chunk z ihdr (be32 width @ be32 height @ [8, colour, 0, 0, 0])
        @ chunk z idat (snd z (scanlines (width * channels) height rows)) @ chunk z iend []))"

definition encode_gray :: "zlib \<Rightarrow> nat \<Rightarrow> nat \<Rightarrow> bytes \<Rightarrow> bytes result" where
  "encode_gray z = encode_png z 1 0"

definition encode_rgb :: "zlib \<Rightarrow> nat \<Rightarrow> nat \<Rightarrow> bytes \<Rightarrow> bytes result" where
  "encode_rgb z = encode_png z 3 2"

section \<open>PGM headers\<close>

text \<open>\<^verbatim>\<open>b[pos:pos + 1].isspace()\<close>; the empty slice past the end is no space.\<close>

definition space_at :: "bytes \<Rightarrow> nat \<Rightarrow> bool" where
  "space_at b pos = (pos < length b \<and> b ! pos \<in> {0x20, 0x09, 0x0A, 0x0B, 0x0C, 0x0D})"

function skip_space :: "bytes \<Rightarrow> nat \<Rightarrow> nat" where
  "skip_space b pos = (if space_at b pos then skip_space b (pos + 1) else pos)"
  by pat_completeness auto
termination
  by (relation "measure (\<lambda>(b, pos). length b - pos)") (auto simp: space_at_def)

declare skip_space.simps [simp del]

text \<open>\<^verbatim>\<open>while not b[end:end + 1].isspace(): end += 1\<close>.\<close>

partial_function (option) token_end :: "bytes \<Rightarrow> nat \<Rightarrow> nat option" where
  "token_end b end' = (if space_at b end' then Some end' else token_end b (end' + 1))"

text \<open>\<^verbatim>\<open>b.index(b'\n', pos)\<close>.\<close>

definition newline_from :: "bytes \<Rightarrow> nat \<Rightarrow> nat option" where
  "newline_from b pos = map_option (\<lambda>k. pos + k) (let xs = takeWhile (\<lambda>c. c \<noteq> 0x0A) (drop pos b) in
     if length xs < length (drop pos b) then Some (length xs) else None)"

definition is_digit :: "byte \<Rightarrow> bool" where
  "is_digit c = (0x30 \<le> c \<and> c \<le> 0x39)"

text \<open>
  \<^verbatim>\<open>int(token)\<close>: plain digits are read here, what Python accepts beyond them (signs,
  underscores) is the parameter \<open>other\<close>.
\<close>

definition parse_int :: "(bytes \<Rightarrow> int option) \<Rightarrow> bytes \<Rightarrow> int option" where
  "parse_int other t = (if t \<noteq> [] \<and> list_all is_digit t
     then Some (foldl (\<lambda>v c. 10 * v + (int (unat c) - 48)) 0 t) else other t)"

partial_function (option) pgm_parts :: "(bytes \<Rightarrow> int option) \<Rightarrow> bytes \<Rightarrow> nat \<Rightarrow> int list \<Rightarrow> (int list \<times> nat) result option" where
  "pgm_parts other b pos parts =
     (if 3 \<le> length parts then Some (Inr (parts, pos))
      else let pos = skip_space b pos in
        if pos < length b \<and> b ! pos = 0x23
        then (case newline_from b pos of None \<Rightarrow> Some (Inl ValueError) | Some k \<Rightarrow> pgm_parts other b (k + 1) parts)
        else Option.bind (token_end b pos) (\<lambda>e.
          case parse_int other (take (e - pos) (drop pos b)) of
            None \<Rightarrow> Some (Inl ValueError)
          | Some v \<Rightarrow> pgm_parts other b e (parts @ [v])))"

text \<open>\<^verbatim>\<open>b[pos:pos + n]\<close>; a negative size makes the slice end before the start or count from the end.\<close>

definition pixels :: "bytes \<Rightarrow> nat \<Rightarrow> int \<Rightarrow> bytes" where
  "pixels b pos n = (let stop = int pos + n; stop = (if stop < 0 then max 0 (stop + int (length b)) else stop)
     in take (nat stop - pos) (drop pos b))"

definition pgm_to_png :: "zlib \<Rightarrow> (bytes \<Rightarrow> int option) \<Rightarrow> bytes \<Rightarrow> (bytes \<times> int \<times> int) result option" where
  "pgm_to_png z other b =
     (if take 2 b \<noteq> [0x50, 0x35] then Some (Inl ValueError)
      else map_option (\<lambda>r. res_bind r (\<lambda>(parts, pos).
        let w = parts ! 0; h = parts ! 1; maxval = parts ! 2; data = pixels b (pos + 1) (w * h) in
        if maxval \<noteq> 255 then Inl ValueError
        else if int (length data) \<noteq> w * h then Inl ValueError
        else if w < 0 \<or> h < 0 \<or> 2 ^ 32 \<le> w \<or> 2 ^ 32 \<le> h then Inl StructError
        else res_bind (encode_gray z (nat w) (nat h) data) (\<lambda>png. Inr (png, w, h))))
        (pgm_parts other b 2 []))"

section \<open>The header the map writers produce\<close>

text \<open>\<^verbatim>\<open>f'{n}'\<close> of a number that is not negative, and the header \<^verbatim>\<open>f'P5\n{width} {height}\n255\n'\<close>.\<close>

fun decimal :: "nat \<Rightarrow> bytes" where
  "decimal n = (if n < 10 then [of_nat (48 + n)] else decimal (n div 10) @ [of_nat (48 + n mod 10)])"

declare decimal.simps [simp del]

definition pgm_header :: "nat \<Rightarrow> nat \<Rightarrow> bytes" where
  "pgm_header w h = [0x50, 0x35, 0x0A] @ decimal w @ [0x20] @ decimal h @ [0x0A] @ decimal 255 @ [0x0A]"

definition is_space :: "byte \<Rightarrow> bool" where
  "is_space c = (c \<in> {0x20, 0x09, 0x0A, 0x0B, 0x0C, 0x0D})"

lemma space_at_append: "space_at (a @ c # r) (length a) = is_space c"
  by (simp add: space_at_def is_space_def)

lemma space_at_end: "length b \<le> pos \<Longrightarrow> \<not> space_at b pos"
  by (simp add: space_at_def)

lemma digit_byte:
  assumes "d < 10"
  shows "is_digit (of_nat (48 + d))" and "int (unat (of_nat (48 + d) :: byte)) - 48 = int d"
proof -
  have u: "unat (of_nat (48 + d) :: byte) = 48 + d" unfolding unat_of_nat using assms by simp
  have n: "unat (0x30 :: byte) = 48" "unat (0x39 :: byte) = 57" by simp_all
  show "is_digit (of_nat (48 + d))" unfolding is_digit_def word_le_nat_alt u n using assms by simp
  show "int (unat (of_nat (48 + d) :: byte)) - 48 = int d" unfolding u by simp
qed

lemma digit_not_space: "is_digit c \<Longrightarrow> \<not> is_space c"
  by (auto simp: is_digit_def is_space_def word_le_nat_alt)

lemma decimal_digits: "list_all is_digit (decimal n)"
proof (induction n rule: decimal.induct)
  case (1 n)
  show ?case
  proof (cases "n < 10")
    case True
    then show ?thesis using digit_byte(1) [OF True] by (simp add: decimal.simps [of n])
  next
    case False
    then have "decimal n = decimal (n div 10) @ [of_nat (48 + n mod 10)]" by (subst decimal.simps) simp
    with 1 [OF False] digit_byte(1) [of "n mod 10"] show ?thesis by simp
  qed
qed

lemma decimal_not_Nil [simp]: "decimal n \<noteq> []"
  by (cases "n < 10") (simp_all add: decimal.simps [of n])

lemma decimal_value: "foldl (\<lambda>v c. 10 * v + (int (unat c) - 48)) 0 (decimal n) = int n"
proof (induction n rule: decimal.induct)
  case (1 n)
  show ?case
  proof (cases "n < 10")
    case True
    then have "decimal n = [of_nat (48 + n)]" by (simp add: decimal.simps)
    then show ?thesis by (simp only: foldl.simps digit_byte(2) [OF True])
  next
    case False
    have "n mod 10 < 10" by simp
    note last = digit_byte(2) [OF this]
    have "decimal n = decimal (n div 10) @ [of_nat (48 + n mod 10)]" using False by (subst decimal.simps) simp
    then have "foldl (\<lambda>v c. 10 * v + (int (unat c) - 48)) 0 (decimal n)
        = 10 * int (n div 10) + (int (unat (of_nat (48 + n mod 10) :: byte)) - 48)"
      using 1 [OF False] by simp
    also have "\<dots> = int (10 * (n div 10) + n mod 10)"
      unfolding last by (simp only: of_nat_add of_nat_mult of_nat_numeral)
    also have "10 * (n div 10) + n mod 10 = n" by presburger
    finally show ?thesis .
  qed
qed

lemma parse_decimal: "parse_int other (decimal n) = Some (int n)"
  unfolding parse_int_def decimal_value by (simp add: decimal_digits)

lemma skip_space_over:
  "list_all is_space sp \<Longrightarrow> (r = [] \<or> \<not> is_space (hd r)) \<Longrightarrow> skip_space (a @ sp @ r) (length a) = length (a @ sp)"
proof (induction sp arbitrary: a)
  case Nil
  then have "\<not> space_at (a @ r) (length a)"
    by (cases r) (simp_all add: space_at_append space_at_end)
  then show ?case by (simp add: skip_space.simps)
next
  case (Cons c sp)
  then have "skip_space ((a @ [c]) @ sp @ r) (length (a @ [c])) = length ((a @ [c]) @ sp)" by (intro Cons.IH) simp_all
  moreover have "skip_space (a @ (c # sp) @ r) (length a) = skip_space (a @ (c # sp) @ r) (length a + 1)"
    using Cons.prems by (subst skip_space.simps) (simp add: space_at_append)
  ultimately show ?case by simp
qed

lemma token_end_over:
  "list_all (\<lambda>c. \<not> is_space c) t \<Longrightarrow> is_space c \<Longrightarrow> token_end (a @ t @ c # r) (length a) = Some (length (a @ t))"
proof (induction t arbitrary: a)
  case Nil
  then show ?case by (subst token_end.simps) (simp add: space_at_append)
next
  case (Cons x t)
  then have "token_end ((a @ [x]) @ t @ c # r) (length (a @ [x])) = Some (length ((a @ [x]) @ t))"
    by (intro Cons.IH) simp_all
  moreover have "token_end (a @ (x # t) @ c # r) (length a) = token_end (a @ (x # t) @ c # r) (length a + 1)"
    using Cons.prems by (subst token_end.simps) (simp add: space_at_append)
  ultimately show ?case by simp
qed

text \<open>One number of the header is read.\<close>

lemma pgm_parts_number:
  assumes "length parts < 3" "is_space s" "is_space c" and b: "b = a @ s # decimal n @ c # r"
    and pos: "pos = length a" and pos': "pos' = length a + 1 + length (decimal n)"
  shows "pgm_parts other b pos parts = pgm_parts other b pos' (parts @ [int n])"
  unfolding b pos pos'
proof -
  let ?b = "a @ s # decimal n @ c # r"
  have nsp: "list_all (\<lambda>c. \<not> is_space c) (decimal n)"
    using decimal_digits [of n] by (auto simp: list_all_iff digit_not_space)
  obtain d ds where d: "decimal n = d # ds" by (cases "decimal n") simp_all
  have "is_digit d" using decimal_digits [of n] by (simp add: d)
  then have d0: "d \<noteq> 0x23" "\<not> is_space d" by (auto simp: is_digit_def word_le_nat_alt digit_not_space)
  have skip: "skip_space ?b (length a) = length a + 1"
    using skip_space_over [of "[s]" "decimal n @ c # r" a] assms d0 by (simp add: d)
  have tok: "token_end ?b (length a + 1) = Some (length a + 1 + length (decimal n))"
    using token_end_over [OF nsp assms(3), of "a @ [s]" r] by simp
  have nohash: "?b ! (length a + 1) \<noteq> 0x23" using d0 by (simp add: d nth_append)
  have sl: "take (length (decimal n)) (drop (length a + 1) ?b) = decimal n" by simp
  show "pgm_parts other ?b (length a) parts
      = pgm_parts other ?b (length a + 1 + length (decimal n)) (parts @ [int n])"
    by (subst pgm_parts.simps) (simp only: skip tok Let_def if_not_P [OF assms(1) [unfolded not_le [symmetric]]] nohash
      simp_thms if_False bind.bind_lunit diff_add_inverse sl parse_decimal option.case)
qed

text \<open>What the writers of the masks and of the map write is what the monitor reads: for every
  width and height of 32 bits and image data of that size, the header with the data after it is
  parsed and gives the PNG of exactly that width, height and data.
\<close>

theorem pgm_roundtrip:
  assumes "length data = w * h" and "w < 2 ^ 32" and "h < 2 ^ 32"
  shows "\<exists>png. encode_gray z w h data = Inr png
           \<and> pgm_to_png z other (pgm_header w h @ data) = Some (Inr (png, int w, int h))"
proof -
  let ?b = "pgm_header w h @ data"
  have sp: "is_space 0x0A" "is_space 0x20" by (simp_all add: is_space_def)
  have b1: "?b = [0x50, 0x35] @ 0x0A # decimal w @ 0x20 # (decimal h @ 0x0A # decimal 255 @ 0x0A # data)"
    and b2: "?b = ([0x50, 0x35, 0x0A] @ decimal w) @ 0x20 # decimal h @ 0x0A # (decimal 255 @ 0x0A # data)"
    and b3: "?b = ([0x50, 0x35, 0x0A] @ decimal w @ 0x20 # decimal h) @ 0x0A # decimal 255 @ 0x0A # data"
    by (simp_all add: pgm_header_def)
  let ?last = "length (pgm_header w h) - 1"
  have "pgm_parts other ?b 2 [] = pgm_parts other ?b (3 + length (decimal w)) ([] @ [int w])"
    by (rule pgm_parts_number [OF _ sp b1]) simp_all
  also have "\<dots> = pgm_parts other ?b (4 + length (decimal w) + length (decimal h)) (([] @ [int w]) @ [int h])"
    by (rule pgm_parts_number [OF _ sp(2,1) b2]) simp_all
  also have "\<dots> = pgm_parts other ?b ?last ((([] @ [int w]) @ [int h]) @ [int 255])"
    by (rule pgm_parts_number [OF _ sp(1,1) b3]) (simp_all add: pgm_header_def)
  also have "\<dots> = Some (Inr ([int w, int h, 255], ?last))" by (subst pgm_parts.simps) simp
  finally have parts: "pgm_parts other ?b 2 [] = Some (Inr ([int w, int h, 255], ?last))" .
  have pos: "?last + 1 = length (pgm_header w h)" by (simp add: pgm_header_def)
  have data: "pixels ?b (?last + 1) (int w * int h) = data"
    unfolding pos using assms(1) by (simp add: pixels_def Let_def nat_add_distrib nat_mult_distrib)
  obtain png where png: "encode_gray z w h data = Inr png"
    using assms(1) by (simp add: encode_gray_def encode_png_def)
  have "take 2 ?b = [0x50, 0x35]" by (simp add: pgm_header_def)
  with parts data png assms show ?thesis by (simp add: pgm_to_png_def Let_def)
qed

theorem pgm_roundtrip_witness:
  "\<exists>png. encode_gray (\<lambda>_. 0, \<lambda>bs. bs) 2 1 [7, 9] = Inr png
     \<and> pgm_to_png (\<lambda>_. 0, \<lambda>bs. bs) (\<lambda>_. None) (pgm_header 2 1 @ [7, 9]) = Some (Inr (png, 2, 1))"
  using pgm_roundtrip [of "[7, 9]" 2 1 "(\<lambda>_. 0, \<lambda>bs. bs)" "\<lambda>_. None"] by simp

section \<open>Headers that are cut off\<close>





end
