(* ===== verification/Device_Watch.thy ===== *)
theory Device_Watch
  imports Text_Data "HOL-Library.Char_ord"
begin

text \<open>
  \<^verbatim>\<open>gouda_core/device_watch.py\<close> (ND-18): the names and identities of the devices, the restart rule
  (DEC-088), the processes that use a device, and the redaction of recorded command lines (DEC-139).

  The file system, \<^verbatim>\<open>/proc\<close> and the JSON parser are arguments (what \<^verbatim>\<open>open\<close>, \<^verbatim>\<open>listdir\<close>, \<^verbatim>\<open>readlink\<close>, \<^verbatim>\<open>realpath\<close>
  and \<^verbatim>\<open>json.loads\<close> give; \<open>None\<close> for an OSError or a ValueError).  The regular expressions are written out as
  scanners over ASCII text.
\<close>

section \<open>Names of serial devices\<close>

definition BY_ID_DIR :: string where "BY_ID_DIR = ''/dev/serial/by-id/''"

datatype name_problem = Not_a_by_id_name | Names_no_device

fun by_id_problem :: "pyval \<Rightarrow> name_problem option" where
  "by_id_problem (PStr path) =
     (if \<not> startswith path BY_ID_DIR then Some Not_a_by_id_name
      else let name = drop (length BY_ID_DIR) path in
        if name = [] \<or> CHR ''/'' \<in> set name \<or> name \<in> {''.'', ''..''} then Some Names_no_device else None)"
| "by_id_problem _ = Some Not_a_by_id_name"

section \<open>Identities\<close>

text \<open>\<^verbatim>\<open>os.path\<close> on posix paths: \<^verbatim>\<open>basename\<close> and \<^verbatim>\<open>dirname\<close> of a path without a trailing slash, as
  \<^verbatim>\<open>realpath\<close> gives.\<close>

definition basename :: "string \<Rightarrow> string" where
  "basename p = rev (takeWhile (\<lambda>c. c \<noteq> CHR ''/'') (rev p))"

definition dirname :: "string \<Rightarrow> string" where
  "dirname p = (let d = rev (dropWhile (\<lambda>c. c \<noteq> CHR ''/'') (rev p)) in
     if list_all (\<lambda>c. c = CHR ''/'') d then d else rev (dropWhile (\<lambda>c. c = CHR ''/'') (rev d)))"

record filesystem =
  fs_exists :: "string \<Rightarrow> bool"
  fs_realpath :: "string \<Rightarrow> string"
  fs_text :: "string \<Rightarrow> string option"

definition read_file :: "filesystem \<Rightarrow> string \<Rightarrow> string option" where
  "read_file fs p = map_option strip (fs_text fs p)"

definition tty_identity :: "filesystem \<Rightarrow> string \<Rightarrow> string \<Rightarrow> string option" where
  "tty_identity fs by_id sys_root =
     (if \<not> fs_exists fs by_id then None
      else let tty = basename (fs_realpath fs by_id);
               iface = fs_realpath fs (sys_root @ ''/class/tty/'' @ tty @ ''/device'');
               usbdev = dirname iface
           in case (read_file fs (usbdev @ ''/busnum''), read_file fs (usbdev @ ''/devnum'')) of
                (Some bus, Some dev) \<Rightarrow>
                  Some (if bus \<noteq> [] \<and> dev \<noteq> [] then tty @ '' usb '' @ bus @ ''-'' @ dev else tty @ '' usb ?'')
              | _ \<Rightarrow> Some (tty @ '' usb ?''))"

text \<open>An interface in the output of \<^verbatim>\<open>ip -j -4 addr\<close>: its name and index as they are printed, and its addresses.\<close>

record net_link =
  ifname :: string
  ifindex :: string
  addr_info :: "(string option \<times> nat option) list" \<comment> \<open>\<^verbatim>\<open>local\<close> and \<^verbatim>\<open>prefixlen\<close> of each address\<close>

definition net_identity :: "(string \<Rightarrow> net_link list option) \<Rightarrow> string \<Rightarrow> string \<Rightarrow> string option" where
  "net_identity loads host_ip text =
     (case loads (if text = [] then ''[]'' else text) of
        None \<Rightarrow> None
      | Some links \<Rightarrow> map_option (\<lambda>l. ifname l @ '' #'' @ ifindex l)
          (find (\<lambda>l. list_ex (\<lambda>a. fst a = Some host_ip) (addr_info l)) links))"

section \<open>The restart rule\<close>

datatype action = Act_none | Act_start | Act_restart | Act_stop

record watched_device =
  wd_identity :: "string option"
  wd_seen :: "string option"
  wd_evaluated :: bool

definition new_device :: watched_device where
  "new_device = \<lparr>wd_identity = None, wd_seen = None, wd_evaluated = False\<rparr>"

definition presence_changed :: "watched_device \<Rightarrow> string option \<Rightarrow> bool" where
  "presence_changed d observed \<longleftrightarrow> \<not> wd_evaluated d \<or> observed \<noteq> wd_seen d"

definition decide :: "watched_device \<Rightarrow> string option \<Rightarrow> action" where
  "decide d observed =
     (if observed = None then (if wd_identity d \<noteq> None then Act_stop else Act_none)
      else if wd_identity d = None then Act_start
      else if observed \<noteq> wd_identity d then Act_restart else Act_none)"

definition device_apply :: "string option \<Rightarrow> action \<Rightarrow> watched_device \<Rightarrow> watched_device" where
  "device_apply observed a d =
     (let d = d\<lparr>wd_seen := observed, wd_evaluated := True\<rparr> in
      if a \<in> {Act_start, Act_restart} then d\<lparr>wd_identity := observed\<rparr>
      else if a = Act_stop then d\<lparr>wd_identity := None\<rparr> else d)"

section \<open>Processes that use a device\<close>

text \<open>\<^verbatim>\<open>/proc\<close>: its entries; for each the descriptors of the process with the targets of their links.\<close>

type_synonym proc_table = "(string \<times> (string \<times> string option) list option) list option"

definition digits :: "string \<Rightarrow> bool" where
  "digits s \<longleftrightarrow> s \<noteq> [] \<and> list_all (\<lambda>c. CHR ''0'' \<le> c \<and> c \<le> CHR ''9'') s"

definition dec_value :: "string \<Rightarrow> nat" where
  "dec_value s = foldl (\<lambda>n c. 10 * n + (of_char c - 48)) 0 s"

definition fd_targets :: "proc_table \<Rightarrow> nat list \<Rightarrow> (nat \<times> string) list" where
  "fd_targets t exclude = (case t of
     None \<Rightarrow> []
   | Some es \<Rightarrow> concat (map (\<lambda>(name, fds).
       if \<not> digits name \<or> dec_value name \<in> set exclude then []
       else (case fds of None \<Rightarrow> [] | Some l \<Rightarrow> List.map_filter (\<lambda>(fd, link). map_option (Pair (dec_value name)) link) l)) es))"

definition tty_users :: "filesystem \<Rightarrow> string \<Rightarrow> proc_table \<Rightarrow> nat list \<Rightarrow> nat list" where
  "tty_users fs path t exclude =
     (let target = fs_realpath fs path in
      sort (remdups (map fst (filter (\<lambda>(pid, link). startswith link ''/'' \<and> fs_realpath fs link = target) (fd_targets t exclude)))))"

text \<open>\<^verbatim>\<open>int(s, 16)\<close> of a field of \<^verbatim>\<open>/proc/net/udp\<close>, which the kernel writes as hexadecimal digits.\<close>

definition hex_digit :: "char \<Rightarrow> nat" where
  "hex_digit c = (if c \<le> CHR ''9'' then of_char c - 48 else if c \<le> CHR ''F'' then of_char c - 55 else of_char c - 87)"

definition hex_value :: "string \<Rightarrow> nat" where
  "hex_value s = foldl (\<lambda>n c. 16 * n + hex_digit c) 0 s"

definition udp_inodes :: "nat \<Rightarrow> string option \<Rightarrow> string list" where
  "udp_inodes port text = List.map_filter (\<lambda>line.
     let f = split_ws line in
     if 9 < length f \<and> CHR '':'' \<in> set (f ! 1) \<and> hex_value (last (split_on CHR '':'' (f ! 1))) = port then Some (f ! 9) else None)
     (drop 1 (splitlines (case text of None \<Rightarrow> [] | Some s \<Rightarrow> s)))"

definition udp_port_users :: "nat \<Rightarrow> string option \<Rightarrow> string option \<Rightarrow> proc_table \<Rightarrow> nat list \<Rightarrow> nat list" where
  "udp_port_users port udp udp6 t exclude =
     (let inodes = udp_inodes port (map_option strip udp) @ udp_inodes port (map_option strip udp6) in
      if inodes = [] then []
      else sort (remdups (map fst (filter (\<lambda>(pid, link). link \<in> set (map (\<lambda>i. ''socket:['' @ i @ '']'') inodes)) (fd_targets t exclude)))))"

text \<open>\<^verbatim>\<open>merge_opened\<close>: the identities opened so far, as a dict.\<close>

definition merge_opened :: "(string \<rightharpoonup> string) \<Rightarrow> (string \<times> string option) list \<Rightarrow> (string \<rightharpoonup> string)" where
  "merge_opened previous current = foldl (\<lambda>out (k, v). case v of None \<Rightarrow> out | Some i \<Rightarrow> out(k \<mapsto> i)) previous current"

end
