(* ===== verification/Redaction.thy ===== *)
theory Redaction
  imports Device_Watch
begin

text \<open>
  The redaction of recorded command lines in \<^verbatim>\<open>gouda_core/device_watch.py\<close> (DEC-139, DEC-151): the two
  regular expressions as scanners, and the theorem that what is recorded of a command line does not
  depend on the NTRIP data in it.
\<close>

definition REDACTED :: string where "REDACTED = ''<redacted>''"

definition ascii_letter :: "char \<Rightarrow> bool" where
  "ascii_letter c = ((CHR ''A'' \<le> c \<and> c \<le> CHR ''Z'') \<or> (CHR ''a'' \<le> c \<and> c \<le> CHR ''z''))"

definition is_decimal :: "char \<Rightarrow> bool" where
  "is_decimal c \<longleftrightarrow> CHR ''0'' \<le> c \<and> c \<le> CHR ''9''"

definition word_char :: "char \<Rightarrow> bool" where \<comment> \<open>\<^verbatim>\<open>\w\<close>\<close>
  "word_char c \<longleftrightarrow> ascii_letter c \<or> is_decimal c \<or> c = CHR ''_''"

definition scheme_char :: "char \<Rightarrow> bool" where \<comment> \<open>\<^verbatim>\<open>[A-Za-z0-9+.-]\<close>\<close>
  "scheme_char c \<longleftrightarrow> ascii_letter c \<or> is_decimal c \<or> c \<in> {CHR ''+'', CHR ''.'', CHR ''-''}"

definition lower :: "char \<Rightarrow> char" where
  "lower c = (if CHR ''A'' \<le> c \<and> c \<le> CHR ''Z'' then char_of (of_char c + 32 :: nat) else c)"

text \<open>The length of \<^verbatim>\<open>ntrip[sc]?\<close> at the head of the text when \<^verbatim>\<open>://\<close> follows, in any case of its letters.\<close>

definition ntrip_head :: "string \<Rightarrow> nat option" where
  "ntrip_head s =
     (let l = map lower s in
      if startswith l ''ntrip://'' then Some 5
      else if startswith l ''ntrips://'' \<or> startswith l ''ntripc://'' then Some 6 else None)"

text \<open>\<^verbatim>\<open>_NTRIP_URL.sub\<close> from a position; \<open>w\<close>: the character before it is a word character.\<close>

function redact_ntrip :: "bool \<Rightarrow> string \<Rightarrow> string" where
  "redact_ntrip w [] = []"
| "redact_ntrip w (c # s) =
     (case (if w then None else ntrip_head (c # s)) of
        None \<Rightarrow> c # redact_ntrip (word_char c) s
      | Some n \<Rightarrow> take n (c # s) @ ''://'' @ REDACTED @ redact_ntrip False (dropWhile (\<lambda>c. \<not> white c) (drop (n + 3) (c # s))))"
  by pat_completeness auto

termination
  by (relation "measure (\<lambda>(w, s). length s)") (auto intro!: le_less_trans [OF length_dropWhile_le] split: if_splits)

text \<open>The length of \<^verbatim>\<open>[A-Za-z][A-Za-z0-9+.-]*://\<close> at the head; the length of \<^verbatim>\<open>\S*@\<close> at the head: up to the last \<^verbatim>\<open>@\<close>
  of the token.\<close>

definition scheme_head :: "string \<Rightarrow> nat option" where
  "scheme_head s =
     (let n = length (takeWhile scheme_char s) in
      if s \<noteq> [] \<and> ascii_letter (hd s) \<and> startswith (drop n s) ''://'' then Some (n + 3) else None)"

definition userinfo_len :: "string \<Rightarrow> nat option" where
  "userinfo_len s =
     (let t = takeWhile (\<lambda>c. \<not> white c) s in
      if CHR ''@'' \<in> set t then Some (length t - length (takeWhile (\<lambda>c. c \<noteq> CHR ''@'') (rev t))) else None)"

text \<open>\<^verbatim>\<open>_USERINFO.sub\<close>.\<close>

function redact_userinfo :: "bool \<Rightarrow> string \<Rightarrow> string" where
  "redact_userinfo w [] = []"
| "redact_userinfo w (c # s) =
     (case (if w then None else scheme_head (c # s)) of
        None \<Rightarrow> c # redact_userinfo (word_char c) s
      | Some n \<Rightarrow> (case userinfo_len (drop n (c # s)) of
            None \<Rightarrow> c # redact_userinfo (word_char c) s
          | Some m \<Rightarrow> take n (c # s) @ REDACTED @ ''@'' @ redact_userinfo False (drop (n + m) (c # s))))"
  by pat_completeness auto

termination
  by (relation "measure (\<lambda>(w, s). length s)") (auto simp: scheme_head_def Let_def split: if_splits)

definition redact_command :: "string \<Rightarrow> string" where
  "redact_command text = redact_userinfo False (redact_ntrip False text)"

text \<open>\<^verbatim>\<open>command_lines\<close>: the zero bytes between the arguments become blanks; \<open>None\<close>: unreadable.\<close>

definition command_line :: "string option \<Rightarrow> string" where
  "command_line raw = (case raw of
     None \<Rightarrow> ''?''
   | Some s \<Rightarrow> take 200 (redact_command (strip (map (\<lambda>c. if of_char c = (0::nat) then CHR '' '' else c) s))))"

definition command_lines :: "(nat \<Rightarrow> string option) \<Rightarrow> nat list \<Rightarrow> (nat \<times> string) list" where
  "command_lines cmdline pids = map (\<lambda>p. (p, command_line (cmdline p))) pids"

section \<open>Nothing of the NTRIP data is recorded\<close>

definition token :: "string \<Rightarrow> bool" where
  "token s \<longleftrightarrow> list_all (\<lambda>c. \<not> white c) s"

lemma white_not_word: "white b \<Longrightarrow> \<not> word_char b \<and> \<not> scheme_char b \<and> \<not> ascii_letter b \<and> lower b = b"
  by (auto simp: white_def word_char_def scheme_char_def ascii_letter_def is_decimal_def lower_def less_eq_char_def)

lemma startswith_append: "startswith u p \<Longrightarrow> startswith (u @ t) p"
  by (auto simp: startswith_def) (metis append_take_drop_id length_take min.absorb_iff2 min_def take_all take_append take_take)

lemma startswith_stop: "x \<notin> set p \<Longrightarrow> startswith (u @ x # t) p = startswith u p"
proof
  assume x: "x \<notin> set p" and s: "startswith (u @ x # t) p"
  show "startswith u p"
  proof (cases "length p \<le> length u")
    case True
    with s show ?thesis by (simp add: startswith_def)
  next
    case False
    then obtain k where "length p - length u = Suc k" by (metis diff_is_0_eq not0_implies_Suc)
    with s have "p = take (length p) u @ x # take k t" by (simp add: startswith_def)
    then have "x \<in> set p" by (metis in_set_conv_decomp)
    with x show ?thesis by blast
  qed
qed (rule startswith_append)

lemma ntrip_head_stop:
  assumes "white b"
  shows "ntrip_head (u @ b # t) = ntrip_head u"
proof -
  have "lower b = b" "b \<notin> set ''ntrip://''" "b \<notin> set ''ntrips://''" "b \<notin> set ''ntripc://''"
    using assms white_not_word by (auto simp: white_def)
  then show ?thesis unfolding ntrip_head_def Let_def map_append list.map by (simp add: startswith_stop)
qed

lemma startswith_length: "startswith u p \<Longrightarrow> length p \<le> length u"
  unfolding startswith_def by (metis length_take min.cobounded1)

lemma ntrip_head_length: "ntrip_head s = Some n \<Longrightarrow> n + 3 \<le> length s"
  by (auto simp: ntrip_head_def Let_def split: if_split_asm dest!: startswith_length)

lemma dropWhile_stop: "white b \<Longrightarrow> dropWhile (\<lambda>c. \<not> white c) (s @ b # t) = dropWhile (\<lambda>c. \<not> white c) s @ b # t"
  by (induction s) auto

text \<open>Both scanners work on each token by itself.\<close>

lemma redact_ntrip_blank: "white b \<Longrightarrow> redact_ntrip w (s @ b # t) = redact_ntrip w s @ b # redact_ntrip False t"
proof (induction w s rule: redact_ntrip.induct)
  case (1 w)
  then have "ntrip_head (b # t) = None"
    using ntrip_head_stop [of b "[]" t] by (simp add: ntrip_head_def startswith_def)
  with 1 white_not_word show ?case by (cases w) simp_all
next
  case (2 w c s)
  show ?case
  proof (cases "if w then None else ntrip_head (c # s)")
    case None
    then have "(if w then None else ntrip_head (c # s @ b # t)) = None"
      using ntrip_head_stop [OF \<open>white b\<close>, of "c # s" t] by (simp split: if_splits)
    with None 2 show ?thesis by simp
  next
    case (Some n)
    then have n: "\<not> w" "ntrip_head (c # s @ b # t) = Some n" "ntrip_head (c # s) = Some n"
      using ntrip_head_stop [OF \<open>white b\<close>, of "c # s" t] by (auto split: if_split_asm)
    from ntrip_head_length [OF n(3)] have len: "n + 3 \<le> length (c # s)" .
    have drop: "drop (n + 3) ((c # s) @ b # t) = drop (n + 3) (c # s) @ b # t" unfolding drop_append using len by simp
    have take: "take n ((c # s) @ b # t) = take n (c # s)" unfolding take_append using len by simp
    have "redact_ntrip w ((c # s) @ b # t) = take n (c # s) @ ''://'' @ REDACTED
        @ redact_ntrip False (dropWhile (\<lambda>c. \<not> white c) (drop (n + 3) (c # s)) @ b # t)"
      using n dropWhile_stop [OF \<open>white b\<close>] drop take by (simp del: drop_append take_append)
    with 2(2) [OF Some \<open>white b\<close>] n show ?thesis by simp
  qed
qed

lemma takeWhile_stop: "\<not> P b \<Longrightarrow> takeWhile P (s @ b # t) = takeWhile P s"
  by (induction s) auto

lemma scheme_head_stop:
  assumes "white b"
  shows "scheme_head (u @ b # t) = scheme_head u"
proof (cases u)
  case Nil
  with assms white_not_word show ?thesis by (simp add: scheme_head_def)
next
  case (Cons c s)
  let ?n = "length (takeWhile scheme_char u)"
  have tw: "takeWhile scheme_char (u @ b # t) = takeWhile scheme_char u"
    using assms white_not_word by (simp add: takeWhile_stop)
  have n: "?n \<le> length u" by (rule length_takeWhile_le)
  have "b \<notin> set ''://''" using assms by (auto simp: white_def)
  then have "startswith (drop ?n u @ b # t) ''://'' = startswith (drop ?n u) ''://''" by (rule startswith_stop)
  moreover have "drop ?n (u @ b # t) = drop ?n u @ b # t" using n by simp
  moreover have "hd (u @ b # t) = hd u" "u \<noteq> []" using Cons by simp_all
  ultimately show ?thesis unfolding scheme_head_def tw Let_def by simp
qed

lemma userinfo_len_stop: "white b \<Longrightarrow> userinfo_len (u @ b # t) = userinfo_len u"
  by (simp add: userinfo_len_def takeWhile_stop)

lemma scheme_head_length: "scheme_head s = Some n \<Longrightarrow> n \<le> length s"
  by (auto simp: scheme_head_def Let_def split: if_split_asm dest!: startswith_length)

lemma userinfo_len_length: "userinfo_len s = Some m \<Longrightarrow> m \<le> length s"
  using length_takeWhile_le [of "\<lambda>c. \<not> white c" s] by (auto simp: userinfo_len_def Let_def split: if_split_asm)

lemma redact_userinfo_blank: "white b \<Longrightarrow> redact_userinfo w (s @ b # t) = redact_userinfo w s @ b # redact_userinfo False t"
proof (induction w s rule: redact_userinfo.induct)
  case (1 w)
  with white_not_word [of b] show ?case by (cases w) (simp_all add: scheme_head_def)
next
  case (2 w c s)
  have head: "scheme_head (c # s @ b # t) = scheme_head (c # s)"
    using scheme_head_stop [OF \<open>white b\<close>, of "c # s" t] by simp
  show ?case
  proof (cases "if w then None else scheme_head (c # s)")
    case None
    with 2 head show ?thesis by (cases w) simp_all
  next
    case (Some n)
    then have n: "n \<le> length (c # s)" "\<not> w" "scheme_head (c # s) = Some n"
      by (auto split: if_split_asm dest: scheme_head_length)
    have dn: "drop n ((c # s) @ b # t) = drop n (c # s) @ b # t" unfolding drop_append using n(1) by simp
    show ?thesis
    proof (cases "userinfo_len (drop n (c # s))")
      case None
      with 2(2) [OF Some None \<open>white b\<close>] n head dn userinfo_len_stop [OF \<open>white b\<close>] show ?thesis by simp
    next
      case m: (Some m)
      have len: "n + m \<le> length (c # s)" using userinfo_len_length [OF m] n(1) by simp
      have "drop (n + m) ((c # s) @ b # t) = drop (n + m) (c # s) @ b # t" unfolding drop_append using len by simp
      moreover have "take n ((c # s) @ b # t) = take n (c # s)" unfolding take_append using n(1) by simp
      ultimately show ?thesis
        using 2(3) [OF Some m \<open>white b\<close>] m n head dn userinfo_len_stop [OF \<open>white b\<close>] by simp
    qed
  qed
qed

lemma redact_command_blank: "white b \<Longrightarrow> redact_command (s @ b # t) = redact_command s @ b # redact_command t"
  by (simp add: redact_command_def redact_ntrip_blank redact_userinfo_blank)

lemma no_userinfo: "CHR ''@'' \<notin> set s \<Longrightarrow> redact_userinfo w s = s"
proof (induction w s rule: redact_userinfo.induct)
  case (1 w)
  show ?case by simp
next
  case (2 w c s)
  have "userinfo_len (drop n (c # s)) = None" for n
    using 2(4) in_set_dropD [of "CHR ''@''" n "c # s"] set_takeWhileD [of "CHR ''@''" _ "drop n (c # s)"]
    unfolding userinfo_len_def Let_def by (auto split: if_splits)
  with 2 show ?case by (auto split: option.split)
qed

definition ntrip_scheme :: "string \<Rightarrow> bool" where
  "ntrip_scheme s \<longleftrightarrow> map lower s \<in> {''ntrip'', ''ntrips'', ''ntripc''}"

lemma lower_colon: "lower x = CHR '':'' \<longleftrightarrow> x = CHR '':''"
proof (cases "CHR ''A'' \<le> x \<and> x \<le> CHR ''Z''")
  case True
  then have "65 \<le> (of_char x :: nat) \<and> (of_char x :: nat) \<le> 90" by (simp add: less_eq_char_def)
  moreover have "x \<noteq> CHR '':''" using True by (auto simp: less_eq_char_def)
  moreover have "char_of (of_char x + 32 :: nat) \<noteq> CHR '':''"
  proof
    assume "char_of (of_char x + 32 :: nat) = CHR '':''"
    then have "(of_char (char_of (of_char x + 32 :: nat)) :: nat) = 58" by simp
    with calculation(1) show False by simp
  qed
  ultimately show ?thesis using True by (simp add: lower_def)
qed (auto simp: lower_def)

lemma ntrip_head_scheme: "ntrip_scheme sch \<Longrightarrow> ntrip_head (sch @ ''://'' @ r) = Some (length sch)"
proof -
  assume "ntrip_scheme sch"
  then have m: "map lower sch \<in> {''ntrip'', ''ntrips'', ''ntripc''}" by (simp add: ntrip_scheme_def)
  then have "length sch = 5 \<or> length sch = 6" by (auto dest!: arg_cong [of _ _ length])
  moreover have "map lower ''://'' = ''://''" by code_simp
  ultimately show ?thesis using m by (auto simp: ntrip_head_def startswith_def dest: arg_cong [of _ _ length])
qed

lemma scheme_no_at: "ntrip_scheme sch \<Longrightarrow> CHR ''@'' \<notin> set sch"
proof
  assume s: "ntrip_scheme sch" and "CHR ''@'' \<in> set sch"
  then have "lower (CHR ''@'') \<in> set (map lower sch)" by auto
  moreover have "lower (CHR ''@'') = CHR ''@''" by code_simp
  ultimately show False using s by (auto simp: ntrip_scheme_def)
qed

lemma redact_ntrip_url:
  assumes "ntrip_scheme sch" and "token secret"
  shows "redact_command (sch @ ''://'' @ secret) = sch @ ''://'' @ REDACTED"
proof -
  obtain c s where cs: "sch = c # s" using assms(1) by (cases sch) (auto simp: ntrip_scheme_def)
  have dw: "dropWhile (\<lambda>c. \<not> white c) secret = []" using assms(2) by (simp add: token_def list_all_iff)
  have "take (length sch) (sch @ ''://'' @ secret) = sch" by simp
  moreover have "drop (length sch + 3) (sch @ ''://'' @ secret) = secret" by simp
  ultimately have "redact_ntrip False (sch @ ''://'' @ secret)
      = sch @ ''://'' @ REDACTED @ redact_ntrip False (dropWhile (\<lambda>c. \<not> white c) secret)"
    using ntrip_head_scheme [OF assms(1), of secret] unfolding cs by simp
  then have "redact_ntrip False (sch @ ''://'' @ secret) = sch @ ''://'' @ REDACTED" unfolding dw by simp
  moreover have "CHR ''@'' \<notin> set (sch @ ''://'' @ REDACTED)"
    using scheme_no_at [OF assms(1)] by (simp add: REDACTED_def)
  ultimately show ?thesis by (simp add: redact_command_def no_userinfo)
qed

text \<open>C31. What is recorded of a command line does not depend on the NTRIP data in it: an argument that is an NTRIP
  URL (in any case of its letters, over TLS or not) becomes its scheme and the mark, whatever the text
  after the scheme is and whatever stands before and after the argument, and the rest of the line is
  redacted as if the argument were not there.\<close>

theorem redaction_hides_secrets:
  assumes "ntrip_scheme sch" and "token secret"
  shows "redact_command (sch @ ''://'' @ secret) = sch @ ''://'' @ REDACTED
     \<and> redact_command (before @ '' '' @ sch @ ''://'' @ secret @ '' '' @ after)
         = redact_command before @ '' '' @ sch @ ''://'' @ REDACTED @ '' '' @ redact_command after"
proof -
  have blank: "redact_command (s @ '' '' @ t) = redact_command s @ '' '' @ redact_command t" for s t
    using redact_command_blank [of "CHR '' ''" s t] by (simp add: white_def)
  have "redact_command (before @ '' '' @ sch @ ''://'' @ secret @ '' '' @ after)
      = redact_command before @ '' '' @ redact_command ((sch @ ''://'' @ secret) @ '' '' @ after)"
    using blank [of before "sch @ ''://'' @ secret @ '' '' @ after"] by simp
  also have "\<dots> = redact_command before @ '' '' @ (sch @ ''://'' @ REDACTED) @ '' '' @ redact_command after"
    unfolding blank redact_ntrip_url [OF assms] ..
  finally show ?thesis using redact_ntrip_url [OF assms] by simp
qed

theorem redaction_hides_secrets_witness:
  "redact_command (''str2str -in '' @ ''NTRIP://user:pw@caster:2101/mount'' @ '' -out serial'')
     = ''str2str -in NTRIP://<redacted> -out serial''"
proof -
  have "ntrip_scheme ''NTRIP''" "token ''user:pw@caster:2101/mount''" by code_simp+
  from redaction_hides_secrets [OF this, of "''str2str -in''" "''-out serial''"]
  have "redact_command (''str2str -in'' @ '' '' @ ''NTRIP'' @ ''://'' @ ''user:pw@caster:2101/mount'' @ '' '' @ ''-out serial'')
     = redact_command ''str2str -in'' @ '' '' @ ''NTRIP'' @ ''://'' @ REDACTED @ '' '' @ redact_command ''-out serial''" ..
  moreover have "redact_command ''str2str -in'' = ''str2str -in''" "redact_command ''-out serial'' = ''-out serial''" by code_simp+
  ultimately show ?thesis by (simp add: REDACTED_def)
qed

end
