(* ===== verification/Gnss_Config.thy ===== *)
theory Gnss_Config
  imports Redaction "HOL-Library.AList" "HOL-Library.List_Lexorder"
begin

text \<open>
  \<^verbatim>\<open>gouda_core/gnss_config.py\<close> (ND-19): the settings of the GNSS driver and the private file with the
  NTRIP data.

  The files are arguments: the parsed YAML document or the exception of reading it.  \<open>pint\<close> and \<open>fmt\<close> are
  Python's \<^verbatim>\<open>int(text)\<close> and \<^verbatim>\<open>str(value)\<close>.  The texts of notes and problems are constructors that hold
  what the texts name.
\<close>

section \<open>The connection\<close>

datatype gnss_connection = Gnss_serial string | Gnss_tcp string int

text \<open>\<^verbatim>\<open>ipaddress.IPv4Address\<close> of a text: four decimal octets without leading zeros; \<open>None\<close> for its ValueError.\<close>

definition octet :: "string \<Rightarrow> nat option" where
  "octet s = (if digits s \<and> length s \<le> 3 \<and> (length s = 1 \<or> hd s \<noteq> CHR ''0'') \<and> dec_value s \<le> 255 then Some (dec_value s) else None)"

definition ipv4 :: "string \<Rightarrow> nat option" where
  "ipv4 s = (case map octet (split_on (CHR ''.'') s) of
     [Some a, Some b, Some c, Some d] \<Rightarrow> Some (((a * 256 + b) * 256 + c) * 256 + d)
   | _ \<Rightarrow> None)"

text \<open>\<^verbatim>\<open>s.rpartition(':')\<close> without the separator.\<close>

definition rpartition_colon :: "string \<Rightarrow> string \<times> string" where
  "rpartition_colon s =
     (if CHR '':'' \<in> set s
      then (let r = rev s; port = takeWhile (\<lambda>c. c \<noteq> CHR '':'') r in (rev (drop (length port + 1) r), rev port))
      else ([], s))"

fun parse_device :: "(string \<Rightarrow> int option) \<Rightarrow> pyval \<Rightarrow> gnss_connection option result" where
  "parse_device pint (PStr s) =
     (if startswith s ''tcp://'' then
        (case rpartition_colon (drop 6 s) of (host, port) \<Rightarrow>
           (case (ipv4 host, pint port) of (Some _, Some n) \<Rightarrow> Inr (Some (Gnss_tcp host n)) | _ \<Rightarrow> Inr None))
      else if startswith s ''serial:'' then
        (let path = drop 7 s in Inr (if by_id_problem (PStr path) = None then Some (Gnss_serial path) else None))
      else Inr None)"
| "parse_device pint v = (if truthy v then Inl AttributeError else Inr None)"

text \<open>\<^verbatim>\<open>peer_interface\<close>: a network is an address and the length of its prefix; one that is no network is passed over.\<close>

definition in_network :: "nat \<Rightarrow> string option \<times> nat option \<Rightarrow> bool" where
  "in_network target a = (case a of
     (Some local, Some len) \<Rightarrow>
       (case ipv4 local of
          None \<Rightarrow> False
        | Some n \<Rightarrow> len \<le> 32 \<and> n div 2 ^ (32 - len) = target div 2 ^ (32 - len))
   | _ \<Rightarrow> False)"

definition peer_interface :: "(string \<Rightarrow> net_link list option) \<Rightarrow> string \<Rightarrow> string \<Rightarrow> string option" where
  "peer_interface loads ip text =
     (case (loads (if text = [] then ''[]'' else text), ipv4 ip) of
        (Some links, Some target) \<Rightarrow> map_option (\<lambda>l. ifname l @ '' #'' @ ifindex l)
          (find (\<lambda>l. list_ex (\<lambda>a. in_network target a \<and> ifname l \<noteq> ''lo'') (addr_info l)) links)
      | _ \<Rightarrow> None)"

section \<open>The private file\<close>

record ntrip =
  nt_caster :: string
  nt_port :: int
  nt_mountpoint :: string
  nt_user :: string
  nt_password :: string

definition NTRIP_KEYS :: "string list" where
  "NTRIP_KEYS = [''caster'', ''port'', ''mountpoint'', ''user'', ''password'']"

datatype ntrip_problem =
    Not_a_mapping
  | Missing string
  | Port_not_a_port
  | Not_a_string string string \<comment> \<open>key and name of the type\<close>
  | Empty_or_spaces string
  | Mountpoint_slash
  | Forbidden_character string

fun type_name :: "pyval \<Rightarrow> string" where
  "type_name PNone = ''NoneType''"
| "type_name (PBool _) = ''bool''"
| "type_name (PInt _) = ''int''"
| "type_name (PFloat _) = ''float''"
| "type_name (PStr _) = ''str''"
| "type_name (PList _) = ''list''"
| "type_name (PDict _) = ''dict''"

definition FORBIDDEN :: "(string \<times> string) list" where
  "FORBIDDEN = [(''caster'', '':/@#''), (''mountpoint'', '':#''), (''user'', '':#''), (''password'', ''#'')]"

definition port_problem :: "pyval option \<Rightarrow> ntrip_problem list" where
  "port_problem v = (case v of
     None \<Rightarrow> []
   | Some (PInt n) \<Rightarrow> if 0 < n \<and> n < 65536 then [] else [Port_not_a_port]
   | Some _ \<Rightarrow> [Port_not_a_port])"

definition text_problem :: "string \<Rightarrow> pyval option \<Rightarrow> ntrip_problem list" where
  "text_problem k v = (case v of
     None \<Rightarrow> []
   | Some (PStr s) \<Rightarrow> if s = [] \<or> list_ex white s then [Empty_or_spaces k] else []
   | Some v \<Rightarrow> [Not_a_string k (type_name v)])"

definition character_problem :: "string \<Rightarrow> pyval option \<Rightarrow> string \<Rightarrow> ntrip_problem list" where
  "character_problem k v bad = (case v of
     Some (PStr s) \<Rightarrow> if list_ex (\<lambda>c. c \<in> set s) bad then [Forbidden_character k] else []
   | _ \<Rightarrow> [])"

fun ntrip_problems :: "pyval \<Rightarrow> ntrip_problem list" where
  "ntrip_problems (PDict kvs) =
     map Missing (filter (\<lambda>k. map_of kvs k = None) NTRIP_KEYS)
     @ port_problem (map_of kvs ''port'')
     @ concat (map (\<lambda>k. text_problem k (map_of kvs k)) [''caster'', ''mountpoint'', ''user'', ''password''])
     @ (case map_of kvs ''mountpoint'' of Some (PStr s) \<Rightarrow> if CHR ''/'' \<in> set s then [Mountpoint_slash] else [] | _ \<Rightarrow> [])
     @ concat (map (\<lambda>(k, bad). character_problem k (map_of kvs k) bad) FORBIDDEN)"
| "ntrip_problems _ = [Not_a_mapping]"

fun text_of :: "pyval option \<Rightarrow> string" where
  "text_of (Some (PStr s)) = s"
| "text_of _ = []"

fun ntrip_of :: "pyval \<Rightarrow> ntrip" where
  "ntrip_of (PDict kvs) = \<lparr>nt_caster = text_of (map_of kvs ''caster''),
     nt_port = (case map_of kvs ''port'' of Some (PInt n) \<Rightarrow> n | _ \<Rightarrow> 0), nt_mountpoint = text_of (map_of kvs ''mountpoint''),
     nt_user = text_of (map_of kvs ''user''), nt_password = text_of (map_of kvs ''password'')\<rparr>"
| "ntrip_of _ = \<lparr>nt_caster = [], nt_port = 0, nt_mountpoint = [], nt_user = [], nt_password = []\<rparr>"

datatype rtk_note =
    No_config_dir
  | Rtk_not_found
  | Rtk_exposed
  | Rtk_unreadable pyexc
  | Rtk_not_mapping
  | Rtk_old_format
  | Rtk_problems "ntrip_problem list"
  | Rtk_used "string list" \<comment> \<open>the ignored keys\<close>
  | Rtk_no_input_port rtk_note

text \<open>A file: its permission bits (\<open>None\<close>: \<^verbatim>\<open>os.stat\<close> fails) and what reading and parsing it gives.\<close>

record private_file =
  pf_mode :: "nat option"
  pf_doc :: "pyval result"

text \<open>\<open>file\<close>: no config directory; no file in it; or the file.  The group and other bits are the lowest six.  An
  OSError and a YAMLError are caught; any other exception of the reading (a text that is not UTF-8: ValueError)
  leaves the function.\<close>

definition read_document :: "pyval \<Rightarrow> ntrip option \<times> rtk_note" where
  "read_document doc = (case doc of
     PDict kvs \<Rightarrow>
       (if map_of kvs ''rtk_settings'' \<noteq> None then (None, Rtk_old_format)
        else let ps = ntrip_problems (dict_get kvs ''ntrip'' PNone) in
          if ps \<noteq> [] then (None, Rtk_problems ps)
          else (Some (ntrip_of (dict_get kvs ''ntrip'' PNone)), Rtk_used (sort (filter (\<lambda>k. k \<noteq> ''ntrip'') (map fst kvs)))))
   | _ \<Rightarrow> (None, Rtk_not_mapping))"

definition read_ntrip :: "private_file option option \<Rightarrow> (ntrip option \<times> rtk_note) result" where
  "read_ntrip file = (case file of
     None \<Rightarrow> Inr (None, No_config_dir)
   | Some None \<Rightarrow> Inr (None, Rtk_not_found)
   | Some (Some f) \<Rightarrow>
       (case pf_mode f of
          None \<Rightarrow> Inr (None, Rtk_unreadable OSError)
        | Some m \<Rightarrow>
            if m mod 64 \<noteq> 0 then Inr (None, Rtk_exposed)
            else (case pf_doc f of
                Inl e \<Rightarrow> if e \<in> {OSError, YAMLError} then Inr (None, Rtk_unreadable e) else Inl e
              | Inr doc \<Rightarrow> Inr (read_document doc))))"

section \<open>The parameter file of the driver\<close>

definition KEYS :: "string list" where
  "KEYS = [''device'', ''configure_rx'']"

datatype parameter_problem = Device_not_accepted string

type_synonym dict = "(string \<times> pyval) list"

text \<open>\<^verbatim>\<open>d.update\<close>: a key that is there keeps its place.\<close>

definition updated :: "dict \<Rightarrow> dict \<Rightarrow> dict" where
  "updated new d = foldl (\<lambda>d (k, v). AList.update k v d) d new"

text \<open>\<^verbatim>\<open>v or {}\<close>, taken as a mapping; \<open>e\<close>: what the use of anything else raises.\<close>

fun mapping_of :: "pyexc \<Rightarrow> pyval \<Rightarrow> dict result" where
  "mapping_of e (PDict kvs) = Inr kvs"
| "mapping_of e v = (if truthy v then Inl e else Inr [])"

definition fixed_settings :: dict where
  "fixed_settings =
     [(''frame_id'', PStr ''gnss_link''), (''aux1_frame_id'', PStr ''gnss_aux1_link''), (''vehicle_frame_id'', PStr ''base_link''),
      (''poi_frame_id'', PStr ''base_link''), (''get_spatial_config_from_tf'', PBool True), (''receiver_type'', PStr ''gnss''),
      (''multi_antenna'', PBool True), (''use_gnss_time'', PBool False)]"

definition published_messages :: dict where
  "published_messages = [(''tf'', PBool False), (''navsatfix'', PBool True), (''pvtgeodetic'', PBool True),
     (''atteuler'', PBool True), (''attcoveuler'', PBool True)]"

definition with_given :: "string \<Rightarrow> pyval \<Rightarrow> dict \<Rightarrow> dict" where
  "with_given k v d = (if v = PNone then d else AList.update k v d)"

definition with_input_port :: "(pyval \<Rightarrow> string) \<Rightarrow> pyval \<Rightarrow> dict \<Rightarrow> dict result" where
  "with_input_port fmt port p =
     res_bind (mapping_of AttributeError (dict_get p ''rtk_settings'' PNone)) (\<lambda>rtk.
     res_bind (mapping_of TypeError (dict_get rtk ''serial_1'' PNone)) (\<lambda>serial_1.
       let serial_1 = AList.update ''port'' (PStr (py_str fmt port)) serial_1
       in Inr (AList.update ''rtk_settings'' (PDict (AList.update ''serial_1'' (PDict serial_1) rtk)) p)))"

definition driver_parameters ::
  "(string \<Rightarrow> int option) \<Rightarrow> (pyval \<Rightarrow> string) \<Rightarrow> dict \<Rightarrow> dict \<Rightarrow> bool \<Rightarrow> (dict \<times> string list \<times> parameter_problem list) result" where
  "driver_parameters pint fmt template params corrections =
     (let device = dict_get params ''device'' PNone; rx = dict_get params ''configure_rx'' PNone;
          port = dict_get params ''rtk_input_port'' PNone;
          missing = filter (\<lambda>k. dict_get params k PNone = PNone) KEYS in
      res_bind (if device = PNone then Inr [] else
          res_bind (parse_device pint device) (\<lambda>d. Inr (if d = None then [Device_not_accepted (py_str fmt device)] else []))) (\<lambda>problems.
      let p = with_given ''configure_rx'' (if rx = PNone then PNone else PBool (truthy rx)) (with_given ''device'' device template);
          p = updated fixed_settings p in
      res_bind (mapping_of TypeError (dict_get p ''publish'' PNone)) (\<lambda>pub.
      let p = AList.update ''publish'' (PDict (updated published_messages pub)) p in
      res_bind (if corrections \<and> truthy port then with_input_port fmt port p else Inr p) (\<lambda>p.
      Inr (p, missing, problems)))))"

record driver_result =
  re_missing :: "string list"
  re_problems :: "parameter_problem list"
  re_rtk :: rtk_note
  re_corrections :: bool
  re_baud :: pyval

definition template_baud :: "dict \<Rightarrow> pyval result" where
  "template_baud t =
     res_bind (mapping_of AttributeError (dict_get t ''rtk_settings'' PNone)) (\<lambda>rtk.
     res_bind (mapping_of AttributeError (dict_get rtk ''serial_1'' PNone)) (\<lambda>serial_1. Inr (dict_get serial_1 ''baud_rate'' PNone)))"

text \<open>The result, the secret, and the file that is written (\<open>None\<close>: none).  \<open>disk\<close>: the folder and the file can
  be written.\<close>

definition prepare_driver ::
  "(string \<Rightarrow> int option) \<Rightarrow> (pyval \<Rightarrow> string) \<Rightarrow> pyval result \<Rightarrow> dict \<Rightarrow> private_file option option \<Rightarrow> bool
     \<Rightarrow> (driver_result \<times> ntrip option \<times> dict option) result" where
  "prepare_driver pint fmt template params file disk =
     res_bind template (\<lambda>t.
     res_bind (read_ntrip file) (\<lambda>(ntrip, note).
     res_bind (mapping_of AttributeError t) (\<lambda>t.
       let no_port = ntrip \<noteq> None \<and> \<not> truthy (dict_get params ''rtk_input_port'' PNone);
           ntrip = (if no_port then None else ntrip); note = (if no_port then Rtk_no_input_port note else note) in
     res_bind (driver_parameters pint fmt t params (ntrip \<noteq> None)) (\<lambda>(p, missing, problems).
     res_bind (template_baud t) (\<lambda>baud.
       let r = \<lparr>re_missing = missing, re_problems = problems, re_rtk = note, re_corrections = ntrip \<noteq> None, re_baud = baud\<rparr> in
       if missing \<noteq> [] \<or> problems \<noteq> [] then Inr (r, ntrip, None)
       else if \<not> disk then Inl OSError
       else Inr (r, ntrip, Some p))))))"

definition write_parameter_file ::
  "(string \<Rightarrow> int option) \<Rightarrow> (pyval \<Rightarrow> string) \<Rightarrow> pyval result \<Rightarrow> dict \<Rightarrow> private_file option option \<Rightarrow> bool
     \<Rightarrow> driver_result result" where
  "write_parameter_file pint fmt template params file disk =
     res_bind (prepare_driver pint fmt template params file disk) (\<lambda>(r, _). Inr r)"

section \<open>What the driver gets\<close>

lemma find_updated: "map_of (updated new d) k = (case map_of (rev new) k of None \<Rightarrow> map_of d k | Some v \<Rightarrow> Some v)"
  by (induction new arbitrary: d)
    (auto simp: updated_def update_conv' map_add_def split: option.split)

lemma validated:
  assumes "ntrip_problems v = []"
  obtains kvs c n m u p where "v = PDict kvs" "map_of kvs ''caster'' = Some (PStr c)" "map_of kvs ''port'' = Some (PInt n)"
    "map_of kvs ''mountpoint'' = Some (PStr m)" "map_of kvs ''user'' = Some (PStr u)" "map_of kvs ''password'' = Some (PStr p)"
    "0 < n \<and> n < 65536" "\<forall>s \<in> {c, m, u, p}. s \<noteq> [] \<and> \<not> list_ex white s"
    "CHR ''/'' \<notin> set m" "\<forall>x \<in> set '':/@#''. x \<notin> set c" "\<forall>x \<in> set '':#''. x \<notin> set m \<union> set u" "CHR ''#'' \<notin> set p"
proof -
  obtain kvs where v: "v = PDict kvs" using assms by (cases v) auto
  have there: "\<And>k. k \<in> set NTRIP_KEYS \<Longrightarrow> map_of kvs k \<noteq> None"
    using assms by (auto simp: v filter_empty_conv)
  obtain c where c: "map_of kvs ''caster'' = Some (PStr c)"
    using assms there [of "''caster''"] by (cases "map_of kvs ''caster''"; simp add: v NTRIP_KEYS_def) (case_tac a; simp add: text_problem_def)
  obtain m where m: "map_of kvs ''mountpoint'' = Some (PStr m)"
    using assms there [of "''mountpoint''"] by (cases "map_of kvs ''mountpoint''"; simp add: v NTRIP_KEYS_def) (case_tac a; simp add: text_problem_def)
  obtain u where u: "map_of kvs ''user'' = Some (PStr u)"
    using assms there [of "''user''"] by (cases "map_of kvs ''user''"; simp add: v NTRIP_KEYS_def) (case_tac a; simp add: text_problem_def)
  obtain p where p: "map_of kvs ''password'' = Some (PStr p)"
    using assms there [of "''password''"] by (cases "map_of kvs ''password''"; simp add: v NTRIP_KEYS_def) (case_tac a; simp add: text_problem_def)
  obtain n where n: "map_of kvs ''port'' = Some (PInt n)" "0 < n \<and> n < 65536"
    using assms there [of "''port''"]
    by (cases "map_of kvs ''port''"; simp add: v NTRIP_KEYS_def) (case_tac a; simp add: port_problem_def split: if_split_asm)
  show thesis
    using assms by (intro that [OF v c n(1) m u p n(2)]) (auto simp: v c m u p text_problem_def character_problem_def FORBIDDEN_def split: if_split_asm)
qed

text \<open>The file of the driver is the template but for the keys of the connection, of the frames, of the published
  messages, and, with corrections, one port.\<close>

lemma template_is_kept:
  assumes "driver_parameters pint fmt template params corrections = Inr (p, missing, problems)"
  shows "k \<notin> {''device'', ''configure_rx'', ''publish'', ''rtk_settings''} \<union> set (map fst fixed_settings) \<Longrightarrow> map_of p k = map_of template k"
    and "\<not> corrections \<Longrightarrow> map_of p ''rtk_settings'' = map_of template ''rtk_settings''"
proof -
  define q where "q = updated fixed_settings (with_given ''configure_rx'' (if dict_get params ''configure_rx'' PNone = PNone then PNone
      else PBool (truthy (dict_get params ''configure_rx'' PNone))) (with_given ''device'' (dict_get params ''device'' PNone) template))"
  obtain pub where p: "(if corrections \<and> truthy (dict_get params ''rtk_input_port'' PNone)
      then with_input_port fmt (dict_get params ''rtk_input_port'' PNone) (AList.update ''publish'' pub q) else Inr (AList.update ''publish'' pub q)) = Inr p"
    using assms unfolding driver_parameters_def Let_def q_def [symmetric]
    by (fastforce simp: res_bind_Inr_iff split: if_split_asm)
  have q: "map_of q k = map_of template k" if "k \<notin> {''device'', ''configure_rx''} \<union> set (map fst fixed_settings)" for k
    using that unfolding q_def find_updated
    by (auto simp: with_given_def update_conv' fixed_settings_def split: option.split)
  show "map_of p k = map_of template k"
    if "k \<notin> {''device'', ''configure_rx'', ''publish'', ''rtk_settings''} \<union> set (map fst fixed_settings)"
    using that p q [of k] by (auto simp: with_input_port_def res_bind_Inr_iff update_conv' Let_def split: if_split_asm)
  show "map_of p ''rtk_settings'' = map_of template ''rtk_settings''" if "\<not> corrections"
    using that p q [of "''rtk_settings''"] by (simp add: update_conv' fixed_settings_def) (auto simp: update_conv')
qed

text \<open>Two private files that give a valid section and have the same other keys: what may be recorded and the file of the
  driver are the same.\<close>

definition same_but_secret :: "private_file option option \<Rightarrow> private_file option option \<Rightarrow> bool" where
  "same_but_secret f g \<longleftrightarrow> f = g \<or> (\<exists>a b x y note. read_ntrip f = Inr (Some x, note) \<and> read_ntrip g = Inr (Some y, note)
     \<and> f = Some (Some a) \<and> g = Some (Some b))"

lemma same_keys_same_note:
  assumes "pf_doc a = Inr (PDict kvs)" "pf_doc b = Inr (PDict kvs')" "pf_mode a = Some m" "pf_mode b = Some m'"
    and "m mod 64 = 0" "m' mod 64 = 0" "map fst kvs = map fst kvs'" "map_of kvs ''rtk_settings'' = None"
    and "ntrip_problems (dict_get kvs ''ntrip'' PNone) = []" "ntrip_problems (dict_get kvs' ''ntrip'' PNone) = []"
  shows "same_but_secret (Some (Some a)) (Some (Some b))"
proof -
  have "map_of kvs' ''rtk_settings'' = None" using assms(7,8) by (metis map_of_eq_None_iff set_map)
  with assms show ?thesis by (simp add: same_but_secret_def read_ntrip_def read_document_def)
qed

lemma driver_hides_ntrip:
  assumes "same_but_secret f g"
  shows "res_bind (prepare_driver pint fmt template params f disk) (\<lambda>(r, n, w). Inr (r, n \<noteq> None, w))
       = res_bind (prepare_driver pint fmt template params g disk) (\<lambda>(r, n, w). Inr (r, n \<noteq> None, w))"
proof (cases "f = g")
  case False
  with assms obtain x y nt where r: "read_ntrip f = Inr (Some x, nt)" "read_ntrip g = Inr (Some y, nt)"
    by (auto simp: same_but_secret_def)
  let ?used = "truthy (dict_get params ''rtk_input_port'' PNone)"
  show ?thesis
  proof (cases template)
    case t: (Inr t)
    show ?thesis
    proof (cases "mapping_of AttributeError t")
      case d: (Inr d)
      show ?thesis
      proof (cases "driver_parameters pint fmt d params ?used")
        case (Inr q)
        with t d show ?thesis
          by (cases q; cases ?used; cases "template_baud d") (auto simp: prepare_driver_def r Let_def)
      qed (use t d in \<open>cases ?used; simp add: prepare_driver_def r Let_def\<close>)
    qed (simp add: prepare_driver_def r t)
  qed (simp add: prepare_driver_def)
qed simp

end
