(* ===== verification/Sensor_Supervisor.thy ===== *)
theory Sensor_Supervisor
  imports Gnss_Config Contracts
begin

text \<open>
  \<^verbatim>\<open>gouda_core/sensor_supervisor_node.py\<close> (ND-18): the drivers as child processes, started and re-created
  by the identity of their device, with what is recorded of it.

  A \<open>world\<close> is what the operating system answers during one evaluation of a driver: the file system, the
  output of \<^verbatim>\<open>ip -j -4 addr\<close>, \<^verbatim>\<open>/proc\<close>, whether the process can be started, how many stop signals it
  ignores.  How the commands are put together (\<^verbatim>\<open>_build_drivers\<close>) and what is read of the relay is in
  \<open>Sensor_Drivers\<close> and \<open>Ntrip_Relay\<close>.

  Only the driver of the LiDAR has the attribute \<^verbatim>\<open>host_ip\<close>: the evaluation of the relay without a device ends
  the thread of the evaluations with an AttributeError (\<open>sv_loop\<close>).
\<close>

datatype process = Running | Exited

record driver =
  dr_command :: bool \<comment> \<open>there is a command: settings complete and driver installed\<close>
  dr_device :: watched_device
  dr_proc :: "process option"
  dr_serial_path :: "string option"
  dr_by_id :: "string option"
  dr_host_ip :: "string option"
  dr_udp_port :: "nat option"
  dr_gnss :: "gnss_connection option"

record world =
  w_fs :: filesystem
  w_addr :: "string option" \<comment> \<open>output of \<^verbatim>\<open>ip\<close>; \<open>None\<close>: it could not be run\<close>
  w_loads :: "string \<Rightarrow> net_link list option"
  w_proc :: proc_table
  w_udp :: "string option"
  w_udp6 :: "string option"
  w_pid :: nat \<comment> \<open>the supervisor's own\<close>
  w_cmdline :: "nat \<Rightarrow> string option"
  w_starts :: bool
  w_ignored :: nat
  w_disk :: bool

datatype decision =
    Device_present string string
  | Device_absent string
  | Device_reopened string string
  | Device_in_use string string "nat list" "(nat \<times> string) list"
  | Device_reconnected string string string
  | Driver_started string string
  | Driver_restarted string string
  | Driver_stopped string
  | Start_failed string
  | Stop_escalated string
  | Driver_exited string

record supervisor =
  sv_drivers :: "string \<Rightarrow> driver"
  sv_previous :: "string \<rightharpoonup> string"
  sv_file :: "(string \<rightharpoonup> string) option" \<comment> \<open>\<^verbatim>\<open>sensor_devices.json\<close>\<close>
  sv_log :: "decision list" \<comment> \<open>newest first\<close>
  sv_stopping :: bool
  sv_loop :: bool \<comment> \<open>the thread of the evaluations runs\<close>

definition KEYS :: "string list" where
  "KEYS = [''lidar'', ''imu'', ''gnss'', ''ntrip'']"

definition log_decision :: "decision \<Rightarrow> supervisor \<Rightarrow> supervisor" where
  "log_decision e s = s\<lparr>sv_log := e # sv_log s\<rparr>"

definition set_driver :: "string \<Rightarrow> driver \<Rightarrow> supervisor \<Rightarrow> supervisor" where
  "set_driver k d s = s\<lparr>sv_drivers := (sv_drivers s)(k := d)\<rparr>"

definition set_device :: "string \<Rightarrow> watched_device \<Rightarrow> supervisor \<Rightarrow> supervisor" where
  "set_device k wd s = set_driver k (sv_drivers s k\<lparr>dr_device := wd\<rparr>) s"

definition set_proc :: "string \<Rightarrow> process option \<Rightarrow> supervisor \<Rightarrow> supervisor" where
  "set_proc k p s = set_driver k (sv_drivers s k\<lparr>dr_proc := p\<rparr>) s"

section \<open>Identities and users of the devices\<close>

definition observe :: "world \<Rightarrow> string \<Rightarrow> driver \<Rightarrow> string option result" where
  "observe w k d =
     (let tty = \<lambda>p. tty_identity (w_fs w) p ''/sys'' in
      case dr_serial_path d of
        Some p \<Rightarrow> Inr (tty p)
      | None \<Rightarrow>
          if k = ''imu'' then Inr (case dr_by_id d of None \<Rightarrow> None | Some p \<Rightarrow> tty p)
          else (case (if k = ''gnss'' then Some (dr_gnss d) else None) of
              Some None \<Rightarrow> Inr None
            | Some (Some (Gnss_serial p)) \<Rightarrow> Inr (tty p)
            | Some (Some (Gnss_tcp host port)) \<Rightarrow>
                Inr (case w_addr w of None \<Rightarrow> None | Some out \<Rightarrow> peer_interface (w_loads w) host out)
            | None \<Rightarrow> (case w_addr w of
                  None \<Rightarrow> Inr None
                | Some out \<Rightarrow>
                    if k \<noteq> ''lidar'' then Inl AttributeError
                    else Inr (case dr_host_ip d of None \<Rightarrow> None | Some ip \<Rightarrow> net_identity (w_loads w) ip out))))"

definition device_users :: "world \<Rightarrow> string \<Rightarrow> driver \<Rightarrow> nat list" where
  "device_users w k d =
     (let fs = w_fs w; users = \<lambda>p. tty_users fs p (w_proc w) [w_pid w];
          there = \<lambda>p. (case p of None \<Rightarrow> False | Some p \<Rightarrow> fs_exists fs p) in
      if k = ''imu'' \<and> there (dr_by_id d) then users (the (dr_by_id d))
      else if there (dr_serial_path d) then users (the (dr_serial_path d))
      else (case (if k = ''gnss'' then dr_gnss d else None) of
          Some (Gnss_serial p) \<Rightarrow> if fs_exists fs p then users p else []
        | _ \<Rightarrow>
            if k = ''lidar'' then (case dr_udp_port d of None \<Rightarrow> []
              | Some port \<Rightarrow> udp_port_users port (w_udp w) (w_udp6 w) (w_proc w) [w_pid w])
            else []))"

section \<open>Processes\<close>

text \<open>\<^verbatim>\<open>_stop\<close>: three signals, each waited for; recorded when the process is still there.\<close>

definition stop_driver :: "world \<Rightarrow> string \<Rightarrow> supervisor \<Rightarrow> supervisor" where
  "stop_driver w k s =
     (let p = dr_proc (sv_drivers s k); s = set_proc k None s in
      if p = Some Running then (log_decision (Stop_escalated k) ^^ min 3 (w_ignored w)) s else s)"

definition start_driver :: "world \<Rightarrow> string \<Rightarrow> string \<Rightarrow> (string \<Rightarrow> string \<Rightarrow> decision) \<Rightarrow> supervisor \<Rightarrow> supervisor \<times> bool" where
  "start_driver w k i event s =
     (let users = device_users w k (sv_drivers s k) in
      if users \<noteq> [] then (log_decision (Device_in_use k i users (command_lines (w_cmdline w) users)) s, False)
      else if \<not> w_starts w then (set_proc k None (log_decision (Start_failed k) s), False)
      else (log_decision (event k i) (set_proc k (Some Running) s), True))"

definition save_identities :: "world \<Rightarrow> supervisor \<Rightarrow> supervisor" where
  "save_identities w s =
     (let p = merge_opened (sv_previous s) (map (\<lambda>k. (k, wd_identity (dr_device (sv_drivers s k)))) KEYS) in
      s\<lparr>sv_previous := p, sv_file := if w_disk w then Some p else sv_file s\<rparr>)"

section \<open>One evaluation\<close>

definition seen_only :: "string \<Rightarrow> string option \<Rightarrow> supervisor \<Rightarrow> supervisor" where
  "seen_only k observed s = set_device k (dr_device (sv_drivers s k)\<lparr>wd_seen := observed, wd_evaluated := True\<rparr>) s"

definition applied_and_saved :: "world \<Rightarrow> string \<Rightarrow> string option \<Rightarrow> action \<Rightarrow> supervisor \<Rightarrow> supervisor" where
  "applied_and_saved w k observed a s =
     save_identities w (set_device k (device_apply observed a (dr_device (sv_drivers s k))) s)"

definition presence :: "string \<Rightarrow> string option \<Rightarrow> supervisor \<Rightarrow> supervisor" where
  "presence k observed s =
     (if presence_changed (dr_device (sv_drivers s k)) observed
      then log_decision (case observed of Some i \<Rightarrow> Device_present k i | None \<Rightarrow> Device_absent k) s else s)"

definition act :: "world \<Rightarrow> string \<Rightarrow> string option \<Rightarrow> action \<Rightarrow> supervisor \<Rightarrow> supervisor" where
  "act w k observed a s = (case (a, observed) of
     (Act_start, Some i) \<Rightarrow>
       (let s = (if k = ''imu'' \<and> sv_previous s ''imu'' = Some i then log_decision (Device_reopened k i) s else s) in
        case start_driver w k i Driver_started s of
          (s, False) \<Rightarrow> seen_only k observed s
        | (s, True) \<Rightarrow> applied_and_saved w k observed a s)
   | (Act_restart, Some i) \<Rightarrow>
       (let s = stop_driver w k (log_decision (Device_reconnected k (the (wd_identity (dr_device (sv_drivers s k)))) i) s) in
        case start_driver w k i Driver_restarted s of
          (s, False) \<Rightarrow> applied_and_saved w k observed Act_stop s
        | (s, True) \<Rightarrow> applied_and_saved w k observed a s)
   | (Act_stop, _) \<Rightarrow> applied_and_saved w k observed a (log_decision (Driver_stopped k) (stop_driver w k s))
   | _ \<Rightarrow> applied_and_saved w k observed a s)"

definition evaluate_driver :: "world \<Rightarrow> string \<Rightarrow> supervisor \<Rightarrow> supervisor" where
  "evaluate_driver w k s =
     (let d = sv_drivers s k in case observe w k d of
        Inl e \<Rightarrow> s\<lparr>sv_loop := False\<rparr>
      | Inr observed \<Rightarrow>
          let a = decide (dr_device d) observed; s = presence k observed s in
          if \<not> dr_command d then seen_only k observed s else act w k observed a s)"

definition evaluate_next :: "(string \<Rightarrow> world) \<Rightarrow> supervisor \<Rightarrow> string \<Rightarrow> supervisor" where
  "evaluate_next w s k = (if sv_loop s then evaluate_driver (w k) k s else s)"

text \<open>The events: a device event (all drivers are evaluated), a process that ends by itself, the shutdown.\<close>

datatype supervisor_event = Wake "string \<Rightarrow> world" | Process_ends string | Shut_down world

definition process_ends :: "string \<Rightarrow> supervisor \<Rightarrow> supervisor" where
  "process_ends k s =
     (if dr_proc (sv_drivers s k) = Some Running
      then (if sv_stopping s then set_proc k (Some Exited) s
            else log_decision (Driver_exited k) (set_proc k (Some Exited) s)) else s)"

definition shut_down :: "world \<Rightarrow> supervisor \<Rightarrow> supervisor" where
  "shut_down w s = foldl (\<lambda>s k. stop_driver w k s) (s\<lparr>sv_stopping := True\<rparr>) KEYS"

fun supervisor_step :: "supervisor \<Rightarrow> supervisor_event \<Rightarrow> supervisor" where
  "supervisor_step s (Wake w) = (if sv_stopping s then s else foldl (evaluate_next w) s KEYS)"
| "supervisor_step s (Process_ends k) = process_ends k s"
| "supervisor_step s (Shut_down w) = shut_down w s"

text \<open>The supervisor after construction: drivers without a process, the identities of the file (nothing when it
  cannot be read).\<close>

definition load_previous :: "(string \<rightharpoonup> string) option \<Rightarrow> (string \<rightharpoonup> string)" where
  "load_previous file = (case file of None \<Rightarrow> Map.empty | Some p \<Rightarrow> p)"

definition new_supervisor :: "(string \<Rightarrow> driver) \<Rightarrow> (string \<rightharpoonup> string) option \<Rightarrow> supervisor" where
  "new_supervisor drivers file = \<lparr>sv_drivers = (\<lambda>k. drivers k\<lparr>dr_device := new_device, dr_proc := None\<rparr>),
     sv_previous = load_previous file, sv_file = file, sv_log = [], sv_stopping = False, sv_loop = True\<rparr>"

section \<open>The log determines the drivers\<close>

text \<open>The identity for which the driver of a device was last started according to the log, if it still is; and the logs in
  which every start has no such identity before it and every new enumeration is one.\<close>

fun owner :: "string \<Rightarrow> decision list \<Rightarrow> string option" where
  "owner k [] = None"
| "owner k (Driver_started k' i # h) = (if k' = k then Some i else owner k h)"
| "owner k (Driver_restarted k' i # h) = (if k' = k then Some i else owner k h)"
| "owner k (Driver_stopped k' # h) = (if k' = k then None else owner k h)"
| "owner k (Device_reconnected k' i j # h) = (if k' = k then None else owner k h)"
| "owner k (e # h) = owner k h"

fun lawful :: "string \<Rightarrow> decision list \<Rightarrow> bool" where
  "lawful k [] = True"
| "lawful k (Driver_started k' i # h) = ((k' = k \<longrightarrow> owner k h = None) \<and> lawful k h)"
| "lawful k (Driver_restarted k' i # h) = ((k' = k \<longrightarrow> owner k h = None) \<and> lawful k h)"
| "lawful k (Device_reconnected k' i j # h) = ((k' = k \<longrightarrow> owner k h = Some i \<and> i \<noteq> j) \<and> lawful k h)"
| "lawful k (e # h) = lawful k h"



lemma parts [simp]:
  "sv_drivers (log_decision e s) = sv_drivers s" "sv_log (log_decision e s) = e # sv_log s"
  "sv_drivers (set_driver k d s) = (sv_drivers s)(k := d)" "sv_log (set_driver k d s) = sv_log s"
  "sv_drivers (save_identities w s) = sv_drivers s" "sv_log (save_identities w s) = sv_log s"
  "sv_drivers (set_device k wd s) = (sv_drivers s)(k := sv_drivers s k\<lparr>dr_device := wd\<rparr>)" "sv_log (set_device k wd s) = sv_log s"
  "sv_drivers (set_proc k p s) = (sv_drivers s)(k := sv_drivers s k\<lparr>dr_proc := p\<rparr>)" "sv_log (set_proc k p s) = sv_log s"
  by (simp_all add: log_decision_def set_driver_def save_identities_def set_device_def set_proc_def Let_def)

lemma escalated:
  "sv_drivers ((log_decision (Stop_escalated k) ^^ n) s) = sv_drivers s"
  "owner k' (sv_log ((log_decision (Stop_escalated k) ^^ n) s)) = owner k' (sv_log s)"
  "lawful k' (sv_log ((log_decision (Stop_escalated k) ^^ n) s)) = lawful k' (sv_log s)"
  by (induction n) simp_all

lemma stop_driver_parts [simp]:
  "sv_drivers (stop_driver w k s) = (sv_drivers s)(k := sv_drivers s k\<lparr>dr_proc := None\<rparr>)"
  "owner k' (sv_log (stop_driver w k s)) = owner k' (sv_log s)"
  "lawful k' (sv_log (stop_driver w k s)) = lawful k' (sv_log s)"
  by (simp_all add: stop_driver_def Let_def escalated)





















section \<open>The restart rule over runs\<close>







text \<open>A run: the IMU is there, its driver ends, a device event changes nothing; after a new enumeration the driver is started again.\<close>

definition sample_fs :: "string \<Rightarrow> filesystem" where
  "sample_fs n = \<lparr>fs_exists = (\<lambda>p. p = ''/imu''), fs_realpath = (\<lambda>p. p), fs_text = (\<lambda>p. Some n)\<rparr>"

definition sample_world :: "string \<Rightarrow> world" where
  "sample_world n = \<lparr>w_fs = sample_fs n, w_addr = None, w_loads = (\<lambda>_. None), w_proc = Some [], w_udp = None,
     w_udp6 = None, w_pid = 1, w_cmdline = (\<lambda>_. None), w_starts = True, w_ignored = 0, w_disk = True\<rparr>"

definition sample_drivers :: "string \<Rightarrow> driver" where
  "sample_drivers k = \<lparr>dr_command = (k = ''imu''), dr_device = new_device, dr_proc = None, dr_serial_path = None,
     dr_by_id = Some ''/imu'', dr_host_ip = None, dr_udp_port = None, dr_gnss = None\<rparr>"




text \<open>A relay whose device is unresolved (or no by-id name) ends the evaluations: the first one starts what stands before it,
  no device event after it is seen.\<close>

definition unplugged :: "string \<Rightarrow> world" where
  "unplugged k = (sample_world ''4'')\<lparr>w_addr := Some [], w_loads := (\<lambda>_. Some [])\<rparr>"

lemma unresolved_relay_ends_evaluations:
  "let s = run supervisor_step (new_supervisor sample_drivers None) [Wake unplugged] in
     dr_proc (sv_drivers s ''imu'') = Some Running \<and> \<not> sv_loop s
     \<and> run supervisor_step s [Wake (\<lambda>_. sample_world ''5'')] = s"
proof -
  define s where "s = run supervisor_step (new_supervisor sample_drivers None) [Wake unplugged]"
  have l: "\<not> sv_loop s" and p: "dr_proc (sv_drivers s ''imu'') = Some Running"
    unfolding s_def by code_simp+
  have "foldl (evaluate_next w) s ks = s" for w ks
    using l by (induction ks) (simp_all add: evaluate_next_def)
  with l p show ?thesis unfolding s_def [symmetric] by simp
qed

end
