(* ===== verification/Sensor_Extrinsics.thy ===== *)
theory Sensor_Extrinsics
  imports Localization
begin

text \<open>
  \<^verbatim>\<open>gouda_core/sensor_extrinsics.py\<close>: the mounting of the sensors from the values of \<^verbatim>\<open>/config\<close> (IFD-26) as poses
  in \<open>base_link\<close>, GLIM's \<open>T_lidar_imu\<close> and the static transforms (IFD-20).

  Floats are real numbers.  The text of an axis mapping is ASCII: the Japanese names of the directions and
  the Japanese comma are left out.  The regular expression of an item is the deterministic reading of it:
  where the expression would backtrack, the direction it then finds is none of the known ones, so the
  result is the same exception.
\<close>

section \<open>Matrices\<close>

type_synonym matrix = "vec \<times> vec \<times> vec"

definition IDENTITY :: matrix where
  "IDENTITY = ((1, 0, 0), (0, 1, 0), (0, 0, 1))"

fun determinant :: "matrix \<Rightarrow> real" where
  "determinant ((a, b, c), (d, e, f), (g, h, i)) = a * (e * i - f * h) - b * (d * i - f * g) + c * (d * h - e * g)"

fun row_times :: "vec \<Rightarrow> matrix \<Rightarrow> vec" where
  "row_times (x, y, z) ((a, b, c), (d, e, f), (g, h, i)) = (x * a + y * d + z * g, x * b + y * e + z * h, x * c + y * f + z * i)"

fun matmul :: "matrix \<Rightarrow> matrix \<Rightarrow> matrix" where
  "matmul (p, q, r) m = (row_times p m, row_times q m, row_times r m)"

fun transpose :: "matrix \<Rightarrow> matrix" where
  "transpose ((a, b, c), (d, e, f), (g, h, i)) = ((a, d, g), (b, e, h), (c, f, i))"

definition rpy_matrix :: "real \<Rightarrow> real \<Rightarrow> real \<Rightarrow> matrix" where
  "rpy_matrix roll pitch yw =
     (let cr = cos roll; sr = sin roll; cp = cos pitch; sp = sin pitch; cy = cos yw; sy = sin yw in
      ((cy * cp, cy * sp * sr - sy * cr, cy * sp * cr + sy * sr),
       (sy * cp, sy * sp * sr + cy * cr, sy * sp * cr - cy * sr),
       (- sp, cp * sr, cp * cr)))"

text \<open>\<^verbatim>\<open>quaternion\<close>: by the largest of the four squares, normalised, with a non-negative last part.\<close>

fun raw_quaternion :: "matrix \<Rightarrow> quat" where
  "raw_quaternion ((a, b, c), (d, e, f), (g, h, i)) =
     (let t = a + e + i in
      if 0 < t then let s = sqrt (t + 1) * 2 in ((h - f) / s, (c - g) / s, (d - b) / s, s / 4)
      else if e < a \<and> i < a then let s = sqrt (1 + a - e - i) * 2 in (s / 4, (b + d) / s, (c + g) / s, (h - f) / s)
      else if i < e then let s = sqrt (1 + e - a - i) * 2 in ((b + d) / s, s / 4, (f + h) / s, (c - g) / s)
      else let s = sqrt (1 + i - a - e) * 2 in ((c + g) / s, (f + h) / s, s / 4, (d - b) / s))"

definition quaternion :: "matrix \<Rightarrow> quat" where
  "quaternion r =
     (let q = raw_quaternion r; n = sqrt (dot q q) in
      case q of (x, y, z, w) \<Rightarrow> if 0 \<le> w / n then (x / n, y / n, z / n, w / n) else (- (x / n), - (y / n), - (z / n), - (w / n)))"

section \<open>Axis mappings\<close>

definition DIRECTIONS :: "(string \<times> vec) list" where
  "DIRECTIONS = [(''forward'', (1, 0, 0)), (''front'', (1, 0, 0)), (''back'', (- 1, 0, 0)), (''backward'', (- 1, 0, 0)),
     (''left'', (0, 1, 0)), (''right'', (0, - 1, 0)), (''up'', (0, 0, 1)), (''down'', (0, 0, - 1))]"

definition lower :: "char \<Rightarrow> char" where
  "lower c = (if 65 \<le> (of_char c :: nat) \<and> (of_char c :: nat) \<le> 90 then char_of (of_char c + 32 :: nat) else c)"

text \<open>\<^verbatim>\<open>re.split\<close> at commas and semicolons; the items that are not blank.\<close>

definition mapping_items :: "string \<Rightarrow> string list" where
  "mapping_items text = filter (\<lambda>s. strip s \<noteq> []) (concat (map (split_on CHR '';'') (split_on CHR '','' text)))"

text \<open>An item: a sign, an axis, \<open>axis\<close>, a colon or equals sign (all but the axis optional), one word.\<close>

definition parse_item :: "string \<Rightarrow> (bool \<times> char \<times> string) result" where
  "parse_item it =
     (let s = strip it;
          negative = (s \<noteq> [] \<and> hd s = CHR ''-'');
          s = (if s \<noteq> [] \<and> hd s \<in> {CHR ''+'', CHR ''-''} then lstrip (tl s) else s) in
      case s of
        [] \<Rightarrow> Inl ValueError
      | c # s \<Rightarrow>
          if lower c \<notin> {CHR ''x'', CHR ''y'', CHR ''z''} then Inl ValueError
          else let s = lstrip s;
                   s = (if startswith (map lower s) ''axis'' then lstrip (drop 4 s) else s);
                   s = (if s \<noteq> [] \<and> hd s \<in> {CHR '':'', CHR ''=''} then lstrip (tl s) else s) in
            if s = [] \<or> \<not> list_all (\<lambda>c. \<not> white c) s then Inl ValueError else Inr (negative, lower c, map lower s))"

fun negate :: "vec \<Rightarrow> vec" where
  "negate (x, y, z) = (- x, - y, - z)"

definition add_item :: "(char \<times> vec) list \<Rightarrow> string \<Rightarrow> (char \<times> vec) list result" where
  "add_item cols it = res_bind (parse_item it) (\<lambda>(negative, axis, direction).
     case map_of DIRECTIONS direction of
       None \<Rightarrow> Inl ValueError
     | Some v \<Rightarrow> if axis \<in> fst ` set cols then Inl ValueError else Inr (cols @ [(axis, if negative then negate v else v)]))"

fun abs_vec :: "vec \<Rightarrow> vec" where
  "abs_vec (x, y, z) = (\<bar>x\<bar>, \<bar>y\<bar>, \<bar>z\<bar>)"

definition parse_axis_mapping :: "string \<Rightarrow> matrix result" where
  "parse_axis_mapping text =
     res_bind (foldl (\<lambda>r it. res_bind r (\<lambda>cols. add_item cols it)) (Inr []) (mapping_items text)) (\<lambda>cols.
       case (map_of cols (CHR ''x''), map_of cols (CHR ''y''), map_of cols (CHR ''z'')) of
         (Some x, Some y, Some z) \<Rightarrow>
           if distinct [abs_vec x, abs_vec y, abs_vec z] then Inr (transpose (x, y, z)) else Inl ValueError
       | _ \<Rightarrow> Inl ValueError)"

definition axis_mapping_ok :: "string \<Rightarrow> bool" where \<comment> \<open>\<^verbatim>\<open>validate_axis_mapping(text) is None\<close>\<close>
  "axis_mapping_ok text \<longleftrightarrow> returns (parse_axis_mapping text)"

section \<open>Poses of the sensors\<close>

definition UNKNOWN :: string where "UNKNOWN = ''UNKNOWN''"

type_synonym config = "(string \<times> pyval) list"

text \<open>A number of the configuration, zero and listed as defaulted where there is none.\<close>

definition num :: "config \<Rightarrow> string \<Rightarrow> real \<times> string list" where
  "num values key = (case finite_number (dict_get values key (PStr UNKNOWN)) of Some r \<Rightarrow> (r, []) | None \<Rightarrow> (0, [key]))"

definition position :: "config \<Rightarrow> string \<Rightarrow> vec \<times> string list" where
  "position values name =
     (let (x, dx) = num values (name @ ''_mount_x_m''); (y, dy) = num values (name @ ''_mount_y_m''); (z, dz) = num values (name @ ''_mount_z_m'')
      in ((x, y, z), dx @ dy @ dz))"

datatype axes_problem = Left_handed string | Not_a_mapping string

definition axes_of :: "config \<Rightarrow> string \<Rightarrow> matrix \<times> string list \<times> axes_problem list" where
  "axes_of values key = (case dict_get values key (PStr UNKNOWN) of
     PStr text \<Rightarrow>
       if text = UNKNOWN then (IDENTITY, [key], [])
       else (case parse_axis_mapping text of
           Inl _ \<Rightarrow> (IDENTITY, [key], [Not_a_mapping key])
         | Inr a \<Rightarrow> if determinant a < 0 then (IDENTITY, [key], [Left_handed key]) else (a, [], []))
   | _ \<Rightarrow> (IDENTITY, [key], []))"

definition sensor_pose :: "config \<Rightarrow> string \<Rightarrow> matrix \<times> vec \<times> string list \<times> axes_problem list" where
  "sensor_pose values sensor =
     (let (t, dt) = position values sensor;
          (roll, d1) = num values (sensor @ ''_mount_roll_rad'');
          (pitch, d2) = num values (sensor @ ''_mount_pitch_rad'');
          (yw, d3) = num values (sensor @ ''_mount_yaw_rad'');
          (a, da, p) = axes_of values (sensor @ ''_axis_mapping'')
      in (matmul (rpy_matrix roll pitch yw) a, t, dt @ d1 @ d2 @ d3 @ da, p))"

section \<open>GLIM's transform and the static transforms\<close>

fun times_vec :: "matrix \<Rightarrow> vec \<Rightarrow> vec" where
  "times_vec ((a, b, c), (d, e, f), (g, h, i)) (x, y, z) = (a * x + b * y + c * z, d * x + e * y + f * z, g * x + h * y + i * z)"

text \<open>The transform before it is rounded, and \<^verbatim>\<open>t_lidar_imu\<close> with \<^verbatim>\<open>round(v, 9)\<close>.\<close>

definition lidar_imu :: "config \<Rightarrow> vec \<times> quat" where
  "lidar_imu values =
     (let (rl, tl, _, _) = sensor_pose values ''lidar''; (ri, ti, _, _) = sensor_pose values ''imu'' in
      (times_vec (transpose rl) (vec_sub ti tl), quaternion (matmul (transpose rl) ri)))"

definition round9 :: "real \<Rightarrow> real" where
  "round9 v = of_int (py_round (v * 1000000000)) / 1000000000"

record lidar_imu_report =
  lr_transform :: "real list"
  lr_defaulted :: "string list"
  lr_problems :: "axes_problem list"
  lr_complete :: bool

definition t_lidar_imu :: "config \<Rightarrow> lidar_imu_report" where
  "t_lidar_imu values =
     (let (_, _, dl, pl) = sensor_pose values ''lidar''; (_, _, di, pi') = sensor_pose values ''imu'';
          ((x, y, z), (qx, qy, qz, qw)) = lidar_imu values
      in \<lparr>lr_transform = map round9 [x, y, z, qx, qy, qz, qw], lr_defaulted = dl @ di, lr_problems = pl @ pi',
          lr_complete = (dl @ di = [])\<rparr>)"

record transform =
  tf_parent :: string
  tf_child :: string
  tf_translation :: vec
  tf_rotation :: quat

definition SENSOR_FRAMES :: "(string \<times> string) list" where
  "SENSOR_FRAMES = [(''lidar'', ''xt32_link''), (''imu'', ''imu_link'')]"

definition ANTENNA_FRAMES :: "(string \<times> string) list" where
  "ANTENNA_FRAMES = [(''gnss_main'', ''gnss_link''), (''gnss_aux1'', ''gnss_aux1_link'')]"

definition static_transforms :: "config \<Rightarrow> real \<Rightarrow> transform list \<times> string list \<times> axes_problem list" where
  "static_transforms values base_link_z =
     (let sensors = map (\<lambda>(s, f). (f, sensor_pose values s)) SENSOR_FRAMES;
          antennas = map (\<lambda>(a, f). (f, position values a)) ANTENNA_FRAMES
      in (\<lparr>tf_parent = ''base_link'', tf_child = ''base_footprint'', tf_translation = (0, 0, - base_link_z), tf_rotation = (0, 0, 0, 1)\<rparr>
            # map (\<lambda>(f, r, t, _, _). \<lparr>tf_parent = ''base_link'', tf_child = f, tf_translation = t, tf_rotation = quaternion r\<rparr>) sensors
            @ map (\<lambda>(f, t, _). \<lparr>tf_parent = ''base_link'', tf_child = f, tf_translation = t, tf_rotation = (0, 0, 0, 1)\<rparr>) antennas,
          concat (map (\<lambda>(_, _, _, d, _). d) sensors) @ concat (map (\<lambda>(_, _, d). d) antennas),
          concat (map (\<lambda>(_, _, _, _, p). p) sensors)))"

section \<open>Rotations\<close>

definition rotation :: "matrix \<Rightarrow> bool" where
  "rotation r \<longleftrightarrow> matmul (transpose r) r = IDENTITY \<and> matmul r (transpose r) = IDENTITY \<and> determinant r = 1"

lemma matmul_assoc: "matmul (matmul p q) r = matmul p (matmul q r)"
  by (cases p; cases q; cases r) (auto simp: algebra_simps)

lemma matmul_one [simp]: "matmul IDENTITY r = r" "matmul r IDENTITY = r"
  by (cases r; auto simp: IDENTITY_def)+

lemma transpose_matmul: "transpose (matmul p q) = matmul (transpose q) (transpose p)"
  by (cases p; cases q) (auto simp: algebra_simps)

lemma transpose_transpose [simp]: "transpose (transpose r) = r"
  by (cases r) auto

lemma determinant_matmul: "determinant (matmul p q) = determinant p * determinant q"
  by (cases p; cases q) (auto simp: algebra_simps)

lemma determinant_transpose [simp]: "determinant (transpose r) = determinant r"
  by (cases r) (auto simp: algebra_simps)

lemma times_matmul: "times_vec (matmul p q) v = times_vec p (times_vec q v)"
  by (cases p; cases q; cases v) (auto simp: algebra_simps)

lemma times_one [simp]: "times_vec IDENTITY v = v"
  by (cases v) (simp add: IDENTITY_def)

lemma times_add: "times_vec r (vec_add u v) = vec_add (times_vec r u) (times_vec r v)"
  by (cases r; cases u; cases v) (auto simp: algebra_simps)

lemma rotation_matmul: "rotation p \<Longrightarrow> rotation q \<Longrightarrow> rotation (matmul p q)"
proof -
  assume p: "rotation p" and q: "rotation q"
  have "matmul (matmul (transpose q) (transpose p)) (matmul p q) = matmul (transpose q) (matmul (matmul (transpose p) p) q)"
    by (simp only: matmul_assoc)
  moreover have "matmul (matmul p q) (matmul (transpose q) (transpose p)) = matmul p (matmul (matmul q (transpose q)) (transpose p))"
    by (simp only: matmul_assoc)
  ultimately show ?thesis
    using p q unfolding rotation_def transpose_matmul determinant_matmul by simp
qed

lemma rotation_transpose: "rotation r \<Longrightarrow> rotation (transpose r)"
  by (simp add: rotation_def)

lemma rotation_identity: "rotation IDENTITY"
  by (simp add: rotation_def IDENTITY_def)

text \<open>The rotation of roll, pitch and yaw is the product of three rotations about one axis.\<close>

lemma rpy_factors:
  "rpy_matrix roll pitch yw =
     matmul ((cos yw, - sin yw, 0), (sin yw, cos yw, 0), (0, 0, 1))
       (matmul ((cos pitch, 0, sin pitch), (0, 1, 0), (- sin pitch, 0, cos pitch))
         ((1, 0, 0), (0, cos roll, - sin roll), (0, sin roll, cos roll)))"
  by (simp add: rpy_matrix_def Let_def algebra_simps)

lemma unit_circle: "cos t * cos t + sin t * sin t = (1 :: real)" "sin t * sin t + cos t * cos t = (1 :: real)"
  by (simp_all flip: power2_eq_square)

lemma rotation_rpy: "rotation (rpy_matrix roll pitch yw)"
  unfolding rpy_factors
  by (intro rotation_matmul) (simp_all add: rotation_def IDENTITY_def unit_circle mult.commute)

section \<open>Axis mappings are signed permutations\<close>

definition signed_axes :: "vec set" where
  "signed_axes = {(1, 0, 0), (- 1, 0, 0), (0, 1, 0), (0, - 1, 0), (0, 0, 1), (0, 0, - 1)}"

lemma direction_axes: "map_of DIRECTIONS d = Some v \<Longrightarrow> v \<in> signed_axes"
  by (auto simp: DIRECTIONS_def signed_axes_def split: if_split_asm)

lemma negate_axes: "v \<in> signed_axes \<Longrightarrow> negate v \<in> signed_axes"
  by (auto simp: signed_axes_def)

lemma add_item_axes:
  assumes "add_item cols it = Inr cols'" and "snd ` set cols \<subseteq> signed_axes"
  shows "snd ` set cols' \<subseteq> signed_axes"
proof -
  from assms(1) obtain n ax d where it: "parse_item it = Inr (n, ax, d)"
    by (cases "parse_item it") (auto simp: add_item_def)
  with assms(1) obtain v where v: "map_of DIRECTIONS d = Some v"
    by (cases "map_of DIRECTIONS d") (simp_all add: add_item_def)
  from direction_axes [OF v] negate_axes have "(if n then negate v else v) \<in> signed_axes" by simp
  moreover from assms(1) it v have "cols' = cols @ [(ax, if n then negate v else v)]"
    by (auto simp: add_item_def simp del: split_paired_Ex split: if_split_asm)
  ultimately show ?thesis using assms(2) by simp
qed

lemma items_axes:
  "foldl (\<lambda>r it. res_bind r (\<lambda>cols. add_item cols it)) (Inr cols) items = Inr cols' \<Longrightarrow>
     snd ` set cols \<subseteq> signed_axes \<Longrightarrow> snd ` set cols' \<subseteq> signed_axes"
proof (induction items arbitrary: cols)
  case (Cons it items)
  have stuck: "foldl (\<lambda>r it. res_bind r (\<lambda>cols. add_item cols it)) (Inl e) items = Inl e" for e
    by (induction items) simp_all
  show ?case
  proof (cases "add_item cols it")
    case (Inl e)
    with Cons.prems stuck show ?thesis by simp
  next
    case (Inr c)
    with Cons.prems have "foldl (\<lambda>r it. res_bind r (\<lambda>cols. add_item cols it)) (Inr c) items = Inr cols'" by simp
    moreover have "snd ` set c \<subseteq> signed_axes" using Inr Cons.prems(2) by (rule add_item_axes)
    ultimately show ?thesis by (rule Cons.IH)
  qed
qed simp

lemma signed_permutation:
  assumes "x \<in> signed_axes" "y \<in> signed_axes" "z \<in> signed_axes" and "distinct [abs_vec x, abs_vec y, abs_vec z]"
  defines "a \<equiv> transpose (x, y, z)"
  shows "matmul (transpose a) a = IDENTITY \<and> matmul a (transpose a) = IDENTITY \<and> (determinant a = 1 \<or> determinant a = - 1)"
  using assms(1-4) unfolding signed_axes_def insert_iff empty_iff a_def
  by (elim disjE) (simp_all add: IDENTITY_def)

lemma axis_mapping_orthogonal:
  assumes "parse_axis_mapping text = Inr a"
  shows "matmul (transpose a) a = IDENTITY \<and> matmul a (transpose a) = IDENTITY \<and> (determinant a = 1 \<or> determinant a = - 1)"
proof -
  from assms obtain cols where cols: "foldl (\<lambda>r it. res_bind r (\<lambda>cols. add_item cols it)) (Inr []) (mapping_items text) = Inr cols"
    unfolding parse_axis_mapping_def by (auto simp del: split_paired_Ex)
  note [simp del] = split_paired_Ex split_paired_All
  from assms cols obtain x y z where c: "map_of cols (CHR ''x'') = Some x" "map_of cols (CHR ''y'') = Some y" "map_of cols (CHR ''z'') = Some z"
    "distinct [abs_vec x, abs_vec y, abs_vec z]" "a = transpose (x, y, z)"
    by (auto simp: parse_axis_mapping_def split: option.split_asm if_split_asm)
  from items_axes [OF cols] have "snd ` set cols \<subseteq> signed_axes" by simp
  with c(1-3) have "x \<in> signed_axes" "y \<in> signed_axes" "z \<in> signed_axes" by (auto dest!: map_of_SomeD)
  from signed_permutation [OF this c(4)] c(5) show ?thesis by simp
qed

lemma axes_of_rotation: "rotation (fst (axes_of vs key))"
proof (cases "dict_get vs key (PStr UNKNOWN)")
  case (PStr m)
  show ?thesis
  proof (cases "parse_axis_mapping m")
    case (Inl e)
    with PStr show ?thesis by (simp add: axes_of_def rotation_identity)
  next
    case (Inr a)
    have "determinant a < 0 \<or> rotation a" using axis_mapping_orthogonal [OF Inr] by (auto simp: rotation_def)
    with PStr Inr show ?thesis by (auto simp: axes_of_def rotation_identity)
  qed
qed (simp_all add: axes_of_def rotation_identity)

lemma sensor_pose_rotation: "sensor_pose vs sensor = (r, t, d, p) \<Longrightarrow> rotation r"
proof -
  assume s: "sensor_pose vs sensor = (r, t, d, p)"
  obtain a da pa where a: "axes_of vs (sensor @ ''_axis_mapping'') = (a, da, pa)" by (rule prod_cases3)
  with axes_of_rotation [of vs "sensor @ ''_axis_mapping''"] have "rotation a" by simp
  then have "rotation (matmul (rpy_matrix x y z) a)" for x y z by (intro rotation_matmul rotation_rpy)
  with s show ?thesis by (auto simp: sensor_pose_def a split: prod.split_asm)
qed

section \<open>The quaternion of a rotation\<close>

text \<open>The cofactors of a rotation are its entries.\<close>

fun cofactors :: "matrix \<Rightarrow> matrix" where
  "cofactors ((a, b, c), (d, e, f), (g, h, i)) =
     ((e * i - f * h, f * g - d * i, d * h - e * g), (c * h - b * i, a * i - c * g, b * g - a * h),
      (b * f - c * e, c * d - a * f, a * e - b * d))"

fun scale :: "real \<Rightarrow> matrix \<Rightarrow> matrix" where
  "scale k ((a, b, c), (d, e, f), (g, h, i)) = ((k * a, k * b, k * c), (k * d, k * e, k * f), (k * g, k * h, k * i))"

lemma cofactors_transpose: "matmul (transpose r) (cofactors r) = scale (determinant r) IDENTITY"
  by (cases r) (auto simp: IDENTITY_def algebra_simps)

lemma rotation_cofactors: "rotation r \<Longrightarrow> cofactors r = r"
proof -
  assume r: "rotation r"
  have "cofactors r = matmul (matmul r (transpose r)) (cofactors r)" using r by (simp add: rotation_def)
  also have "\<dots> = matmul r (scale (determinant r) IDENTITY)" unfolding matmul_assoc cofactors_transpose ..
  also have "scale (determinant r) IDENTITY = IDENTITY" using r by (simp add: rotation_def IDENTITY_def)
  finally show ?thesis by simp
qed

text \<open>Four times the products of the parts of the quaternion, from the entries of the matrix.\<close>

definition products :: "matrix \<Rightarrow> quat \<Rightarrow> bool" where
  "products r q = (case (r, q) of (((a, b, c), (d, e, f), (g, h, i)), (x, y, z, w)) \<Rightarrow>
     4 * (w * w) = 1 + a + e + i \<and> 4 * (x * x) = 1 + a - e - i \<and> 4 * (y * y) = 1 - a + e - i \<and> 4 * (z * z) = 1 - a - e + i
     \<and> 4 * (w * x) = h - f \<and> 4 * (w * y) = c - g \<and> 4 * (w * z) = d - b \<and> 4 * (x * y) = b + d \<and> 4 * (x * z) = c + g \<and> 4 * (y * z) = f + h)"

lemma products_unit: "products r q \<Longrightarrow> dot q q = 1"
  by (cases r; cases q) (auto simp: products_def dot.simps)

lemma products_rotate: "products r q \<Longrightarrow> rotate q v = times_vec r v"
proof (cases r; cases q; cases v)
  fix p1 p2 p3 x y z w u1 u2 u3
  assume P: "products r q" and [simp]: "r = (p1, p2, p3)" "q = (x, y, z, w)" "v = (u1, u2, u3)"
  obtain a b c d e f g h i where [simp]: "p1 = (a, b, c)" "p2 = (d, e, f)" "p3 = (g, h, i)" by (cases p1; cases p2; cases p3)
  show ?thesis using P by (simp add: products_def) algebra
qed
text \<open>The ten products are the entries of a matrix of rank one.\<close>

lemma rank_one:
  assumes r: "rotation ((a, b, c), (d, e, f), (g, h, i))"
  shows "(h - f) * (h - f) = (1 + a + e + i) * (1 + a - e - i)"
    and "(h - f) * (c - g) = (1 + a + e + i) * (b + d)"
    and "(h - f) * (d - b) = (1 + a + e + i) * (c + g)"
    and "(c - g) * (c - g) = (1 + a + e + i) * (1 - a + e - i)"
    and "(c - g) * (d - b) = (1 + a + e + i) * (f + h)"
    and "(d - b) * (d - b) = (1 + a + e + i) * (1 - a - e + i)"
    and "(h - f) * (h - f) = (1 + a - e - i) * (1 + a + e + i)"
    and "(h - f) * (b + d) = (1 + a - e - i) * (c - g)"
    and "(h - f) * (c + g) = (1 + a - e - i) * (d - b)"
    and "(b + d) * (b + d) = (1 + a - e - i) * (1 - a + e - i)"
    and "(b + d) * (c + g) = (1 + a - e - i) * (f + h)"
    and "(c + g) * (c + g) = (1 + a - e - i) * (1 - a - e + i)"
    and "(c - g) * (c - g) = (1 - a + e - i) * (1 + a + e + i)"
    and "(c - g) * (b + d) = (1 - a + e - i) * (h - f)"
    and "(c - g) * (f + h) = (1 - a + e - i) * (d - b)"
    and "(b + d) * (b + d) = (1 - a + e - i) * (1 + a - e - i)"
    and "(b + d) * (f + h) = (1 - a + e - i) * (c + g)"
    and "(f + h) * (f + h) = (1 - a + e - i) * (1 - a - e + i)"
    and "(d - b) * (d - b) = (1 - a - e + i) * (1 + a + e + i)"
    and "(d - b) * (c + g) = (1 - a - e + i) * (h - f)"
    and "(d - b) * (f + h) = (1 - a - e + i) * (c - g)"
    and "(c + g) * (c + g) = (1 - a - e + i) * (1 + a - e - i)"
    and "(c + g) * (f + h) = (1 - a - e + i) * (b + d)"
    and "(f + h) * (f + h) = (1 - a - e + i) * (1 - a + e - i)"
proof -
  from rotation_cofactors [OF r] have cof: "e * i - f * h = a" "f * g - d * i = b" "d * h - e * g = c" "c * h - b * i = d" "a * i - c * g = e"
    "b * g - a * h = f" "b * f - c * e = g" "c * d - a * f = h" "a * e - b * d = i" by simp_all
  from r have orth: "a * a + d * d + g * g = 1" "b * b + e * e + h * h = 1" "c * c + f * f + i * i = 1"
    "a * b + d * e + g * h = 0" "a * c + d * f + g * i = 0" "b * c + e * f + h * i = 0"
    "a * a + b * b + c * c = 1" "d * d + e * e + f * f = 1" "g * g + h * h + i * i = 1"
    "a * d + b * e + c * f = 0" "a * g + b * h + c * i = 0" "d * g + e * h + f * i = 0"
    by (simp_all add: rotation_def IDENTITY_def)
  show "(h - f) * (h - f) = (1 + a + e + i) * (1 + a - e - i)" using cof orth by (simp only: ring_distribs mult_1_left mult_1_right mult.commute mult.left_commute; linarith)
  show "(h - f) * (c - g) = (1 + a + e + i) * (b + d)" using cof orth by (simp only: ring_distribs mult_1_left mult_1_right mult.commute mult.left_commute; linarith)
  show "(h - f) * (d - b) = (1 + a + e + i) * (c + g)" using cof orth by (simp only: ring_distribs mult_1_left mult_1_right mult.commute mult.left_commute; linarith)
  show "(c - g) * (c - g) = (1 + a + e + i) * (1 - a + e - i)" using cof orth by (simp only: ring_distribs mult_1_left mult_1_right mult.commute mult.left_commute; linarith)
  show "(c - g) * (d - b) = (1 + a + e + i) * (f + h)" using cof orth by (simp only: ring_distribs mult_1_left mult_1_right mult.commute mult.left_commute; linarith)
  show "(d - b) * (d - b) = (1 + a + e + i) * (1 - a - e + i)" using cof orth by (simp only: ring_distribs mult_1_left mult_1_right mult.commute mult.left_commute; linarith)
  show "(h - f) * (h - f) = (1 + a - e - i) * (1 + a + e + i)" using cof orth by (simp only: ring_distribs mult_1_left mult_1_right mult.commute mult.left_commute; linarith)
  show "(h - f) * (b + d) = (1 + a - e - i) * (c - g)" using cof orth by (simp only: ring_distribs mult_1_left mult_1_right mult.commute mult.left_commute; linarith)
  show "(h - f) * (c + g) = (1 + a - e - i) * (d - b)" using cof orth by (simp only: ring_distribs mult_1_left mult_1_right mult.commute mult.left_commute; linarith)
  show "(b + d) * (b + d) = (1 + a - e - i) * (1 - a + e - i)" using cof orth by (simp only: ring_distribs mult_1_left mult_1_right mult.commute mult.left_commute; linarith)
  show "(b + d) * (c + g) = (1 + a - e - i) * (f + h)" using cof orth by (simp only: ring_distribs mult_1_left mult_1_right mult.commute mult.left_commute; linarith)
  show "(c + g) * (c + g) = (1 + a - e - i) * (1 - a - e + i)" using cof orth by (simp only: ring_distribs mult_1_left mult_1_right mult.commute mult.left_commute; linarith)
  show "(c - g) * (c - g) = (1 - a + e - i) * (1 + a + e + i)" using cof orth by (simp only: ring_distribs mult_1_left mult_1_right mult.commute mult.left_commute; linarith)
  show "(c - g) * (b + d) = (1 - a + e - i) * (h - f)" using cof orth by (simp only: ring_distribs mult_1_left mult_1_right mult.commute mult.left_commute; linarith)
  show "(c - g) * (f + h) = (1 - a + e - i) * (d - b)" using cof orth by (simp only: ring_distribs mult_1_left mult_1_right mult.commute mult.left_commute; linarith)
  show "(b + d) * (b + d) = (1 - a + e - i) * (1 + a - e - i)" using cof orth by (simp only: ring_distribs mult_1_left mult_1_right mult.commute mult.left_commute; linarith)
  show "(b + d) * (f + h) = (1 - a + e - i) * (c + g)" using cof orth by (simp only: ring_distribs mult_1_left mult_1_right mult.commute mult.left_commute; linarith)
  show "(f + h) * (f + h) = (1 - a + e - i) * (1 - a - e + i)" using cof orth by (simp only: ring_distribs mult_1_left mult_1_right mult.commute mult.left_commute; linarith)
  show "(d - b) * (d - b) = (1 - a - e + i) * (1 + a + e + i)" using cof orth by (simp only: ring_distribs mult_1_left mult_1_right mult.commute mult.left_commute; linarith)
  show "(d - b) * (c + g) = (1 - a - e + i) * (h - f)" using cof orth by (simp only: ring_distribs mult_1_left mult_1_right mult.commute mult.left_commute; linarith)
  show "(d - b) * (f + h) = (1 - a - e + i) * (c - g)" using cof orth by (simp only: ring_distribs mult_1_left mult_1_right mult.commute mult.left_commute; linarith)
  show "(c + g) * (c + g) = (1 - a - e + i) * (1 + a - e - i)" using cof orth by (simp only: ring_distribs mult_1_left mult_1_right mult.commute mult.left_commute; linarith)
  show "(c + g) * (f + h) = (1 - a - e + i) * (b + d)" using cof orth by (simp only: ring_distribs mult_1_left mult_1_right mult.commute mult.left_commute; linarith)
  show "(f + h) * (f + h) = (1 - a - e + i) * (1 - a + e - i)" using cof orth by (simp only: ring_distribs mult_1_left mult_1_right mult.commute mult.left_commute; linarith)
qed

lemma over_pivot:
  assumes "0 < p"
  shows "u * v = p * m \<Longrightarrow> 4 * (u / (sqrt p * 2) * (v / (sqrt p * 2))) = m"
    and "4 * (sqrt p * 2 / 4 * (u / (sqrt p * 2))) = u" and "4 * (u / (sqrt p * 2) * (sqrt p * 2 / 4)) = u"
    and "4 * (sqrt p * 2 / 4 * (sqrt p * 2 / 4)) = p"
proof -
  have s: "sqrt p * sqrt p = p" "sqrt p \<noteq> 0" using assms by simp_all
  have "4 * (u / (sqrt p * 2) * (v / (sqrt p * 2))) = u * v / (sqrt p * sqrt p)" by simp
  then show "u * v = p * m \<Longrightarrow> 4 * (u / (sqrt p * 2) * (v / (sqrt p * 2))) = m" using s(1) assms by simp
qed (use assms in simp_all)

lemma raw_products:
  assumes r: "rotation ((a, b, c), (d, e, f), (g, h, i))"
  shows "products ((a, b, c), (d, e, f), (g, h, i)) (raw_quaternion ((a, b, c), (d, e, f), (g, h, i)))"
proof -
  note rank = rank_one [OF r]
  consider (w) "0 < a + e + i" | (x) "\<not> 0 < a + e + i" "e < a \<and> i < a" | (y) "\<not> 0 < a + e + i" "\<not> (e < a \<and> i < a)" "i < e"
    | (z) "\<not> 0 < a + e + i" "\<not> (e < a \<and> i < a)" "\<not> i < e" by blast
  then show ?thesis
  proof cases
    case w
    define p where "p = 1 + a + e + i"
    have p: "0 < p" "a + e + i + 1 = p" using w unfolding p_def by linarith+
    have q: "raw_quaternion ((a, b, c), (d, e, f), (g, h, i)) = ((h - f) / (sqrt p * 2), (c - g) / (sqrt p * 2), (d - b) / (sqrt p * 2), sqrt p * 2 / 4)"
      using w p(2) by (simp add: Let_def)
    show ?thesis
      unfolding q products_def prod.case p_def [symmetric]
      by (intro conjI; (rule over_pivot(2-4) [OF p(1)] | (rule over_pivot(1) [OF p(1)],
            (rule rank(1-6) [folded p_def] | (subst mult.commute, rule rank(1-6) [folded p_def])))))
  next
    case x
    define p where "p = 1 + a - e - i"
    have p: "0 < p" "1 + a - e - i = p" using x unfolding p_def by linarith+
    have q: "raw_quaternion ((a, b, c), (d, e, f), (g, h, i)) = (sqrt p * 2 / 4, (b + d) / (sqrt p * 2), (c + g) / (sqrt p * 2), (h - f) / (sqrt p * 2))"
      using x p(2) by (simp add: Let_def)
    show ?thesis
      unfolding q products_def prod.case p_def [symmetric]
      by (intro conjI; (rule over_pivot(2-4) [OF p(1)] | (rule over_pivot(1) [OF p(1)],
            (rule rank(7-12) [folded p_def] | (subst mult.commute, rule rank(7-12) [folded p_def])))))
  next
    case y
    define p where "p = 1 - a + e - i"
    have p: "0 < p" "1 + e - a - i = p" using y unfolding p_def by linarith+
    have q: "raw_quaternion ((a, b, c), (d, e, f), (g, h, i)) = ((b + d) / (sqrt p * 2), sqrt p * 2 / 4, (f + h) / (sqrt p * 2), (c - g) / (sqrt p * 2))"
      using y p(2) by (simp add: Let_def)
    show ?thesis
      unfolding q products_def prod.case p_def [symmetric]
      by (intro conjI; (rule over_pivot(2-4) [OF p(1)] | (rule over_pivot(1) [OF p(1)],
            (rule rank(13-18) [folded p_def] | (subst mult.commute, rule rank(13-18) [folded p_def])))))
  next
    case z
    define p where "p = 1 - a - e + i"
    have p: "0 < p" "1 + i - a - e = p" using z unfolding p_def by linarith+
    have q: "raw_quaternion ((a, b, c), (d, e, f), (g, h, i)) = ((c + g) / (sqrt p * 2), (f + h) / (sqrt p * 2), sqrt p * 2 / 4, (d - b) / (sqrt p * 2))"
      using z p(2) by (auto simp: Let_def)
    show ?thesis
      unfolding q products_def prod.case p_def [symmetric]
      by (intro conjI; (rule over_pivot(2-4) [OF p(1)] | (rule over_pivot(1) [OF p(1)],
            (rule rank(19-24) [folded p_def] | (subst mult.commute, rule rank(19-24) [folded p_def])))))
  qed
qed

lemma products_minus: "products r (x, y, z, w) \<Longrightarrow> products r (- x, - y, - z, - w)"
  by (cases r) (simp add: products_def split: prod.split_asm)

lemma quaternion_products:
  assumes "rotation r"
  shows "products r (quaternion r)" and "0 \<le> snd (snd (snd (quaternion r)))"
proof -
  obtain x y z w where q: "raw_quaternion r = (x, y, z, w)" by (rule prod_cases4)
  have P: "products r (x, y, z, w)" using raw_products assms unfolding q [symmetric] by (cases r) auto
  have "sqrt (dot (x, y, z, w) (x, y, z, w)) = 1" using products_unit [OF P] by simp
  then have "quaternion r = (if 0 \<le> w then (x, y, z, w) else (- x, - y, - z, - w))"
    by (simp add: quaternion_def q Let_def)
  with P products_minus [OF P] show "products r (quaternion r)" "0 \<le> snd (snd (snd (quaternion r)))" by auto
qed

lemma quaternion_rotates: "rotation r \<Longrightarrow> dot (quaternion r) (quaternion r) = 1 \<and> 0 \<le> snd (snd (snd (quaternion r))) \<and> rotate (quaternion r) v = times_vec r v"
  using quaternion_products products_unit products_rotate by blast

section \<open>GLIM's transform\<close>

text \<open>C32. The transform given to GLIM is the one from the IMU to the LiDAR, whatever the configuration holds (values
  that are missing, that are not numbers, mappings that do not parse or are left-handed): both sensors
  have a proper rotation, and with its translation and its unit quaternion (with a non-negative last part)
  a point of the IMU goes to the point of the LiDAR that is at the same place in \<open>base_link\<close>.  What is
  reported is this transform, rounded.\<close>

theorem lidar_imu_maps_imu_to_lidar:
  "\<exists>rl tl ri ti t q dl pl di pi'. sensor_pose values ''lidar'' = (rl, tl, dl, pl) \<and> sensor_pose values ''imu'' = (ri, ti, di, pi')
     \<and> rotation rl \<and> rotation ri \<and> lidar_imu values = (t, q)
     \<and> dot q q = 1 \<and> 0 \<le> snd (snd (snd q))
     \<and> (\<forall>p. vec_add (times_vec rl (vec_add (rotate q p) t)) tl = vec_add (times_vec ri p) ti)
     \<and> (case (t, q) of ((x, y, z), (qx, qy, qz, qw)) \<Rightarrow> lr_transform (t_lidar_imu values) = map round9 [x, y, z, qx, qy, qz, qw])
     \<and> lr_defaulted (t_lidar_imu values) = dl @ di \<and> lr_problems (t_lidar_imu values) = pl @ pi'"
proof -
  obtain rl tl dl pl where l: "sensor_pose values ''lidar'' = (rl, tl, dl, pl)" by (rule prod_cases4)
  obtain ri ti di pi' where i: "sensor_pose values ''imu'' = (ri, ti, di, pi')" by (rule prod_cases4)
  have rot: "rotation rl" "rotation ri" using l i by (auto intro: sensor_pose_rotation)
  have r: "rotation (matmul (transpose rl) ri)" by (intro rotation_matmul rotation_transpose rot)
  obtain t q where tq: "lidar_imu values = (t, q)" using surj_pair [of "lidar_imu values"] by blast
  then have t: "t = times_vec (transpose rl) (vec_sub ti tl)" and q: "q = quaternion (matmul (transpose rl) ri)"
    by (auto simp: lidar_imu_def l i)
  have point: "vec_add (times_vec rl (vec_add (rotate q p) t)) tl = vec_add (times_vec ri p) ti" for p
  proof -
    have "times_vec rl (vec_add (rotate q p) t) = vec_add (times_vec (matmul rl (transpose rl)) (times_vec ri p)) (times_vec (matmul rl (transpose rl)) (vec_sub ti tl))"
      using quaternion_rotates [OF r] by (simp only: q t times_add times_matmul)
    also have "matmul rl (transpose rl) = IDENTITY" using rot(1) by (simp add: rotation_def)
    finally show ?thesis by (cases "times_vec ri p"; cases ti; cases tl) simp
  qed
  have report: "case (t, q) of ((x, y, z), (qx, qy, qz, qw)) \<Rightarrow> lr_transform (t_lidar_imu values) = map round9 [x, y, z, qx, qy, qz, qw]"
    "lr_defaulted (t_lidar_imu values) = dl @ di" "lr_problems (t_lidar_imu values) = pl @ pi'"
    by (auto simp: t_lidar_imu_def l i tq split: prod.split)
  show ?thesis
    using l i rot tq quaternion_rotates [OF r, folded q] point report by blast
qed

end
