(* ===== verification/Sensor_Config.thy ===== *)
theory Sensor_Config
  imports Sensor_Extrinsics Contracts
begin

text \<open>
  The settings the human enters in the monitor (\<^verbatim>\<open>SensorConfig\<close> of \<^verbatim>\<open>gouda_core/monitor_core.py\<close>, with the kinds
  of \<^verbatim>\<open>nav2_config.TUNABLES\<close>): validation, an update that is applied as a whole, and the file it is kept in.

  The file holds the parsed JSON document; \<^verbatim>\<open>json.dumps\<close> followed by \<^verbatim>\<open>json.loads\<close> gives the same values
  (floats are written with \<^verbatim>\<open>repr\<close>, NaN and the infinities as Python's extension of JSON).  The number a text spells
  (\<open>pf\<close>, \<open>None\<close> for a ValueError) and the integer it spells (\<open>pint\<close>) are parameters.
\<close>

section \<open>Fields\<close>

datatype kind = Number | Axes | Fraction | Count | Positive | Positive_int | Whole | Boolean | Word

definition CONFIG_FIELDS :: "(string \<times> kind) list" where
  "CONFIG_FIELDS =
     [(''lidar_mount_x_m'', Number), (''lidar_mount_y_m'', Number), (''lidar_mount_z_m'', Number),
      (''lidar_mount_roll_rad'', Number), (''lidar_mount_pitch_rad'', Number), (''lidar_mount_yaw_rad'', Number),
      (''lidar_axis_mapping'', Axes),
      (''imu_mount_x_m'', Number), (''imu_mount_y_m'', Number), (''imu_mount_z_m'', Number),
      (''imu_mount_roll_rad'', Number), (''imu_mount_pitch_rad'', Number), (''imu_mount_yaw_rad'', Number),
      (''imu_axis_mapping'', Axes),
      (''gnss_main_mount_x_m'', Number), (''gnss_main_mount_y_m'', Number), (''gnss_main_mount_z_m'', Number),
      (''gnss_aux1_mount_x_m'', Number), (''gnss_aux1_mount_y_m'', Number), (''gnss_aux1_mount_z_m'', Number)]"

definition MOTION_COMPENSATION_FIELDS :: "(string \<times> kind) list" where
  "MOTION_COMPENSATION_FIELDS =
     [(''forward_min'', Fraction), (''forward_threshold'', Fraction), (''reverse_min'', Fraction), (''reverse_threshold'', Fraction),
      (''turn_min'', Fraction), (''turn_threshold'', Fraction)]"

definition TUNABLES :: "(string \<times> kind) list" where
  "TUNABLES =
     [(''bt_default_server_timeout_ms'', Positive_int), (''recovery_spin_enabled'', Boolean), (''recovery_spin_dist_rad'', Positive),
      (''recovery_wait_s'', Positive), (''recovery_backup_enabled'', Boolean), (''recovery_backup_dist_m'', Positive),
      (''recovery_backup_speed_mps'', Positive), (''replan_recovery_retries'', Whole), (''follow_path_recovery_retries'', Whole),
      (''rpp_use_collision_detection'', Boolean), (''rpp_max_time_to_collision_s'', Positive), (''rpp_lookahead_dist_m'', Positive),
      (''rpp_min_lookahead_dist_m'', Positive), (''rpp_max_lookahead_dist_m'', Positive), (''rpp_lookahead_time_s'', Positive),
      (''rpp_use_velocity_scaled_lookahead_dist'', Boolean), (''rpp_use_regulated_linear_velocity_scaling'', Boolean),
      (''rpp_use_cost_regulated_linear_velocity_scaling'', Boolean), (''rpp_regulated_linear_scaling_min_speed_mps'', Positive),
      (''local_costmap_size_m'', Positive_int), (''obstacle_max_range_m'', Positive), (''raytrace_max_range_m'', Positive),
      (''voxel_mark_threshold'', Whole), (''global_costmap_update_hz'', Positive), (''inflation_cost_scaling_factor'', Positive),
      (''inflation_radius_m'', Positive), (''controller_use_mppi'', Boolean), (''mppi_vx_max_mps'', Positive), (''mppi_wz_max_radps'', Positive),
      (''local_costmap_update_hz'', Positive), (''path_smoothing_enabled'', Boolean), (''map_odom_future_offset_s'', Positive)]"

definition NAV2_RECOVERY_FIELDS :: "(string \<times> kind) list" where
  "NAV2_RECOVERY_FIELDS = [(''recovery_number_of_retries'', Count), (''inflate_around_unknown'', Boolean), (''replan_rate_hz'', Positive)] @ TUNABLES"

definition NUMERIC_KINDS :: "kind list" where
  "NUMERIC_KINDS = [Number, Fraction, Count, Positive, Positive_int, Whole]"

section \<open>Validation\<close>

text \<open>\<^verbatim>\<open>float.is_integer\<close>.\<close>

fun is_integer :: "xfloat \<Rightarrow> bool" where
  "is_integer (Fin r) = (of_int \<lfloor>r\<rfloor> = r)"
| "is_integer _ = False"

fun valid_tunable :: "kind \<Rightarrow> pyval \<Rightarrow> bool" where
  "valid_tunable k (PBool b) = (k = Boolean)"
| "valid_tunable k (PInt i) = (k \<noteq> Boolean \<and> (if k = Positive then 0 < i else if k = Positive_int then 1 \<le> i else 0 \<le> i))"
| "valid_tunable k (PFloat (Fin r)) =
     (k \<noteq> Boolean \<and> (if k = Positive then 0 < r else is_integer (Fin r) \<and> (if k = Positive_int then 1 \<le> r else 0 \<le> r)))"
| "valid_tunable k _ = False"

fun is_number :: "pyval \<Rightarrow> bool" where
  "is_number (PInt i) = True"
| "is_number (PFloat x) = True"
| "is_number _ = False"

fun is_fraction :: "pyval \<Rightarrow> bool" where \<comment> \<open>\<^verbatim>\<open>0 <= value < 1\<close>\<close>
  "is_fraction (PInt i) = (0 \<le> i \<and> i < 1)"
| "is_fraction (PFloat (Fin r)) = (0 \<le> r \<and> r < 1)"
| "is_fraction _ = False"

fun is_positive :: "pyval \<Rightarrow> bool" where
  "is_positive (PInt i) = (0 < i)"
| "is_positive (PFloat (Fin r)) = (0 < r)"
| "is_positive _ = False"

type_synonym limits = "(string \<times> int \<times> int) list"

definition valid_value :: "limits \<Rightarrow> string \<Rightarrow> kind \<Rightarrow> pyval \<Rightarrow> bool" where
  "valid_value ls key k v =
     (v = PStr UNKNOWN \<or>
      (case k of
         Number \<Rightarrow> is_number v
       | Fraction \<Rightarrow> is_fraction v
       | Boolean \<Rightarrow> (case v of PBool b \<Rightarrow> True | _ \<Rightarrow> False)
       | Positive \<Rightarrow> is_positive v
       | Positive_int \<Rightarrow> valid_tunable k v
       | Whole \<Rightarrow> valid_tunable k v
       | Count \<Rightarrow> (case (map_of ls key, v) of (Some (lo, hi), PInt i) \<Rightarrow> lo \<le> i \<and> i \<le> hi | _ \<Rightarrow> False)
       | Axes \<Rightarrow> (case v of PStr s \<Rightarrow> axis_mapping_ok s | _ \<Rightarrow> False)
       | Word \<Rightarrow> (case v of PStr s \<Rightarrow> s \<noteq> [] | _ \<Rightarrow> False)))"

section \<open>State and file\<close>

datatype document = No_file | Not_json | Json pyval

record settings_store =
  st_fields :: "(string \<times> kind) list"
  st_limits :: limits
  st_values :: config
  st_revision :: int
  st_updated :: pyval
  st_file :: document

definition blank_store :: "(string \<times> kind) list \<Rightarrow> limits \<Rightarrow> document \<Rightarrow> settings_store" where
  "blank_store fds ls file = \<lparr>st_fields = fds, st_limits = ls, st_values = map (\<lambda>(k, _). (k, PStr UNKNOWN)) fds,
     st_revision = 0, st_updated = PNone, st_file = file\<rparr>"

text \<open>\<^verbatim>\<open>load\<close>: a missing or unreadable file, or one that is no object, changes nothing.  An object whose \<open>values\<close> is no
  object, or whose revision is no integer, raises.\<close>

definition load :: "(string \<Rightarrow> int option) \<Rightarrow> settings_store \<Rightarrow> (settings_store \<times> bool) result" where
  "load pint c = (case st_file c of
     Json (PDict raw) \<Rightarrow>
       res_bind (case dict_get raw ''values'' (PDict []) of PDict vals \<Rightarrow> Inr vals | _ \<Rightarrow> Inl AttributeError) (\<lambda>vals.
       res_bind (py_int pint (dict_get raw ''config_revision'' (PInt 0))) (\<lambda>rev.
         Inr (c\<lparr>st_values := map (\<lambda>(key, k). (key, let v = dict_get vals key (PStr UNKNOWN) in
                  if valid_value (st_limits c) key k v then v else PStr UNKNOWN)) (st_fields c),
                st_revision := rev, st_updated := dict_get raw ''updated_at'' PNone\<rparr>, True)))
   | _ \<Rightarrow> Inr (c, False))"

definition open_store :: "(string \<Rightarrow> int option) \<Rightarrow> (string \<times> kind) list \<Rightarrow> limits \<Rightarrow> document \<Rightarrow> settings_store result" where
  "open_store pint fds ls file = res_bind (load pint (blank_store fds ls file)) (\<lambda>(c, ok). Inr c)"

section \<open>Update\<close>

datatype refusal =
    Unknown_field string
  | Not_a_number string
  | Not_true_or_false string
  | Not_a_whole_number string
  | Outside_limits string
  | Bad_axes string
  | Outside_fraction string
  | Not_above_zero string
  | Invalid string
  | Raised pyexc \<comment> \<open>no answer: the exception leaves \<^verbatim>\<open>update\<close>\<close>

text \<open>One changed value: text of numeric and boolean kinds is read, a whole float of an integer kind becomes an
  integer, then the value is validated.\<close>

definition as_number :: "(string \<Rightarrow> xfloat option) \<Rightarrow> string \<Rightarrow> kind \<Rightarrow> pyval \<Rightarrow> refusal + pyval" where
  "as_number pf key k v = (case v of
     PStr s \<Rightarrow> if k \<in> set NUMERIC_KINDS \<and> strip s \<notin> {[], UNKNOWN}
       then (case pf s of None \<Rightarrow> Inl (Not_a_number key) | Some x \<Rightarrow> Inr (PFloat x)) else Inr v
   | _ \<Rightarrow> Inr v)"

definition as_unknown :: "pyval \<Rightarrow> pyval" where
  "as_unknown v = (case v of PStr s \<Rightarrow> if strip s \<in> {[], UNKNOWN} then PStr UNKNOWN else v | _ \<Rightarrow> v)"

definition as_boolean :: "string \<Rightarrow> kind \<Rightarrow> pyval \<Rightarrow> refusal + pyval" where
  "as_boolean key k v = (case v of
     PStr s \<Rightarrow> if k = Boolean \<and> s \<noteq> UNKNOWN
       then (let l = map lower (strip s) in
             if l \<notin> {''true'', ''false''} then Inl (Not_true_or_false key) else Inr (PBool (l = ''true'')))
       else Inr v
   | _ \<Rightarrow> Inr v)"

definition as_integer :: "string \<Rightarrow> kind \<Rightarrow> pyval \<Rightarrow> refusal + pyval" where
  "as_integer key k v = (case v of
     PFloat x \<Rightarrow> if k \<in> {Count, Positive_int, Whole}
       then (if is_integer x then Inr (PInt \<lfloor>fin_val x\<rfloor>) else Inl (Not_a_whole_number key)) else Inr v
   | _ \<Rightarrow> Inr v)"

definition checked :: "limits \<Rightarrow> string \<Rightarrow> kind \<Rightarrow> pyval \<Rightarrow> refusal + pyval" where
  "checked ls key k v =
     (if valid_value ls key k v then Inr v
      else Inl (case k of
          Positive_int \<Rightarrow> Not_a_whole_number key
        | Whole \<Rightarrow> Not_a_whole_number key
        | Count \<Rightarrow> Outside_limits key
        | Axes \<Rightarrow> (case v of PStr s \<Rightarrow> Bad_axes key | _ \<Rightarrow> Raised TypeError)
        | Fraction \<Rightarrow> Outside_fraction key
        | Positive \<Rightarrow> Not_above_zero key
        | _ \<Rightarrow> Invalid key))"

fun sum_bind :: "'e + 'a \<Rightarrow> ('a \<Rightarrow> 'e + 'b) \<Rightarrow> 'e + 'b" where
  "sum_bind (Inl e) f = Inl e"
| "sum_bind (Inr x) f = f x"

definition parse_change :: "(string \<Rightarrow> xfloat option) \<Rightarrow> (string \<times> kind) list \<Rightarrow> limits \<Rightarrow> string \<times> pyval \<Rightarrow> refusal + (string \<times> pyval)" where
  "parse_change pf fds ls ch = (case ch of (key, v) \<Rightarrow>
     (case map_of fds key of
        None \<Rightarrow> Inl (Unknown_field key)
      | Some k \<Rightarrow>
          sum_bind (as_number pf key k v) (\<lambda>v.
          sum_bind (as_boolean key k (as_unknown v)) (\<lambda>v.
          sum_bind (as_integer key k v) (\<lambda>v.
          sum_bind (checked ls key k v) (\<lambda>v. Inr (key, v)))))))"

fun parse_changes :: "(string \<Rightarrow> xfloat option) \<Rightarrow> (string \<times> kind) list \<Rightarrow> limits \<Rightarrow> (string \<times> pyval) list \<Rightarrow> refusal + (string \<times> pyval) list" where
  "parse_changes pf fds ls [] = Inr []"
| "parse_changes pf fds ls (ch # chs) =
     sum_bind (parse_change pf fds ls ch) (\<lambda>c. sum_bind (parse_changes pf fds ls chs) (\<lambda>cs. Inr (c # cs)))"

datatype answer =
    Refused refusal
  | No_change
  | Saved int nat "string list" \<comment> \<open>revision, number of fields, left-handed mappings\<close>
  | Not_written

definition put_values :: "(string \<times> pyval) list \<Rightarrow> config \<Rightarrow> config" where
  "put_values parsed vs = map (\<lambda>(key, v). (key, case map_of parsed key of None \<Rightarrow> v | Some w \<Rightarrow> w)) vs"

definition document_of :: "settings_store \<Rightarrow> document" where
  "document_of c = Json (PDict [(''values'', PDict (st_values c)), (''config_revision'', PInt (st_revision c)), (''updated_at'', st_updated c)])"

definition left_handed :: "(string \<times> kind) list \<Rightarrow> (string \<times> pyval) list \<Rightarrow> string list" where
  "left_handed fds parsed = map fst (filter (\<lambda>(key, v). map_of fds key = Some Axes
     \<and> (case v of PStr s \<Rightarrow> s \<noteq> UNKNOWN \<and> (case parse_axis_mapping s of Inl _ \<Rightarrow> False | Inr a \<Rightarrow> determinant a < 0) | _ \<Rightarrow> False)) parsed)"

definition update :: "(string \<Rightarrow> xfloat option) \<Rightarrow> bool \<Rightarrow> (string \<times> pyval) list \<Rightarrow> real \<Rightarrow> settings_store \<Rightarrow> settings_store \<times> answer" where
  "update pf writes changes now c = (case parse_changes pf (st_fields c) (st_limits c) changes of
     Inl r \<Rightarrow> (c, Refused r)
   | Inr [] \<Rightarrow> (c, No_change)
   | Inr parsed \<Rightarrow>
       (let c = c\<lparr>st_values := put_values parsed (st_values c), st_revision := st_revision c + 1, st_updated := PFloat (Fin now)\<rparr> in
        if \<not> writes then (c, Not_written)
        else (c\<lparr>st_file := document_of c\<rparr>, Saved (st_revision c) (length parsed) (left_handed (st_fields c) parsed))))"

section \<open>Every value has the type of its field\<close>

definition well_typed :: "settings_store \<Rightarrow> bool" where
  "well_typed c \<longleftrightarrow> distinct (map fst (st_fields c))
     \<and> list_all2 (\<lambda>(key, v) (key', k). key = key' \<and> valid_value (st_limits c) key k v) (st_values c) (st_fields c)"

lemma unknown_valid [simp]: "valid_value ls key k (PStr UNKNOWN)"
  by (simp add: valid_value_def)

lemma list_all2_map_self: "(\<And>x. x \<in> set xs \<Longrightarrow> P (f x) x) \<Longrightarrow> list_all2 P (map f xs) xs"
  by (induction xs) auto

lemma blank_typed: "distinct (map fst fds) \<Longrightarrow> well_typed (blank_store fds ls file)"
  unfolding well_typed_def blank_store_def by (auto intro!: list_all2_map_self)



lemma sum_bind_Inr [simp]: "sum_bind r f = Inr y \<longleftrightarrow> (\<exists>x. r = Inr x \<and> f x = Inr y)"
  by (cases r) auto

lemma parse_change_valid:
  "parse_change pf fds ls ch = Inr (key, v) \<Longrightarrow> \<exists>k. map_of fds key = Some k \<and> valid_value ls key k v"
  by (auto simp: parse_change_def checked_def split: prod.split_asm option.split_asm if_split_asm)

lemma parse_changes_valid:
  "parse_changes pf fds ls chs = Inr parsed \<Longrightarrow> (key, v) \<in> set parsed \<Longrightarrow> \<exists>k. map_of fds key = Some k \<and> valid_value ls key k v"
  by (induction chs arbitrary: parsed) (auto dest: parse_change_valid)

lemma put_typed:
  assumes "list_all2 (\<lambda>(key, v) (key', k). key = key' \<and> valid_value ls key k v) vs fds"
    and "distinct (map fst fds)" and "\<And>key v. (key, v) \<in> set parsed \<Longrightarrow> \<exists>k. map_of fds key = Some k \<and> valid_value ls key k v"
  shows "list_all2 (\<lambda>(key, v) (key', k). key = key' \<and> valid_value ls key k v) (put_values parsed vs) fds"
proof -
  have "valid_value ls key k (case map_of parsed key of None \<Rightarrow> v | Some w \<Rightarrow> w)"
    if "valid_value ls key k v" "(key, k) \<in> set fds" for key k v
  proof (cases "map_of parsed key")
    case (Some w)
    with assms(3) [OF map_of_SomeD [OF Some]] assms(2) that(2) show ?thesis by auto
  qed (use that in simp)
  with assms(1) show ?thesis
    by (auto simp: put_values_def list_all2_conv_all_nth split: prod.splits) (metis nth_mem prod.inject)+
qed

lemma update_cases:
  assumes "update pf writes changes now c = (c', a)"
  obtains (same) "c' = c" "(\<exists>r. a = Refused r \<and> parse_changes pf (st_fields c) (st_limits c) changes = Inl r) \<or> a = No_change \<and> changes = []"
  | (changed) parsed where "parse_changes pf (st_fields c) (st_limits c) changes = Inr parsed"
      "st_values c' = put_values parsed (st_values c)" "st_revision c' = st_revision c + 1" "st_updated c' = PFloat (Fin now)"
      "st_fields c' = st_fields c" "st_limits c' = st_limits c"
      "st_file c' = (if writes then document_of c' else st_file c)" "a = Not_written \<longleftrightarrow> \<not> writes" "\<nexists>r. a = Refused r" "a \<noteq> No_change"
proof (cases "parse_changes pf (st_fields c) (st_limits c) changes")
  case (Inl r)
  with assms show thesis by (intro same) (auto simp: update_def)
next
  case (Inr parsed)
  show thesis
  proof (cases parsed)
    case Nil
    with Inr have "changes = []" by (cases changes) auto
    with assms Inr Nil show thesis by (intro same) (auto simp: update_def)
  next
    case (Cons p ps)
    with Inr assms show thesis by (intro changed [of parsed]) (auto simp: update_def Let_def document_of_def split: if_split_asm)
  qed
qed

lemma update_typed:
  assumes "update pf writes changes now c = (c', a)" and "well_typed c"
  shows "well_typed c'" and "st_fields c' = st_fields c" and "st_limits c' = st_limits c"
  using assms(1)
  by (cases rule: update_cases; use assms(2) in \<open>auto simp: well_typed_def intro!: put_typed dest: parse_changes_valid\<close>)+

text \<open>A typed store reads its own document back.\<close>

lemma dict_get_map:
  "distinct (map fst vs) \<Longrightarrow> (key, v) \<in> set vs \<Longrightarrow> dict_get vs key d = v"
  by simp

lemma same_keys: "list_all2 (\<lambda>(key, v) (key', k). key = key' \<and> P key k v) vs fds \<Longrightarrow> map fst vs = map fst fds"
  by (induction rule: list_all2_induct) auto

lemma reopen_document:
  assumes "well_typed c" and "st_file c = document_of c"
  shows "open_store pint (st_fields c) (st_limits c) (st_file c) = Inr c"
proof -
  have d: "distinct (map fst (st_values c))" and l: "list_all2 (\<lambda>(key, v) (key', k). key = key' \<and> valid_value (st_limits c) key k v) (st_values c) (st_fields c)"
    using assms(1) same_keys [of "valid_value (st_limits c)" "st_values c" "st_fields c"] by (auto simp: well_typed_def)
  have "map (\<lambda>(key, k). (key, let v = dict_get (st_values c) key (PStr UNKNOWN) in
      if valid_value (st_limits c) key k v then v else PStr UNKNOWN)) (st_fields c) = st_values c"
  proof (rule nth_equalityI)
    show len: "length (map (\<lambda>(key, k). (key, let v = dict_get (st_values c) key (PStr UNKNOWN) in
      if valid_value (st_limits c) key k v then v else PStr UNKNOWN)) (st_fields c)) = length (st_values c)"
      using list_all2_lengthD [OF l] by simp
    fix j assume "j < length (map (\<lambda>(key, k). (key, let v = dict_get (st_values c) key (PStr UNKNOWN) in
      if valid_value (st_limits c) key k v then v else PStr UNKNOWN)) (st_fields c))"
    then have j: "j < length (st_fields c)" "j < length (st_values c)" using list_all2_lengthD [OF l] by simp_all
    obtain key k where f: "st_fields c ! j = (key, k)" by fastforce
    obtain key' v where w: "st_values c ! j = (key', v)" by fastforce
    from list_all2_nthD [OF l j(2)] f w have "key' = key" "valid_value (st_limits c) key k v" by auto
    moreover from w j(2) have "(key', v) \<in> set (st_values c)" by (metis nth_mem)
    ultimately have "dict_get (st_values c) key (PStr UNKNOWN) = v" using dict_get_map [OF d] by blast
    with f w j \<open>key' = key\<close> \<open>valid_value (st_limits c) key k v\<close>
    show "map (\<lambda>(key, k). (key, let v = dict_get (st_values c) key (PStr UNKNOWN) in
      if valid_value (st_limits c) key k v then v else PStr UNKNOWN)) (st_fields c) ! j = st_values c ! j"
      by (simp add: Let_def)
  qed
  then show ?thesis
    using assms(2) by (cases c) (simp add: open_store_def load_def document_of_def blank_store_def)
qed

section \<open>Runs\<close>








text \<open>An update is all or nothing: refused, it changes nothing; otherwise exactly the named fields get their
  validated values and the revision grows by one; and when it was saved, the monitor opens the file again
  to the very same settings.\<close>

theorem saved_settings_load:
  assumes "well_typed c" and "update pf writes changes now c = (c', a)"
  shows "((\<exists>r. a = Refused r) \<or> a = No_change) \<and> c' = c
     \<or> (\<exists>parsed. parse_changes pf (st_fields c) (st_limits c) changes = Inr parsed
          \<and> st_values c' = put_values parsed (st_values c) \<and> st_revision c' = st_revision c + 1 \<and> well_typed c'
          \<and> (if a = Not_written then st_file c' = st_file c
             else open_store pint (st_fields c) (st_limits c) (st_file c') = Inr c'))"
  using assms(2)
proof (cases rule: update_cases)
  case same
  then show ?thesis by auto
next
  case (changed parsed)
  note typed = update_typed [OF assms(2,1)]
  from changed typed reopen_document [OF typed(1)] show ?thesis
    by (cases writes) simp_all
qed

theorem saved_settings_load_witness:
  "\<exists>c'. fst (update (\<lambda>_. None) True [(''forward_min'', PFloat (Fin (1 / 4)))] 1 (blank_store MOTION_COMPENSATION_FIELDS [] No_file)) = c'
     \<and> open_store (\<lambda>_. None) MOTION_COMPENSATION_FIELDS [] (st_file c') = Inr c' \<and> st_revision c' = 1"
proof -
  let ?c = "blank_store MOTION_COMPENSATION_FIELDS [] No_file"
  obtain c' a where u: "update (\<lambda>_. None) True [(''forward_min'', PFloat (Fin (1 / 4)))] 1 ?c = (c', a)" by fastforce
  have a: "a = Saved 1 1 []"
    using u by (simp add: update_def blank_store_def MOTION_COMPENSATION_FIELDS_def parse_change_def as_number_def as_boolean_def
        as_unknown_def as_integer_def checked_def valid_value_def left_handed_def Let_def)
  have "well_typed ?c" by (rule blank_typed) code_simp
  from saved_settings_load [OF this u, of "\<lambda>_. None"] u a show ?thesis
    by (auto simp: blank_store_def)
qed

text \<open>A field of a number takes the texts of NaN and infinity.\<close>

lemma nan_is_saved:
  "pf ''nan'' = Some NaN \<Longrightarrow>
     \<exists>c'. update pf True [(''lidar_mount_x_m'', PStr ''nan'')] now (blank_store CONFIG_FIELDS [] No_file) = (c', Saved 1 1 [])
       \<and> map_of (st_values c') ''lidar_mount_x_m'' = Some (PFloat NaN)"
proof -
  assume pf: "pf ''nan'' = Some NaN"
  have strip: "strip ''nan'' = ''nan''" by code_simp
  have "''nan'' \<noteq> UNKNOWN" by (simp add: UNKNOWN_def)
  with pf strip show ?thesis
    by (simp add: update_def blank_store_def CONFIG_FIELDS_def parse_change_def as_number_def NUMERIC_KINDS_def as_boolean_def
        as_unknown_def as_integer_def checked_def valid_value_def left_handed_def Let_def put_values_def)
qed

end
