(* ===== verification/Monitor_Core.thy ===== *)
theory Monitor_Core
  imports Contracts "HOL-Library.Char_ord" "HOL-Library.List_Lexorder"
begin

text \<open>
  The state of the monitor (ND-02): freshness, reception of the sensors, the table of recorded decisions and
  the snapshot for the display, \<^verbatim>\<open>gouda_core/monitor_core.py\<close> without \<^verbatim>\<open>SensorConfig\<close> (in Sensor_Config).

  Message contents that are only shown are type parameters or left out; texts for the display are their
  cases.  An \<^verbatim>\<open>OrderedDict\<close> is the list of its items in their order.
\<close>

section \<open>Freshness\<close>

datatype reception_status = NOT_RECEIVED | RECEIVED | STALE

record freshness =
  fr_status :: reception_status
  fr_age :: "real option"

definition freshness_of :: "real option \<Rightarrow> real \<Rightarrow> real option \<Rightarrow> freshness" where
  "freshness_of received now stale_after = (case received of
     None \<Rightarrow> \<lparr>fr_status = NOT_RECEIVED, fr_age = None\<rparr>
   | Some t \<Rightarrow> let age = max 0 (now - t) in
       (case stale_after of
          None \<Rightarrow> \<lparr>fr_status = RECEIVED, fr_age = Some age\<rparr>
        | Some limit \<Rightarrow> \<lparr>fr_status = if limit < age then STALE else RECEIVED, fr_age = Some age\<rparr>))"

section \<open>Reception of a sensor\<close>

definition HISTORY :: nat where "HISTORY = 50"

record reception =
  rc_arrivals :: "real list" \<comment> \<open>oldest first, at most \<open>HISTORY\<close>\<close>
  rc_count :: nat
  rc_last_stamp :: "real option"
  rc_last_at :: "real option"

definition new_reception :: reception where
  "new_reception = \<lparr>rc_arrivals = [], rc_count = 0, rc_last_stamp = None, rc_last_at = None\<rparr>"

definition on_message :: "real \<Rightarrow> real option \<Rightarrow> reception \<Rightarrow> reception" where
  "on_message t stamp r = r\<lparr>rc_arrivals := lastn HISTORY (rc_arrivals r @ [t]), rc_count := rc_count r + 1, rc_last_at := Some t,
     rc_last_stamp := (if stamp = None then rc_last_stamp r else stamp)\<rparr>"

record sensor_status =
  ss_freshness :: freshness
  ss_rate :: "real option"
  ss_count :: nat
  ss_stamp_minus_receive :: "real option"

definition sensor_status :: "real \<Rightarrow> real option \<Rightarrow> reception \<Rightarrow> sensor_status" where
  "sensor_status now stale_after r =
     (let a = rc_arrivals r in
      \<lparr>ss_freshness = freshness_of (rc_last_at r) now stale_after,
       ss_rate = (if 2 \<le> length a \<and> hd a < last a then Some (of_nat (length a - 1) / (last a - hd a)) else None),
       ss_count = rc_count r,
       ss_stamp_minus_receive = (case (rc_last_stamp r, rc_last_at r) of (Some s, Some t) \<Rightarrow> Some (s - t) | _ \<Rightarrow> None)\<rparr>)"

section \<open>GNSS quality\<close>

datatype pvt_kind = No_pvt | Stand_alone | Dgnss | Fixed_location | Rtk_fixed | Rtk_float | Sbas | Moving_fixed | Moving_float | Ppp | Unknown_pvt int

definition pvt_kind :: "int \<Rightarrow> pvt_kind" where
  "pvt_kind mode = (let k = mode mod 16 in
     case map_of [(0, No_pvt), (1, Stand_alone), (2, Dgnss), (3, Fixed_location), (4, Rtk_fixed), (5, Rtk_float), (6, Sbas),
       (7, Moving_fixed), (8, Moving_float), (10, Ppp)] k of Some p \<Rightarrow> p | None \<Rightarrow> Unknown_pvt k)"

definition gnss_quality :: "int \<Rightarrow> int \<Rightarrow> int option \<Rightarrow> pvt_kind \<times> int \<times> real option" where
  "gnss_quality mode nr_sv accuracy_cm =
     (pvt_kind mode, nr_sv, case accuracy_cm of None \<Rightarrow> None | Some a \<Rightarrow> if a = 0xFFFF then None else Some (of_int a / 100))"

datatype attitude_kind = No_attitude | Heading_float | Heading_fixed | Roll_float | Roll_fixed | Unknown_attitude int

definition gnss_attitude :: "int \<Rightarrow> real \<Rightarrow> attitude_kind \<times> real option" where
  "gnss_attitude mode heading =
     (case map_of [(0, No_attitude), (1, Heading_float), (2, Heading_fixed), (3, Roll_float), (4, Roll_fixed)] mode of
        Some k \<Rightarrow> k | None \<Rightarrow> Unknown_attitude mode,
      if mode = 0 \<or> heading \<le> - 20000000000 / 2 then None else Some heading)"

section \<open>State\<close>

text \<open>The key of a decision: node, event, transition, reason.\<close>

type_synonym decision_key = "string \<times> string \<times> string \<times> string"

record 'd aggregate =
  ag_first :: real
  ag_last :: real
  ag_count :: nat
  ag_sample :: 'd

datatype sensor = Points | Imu | Gnss

record command_result =
  cr_at :: real
  cr_command :: string
  cr_ok :: bool

record 'd monitor =
  mn_mode :: "(int \<times> real) option"
  mn_record :: "real option"
  mn_esp32 :: "real option"
  mn_usb_link :: "real option"
  mn_nodes :: "string list"
  mn_nodes_at :: "real option"
  mn_events :: "(decision_key \<times> 'd aggregate) list"
  mn_max_events :: nat
  mn_commands :: "command_result list"
  mn_revision :: nat
  mn_sensors :: "sensor \<Rightarrow> reception"
  mn_stale_mode :: "real option"
  mn_stale_esp32 :: "real option"
  mn_stale_sensor :: "sensor \<Rightarrow> real option"
  mn_key_error :: bool

definition new_monitor :: "nat \<Rightarrow> 'd monitor" where
  "new_monitor max_events = \<lparr>mn_mode = None, mn_record = None, mn_esp32 = None, mn_usb_link = None, mn_nodes = [], mn_nodes_at = None,
     mn_events = [], mn_max_events = max_events, mn_commands = [], mn_revision = 0, mn_sensors = (\<lambda>_. new_reception), mn_stale_mode = None,
     mn_stale_esp32 = None, mn_stale_sensor = (\<lambda>_. None), mn_key_error = False\<rparr>"

definition bump :: "'d monitor \<Rightarrow> 'd monitor" where
  "bump m = m\<lparr>mn_revision := mn_revision m + 1\<rparr>"

definition on_mode :: "int \<Rightarrow> real \<Rightarrow> 'd monitor \<Rightarrow> 'd monitor" where
  "on_mode mode t m = bump (m\<lparr>mn_mode := Some (mode, t)\<rparr>)"

definition on_record :: "real \<Rightarrow> 'd monitor \<Rightarrow> 'd monitor" where
  "on_record t m = bump (m\<lparr>mn_record := Some t\<rparr>)"

definition on_esp32 :: "real \<Rightarrow> 'd monitor \<Rightarrow> 'd monitor" where
  "on_esp32 t m = bump (m\<lparr>mn_esp32 := Some t\<rparr>)"

definition on_usb_link :: "real \<Rightarrow> 'd monitor \<Rightarrow> 'd monitor" where
  "on_usb_link t m = bump (m\<lparr>mn_usb_link := Some t\<rparr>)"

definition on_sensor :: "sensor \<Rightarrow> real \<Rightarrow> real option \<Rightarrow> 'd monitor \<Rightarrow> 'd monitor" where
  "on_sensor k t stamp m = m\<lparr>mn_sensors := (mn_sensors m)(k := on_message t stamp (mn_sensors m k))\<rparr>"

definition on_nodes :: "string list \<Rightarrow> real \<Rightarrow> 'd monitor \<Rightarrow> 'd monitor" where
  "on_nodes names now m = bump (m\<lparr>mn_nodes := sort names, mn_nodes_at := Some now\<rparr>)"

definition on_command_result :: "string \<Rightarrow> bool \<Rightarrow> real \<Rightarrow> 'd monitor \<Rightarrow> 'd monitor" where
  "on_command_result name ok now m =
     bump (m\<lparr>mn_commands := lastn 50 (mn_commands m @ [\<lparr>cr_at = now, cr_command = name, cr_ok = ok\<rparr>])\<rparr>)"

section \<open>Decisions\<close>

text \<open>\<^verbatim>\<open>popitem(last=False)\<close> until the table is small enough.\<close>

definition insert_event :: "nat \<Rightarrow> decision_key \<Rightarrow> 'd aggregate \<Rightarrow> (decision_key \<times> 'd aggregate) list \<Rightarrow> (decision_key \<times> 'd aggregate) list" where
  "insert_event n key a es = lastn n (es @ [(key, a)])"

definition remove_key :: "decision_key \<Rightarrow> (decision_key \<times> 'd aggregate) list \<Rightarrow> (decision_key \<times> 'd aggregate) list" where
  "remove_key key es = filter (\<lambda>(k, _). k \<noteq> key) es"

text \<open>The aggregate of the key is found or inserted, counted up, and moved to the end.  With room for no event the
  new one is dropped at once and \<^verbatim>\<open>move_to_end\<close> raises.\<close>

definition on_decision :: "decision_key \<Rightarrow> 'd \<Rightarrow> real \<Rightarrow> 'd monitor \<Rightarrow> 'd monitor" where
  "on_decision key data t m =
     (let (a, es) = (case map_of (mn_events m) key of
            Some a \<Rightarrow> (a, mn_events m)
          | None \<Rightarrow> let a = \<lparr>ag_first = t, ag_last = t, ag_count = 0, ag_sample = data\<rparr> in
              (a, insert_event (mn_max_events m) key a (mn_events m)));
          a = a\<lparr>ag_count := ag_count a + 1, ag_last := t, ag_sample := data\<rparr>
      in if key \<in> fst ` set es then bump (m\<lparr>mn_events := remove_key key es @ [(key, a)]\<rparr>)
         else m\<lparr>mn_events := es, mn_key_error := True\<rparr>)"

section \<open>Display\<close>

datatype sensor_problem = Not_received sensor | Not_arriving sensor real

definition mapping_start_warning :: "real \<Rightarrow> 'd monitor \<Rightarrow> sensor_problem list" where
  "mapping_start_warning now m = List.map_filter (\<lambda>k.
     let f = ss_freshness (sensor_status now (mn_stale_sensor m k) (mn_sensors m k)) in
     case fr_status f of
       NOT_RECEIVED \<Rightarrow> Some (Not_received k)
     | STALE \<Rightarrow> Some (Not_arriving k (the (fr_age f)))
     | RECEIVED \<Rightarrow> None) [Points, Imu]"

record 'd snapshot =
  sn_revision :: nat
  sn_mode :: freshness
  sn_mode_code :: int
  sn_record :: freshness
  sn_esp32 :: freshness
  sn_nodes :: "string list"
  sn_nodes_age :: "real option"
  sn_sensors :: "sensor \<Rightarrow> sensor_status"
  sn_events :: "(decision_key \<times> 'd aggregate) list"
  sn_commands :: "command_result list"

definition snapshot :: "real \<Rightarrow> 'd monitor \<Rightarrow> 'd snapshot" where
  "snapshot now m = \<lparr>sn_revision = mn_revision m,
     sn_mode = freshness_of (map_option snd (mn_mode m)) now (mn_stale_mode m),
     sn_mode_code = (case mn_mode m of None \<Rightarrow> 0 | Some (mode, _) \<Rightarrow> mode),
     sn_record = freshness_of (mn_record m) now None,
     sn_esp32 = freshness_of (mn_esp32 m) now (mn_stale_esp32 m),
     sn_nodes = mn_nodes m,
     sn_nodes_age = (case mn_nodes_at m of None \<Rightarrow> None | Some t \<Rightarrow> if t = 0 then None else Some (now - t)),
     sn_sensors = (\<lambda>k. sensor_status now (mn_stale_sensor m k) (mn_sensors m k)),
     sn_events = rev (mn_events m), sn_commands = rev (mn_commands m)\<rparr>"

text \<open>The inputs of the monitor.\<close>

datatype 'd monitor_event =
    Mode_state int real
  | Record_status real
  | Esp32_status real
  | Usb_link real
  | Sensor_message sensor real "real option"
  | Node_names "string list" real
  | Decision decision_key 'd real
  | Command_result string bool real

fun monitor_step :: "'d monitor \<Rightarrow> 'd monitor_event \<Rightarrow> 'd monitor" where
  "monitor_step m (Mode_state mode t) = on_mode mode t m"
| "monitor_step m (Record_status t) = on_record t m"
| "monitor_step m (Esp32_status t) = on_esp32 t m"
| "monitor_step m (Usb_link t) = on_usb_link t m"
| "monitor_step m (Sensor_message k t stamp) = on_sensor k t stamp m"
| "monitor_step m (Node_names names t) = on_nodes names t m"
| "monitor_step m (Decision key data t) = on_decision key data t m"
| "monitor_step m (Command_result name ok t) = on_command_result name ok t m"

section \<open>The table of decisions is the recent history\<close>

lemma removeAll_absent: "x \<notin> set xs \<Longrightarrow> removeAll x xs = xs"
  by (induction xs) auto

lemma remdups_snoc: "remdups (xs @ [x]) = removeAll x (remdups xs) @ [x]"
  by (induction xs) auto

text \<open>A key that is in the table moves to its end; a key that is not pushes out the oldest.\<close>

lemma lastn_moved:
  assumes "distinct xs" and "x \<in> set (lastn n xs)"
  shows "lastn n (removeAll x xs @ [x]) = removeAll x (lastn n xs) @ [x]"
proof -
  define d where "d = length xs - n"
  have xs: "xs = take d xs @ drop d xs" by simp
  have x: "x \<in> set (drop d xs)" using assms(2) by (simp add: lastn_def d_def)
  have absent: "x \<notin> set (take d xs)" using assms(1) x set_take_disj_set_drop_if_distinct [of xs d d] by blast
  have split: "removeAll x xs = take d xs @ removeAll x (drop d xs)"
    by (subst xs) (simp only: removeAll_append removeAll_absent [OF absent])
  have "length (removeAll x xs) = length xs - 1"
    using assms(1) x in_set_dropD [OF x] by (simp add: distinct_remove1_removeAll [symmetric] length_remove1)
  moreover have "0 < length xs" using x by (cases xs) auto
  ultimately have "lastn n (removeAll x xs @ [x]) = drop d (removeAll x xs @ [x])" by (simp add: lastn_def d_def)
  also have "\<dots> = removeAll x (drop d xs) @ [x]" unfolding split by (simp add: d_def)
  finally show ?thesis by (simp add: lastn_def d_def)
qed

lemma lastn_new:
  assumes "x \<notin> set (lastn n xs)"
  shows "lastn n (removeAll x xs @ [x]) = lastn n (lastn n xs @ [x])"
proof (cases "length xs \<le> n")
  case True
  with assms show ?thesis by (simp add: lastn_all removeAll_absent)
next
  case False
  define d where "d = length xs - n"
  have e: "lastn n xs = drop d xs" "length (drop d xs) = n" using False by (simp_all add: lastn_def d_def)
  have "removeAll x xs = removeAll x (take d xs) @ drop d xs"
    using assms e(1) removeAll_absent [of x "drop d xs"] removeAll_append [of x "take d xs" "drop d xs"] by simp
  then have "lastn n (removeAll x xs @ [x]) = lastn n (removeAll x (take d xs) @ (drop d xs @ [x]))" by simp
  also have "\<dots> = lastn n (drop d xs @ [x])" by (rule lastn_append) (use e(2) in \<open>simp del: length_drop\<close>)
  finally show ?thesis by (simp add: e(1))
qed

lemma remdups_append_filter: "remdups (xs @ ys) = remdups (filter (\<lambda>x. x \<notin> set ys) xs) @ remdups ys"
  by (induction xs) auto

text \<open>A key is in the table when fewer than \<open>n\<close> other keys have come since.\<close>

lemma in_lastn_remdups:
  "x \<in> set (lastn n (remdups ks)) \<longleftrightarrow> x \<in> set ks \<and> card (set (takeWhile (\<lambda>k. k \<noteq> x) (rev ks))) < n"
proof (cases "x \<in> set ks")
  case True
  then obtain a b where ks: "ks = a @ x # b" "x \<notin> set b" by (meson split_list_last)
  define p where "p = remdups (filter (\<lambda>k. k \<notin> set (x # b)) a)"
  have rd: "remdups ks = p @ x # remdups b" using ks by (simp add: p_def remdups_append_filter)
  have p: "x \<notin> set p" by (simp add: p_def)
  have tw: "takeWhile (\<lambda>k. k \<noteq> x) (rev ks) = rev b"
    using ks takeWhile_append2 [of "rev b" "\<lambda>k. k \<noteq> x" "x # rev a"] by auto
  have len: "length (remdups b) = card (set b)" by (simp add: length_remdups_card_conv)
  have "x \<in> set (lastn n (remdups ks)) \<longleftrightarrow> length (remdups b) < n"
  proof (cases "length (remdups b) < n")
    case True
    then obtain j where "length (remdups ks) - n = j" "j \<le> length p" by (simp add: rd)
    then show ?thesis using True by (simp add: lastn_def rd)
  next
    case False
    then have "lastn n (remdups ks) = lastn n (remdups b)" by (subst rd) (rule lastn_append [of n "remdups b" "p @ [x]", simplified], simp)
    then show ?thesis using False ks(2) set_drop_subset [of _ "remdups b"] by (auto simp: lastn_def)
  qed
  then show ?thesis using True tw len by simp
next
  case False
  then show ?thesis by (auto simp: lastn_def dest: in_set_dropD)
qed

text \<open>The number of decisions with a key since it last came into the table, from the history, newest first.\<close>

function streak :: "nat \<Rightarrow> 'k \<Rightarrow> 'k list \<Rightarrow> nat" where
  "streak n k h =
     (let r = dropWhile (\<lambda>x. x \<noteq> k) h in
      if r = [] \<or> n \<le> card (set (takeWhile (\<lambda>x. x \<noteq> k) h)) then 0 else Suc (streak n k (tl r)))"
  by pat_completeness auto

termination
proof (relation "measure (\<lambda>(n, k, h). length h)")
  fix n :: nat and k :: 'k and h r
  assume r: "r = dropWhile (\<lambda>x. x \<noteq> k) h" and "\<not> (r = [] \<or> n \<le> card (set (takeWhile (\<lambda>x. x \<noteq> k) h)))"
  then have "length (tl r) < length r" by (cases r) auto
  also have "length r \<le> length h" unfolding r by (rule length_dropWhile_le)
  finally show "((n, k, tl r), n, k, h) \<in> measure (\<lambda>(n, k, h). length h)" by simp
qed simp

declare streak.simps [simp del]

lemma streak_same: "0 < n \<Longrightarrow> streak n k (k # h) = Suc (streak n k h)"
  by (subst streak.simps) simp

lemma streak_other:
  assumes "x \<noteq> k"
  shows "streak n k (x # h) = (if n \<le> card (insert x (set (takeWhile (\<lambda>x. x \<noteq> k) h))) then 0 else streak n k h)"
proof -
  have "card (set (takeWhile (\<lambda>x. x \<noteq> k) h)) \<le> card (insert x (set (takeWhile (\<lambda>x. x \<noteq> k) h)))"
    by (rule card_mono) auto
  with assms show ?thesis
    by (subst (1 2) streak.simps) (simp add: Let_def)
qed

lemma streak_absent: "k \<notin> set h \<Longrightarrow> streak n k h = 0"
  by (subst streak.simps) (simp add: dropWhile_eq_Nil_conv Let_def)

text \<open>The decisions among the inputs, oldest first, and what the table says of them.\<close>

fun decision_of :: "'d monitor_event \<Rightarrow> (decision_key \<times> 'd \<times> real) list" where
  "decision_of (Decision key data t) = [(key, data, t)]"
| "decision_of _ = []"

definition history :: "'d monitor_event list \<Rightarrow> (decision_key \<times> 'd \<times> real) list" where
  "history es = concat (map decision_of es)"

definition entry_ok :: "nat \<Rightarrow> (decision_key \<times> 'd \<times> real) list \<Rightarrow> decision_key \<Rightarrow> 'd aggregate \<Rightarrow> bool" where
  "entry_ok n h k a \<longleftrightarrow> ag_count a = streak n k (rev (map fst h)) \<and> map_of (rev h) k = Some (ag_sample a, ag_last a)"

definition table_ok :: "nat \<Rightarrow> (decision_key \<times> 'd \<times> real) list \<Rightarrow> (decision_key \<times> 'd aggregate) list \<Rightarrow> bool" where
  "table_ok n h es \<longleftrightarrow> map fst es = lastn n (remdups (map fst h)) \<and> (\<forall>k a. map_of es k = Some a \<longrightarrow> entry_ok n h k a)"

lemma keys_remove: "map fst (remove_key key es) = removeAll key (map fst es)"
  by (induction es) (auto simp: remove_key_def)

lemma map_of_remove: "k \<noteq> key \<Longrightarrow> map_of (remove_key key es) k = map_of es k"
  by (induction es) (auto simp: remove_key_def)

lemma map_of_lastn: "distinct (map fst es) \<Longrightarrow> map_of (lastn n es) k = Some a \<Longrightarrow> map_of es k = Some a"
  by (auto simp: lastn_def dest!: map_of_SomeD in_set_dropD)

lemma map_of_snoc: "distinct (map fst es @ [key]) \<Longrightarrow> map_of (es @ [(key, a)]) k = (if k = key then Some a else map_of es k)"
  by (auto simp: map_add_def split: option.split dest: map_of_SomeD) (metis image_eqI fst_conv map_of_SomeD)

text \<open>The other entries stay what they are as long as they are in the table.\<close>

lemma entry_other:
  assumes "entry_ok n h k a" and "k \<noteq> key" and "k \<in> set (lastn n (remdups (map fst (h @ [(key, d, t)]))))"
  shows "entry_ok n (h @ [(key, d, t)]) k a"
proof -
  from assms(3) [unfolded in_lastn_remdups] assms(2)
  have "\<not> n \<le> card (insert key (set (takeWhile (\<lambda>x. x \<noteq> k) (rev (map fst h)))))" by simp
  with assms(1,2) show ?thesis by (simp add: entry_ok_def streak_other)
qed

lemma entry_same:
  assumes "0 < n" and "ag_count a = Suc (streak n key (rev (map fst h)))" and "ag_sample a = d" and "ag_last a = t"
  shows "entry_ok n (h @ [(key, d, t)]) key a"
  using assms by (simp add: entry_ok_def streak_same)

lemma streak_pushed_out:
  assumes "k \<notin> set (lastn n (remdups ks))"
  shows "streak n k (rev ks) = 0"
proof (cases "k \<in> set ks")
  case True
  with assms have "n \<le> card (set (takeWhile (\<lambda>x. x \<noteq> k) (rev ks)))" by (simp add: in_lastn_remdups)
  then show ?thesis by (subst streak.simps) (simp add: Let_def)
qed (simp add: streak_absent)

declare split_paired_All [simp del] split_paired_Ex [simp del]

lemma table_decision:
  fixes m :: "'d monitor" and key :: decision_key and d :: 'd and t :: real
  assumes ok: "table_ok (mn_max_events m) h (mn_events m)" and n: "0 < mn_max_events m" and e: "\<not> mn_key_error m"
  defines "m' \<equiv> on_decision key d t m"
  shows "table_ok (mn_max_events m) (h @ [(key, d, t)]) (mn_events m')" and "\<not> mn_key_error m'" and "mn_max_events m' = mn_max_events m"
proof -
  let ?n = "mn_max_events m" and ?es = "mn_events m" and ?r = "remdups (map fst h)"
  have keys: "map fst ?es = lastn ?n ?r" using ok by (simp add: table_ok_def)
  have dist: "distinct (map fst ?es)" unfolding keys by (rule distinct_lastn) simp
  define a0 where "a0 = (case map_of ?es key of Some a \<Rightarrow> a | None \<Rightarrow> \<lparr>ag_first = t, ag_last = t, ag_count = 0, ag_sample = d\<rparr>)"
  define es where "es = (case map_of ?es key of Some a \<Rightarrow> ?es | None \<Rightarrow> insert_event ?n key a0 ?es)"
  define a where "a = a0\<lparr>ag_count := ag_count a0 + 1, ag_last := t, ag_sample := d\<rparr>"
  have in_iff: "map_of ?es key = None \<longleftrightarrow> key \<notin> set (lastn ?n ?r)" by (simp add: map_of_eq_None_iff flip: keys)
  have count: "ag_count a0 = streak ?n key (rev (map fst h))"
  proof (cases "map_of ?es key")
    case None
    with in_iff streak_pushed_out [of key ?n "map fst h"] show ?thesis by (simp add: a0_def)
  next
    case (Some b)
    with ok show ?thesis by (simp add: a0_def table_ok_def entry_ok_def)
  qed
  have key_in: "key \<in> fst ` set es"
  proof (cases "map_of ?es key")
    case None
    then have "es = lastn ?n (?es @ [(key, a0)])" by (simp add: es_def insert_event_def)
    moreover have "drop (Suc (length ?es) - ?n) (?es @ [(key, a0)]) = drop (Suc (length ?es) - ?n) ?es @ [(key, a0)]" using n by simp
    ultimately show ?thesis by (simp add: lastn_def)
  next
    case (Some b)
    then show ?thesis by (force simp: es_def dest: map_of_SomeD)
  qed
  have m': "m' = bump (m\<lparr>mn_events := remove_key key es @ [(key, a)]\<rparr>)"
  proof (cases "map_of ?es key")
    case None
    with key_in show ?thesis unfolding m'_def on_decision_def by (simp add: es_def a_def a0_def Let_def)
  next
    case (Some b)
    with key_in show ?thesis unfolding m'_def on_decision_def by (simp add: es_def a_def a0_def Let_def)
  qed
  from m' show "\<not> mn_key_error m'" "mn_max_events m' = ?n" using e by (simp_all add: bump_def)
  have new_keys: "map fst (remove_key key es @ [(key, a)]) = lastn ?n (remdups (map fst (h @ [(key, d, t)])))"
  proof (cases "map_of ?es key")
    case None
    with in_iff have "key \<notin> set (lastn ?n ?r)" by simp
    from lastn_new [OF this] have "lastn ?n (remdups (map fst (h @ [(key, d, t)]))) = lastn ?n (map fst ?es @ [key])"
      by (simp only: map_append list.map fst_conv remdups_snoc keys)
    moreover have "map fst es = lastn ?n (map fst ?es @ [key])"
      using None n by (simp add: es_def insert_event_def lastn_def drop_map)
    moreover have "lastn ?n (map fst ?es @ [key]) = lastn (?n - 1) (map fst ?es) @ [key]" using n by (cases ?n) (simp_all add: lastn_def)
    moreover have "key \<notin> set (lastn (?n - 1) (map fst ?es))"
      using None by (auto simp: lastn_def map_of_eq_None_iff dest!: in_set_dropD)
    ultimately show ?thesis by (simp add: keys_remove removeAll_absent)
  next
    case (Some b)
    with in_iff have "key \<in> set (lastn ?n ?r)" by auto
    from lastn_moved [OF _ this] Some show ?thesis
      by (simp only: map_append list.map fst_conv remdups_snoc es_def option.case keys_remove keys) simp
  qed
  have events: "mn_events m' = remove_key key es @ [(key, a)]" by (simp add: m' bump_def)
  show "table_ok ?n (h @ [(key, d, t)]) (mn_events m')"
    unfolding table_ok_def events
  proof (intro conjI allI impI new_keys)
    fix k b assume kb: "map_of (remove_key key es @ [(key, a)]) k = Some b"
    show "entry_ok ?n (h @ [(key, d, t)]) k b"
    proof (cases "k = key")
      case True
      have "map_of (remove_key key es) key = None" by (auto simp: remove_key_def map_of_eq_None_iff)
      with kb True have "b = a" by (simp add: map_add_def)
      with True show ?thesis using entry_same [OF n, of a key h d t] count by (simp add: a_def)
    next
      case False
      with kb have b: "map_of es k = Some b" by (simp add: map_add_def map_of_remove split: option.splits)
      have "k \<in> set (map fst (remove_key key es @ [(key, a)]))" using map_of_SomeD [OF kb] by force
      then have "k \<in> set (lastn ?n (remdups (map fst (h @ [(key, d, t)]))))" unfolding new_keys .
      moreover have "entry_ok ?n h k b"
      proof (cases "map_of ?es key")
        case None
        have "distinct (map fst ?es @ [key])" using dist None by (auto simp: map_of_eq_None_iff)
        then have "map_of (?es @ [(key, a0)]) k = Some b"
          using b None map_of_lastn [of "?es @ [(key, a0)]" ?n k b] by (simp add: es_def insert_event_def)
        with False ok show ?thesis by (simp add: map_add_def table_ok_def split: option.splits)
      next
        case (Some c)
        with b ok show ?thesis by (simp add: es_def table_ok_def)
      qed
      ultimately show ?thesis using False by (intro entry_other)
    qed
  qed
qed

lemma other_inputs:
  assumes "decision_of e = []"
  shows "mn_events (monitor_step m e) = mn_events m" "mn_max_events (monitor_step m e) = mn_max_events m"
    "mn_key_error (monitor_step m e) = mn_key_error m"
  using assms
  by (cases e; simp add: bump_def on_mode_def on_record_def on_esp32_def on_usb_link_def on_sensor_def on_nodes_def on_command_result_def)+

lemma table_run:
  fixes m :: "'d monitor"
  assumes "table_ok (mn_max_events m) h (mn_events m)" and "0 < mn_max_events m" and "\<not> mn_key_error m"
  shows "table_ok (mn_max_events m) (h @ history es) (mn_events (run monitor_step m es)) \<and> \<not> mn_key_error (run monitor_step m es)"
  using assms
proof (induction es arbitrary: m h)
  case Nil
  then show ?case by (simp add: history_def)
next
  case (Cons e es)
  show ?case
  proof (cases "decision_of e = []")
    case True
    note same = other_inputs [OF True, of m]
    from Cons.IH [of "monitor_step m e" h] Cons.prems same True show ?thesis by (simp add: history_def)
  next
    case False
    then obtain key d t where e: "e = Decision key d t" by (cases e) auto
    note table = table_decision [OF Cons.prems, of key d t]
    from Cons.IH [of "on_decision key d t m" "h @ [(key, d, t)]"] table Cons.prems(2) e show ?thesis
      by (simp add: history_def)
  qed
qed

lemma streak_all:
  assumes "card (set h) \<le> n"
  shows "streak n k h = count_list h k"
  using assms
proof (induction h rule: length_induct)
  case (1 h)
  show ?case
  proof (cases "k \<in> set h")
    case True
    then obtain b a where h: "h = b @ k # a" "k \<notin> set b" by (meson split_list_first)
    have tw: "takeWhile (\<lambda>x. x \<noteq> k) h = b" "dropWhile (\<lambda>x. x \<noteq> k) h = k # a"
      unfolding h(1) using h(2) by (subst takeWhile_append2 dropWhile_append2; auto)+
    have "set b \<subset> set h" using h by auto
    then have "card (set b) < card (set h)" by (rule psubset_card_mono [OF finite_set])
    moreover have "card (set a) \<le> card (set h)" by (rule card_mono) (auto simp: h)
    ultimately have small: "card (set b) < n" "card (set a) \<le> n" using 1(2) by linarith+
    have "length a < length h" by (simp add: h(1))
    with 1(1) small(2) have "streak n k a = count_list a k" by blast
    then have "streak n k h = Suc (count_list a k)"
      using small(1) by (subst streak.simps) (simp add: tw Let_def)
    moreover have "count_list b k = 0" using h(2) by simp
    ultimately show ?thesis using h by simp
  next
    case False
    then show ?thesis by (simp add: streak_absent)
  qed
qed

text \<open>C35. The table of decisions is the recent history: after any inputs it holds exactly the keys of the last decisions,
  each once, in the order of their last decision, as many as fit; each with the data and the time of its
  last decision and with the number of decisions since its key came into the table, which is the number of
  all its decisions as long as no more keys than fit have occurred.  No input raises.\<close>

theorem event_table_is_recent_history:
  assumes "0 < n" and "m = run monitor_step (new_monitor n) inputs" and "h = history inputs"
  shows "map fst (mn_events m) = lastn n (remdups (map fst h)) \<and> \<not> mn_key_error m
     \<and> (\<forall>k a. map_of (mn_events m) k = Some a \<longrightarrow>
          map_of (rev h) k = Some (ag_sample a, ag_last a) \<and> ag_count a = streak n k (rev (map fst h))
          \<and> (card (set (map fst h)) \<le> n \<longrightarrow> ag_count a = count_list (map fst h) k))"
proof -
  have "table_ok (mn_max_events (new_monitor n)) [] (mn_events (new_monitor n))"
    by (simp add: table_ok_def new_monitor_def lastn_def)
  from table_run [OF this, of inputs] assms
  have "table_ok n h (mn_events m)" "\<not> mn_key_error m" by (simp_all add: new_monitor_def)
  then show ?thesis
    using streak_all [of "rev (map fst h)" n] by (auto simp: table_ok_def entry_ok_def count_list_rev)
qed

definition sample_key :: "char \<Rightarrow> decision_key" where
  "sample_key c = ([c], [], [], [])"

theorem event_table_is_recent_history_witness:
  "map fst (mn_events (run monitor_step (new_monitor 2)
       (map (\<lambda>c. Decision (sample_key c) () 0) ''abcb''))) = [sample_key CHR ''c'', sample_key CHR ''b'']"
proof -
  let ?in = "map (\<lambda>c. Decision (sample_key c) () 0) ''abcb''"
  have h: "lastn 2 (remdups (map fst (history ?in))) = [sample_key CHR ''c'', sample_key CHR ''b'']" by code_simp
  have "(0 :: nat) < 2" by simp
  from event_table_is_recent_history [OF this refl refl, of ?in] h show ?thesis by simp
qed

text \<open>A key that was pushed out of the table counts from one again.\<close>

lemma pushed_out_count_restarts:
  "map (\<lambda>(k, a). ag_count a) (mn_events (run monitor_step (new_monitor 2)
       (map (\<lambda>c. Decision (sample_key c) () 0) ''aaabca''))) = [1, 1]"
  by code_simp

end
