(* ===== verification/Clock_Gate.thy ===== *)
theory Clock_Gate
  imports Contracts Text_Data "HOL-Library.AList" "HOL-Library.Char_ord"
begin

text \<open>
  \<^verbatim>\<open>gouda_navigation/time_sync.py\<close>: the gate in front of the mapping.  A measurement of the IMU or the LiDAR
  is passed on only with a time on the common clock, later than the one before, and (IMU) with evidence of
  the clock model for exactly this sample; once the clock of the PC has jumped nothing is passed on any more.
  First the gate (\<open>ClockGate\<close>), then the check of the point times, then the node with the queue of samples
  that wait for their evidence.  What the node publishes is kept, oldest first.
\<close>

section \<open>The clock the settings ask for\<close>

definition equals_one :: "pyval \<Rightarrow> bool" where
  "equals_one v \<longleftrightarrow> v = PInt 1 \<or> v = PBool True \<or> v = PFloat (Fin 1)"

fun is_zero_int :: "pyval \<Rightarrow> bool" where
  "is_zero_int (PInt i) = (i = 0)"
| "is_zero_int _ = False"

text \<open>\<^verbatim>\<open>v[0]\<close> of a document.\<close>

fun py_first :: "pyval \<Rightarrow> pyval result" where
  "py_first (PList []) = Inl IndexError"
| "py_first (PList (x # _)) = Inr x"
| "py_first (PStr []) = Inl IndexError"
| "py_first (PStr (c # _)) = Inr (PStr [c])"
| "py_first (PDict _) = Inl KeyError"
| "py_first _ = Inl TypeError"

text \<open>\<open>host\<close>: what reading \<^verbatim>\<open>host.json\<close> gives; \<open>yaml\<close>: what reading a YAML file gives.\<close>

definition check_runtime_clock :: "string \<Rightarrow> bool \<Rightarrow> string option \<Rightarrow> pyval result \<Rightarrow> (string \<Rightarrow> pyval result) \<Rightarrow> unit result" where
  "check_runtime_clock policy use_sim_time domain host yaml =
     (if use_sim_time then (if policy \<noteq> ''simulation'' \<or> domain \<noteq> Some ''101'' then Inl ValueError else Inr ())
      else if policy \<noteq> ''host_mapped'' then Inl ValueError
      else res_bind host (\<lambda>h. res_bind (py_item h ''hesai_config'') (\<lambda>path.
        res_bind (case path of PStr p \<Rightarrow> yaml p | _ \<Rightarrow> Inl TypeError) (\<lambda>config.
        res_bind (py_item config ''lidar'') (\<lambda>lidars. res_bind (py_first lidars) (\<lambda>l.
        res_bind (py_item l ''driver'') (\<lambda>driver.
        res_bind (py_get driver ''source_type'' PNone) (\<lambda>source. res_bind (py_get driver ''use_timestamp_type'' PNone) (\<lambda>stamps.
          if \<not> equals_one source \<or> \<not> is_zero_int stamps then Inl ValueError else Inr ())))))))))"

section \<open>The gate\<close>

datatype sensor = Imu | Lidar

datatype point_error =
    Field_differs
  | Times_empty_or_nonfinite
  | Times_too_long
  | Relative_outside
  | Other_clock
  | Bad_payload

datatype gate_reason =
    Clock_jumped
  | Outside_window
  | Not_newer
  | No_evidence
  | Model_unlocked
  | No_recent_imu
  | No_measurement
  | Imu_frame_differs
  | Lidar_frame_differs
  | Points point_error

type_synonym status = "(string \<times> pyval) list"

record gate =
  gt_policy :: string
  gt_offsets :: "sensor \<Rightarrow> real"
  gt_last :: "sensor \<Rightarrow> real option"
  gt_received :: "sensor \<Rightarrow> real option"
  gt_errors :: "(sensor \<times> gate_reason) list"
  gt_statuses :: "(status \<times> real) list"
  gt_accepted :: "sensor \<Rightarrow> nat"
  gt_rejected :: "sensor \<Rightarrow> nat"
  gt_previous_clocks :: "(real \<times> real) option"
  gt_reset_required :: bool

definition new_gate :: "string \<Rightarrow> real \<Rightarrow> real \<Rightarrow> gate" where
  "new_gate policy imu_offset lidar_offset =
     \<lparr>gt_policy = policy, gt_offsets = case_sensor imu_offset lidar_offset, gt_last = \<lambda>_. None, gt_received = \<lambda>_. None,
      gt_errors = [], gt_statuses = [], gt_accepted = \<lambda>_. 0, gt_rejected = \<lambda>_. 0, gt_previous_clocks = None,
      gt_reset_required = False\<rparr>"

definition observe_clock :: "real \<Rightarrow> real \<Rightarrow> gate \<Rightarrow> gate" where
  "observe_clock ros_now steady_now g =
     (let g' = (case gt_previous_clocks g of
          Some (ros_prev, steady_prev) \<Rightarrow>
            if gt_policy g \<noteq> ''simulation'' \<and> 1/10 < \<bar>(ros_now - ros_prev) - (steady_now - steady_prev)\<bar>
            then g\<lparr>gt_reset_required := True\<rparr> else g
        | None \<Rightarrow> g)
      in g'\<lparr>gt_previous_clocks := Some (ros_now, steady_now)\<rparr>)"

definition add_status :: "status \<Rightarrow> real \<Rightarrow> gate \<Rightarrow> gate" where
  "add_status s now g = g\<lparr>gt_statuses := lastn 1000 (gt_statuses g @ [(s, now)])\<rparr>"

definition fail :: "sensor \<Rightarrow> gate_reason \<Rightarrow> gate \<Rightarrow> gate \<times> bool" where
  "fail kind reason g =
     (g\<lparr>gt_errors := AList.update kind reason (gt_errors g), gt_rejected := (gt_rejected g)(kind := gt_rejected g kind + 1)\<rparr>, False)"

text \<open>\<^verbatim>\<open>isinstance(v, (int, float))\<close>, with the number when it is finite: a bool passes, and an infinite or NaN
  value fails each comparison that follows.\<close>

fun real_number :: "pyval \<Rightarrow> real option" where
  "real_number (PBool b) = Some (if b then 1 else 0)"
| "real_number v = finite_number v"

definition stamp_matches :: "status \<Rightarrow> real \<Rightarrow> bool" where
  "stamp_matches s stamp = (case real_number (dict_get s ''measurement_stamp'' PNone) of
     None \<Rightarrow> False | Some m \<Rightarrow> \<bar>m - stamp\<bar> \<le> 1 / 10 ^ 6)"

definition clock_locked :: "status \<Rightarrow> bool" where
  "clock_locked s \<longleftrightarrow> dict_get s ''state'' PNone = PStr ''host_mapped''
     \<and> (case real_number (dict_get s ''residual_ms'' PNone) of None \<Rightarrow> False | Some r \<Rightarrow> 0 \<le> r \<and> r \<le> 2)"

definition evidence :: "real \<Rightarrow> real \<Rightarrow> gate \<Rightarrow> status list" where
  "evidence stamp steady_now g =
     map fst (filter (\<lambda>(s, t). 0 \<le> steady_now - t \<and> steady_now - t \<le> 1/2 \<and> stamp_matches s stamp) (gt_statuses g))"

definition recent :: "real \<Rightarrow> real option \<Rightarrow> bool" where
  "recent now t = (case t of None \<Rightarrow> False | Some t \<Rightarrow> \<not> 1/2 < now - t)"

definition accept :: "sensor \<Rightarrow> xfloat \<Rightarrow> real \<Rightarrow> real \<Rightarrow> gate \<Rightarrow> gate \<times> bool" where
  "accept kind sensor_stamp ros_now steady_now g0 =
     (let g = observe_clock ros_now steady_now g0 in
      if gt_reset_required g then fail kind Clock_jumped g
      else case sensor_stamp of
        Fin stamp \<Rightarrow>
          (let adjusted = stamp + gt_offsets g kind in
           if adjusted \<le> 0 \<or> \<not> (- 1/20 \<le> ros_now - adjusted \<and> ros_now - adjusted \<le> 2) then fail kind Outside_window g
           else if (case gt_last g kind of None \<Rightarrow> False | Some l \<Rightarrow> adjusted \<le> l) then fail kind Not_newer g
           else
             (let found = evidence stamp steady_now g; checked = gt_policy g \<noteq> ''simulation'' \<and> kind = Imu in
              if checked \<and> found = [] then fail kind No_evidence g
              else if checked \<and> \<not> clock_locked (List.last found) then fail kind Model_unlocked g
              else if kind = Lidar \<and> (\<not> recent steady_now (gt_received g Imu)
                     \<or> (case gt_last g Imu of None \<Rightarrow> True | Some l \<Rightarrow> 1/2 < \<bar>adjusted - l\<bar>))
              then fail kind No_recent_imu g
              else (g\<lparr>gt_last := (gt_last g)(kind := Some adjusted), gt_received := (gt_received g)(kind := Some steady_now),
                     gt_errors := AList.delete kind (gt_errors g),
                     gt_accepted := (gt_accepted g)(kind := gt_accepted g kind + 1)\<rparr>, True)))
      | _ \<Rightarrow> fail kind Outside_window g)"

datatype sync_status = Blocked | Simulation | Host_mapped

record sync_report =
  sr_status :: sync_status
  sr_policy :: string
  sr_errors :: "gate_reason list"
  sr_accepted :: "sensor \<Rightarrow> nat"
  sr_rejected :: "sensor \<Rightarrow> nat"
  sr_last :: "sensor \<Rightarrow> real option"
  sr_restart :: bool

definition snapshot :: "real \<Rightarrow> gate \<Rightarrow> sync_report" where
  "snapshot now g =
     (let errors = fold (\<lambda>k es. if recent now (gt_received g k) then es else AList.update k No_measurement es)
        [Imu, Lidar] (gt_errors g)
      in \<lparr>sr_status = (if errors \<noteq> [] then Blocked else if gt_policy g = ''simulation'' then Simulation else Host_mapped),
          sr_policy = gt_policy g, sr_errors = map snd errors, sr_accepted = gt_accepted g, sr_rejected = gt_rejected g,
          sr_last = gt_last g, sr_restart = gt_reset_required g\<rparr>)"

section \<open>The times of the points of a cloud\<close>

record sync_settings =
  ss_policy :: string
  ss_imu_offset :: real
  ss_lidar_offset :: real
  ss_imu_frame :: string
  ss_lidar_frame :: string
  ss_time_field :: string
  ss_time_datatype :: string
  ss_time_unit :: string
  ss_time_mode :: string

record point_field =
  pf_name :: string
  pf_datatype :: int
  pf_count :: int

text \<open>\<open>cl_times\<close>: the values \<^verbatim>\<open>read_points\<close> gives of a field as doubles; \<open>None\<close> where reading them raises one
  of the exceptions the code catches.\<close>

record cloud =
  cl_frame :: string
  cl_stamp :: real
  cl_fields :: "point_field list"
  cl_times :: "string \<Rightarrow> xfloat list option"

definition TIME_ALIASES :: "string list" where
  "TIME_ALIASES = [''t'', ''time'', ''time_stamp'', ''timestamp'']"

definition TIME_TYPES :: "(string \<times> int) list" where
  "TIME_TYPES = [(''uint32'', 6), (''float32'', 7), (''float64'', 8)]"

definition time_range_error :: "sync_settings \<Rightarrow> real \<Rightarrow> real list \<Rightarrow> point_error option" where
  "time_range_error s header values =
     (let vs = (if ss_time_unit s = ''nanoseconds'' then map (\<lambda>v. v / 10 ^ 9) values else values);
          lo = Min (set vs); hi = Max (set vs)
      in if 1/2 < hi - lo then Some Times_too_long
         else if ss_time_mode s = ''relative'' then (if lo < 0 \<or> 1/2 < hi then Some Relative_outside else None)
         else if 1/2 < max \<bar>lo - header\<bar> \<bar>hi - header\<bar> then Some Other_clock else None)"

definition point_time_error :: "sync_settings \<Rightarrow> cloud \<Rightarrow> point_error option result" where
  "point_time_error s m =
     (let aliases = filter (\<lambda>n. n \<in> set TIME_ALIASES) (map pf_name (cl_fields m));
          f = List.find (\<lambda>f. pf_name f = ss_time_field s) (cl_fields m)
      in case map_of TIME_TYPES (ss_time_datatype s) of
           None \<Rightarrow> Inl KeyError
         | Some expected \<Rightarrow> Inr
             (case f of
                None \<Rightarrow> Some Field_differs
              | Some f \<Rightarrow>
                  if aliases = [] \<or> List.last aliases \<noteq> ss_time_field s \<or> pf_datatype f \<noteq> expected \<or> pf_count f \<noteq> 1
                  then Some Field_differs
                  else (case cl_times m (ss_time_field s) of
                      None \<Rightarrow> Some Bad_payload
                    | Some values \<Rightarrow>
                        if values = [] \<or> \<not> list_all isfinite values then Some Times_empty_or_nonfinite
                        else time_range_error s (cl_stamp m) (map fin_val values))))"

section \<open>The node\<close>

record imu_msg =
  im_frame :: string
  im_stamp :: real

record sync_node =
  sn_settings :: sync_settings
  sn_gate :: gate
  sn_pending :: "(imu_msg \<times> real) list"
  sn_imu_out :: "imu_msg list"
  sn_cloud_out :: "cloud list"
  sn_down :: bool \<comment> \<open>a callback raised\<close>

definition new_sync_node :: "sync_settings \<Rightarrow> sync_node" where
  "new_sync_node s = \<lparr>sn_settings = s, sn_gate = new_gate (ss_policy s) (ss_imu_offset s) (ss_lidar_offset s), sn_pending = [],
     sn_imu_out = [], sn_cloud_out = [], sn_down = False\<rparr>"

definition imu_waits :: "real \<Rightarrow> imu_msg \<times> real \<Rightarrow> gate \<Rightarrow> bool" where
  "imu_waits now p g \<longleftrightarrow> gt_policy g \<noteq> ''simulation'' \<and> \<not> (\<exists>(s, t) \<in> set (gt_statuses g). stamp_matches s (im_stamp (fst p)))
     \<and> now - snd p < 1/10"

definition pass_imu :: "real \<Rightarrow> real \<Rightarrow> imu_msg \<Rightarrow> sync_node \<Rightarrow> sync_node" where
  "pass_imu ros now m n =
     (if im_frame m \<noteq> ss_imu_frame (sn_settings n) then n\<lparr>sn_gate := fst (fail Imu Imu_frame_differs (sn_gate n))\<rparr>
      else (case accept Imu (Fin (im_stamp m)) ros now (sn_gate n) of
          (g, True) \<Rightarrow> n\<lparr>sn_gate := g, sn_imu_out := sn_imu_out n @ [m]\<rparr>
        | (g, False) \<Rightarrow> n\<lparr>sn_gate := g\<rparr>))"

text \<open>\<open>ros i\<close>: the ROS clock when the \<open>i\<close>-th sample of this call is looked at; \<open>now\<close>: the steady clock, read once.\<close>

fun flush_pending :: "(nat \<Rightarrow> real) \<Rightarrow> real \<Rightarrow> nat \<Rightarrow> (imu_msg \<times> real) list \<Rightarrow> sync_node \<Rightarrow> sync_node" where
  "flush_pending ros now i [] n = n\<lparr>sn_pending := []\<rparr>"
| "flush_pending ros now i (p # ps) n =
     (if imu_waits now p (sn_gate n) then n\<lparr>sn_pending := p # ps\<rparr>
      else flush_pending ros now (i + 1) ps (pass_imu (ros i) now (fst p) n))"

definition flush :: "(nat \<Rightarrow> real) \<Rightarrow> real \<Rightarrow> sync_node \<Rightarrow> sync_node" where
  "flush ros now n = flush_pending ros now 0 (sn_pending n) n"

text \<open>A status that is no JSON object is dropped (\<open>None\<close>).\<close>

definition on_clock_status :: "status option \<Rightarrow> real \<Rightarrow> (nat \<Rightarrow> real) \<Rightarrow> real \<Rightarrow> sync_node \<Rightarrow> sync_node" where
  "on_clock_status value t ros now n =
     flush ros now (case value of None \<Rightarrow> n | Some s \<Rightarrow> n\<lparr>sn_gate := add_status s t (sn_gate n)\<rparr>)"

definition on_imu :: "imu_msg \<Rightarrow> real \<Rightarrow> (nat \<Rightarrow> real) \<Rightarrow> real \<Rightarrow> sync_node \<Rightarrow> sync_node" where
  "on_imu m t ros now n = flush ros now (n\<lparr>sn_pending := lastn 200 (sn_pending n @ [(m, t)])\<rparr>)"

definition on_cloud :: "cloud \<Rightarrow> real \<Rightarrow> real \<Rightarrow> sync_node \<Rightarrow> sync_node" where
  "on_cloud m ros now n = (case point_time_error (sn_settings n) m of
     Inl e \<Rightarrow> n\<lparr>sn_down := True\<rparr>
   | Inr err \<Rightarrow>
       (let error = (if cl_frame m \<noteq> ss_lidar_frame (sn_settings n) then Some Lidar_frame_differs else map_option Points err) in
        case error of
          Some e \<Rightarrow> n\<lparr>sn_gate := fst (fail Lidar e (sn_gate n))\<rparr>
        | None \<Rightarrow>
            (case accept Lidar (Fin (cl_stamp m)) ros now (sn_gate n) of
               (g, True) \<Rightarrow> n\<lparr>sn_gate := g, sn_cloud_out := sn_cloud_out n @ [m]\<rparr>
             | (g, False) \<Rightarrow> n\<lparr>sn_gate := g\<rparr>)))"

definition sync_report_of :: "real \<Rightarrow> sync_node \<Rightarrow> sync_report" where
  "sync_report_of now n = snapshot now (sn_gate n)"

datatype sync_event =
    Clock_status "status option" real "nat \<Rightarrow> real" real
  | Imu_sample imu_msg real "nat \<Rightarrow> real" real
  | Cloud cloud real real
  | Flush_timer "nat \<Rightarrow> real" real

fun sync_handle :: "sync_event \<Rightarrow> sync_node \<Rightarrow> sync_node" where
  "sync_handle (Clock_status v t ros now) n = on_clock_status v t ros now n"
| "sync_handle (Imu_sample m t ros now) n = on_imu m t ros now n"
| "sync_handle (Cloud m ros now) n = on_cloud m ros now n"
| "sync_handle (Flush_timer ros now) n = flush ros now n"

definition sync_step :: "sync_node \<Rightarrow> sync_event \<Rightarrow> sync_node" where
  "sync_step n e = (if sn_down n then n else sync_handle e n)"

section \<open>What passes the gate\<close>

lemma observe_clock_keeps [simp]:
  "gt_policy (observe_clock r t g) = gt_policy g" "gt_offsets (observe_clock r t g) = gt_offsets g"
  "gt_last (observe_clock r t g) = gt_last g" "gt_received (observe_clock r t g) = gt_received g"
  "gt_statuses (observe_clock r t g) = gt_statuses g"
  "gt_reset_required g \<Longrightarrow> gt_reset_required (observe_clock r t g)"
  by (auto simp: observe_clock_def Let_def split: option.split prod.split)

lemma fail_keeps [simp]:
  "gt_policy (fst (fail k e g)) = gt_policy g" "gt_offsets (fst (fail k e g)) = gt_offsets g"
  "gt_last (fst (fail k e g)) = gt_last g" "gt_statuses (fst (fail k e g)) = gt_statuses g"
  "gt_reset_required (fst (fail k e g)) = gt_reset_required g" "snd (fail k e g) = False"
  by (simp_all add: fail_def)

lemma evidence_observe [simp]: "evidence s t (observe_clock r u g) = evidence s t g"
  by (simp add: evidence_def)

lemma accept_keeps [simp]:
  "gt_policy (fst (accept k st r t g)) = gt_policy g" "gt_offsets (fst (accept k st r t g)) = gt_offsets g"
  "gt_statuses (fst (accept k st r t g)) = gt_statuses g"
  by (simp_all add: accept_def Let_def split: xfloat.split)

lemma accept_False: "\<not> snd (accept k st r t g) \<Longrightarrow> gt_last (fst (accept k st r t g)) = gt_last g"
  by (auto simp: accept_def Let_def split: xfloat.splits if_splits)

lemma accept_reset: "gt_reset_required g \<Longrightarrow> \<not> snd (accept k st r t g) \<and> gt_reset_required (fst (accept k st r t g))"
  by (simp add: accept_def Let_def)

lemma accept_True:
  assumes "snd (accept k (Fin s) r t g)"
  shows "gt_last (fst (accept k (Fin s) r t g)) = (gt_last g)(k \<mapsto> s + gt_offsets g k)"
    and "gt_last g k = Some l \<Longrightarrow> l < s + gt_offsets g k"
    and "gt_policy g \<noteq> ''simulation'' \<Longrightarrow> k = Imu \<Longrightarrow> \<exists>(x, u) \<in> set (gt_statuses g). stamp_matches x s \<and> clock_locked x"
proof -
  show "gt_last (fst (accept k (Fin s) r t g)) = (gt_last g)(k \<mapsto> s + gt_offsets g k)"
    using assms by (auto simp: accept_def Let_def split: if_splits)
  show "gt_last g k = Some l \<Longrightarrow> l < s + gt_offsets g k"
    using assms by (auto simp: accept_def Let_def split: if_splits)
  assume "gt_policy g \<noteq> ''simulation''" "k = Imu"
  with assms have "evidence s t g \<noteq> []" "clock_locked (List.last (evidence s t g))"
    by (auto simp: accept_def Let_def split: if_splits)
  moreover from this have "List.last (evidence s t g) \<in> set (evidence s t g)" by simp
  ultimately show "\<exists>(x, u) \<in> set (gt_statuses g). stamp_matches x s \<and> clock_locked x"
    by (auto simp: evidence_def)
qed

section \<open>The invariant of the node\<close>

text \<open>The last time of a sensor is the one of the last message passed on, and the times are in order.\<close>

definition in_order :: "real \<Rightarrow> real list \<Rightarrow> real option \<Rightarrow> bool" where
  "in_order offset ts l \<longleftrightarrow> sorted_wrt (<) ts \<and> l = (if ts = [] then None else Some (List.last ts + offset))"

lemma in_order_snoc:
  assumes "in_order d ts l" and "\<And>x. l = Some x \<Longrightarrow> x < t + d"
  shows "in_order d (ts @ [t]) (Some (t + d))"
  using assms by (cases ts rule: rev_cases) (auto simp: in_order_def sorted_wrt_append)

definition sync_inv :: "sync_settings \<Rightarrow> status set \<Rightarrow> sync_node \<Rightarrow> bool" where
  "sync_inv st A n \<longleftrightarrow> sn_settings n = st \<and> gt_policy (sn_gate n) = ss_policy st
     \<and> gt_offsets (sn_gate n) = case_sensor (ss_imu_offset st) (ss_lidar_offset st)
     \<and> fst ` set (gt_statuses (sn_gate n)) \<subseteq> A
     \<and> in_order (ss_imu_offset st) (map im_stamp (sn_imu_out n)) (gt_last (sn_gate n) Imu)
     \<and> in_order (ss_lidar_offset st) (map cl_stamp (sn_cloud_out n)) (gt_last (sn_gate n) Lidar)
     \<and> (\<forall>m \<in> set (sn_imu_out n). im_frame m = ss_imu_frame st
          \<and> (ss_policy st \<noteq> ''simulation'' \<longrightarrow> (\<exists>x \<in> A. stamp_matches x (im_stamp m) \<and> clock_locked x)))
     \<and> (\<forall>m \<in> set (sn_cloud_out n). cl_frame m = ss_lidar_frame st \<and> point_time_error st m = Inr None)"

lemma pass_imu_eq:
  "pass_imu r t m n =
     (if im_frame m \<noteq> ss_imu_frame (sn_settings n) then n\<lparr>sn_gate := fst (fail Imu Imu_frame_differs (sn_gate n))\<rparr>
      else n\<lparr>sn_gate := fst (accept Imu (Fin (im_stamp m)) r t (sn_gate n)),
             sn_imu_out := sn_imu_out n @ (if snd (accept Imu (Fin (im_stamp m)) r t (sn_gate n)) then [m] else [])\<rparr>)"
  by (simp add: pass_imu_def split: prod.split bool.split)

lemma on_cloud_eq:
  "on_cloud m r t n = (case point_time_error (sn_settings n) m of
     Inl e \<Rightarrow> n\<lparr>sn_down := True\<rparr>
   | Inr err \<Rightarrow>
       if cl_frame m \<noteq> ss_lidar_frame (sn_settings n) \<or> err \<noteq> None
       then n\<lparr>sn_gate := fst (fail Lidar (if cl_frame m \<noteq> ss_lidar_frame (sn_settings n) then Lidar_frame_differs
              else Points (the err)) (sn_gate n))\<rparr>
       else n\<lparr>sn_gate := fst (accept Lidar (Fin (cl_stamp m)) r t (sn_gate n)),
              sn_cloud_out := sn_cloud_out n @ (if snd (accept Lidar (Fin (cl_stamp m)) r t (sn_gate n)) then [m] else [])\<rparr>)"
  by (auto simp: on_cloud_def Let_def split: sum.split option.split prod.split bool.split)

lemma inv_pass_imu:
  assumes "sync_inv st A n"
  shows "sync_inv st A (pass_imu r t m n)"
proof (cases "im_frame m = ss_imu_frame st \<and> snd (accept Imu (Fin (im_stamp m)) r t (sn_gate n))")
  case False
  with assms show ?thesis by (auto simp: pass_imu_eq sync_inv_def accept_False)
next
  case True
  note acc = accept_True [OF conjunct2 [OF True]]
  have io: "in_order (ss_imu_offset st) (map im_stamp (sn_imu_out n) @ [im_stamp m]) (Some (im_stamp m + ss_imu_offset st))"
    using assms acc(2) by (intro in_order_snoc [of _ _ "gt_last (sn_gate n) Imu"]) (simp_all add: sync_inv_def)
  have ev: "ss_policy st \<noteq> ''simulation'' \<Longrightarrow> \<exists>x \<in> A. stamp_matches x (im_stamp m) \<and> clock_locked x"
    using acc(3) assms by (force simp: sync_inv_def)
  show ?thesis using True assms io ev by (auto simp: pass_imu_eq sync_inv_def acc(1))
qed

lemma inv_on_cloud:
  assumes "sync_inv st A n"
  shows "sync_inv st A (on_cloud m r t n)"
proof (cases "point_time_error st m = Inr None \<and> cl_frame m = ss_lidar_frame st \<and> snd (accept Lidar (Fin (cl_stamp m)) r t (sn_gate n))")
  case False
  with assms show ?thesis by (auto simp: on_cloud_eq sync_inv_def accept_False split: sum.split)
next
  case True
  note acc = accept_True [OF conjunct2 [OF conjunct2 [OF True]]]
  have io: "in_order (ss_lidar_offset st) (map cl_stamp (sn_cloud_out n) @ [cl_stamp m]) (Some (cl_stamp m + ss_lidar_offset st))"
    using assms acc(2) by (intro in_order_snoc [of _ _ "gt_last (sn_gate n) Lidar"]) (simp_all add: sync_inv_def)
  show ?thesis using True assms io by (auto simp: on_cloud_eq sync_inv_def acc(1))
qed

lemma inv_flush_pending: "sync_inv st A n \<Longrightarrow> sync_inv st A (flush_pending r t i ps n)"
proof (induction ps arbitrary: n i)
  case Nil
  then show ?case by (simp add: sync_inv_def)
next
  case (Cons p ps)
  have "sync_inv st A (n\<lparr>sn_pending := p # ps\<rparr>)" using Cons.prems by (simp add: sync_inv_def)
  with Cons.IH [OF inv_pass_imu [OF Cons.prems]] show ?case by simp
qed

lemma inv_flush: "sync_inv st A n \<Longrightarrow> sync_inv st A (flush r t n)"
  by (simp add: flush_def inv_flush_pending)

fun statuses_of :: "sync_event \<Rightarrow> status set" where
  "statuses_of (Clock_status (Some s) t r u) = {s}"
| "statuses_of _ = {}"

lemma inv_sync_step:
  assumes "sync_inv st A n" and "statuses_of e \<subseteq> A"
  shows "sync_inv st A (sync_step n e)"
proof (cases e)
  case (Clock_status v t r u)
  have "fst ` set (lastn 1000 (gt_statuses (sn_gate n) @ [(s, t)])) \<subseteq> A" if "v = Some s" for s
    using assms Clock_status that by (intro order_trans [OF image_mono [OF set_lastn]]) (auto simp: sync_inv_def)
  then have "sync_inv st A (case v of None \<Rightarrow> n | Some s \<Rightarrow> n\<lparr>sn_gate := add_status s t (sn_gate n)\<rparr>)"
    using assms by (cases v) (simp_all add: sync_inv_def add_status_def)
  with Clock_status assms show ?thesis by (simp add: sync_step_def on_clock_status_def inv_flush)
next
  case (Imu_sample m t r u)
  have "sync_inv st A (n\<lparr>sn_pending := lastn 200 (sn_pending n @ [(m, t)])\<rparr>)" using assms by (simp add: sync_inv_def)
  with Imu_sample assms show ?thesis by (simp add: sync_step_def on_imu_def inv_flush)
qed (use assms in \<open>simp_all add: sync_step_def inv_flush inv_on_cloud\<close>)

lemma inv_new_sync_node: "sync_inv st A (new_sync_node st)"
  by (simp add: sync_inv_def new_sync_node_def new_gate_def in_order_def)

lemma inv_sync_run: "\<Union> (statuses_of ` set es) \<subseteq> A \<Longrightarrow> sync_inv st A n \<Longrightarrow> sync_inv st A (run sync_step n es)"
  by (induction es arbitrary: n) (auto simp: inv_sync_step)

section \<open>After a jump of the clock\<close>

definition halted :: "imu_msg list \<Rightarrow> cloud list \<Rightarrow> sync_node \<Rightarrow> bool" where
  "halted xs ys n \<longleftrightarrow> gt_reset_required (sn_gate n) \<and> sn_imu_out n = xs \<and> sn_cloud_out n = ys"

lemma halted_flush_pending: "halted xs ys n \<Longrightarrow> halted xs ys (flush_pending r t i ps n)"
proof (induction ps arbitrary: n i)
  case Nil
  then show ?case by (simp add: halted_def)
next
  case (Cons p ps)
  have "halted xs ys (pass_imu (r i) t (fst p) n)" using Cons.prems by (simp add: halted_def pass_imu_eq accept_reset)
  with Cons show ?case by (auto simp: halted_def)
qed

interpretation stopped: event_system "halted xs ys" sync_step "halted xs ys" for xs ys
proof
  fix n e
  assume n: "halted xs ys n"
  show "halted xs ys (sync_step n e)"
  proof (cases e)
    case (Clock_status v t r u)
    have "halted xs ys (case v of None \<Rightarrow> n | Some s \<Rightarrow> n\<lparr>sn_gate := add_status s t (sn_gate n)\<rparr>)"
      using n by (cases v) (simp_all add: halted_def add_status_def)
    with Clock_status n show ?thesis by (simp add: sync_step_def on_clock_status_def flush_def halted_flush_pending)
  next
    case (Imu_sample m t r u)
    have "halted xs ys (n\<lparr>sn_pending := lastn 200 (sn_pending n @ [(m, t)])\<rparr>)" using n by (simp add: halted_def)
    with Imu_sample n show ?thesis by (simp add: sync_step_def on_imu_def flush_def halted_flush_pending)
  next
    case (Cloud m r t)
    with n show ?thesis by (auto simp: sync_step_def on_cloud_eq halted_def accept_reset split: sum.split)
  next
    case (Flush_timer r t)
    with n show ?thesis by (simp add: sync_step_def flush_def halted_flush_pending)
  qed
qed

section \<open>Properties\<close>

text \<open>C37. Whatever arrives in whatever order, the IMU messages the node passes on to the mapping have strictly increasing
  times and the configured frame, and outside simulation there was a clock status for exactly that sample (to a
  microsecond) with a locked clock model and a residual of at most 2 ms; the clouds passed on are in strict order too,
  have the configured frame, and the times of their points pass the check.\<close>

theorem synced_messages_have_evidence:
  assumes "n = run sync_step (new_sync_node st) es"
  shows "sorted_wrt (<) (map im_stamp (sn_imu_out n)) \<and> sorted_wrt (<) (map cl_stamp (sn_cloud_out n))
     \<and> (\<forall>m \<in> set (sn_imu_out n). im_frame m = ss_imu_frame st \<and> (ss_policy st \<noteq> ''simulation'' \<longrightarrow>
          (\<exists>s t r u. Clock_status (Some s) t r u \<in> set es \<and> stamp_matches s (im_stamp m) \<and> clock_locked s)))
     \<and> (\<forall>m \<in> set (sn_cloud_out n). cl_frame m = ss_lidar_frame st \<and> point_time_error st m = Inr None)"
proof -
  have inv: "sync_inv st (\<Union> (statuses_of ` set es)) n"
    unfolding assms by (intro inv_sync_run inv_new_sync_node order_refl)
  have "\<exists>s t r u. Clock_status (Some s) t r u \<in> set es \<and> stamp_matches s (im_stamp m) \<and> clock_locked s"
    if "m \<in> set (sn_imu_out n)" "ss_policy st \<noteq> ''simulation''" for m
  proof -
    from inv that obtain e s where e: "e \<in> set es" "s \<in> statuses_of e" and s: "stamp_matches s (im_stamp m)" "clock_locked s"
      by (auto simp: sync_inv_def)
    from e(2) obtain t r u where "e = Clock_status (Some s) t r u" by (cases e rule: statuses_of.cases) auto
    with e(1) s show ?thesis by blast
  qed
  with inv show ?thesis by (simp add: sync_inv_def in_order_def)
qed

definition sample_settings :: sync_settings where
  "sample_settings = \<lparr>ss_policy = ''host_mapped'', ss_imu_offset = 0, ss_lidar_offset = 0, ss_imu_frame = ''imu'',
     ss_lidar_frame = ''lidar'', ss_time_field = ''t'', ss_time_datatype = ''float64'', ss_time_unit = ''seconds'', ss_time_mode = ''relative''\<rparr>"

definition sample_status :: status where
  "sample_status = [(''measurement_stamp'', PInt 10), (''state'', PStr ''host_mapped''), (''residual_ms'', PInt 1)]"

definition sample_cloud :: cloud where
  "sample_cloud = \<lparr>cl_frame = ''lidar'', cl_stamp = 10, cl_fields = [\<lparr>pf_name = ''t'', pf_datatype = 8, pf_count = 1\<rparr>],
     cl_times = \<lambda>_. Some [Fin 0, Fin (1/10)]\<rparr>"

definition sample_run :: "sync_event list" where
  "sample_run = [Imu_sample \<lparr>im_frame = ''imu'', im_stamp = 10\<rparr> 5 (\<lambda>_. 10) 5,
     Clock_status (Some sample_status) 5 (\<lambda>_. 10) 5, Cloud sample_cloud 10 5]"

lemma sample_cloud_ok: "point_time_error sample_settings sample_cloud = Inr None"
  by (simp add: point_time_error_def time_range_error_def sample_settings_def sample_cloud_def TIME_ALIASES_def TIME_TYPES_def)

lemma sample_run_end:
  "map im_stamp (sn_imu_out (run sync_step (new_sync_node sample_settings) sample_run)) = [10]"
  "map cl_stamp (sn_cloud_out (run sync_step (new_sync_node sample_settings) sample_run)) = [10]"
  "gt_previous_clocks (sn_gate (run sync_step (new_sync_node sample_settings) sample_run)) = Some (10, 5)"
  "\<not> sn_down (run sync_step (new_sync_node sample_settings) sample_run)"
  by code_simp+

lemma synced_messages_have_evidence_witness:
  "map im_stamp (sn_imu_out (run sync_step (new_sync_node sample_settings) sample_run)) = [10]
   \<and> sorted_wrt (<) (map im_stamp (sn_imu_out (run sync_step (new_sync_node sample_settings) sample_run)))"
  using synced_messages_have_evidence [OF refl, of sample_settings sample_run] sample_run_end(1) by blast

text \<open>Once the clock of the PC and its steady clock have come apart by more than a tenth of a second between two
  measurements, the measurement that shows it and every one after it are held back, whatever the clocks do then: the
  mapping gets nothing more until the node is started again.\<close>

theorem clock_jump_stops_mapping:
  assumes "n = run sync_step (new_sync_node st) es" and "\<not> sn_down n"
    and "ss_policy st \<noteq> ''simulation''" and "gt_previous_clocks (sn_gate n) = Some (r0, t0)"
    and "1/10 < \<bar>(r - r0) - (t - t0)\<bar>" and "point_time_error st m = Inr None" and "cl_frame m = ss_lidar_frame st"
  shows "sn_imu_out (run sync_step n (Cloud m r t # later)) = sn_imu_out n
     \<and> sn_cloud_out (run sync_step n (Cloud m r t # later)) = sn_cloud_out n"
proof -
  have inv: "sync_inv st UNIV n" unfolding assms(1) by (intro inv_sync_run inv_new_sync_node) simp
  then have reset: "gt_reset_required (observe_clock r t (sn_gate n))"
    using assms(3-5) by (simp add: observe_clock_def sync_inv_def)
  then have "\<not> snd (accept Lidar (Fin (cl_stamp m)) r t (sn_gate n))"
    and "gt_reset_required (fst (accept Lidar (Fin (cl_stamp m)) r t (sn_gate n)))"
    by (simp_all add: accept_def)
  with inv assms(2,6,7) have "halted (sn_imu_out n) (sn_cloud_out n) (sync_step n (Cloud m r t))"
    by (simp add: sync_step_def on_cloud_eq sync_inv_def halted_def)
  from stopped.inv_run [OF this, of later] show ?thesis by (simp add: halted_def)
qed

lemma clock_jump_stops_mapping_witness:
  "sn_cloud_out (run sync_step (run sync_step (new_sync_node sample_settings) sample_run) [Cloud sample_cloud 11 5, Cloud sample_cloud 11 5])
   = sn_cloud_out (run sync_step (new_sync_node sample_settings) sample_run)"
proof -
  have "ss_policy sample_settings \<noteq> ''simulation''" "cl_frame sample_cloud = ss_lidar_frame sample_settings"
    "1/10 < \<bar>(11 - 10) - (5 - 5 :: real)\<bar>"
    by (simp_all add: sample_settings_def sample_cloud_def)
  from clock_jump_stops_mapping [OF refl sample_run_end(4) this(1) sample_run_end(3) this(3) sample_cloud_ok this(2), of "[Cloud sample_cloud 11 5]"]
  show ?thesis by blast
qed

end
