(* ===== verification/Token_Protocol.thy ===== *)
theory Token_Protocol
  imports Esp32_Protocol
begin

text \<open>
  The serial protocols of the earlier stack: \<^verbatim>\<open>gouda_vehicle/protocol_v3.py\<close> (frames of 64 bytes that carry
  the boot token of the device) and \<^verbatim>\<open>gouda_vehicle/protocol.py\<close> (version 2, frames of 22 bytes).  Both parsers
  keep every byte that can still begin a frame, so that the frames of a stream do not depend on how it is cut
  into reads: the contract \<open>stream_parser\<close> holds of them at every cut.
\<close>

section \<open>Frames of version 3\<close>

definition V3_VERSION :: int where "V3_VERSION = 3"
definition FRAME_SIZE :: nat where "FRAME_SIZE = 64"
definition V3_COMMAND :: int where "V3_COMMAND = 1"
definition V3_ARM :: int where "V3_ARM = 2"
definition V3_DISARM :: int where "V3_DISARM = 3"
definition V3_STATUS :: int where "V3_STATUS = 128"

record v3_frame =
  v3_kind :: int
  v3_token :: int
  v3_seq :: int
  v3_ms :: int
  v3_payload :: bytes

definition v3_body :: "int \<Rightarrow> int \<Rightarrow> int \<Rightarrow> int \<Rightarrow> bytes \<Rightarrow> bytes" where
  "v3_body kind token seq ms payload =
     SYNC @ le_bytes 1 (nat V3_VERSION) @ le_bytes 1 (nat kind) @ le_bytes 8 (nat token) @ le_bytes 4 (nat seq) @ le_bytes 4 (nat ms)
       @ payload @ replicate (40 - length payload) 0 @ [0, 0]"

definition v3_encode_frame :: "int \<Rightarrow> int \<Rightarrow> int \<Rightarrow> int \<Rightarrow> bytes \<Rightarrow> bytes result" where
  "v3_encode_frame kind token seq ms payload =
     (if \<not> (0 \<le> kind \<and> kind \<le> 255) \<or> \<not> (0 \<le> token \<and> token < 2 ^ 64) then Inl ValueError
      else if \<not> (0 \<le> seq \<and> seq < 2 ^ 32) \<or> \<not> (0 \<le> ms \<and> ms < 2 ^ 32) then Inl ValueError
      else if 40 < length payload then Inl ValueError
      else let body = v3_body kind token seq ms payload in Inr (body @ le_bytes 2 (crc16 body)))"

text \<open>The axes are normalised; the stick of the firmware has right where the body has left.\<close>

fun unit_axis :: "xfloat \<Rightarrow> real option" where
  "unit_axis (Fin v) = (if - 1 \<le> v \<and> v \<le> 1 then Some v else None)"
| "unit_axis _ = None"

definition v3_encode_command :: "int \<Rightarrow> int \<Rightarrow> int \<Rightarrow> xfloat \<Rightarrow> xfloat \<Rightarrow> bytes result" where
  "v3_encode_command token seq ms forward yaw_left = (case (unit_axis forward, unit_axis yaw_left) of
     (Some f, Some l) \<Rightarrow>
       res_bind (pack_seq [pack_s16 (py_round (- l * 1000)), pack_s16 (py_round (f * 1000))])
         (v3_encode_frame V3_COMMAND token seq ms)
   | _ \<Rightarrow> Inl ValueError)"

definition v3_encode_arm :: "int \<Rightarrow> int \<Rightarrow> int \<Rightarrow> bytes result" where
  "v3_encode_arm token seq ms = v3_encode_frame V3_ARM token seq ms []"

definition v3_encode_disarm :: "int \<Rightarrow> int \<Rightarrow> int \<Rightarrow> bytes result" where
  "v3_encode_disarm token seq ms = v3_encode_frame V3_DISARM token seq ms []"

section \<open>STATUS of version 3\<close>

record v3_status =
  vs_owner :: int
  vs_reason :: int
  vs_connected :: bool
  vs_fresh :: bool
  vs_centered :: bool
  vs_auto_enabled :: bool
  vs_raw_x :: int
  vs_raw_y :: int
  vs_manual_right :: real
  vs_manual_forward :: real
  vs_pc_right :: real
  vs_pc_forward :: real
  vs_applied_right :: real
  vs_applied_forward :: real
  vs_dac_x :: int
  vs_dac_y :: int
  vs_mv_x :: int
  vs_mv_y :: int
  vs_accepted_seq :: int
  vs_bt_age :: int
  vs_pc_age :: int

definition V3_STATUS_FLAGS :: "(string \<times> nat) list" where
  "V3_STATUS_FLAGS = [(''connected'', 0), (''fresh'', 1), (''centered'', 2), (''auto_enabled'', 3)]"

definition flag_set :: "int \<Rightarrow> string \<Rightarrow> bool" where
  "flag_set flags name = (case map_of V3_STATUS_FLAGS name of None \<Rightarrow> False | Some i \<Rightarrow> odd (flags div 2 ^ i))"

definition v3_decode_status :: "v3_frame \<Rightarrow> v3_status option result" where
  "v3_decode_status f =
     (if v3_kind f \<noteq> V3_STATUS then Inr None
      else if length (v3_payload f) \<noteq> 40 then Inl ValueError
      else let p = v3_payload f; owner = u_at 0 1 p; reason = u_at 1 1 p; flags = u_at 2 2 p;
               axes = map (\<lambda>i. s16_at (4 + 2 * i) p) [0 ..< 8]; dac_x = u_at 20 2 p; dac_y = u_at 22 2 p
           in if owner \<notin> {0, 1, 2} \<or> \<not> (0 \<le> reason \<and> reason < 9) \<or> 16 \<le> flags then Inl ValueError
              else if \<not> list_all (\<lambda>v. - 1000 \<le> v \<and> v \<le> 1000) axes then Inl ValueError
              else if 4095 < dac_x \<or> 4095 < dac_y then Inl ValueError
              else Inr (Some
                \<lparr>vs_owner = owner, vs_reason = reason, vs_connected = flag_set flags ''connected'', vs_fresh = flag_set flags ''fresh'',
                 vs_centered = flag_set flags ''centered'', vs_auto_enabled = flag_set flags ''auto_enabled'',
                 vs_raw_x = axes ! 0, vs_raw_y = axes ! 1, vs_manual_right = of_int (axes ! 2) / 1000,
                 vs_manual_forward = of_int (axes ! 3) / 1000, vs_pc_right = of_int (axes ! 4) / 1000,
                 vs_pc_forward = of_int (axes ! 5) / 1000, vs_applied_right = of_int (axes ! 6) / 1000,
                 vs_applied_forward = of_int (axes ! 7) / 1000, vs_dac_x = dac_x, vs_dac_y = dac_y,
                 vs_mv_x = u_at 24 2 p, vs_mv_y = u_at 26 2 p, vs_accepted_seq = u_at 28 4 p, vs_bt_age = u_at 32 4 p,
                 vs_pc_age = u_at 36 4 p\<rparr>))"

section \<open>The parser of version 3\<close>

text \<open>\<^verbatim>\<open>frame[2] != VERSION or frame[60:62] != b'\0\0' or crc != ...\<close>.\<close>

definition v3_bad :: "bytes \<Rightarrow> bool" where
  "v3_bad f \<longleftrightarrow> u_at 2 1 f \<noteq> V3_VERSION \<or> take 2 (drop 60 f) \<noteq> [0, 0] \<or> int (crc16 (take 62 f)) \<noteq> u_at 62 2 f"

definition v3_decode_frame :: "bytes \<Rightarrow> v3_frame" where
  "v3_decode_frame f = \<lparr>v3_kind = u_at 3 1 f, v3_token = u_at 4 8 f, v3_seq = u_at 12 4 f, v3_ms = u_at 16 4 f,
     v3_payload = take 40 (drop 20 f)\<rparr>"

text \<open>The frames in the buffer and the rest that is kept.\<close>

function v3_scan :: "bytes \<Rightarrow> v3_frame list \<times> bytes" where
  "v3_scan buf =
     (if length buf < FRAME_SIZE then ([], buf)
      else case find_sync buf of
        None \<Rightarrow> ([], if List.last buf = hd SYNC then [List.last buf] else [])
      | Some i \<Rightarrow>
          let b = drop i buf in
          if length b < FRAME_SIZE then ([], b)
          else if v3_bad (take FRAME_SIZE b) then v3_scan (drop 1 b)
          else (case v3_scan (drop FRAME_SIZE b) of (fs, rest) \<Rightarrow> (v3_decode_frame (take FRAME_SIZE b) # fs, rest)))"
  by pat_completeness auto
termination
  by (relation "measure length") (auto simp: FRAME_SIZE_def)

declare v3_scan.simps [simp del]

definition v3_feed :: "bytes \<Rightarrow> bytes \<Rightarrow> bytes \<times> v3_frame list" where
  "v3_feed buf data = (case v3_scan (buf @ data) of (fs, rest) \<Rightarrow> (rest, fs))"

section \<open>Version 2\<close>

definition V2_SIZE :: nat where "V2_SIZE = 22"

record v2_frame =
  v2_kind :: int
  v2_token :: int
  v2_seq :: int
  v2_motion :: int
  v2_flags :: int
  v2_fault :: int

definition v2_body :: "v2_frame \<Rightarrow> bytes result" where
  "v2_body f = pack_seq [Inr SYNC, pack_u 1 2, pack_u 1 (v2_kind f), pack_u 8 (v2_token f), pack_u 4 (v2_seq f),
     pack_u 1 (v2_motion f), pack_u 1 (v2_flags f), pack_u 1 (v2_fault f), pack_u 1 0]"

definition v2_encode :: "v2_frame \<Rightarrow> bytes result" where
  "v2_encode f = res_bind (v2_body f) (\<lambda>data. Inr (data @ le_bytes 2 (crc16 data)))"

definition v2_bad :: "bytes \<Rightarrow> bool" where
  "v2_bad b \<longleftrightarrow> take 3 b \<noteq> SYNC @ [2] \<or> u_at 19 1 b \<noteq> 0 \<or> int (crc16 (take 20 b)) \<noteq> u_at 20 2 b"

definition v2_decode :: "bytes \<Rightarrow> v2_frame" where
  "v2_decode b = \<lparr>v2_kind = u_at 3 1 b, v2_token = u_at 4 8 b, v2_seq = u_at 12 4 b, v2_motion = u_at 16 1 b,
     v2_flags = u_at 17 1 b, v2_fault = u_at 18 1 b\<rparr>"

function v2_scan :: "bytes \<Rightarrow> v2_frame list \<times> bytes" where
  "v2_scan buf =
     (if length buf < V2_SIZE then ([], buf)
      else if v2_bad (take V2_SIZE buf) then v2_scan (drop 1 buf)
      else (case v2_scan (drop V2_SIZE buf) of (fs, rest) \<Rightarrow> (v2_decode (take V2_SIZE buf) # fs, rest)))"
  by pat_completeness auto
termination
  by (relation "measure length") (auto simp: V2_SIZE_def)

declare v2_scan.simps [simp del]

section \<open>Both parsers are indifferent to the reads\<close>

lemma v2_scan_more: "fst (v2_scan (a @ b)) = fst (v2_scan a) @ fst (v2_scan (snd (v2_scan a) @ b))"
proof (induction a rule: v2_scan.induct)
  case (1 a)
  show ?case
  proof (cases "length a < V2_SIZE")
    case True
    then show ?thesis by (simp add: v2_scan.simps [of a])
  next
    case False
    then have whole: "take V2_SIZE (a @ b) = take V2_SIZE a" "drop V2_SIZE (a @ b) = drop V2_SIZE a @ b"
      "drop 1 (a @ b) = drop 1 a @ b" "\<not> length (a @ b) < V2_SIZE"
      by (auto simp: V2_SIZE_def)
    show ?thesis
      using 1 False whole by (simp add: v2_scan.simps [of a] v2_scan.simps [of "a @ b"] case_prod_beta)
  qed
qed

interpretation v2: stream_parser v2_scan "\<lambda>_. True"
  by unfold_locales (rule v2_scan_more)

text \<open>The frames depend on the buffer from its first sync bytes only.\<close>

lemma v3_scan_sync: "find_sync b = Some i \<Longrightarrow> fst (v3_scan b) = fst (v3_scan (drop i b))"
  using find_sync_bound [of b i] find_sync_drop [of b i]
  by (cases "length b < FRAME_SIZE") (simp_all add: v3_scan.simps [of b] v3_scan.simps [of "drop i b"])

lemma v3_scan_no_sync: "find_sync b = None \<Longrightarrow> fst (v3_scan b) = []"
  by (simp add: v3_scan.simps [of b])

lemma v3_scan_cong:
  assumes "find_sync a = map_option (\<lambda>i. i + n) (find_sync b)" and "drop n a = b"
  shows "fst (v3_scan a) = fst (v3_scan b)"
proof (cases "find_sync b")
  case None
  with assms show ?thesis by (simp add: v3_scan_no_sync)
next
  case (Some i)
  with assms have "find_sync a = Some (i + n)" by simp
  then have "fst (v3_scan a) = fst (v3_scan (drop (i + n) a))" by (rule v3_scan_sync)
  also have "drop (i + n) a = drop i b" using assms(2) by (metis drop_drop)
  finally show ?thesis using v3_scan_sync [OF Some] by simp
qed

lemma find_sync_kept:
  "find_sync (u @ [0xA5]) = None \<Longrightarrow> find_sync (u @ 0xA5 # b) = map_option (\<lambda>i. i + length u) (find_sync (0xA5 # b))"
proof (induction u)
  case Nil
  then show ?case by (simp add: option.map_ident)
next
  case (Cons x u)
  then show ?case
    by (cases u) (auto simp: SYNC_def option.map_comp comp_def split: if_splits)
qed

lemma v3_scan_rest_no_sync:
  assumes "find_sync a = None" "FRAME_SIZE \<le> length a"
  shows "fst (v3_scan (a @ b)) = fst (v3_scan (snd (v3_scan a) @ b))"
proof (cases "List.last a = 0xA5")
  case True
  from assms(2) have "a \<noteq> []" by (auto simp: FRAME_SIZE_def)
  then obtain u where a: "a = u @ [0xA5]" using True by (metis append_butlast_last_id)
  then have "find_sync (a @ b) = map_option (\<lambda>i. i + length u) (find_sync (0xA5 # b))"
    using find_sync_kept [of u b] assms(1) by simp
  moreover have "drop (length u) (a @ b) = 0xA5 # b" by (simp add: a)
  ultimately have "fst (v3_scan (a @ b)) = fst (v3_scan (0xA5 # b))" by (rule v3_scan_cong)
  then show ?thesis using assms True by (simp add: v3_scan.simps [of a] SYNC_def)
next
  case False
  then have "find_sync (a @ b) = map_option (\<lambda>i. i + length a) (find_sync b)"
    using assms(1) by (intro find_sync_append_None) simp_all
  then have "fst (v3_scan (a @ b)) = fst (v3_scan b)" by (rule v3_scan_cong) simp
  then show ?thesis using assms False by (simp add: v3_scan.simps [of a] SYNC_def)
qed

lemma v3_scan_more: "fst (v3_scan (a @ b)) = fst (v3_scan a) @ fst (v3_scan (snd (v3_scan a) @ b))"
proof (induction a rule: v3_scan.induct)
  case (1 a)
  show ?case
  proof (cases "length a < FRAME_SIZE")
    case True
    then show ?thesis by (simp add: v3_scan.simps [of a])
  next
    case False
    note long = this
    show ?thesis
    proof (cases "find_sync a")
      case None
      with v3_scan_rest_no_sync [OF None] long show ?thesis by (simp add: v3_scan_no_sync)
    next
      case (Some i)
      let ?d = "drop i a"
      have ab: "find_sync (a @ b) = Some i" "drop i (a @ b) = ?d @ b"
        using Some find_sync_bound [OF Some] by (simp_all add: find_sync_append)
      have d: "fst (v3_scan (a @ b)) = fst (v3_scan (?d @ b))" using v3_scan_sync [OF ab(1)] ab(2) by simp
      have zero: "find_sync ?d = Some 0" "find_sync (?d @ b) = Some 0"
        using find_sync_drop [OF Some] by (simp_all add: find_sync_append)
      show ?thesis
      proof (cases "length ?d < FRAME_SIZE")
        case True
        then have "v3_scan a = ([], ?d)" using long Some by (simp add: v3_scan.simps [of a])
        with d show ?thesis by simp
      next
        case False
        then have part: "take FRAME_SIZE (?d @ b) = take FRAME_SIZE ?d" "drop FRAME_SIZE (?d @ b) = drop FRAME_SIZE ?d @ b"
          "drop 1 (?d @ b) = drop 1 ?d @ b" "\<not> length (?d @ b) < FRAME_SIZE"
          by (auto simp: FRAME_SIZE_def)
        have da: "v3_scan a = v3_scan ?d" using long Some False zero by (simp add: v3_scan.simps [of a] v3_scan.simps [of ?d])
        show ?thesis
        proof (cases "v3_bad (take FRAME_SIZE ?d)")
          case True
          have "v3_scan ?d = v3_scan (drop 1 ?d)" using False True zero by (subst v3_scan.simps) simp
          moreover have "v3_scan (?d @ b) = v3_scan (drop 1 ?d @ b)"
            using part True zero by (subst v3_scan.simps) (simp del: drop_append take_append length_append)
          ultimately show ?thesis using "1.IH"(1) [OF long Some refl False True] d da by simp
        next
          case good: False
          have "v3_scan ?d = (case v3_scan (drop FRAME_SIZE ?d) of (fs, rest) \<Rightarrow> (v3_decode_frame (take FRAME_SIZE ?d) # fs, rest))"
            using False good zero by (subst v3_scan.simps) simp
          moreover have "v3_scan (?d @ b) = (case v3_scan (drop FRAME_SIZE ?d @ b) of (fs, rest) \<Rightarrow> (v3_decode_frame (take FRAME_SIZE ?d) # fs, rest))"
            using part good zero by (subst v3_scan.simps) (simp del: drop_append take_append length_append)
          ultimately show ?thesis using "1.IH"(2) [OF long Some refl False good] d da by (simp add: case_prod_beta)
        qed
      qed
    qed
  qed
qed

interpretation v3: stream_parser v3_scan "\<lambda>_. True"
  by unfold_locales (rule v3_scan_more)

section \<open>Round trips\<close>

lemma length_v3_body: "length payload \<le> 40 \<Longrightarrow> length (v3_body kind token seq ms payload) = 62"
  by (simp add: v3_body_def SYNC_def)

lemma v3_encode_frame_Inr:
  "v3_encode_frame kind token seq ms payload = Inr e \<longleftrightarrow>
     0 \<le> kind \<and> kind \<le> 255 \<and> 0 \<le> token \<and> token < 2 ^ 64 \<and> 0 \<le> seq \<and> seq < 2 ^ 32 \<and> 0 \<le> ms \<and> ms < 2 ^ 32 \<and> length payload \<le> 40
     \<and> e = v3_body kind token seq ms payload @ le_bytes 2 (crc16 (v3_body kind token seq ms payload))"
  by (auto simp: v3_encode_frame_def Let_def)

lemma v3_body_fields:
  assumes "0 \<le> kind" "kind \<le> 255" "0 \<le> token" "token < 2 ^ 64" "0 \<le> seq" "seq < 2 ^ 32" "0 \<le> ms" "ms < 2 ^ 32" "length payload \<le> 40"
  shows "u_at 2 1 (v3_body kind token seq ms payload @ r) = V3_VERSION"
    and "u_at 3 1 (v3_body kind token seq ms payload @ r) = kind"
    and "u_at 4 8 (v3_body kind token seq ms payload @ r) = token"
    and "u_at 12 4 (v3_body kind token seq ms payload @ r) = seq"
    and "u_at 16 4 (v3_body kind token seq ms payload @ r) = ms"
    and "take 40 (drop 20 (v3_body kind token seq ms payload @ r)) = payload @ replicate (40 - length payload) 0"
    and "take 2 (drop 60 (v3_body kind token seq ms payload @ r)) = [0, 0]"
  using assms by (simp_all add: v3_body_def u_at_def SYNC_def V3_VERSION_def nat_less_iff uint_word_of_int)

definition v3_encodes :: "v3_frame \<Rightarrow> bytes \<Rightarrow> bool" where
  "v3_encodes f e \<longleftrightarrow> length (v3_payload f) = 40 \<and> v3_encode_frame (v3_kind f) (v3_token f) (v3_seq f) (v3_ms f) (v3_payload f) = Inr e"

lemma v3_scan_encoded:
  assumes "v3_encodes f e"
  shows "v3_scan (e @ r) = (case v3_scan r of (fs, rest) \<Rightarrow> (f # fs, rest))"
proof -
  let ?b = "v3_body (v3_kind f) (v3_token f) (v3_seq f) (v3_ms f) (v3_payload f)"
  from assms have rng: "0 \<le> v3_kind f" "v3_kind f \<le> 255" "0 \<le> v3_token f" "v3_token f < 2 ^ 64" "0 \<le> v3_seq f" "v3_seq f < 2 ^ 32"
    "0 \<le> v3_ms f" "v3_ms f < 2 ^ 32" "length (v3_payload f) \<le> 40"
    and e: "e = ?b @ le_bytes 2 (crc16 ?b)" and pl: "length (v3_payload f) = 40"
    unfolding v3_encodes_def v3_encode_frame_Inr by auto
  have lb: "length ?b = 62" by (rule length_v3_body [OF rng(9)])
  then have le: "length e = FRAME_SIZE" by (simp add: e FRAME_SIZE_def)
  have sync: "find_sync (e @ r) = Some 0" by (simp add: e v3_body_def find_sync_SYNC)
  have crc: "u_at 62 2 e = int (crc16 ?b)" using crc16_bound [of ?b] lb by (simp add: e u_at_def)
  have t62: "take 62 e = ?b" using lb by (simp add: e)
  note fields = v3_body_fields [OF rng, of "le_bytes 2 (crc16 ?b)", folded e]
  have "\<not> v3_bad e" unfolding v3_bad_def t62 crc fields by simp
  moreover have "v3_decode_frame e = f" unfolding v3_decode_frame_def fields using pl by simp
  ultimately show ?thesis using sync le by (subst v3_scan.simps) simp
qed

lemma v3_scan_concat: "list_all2 v3_encodes fs es \<Longrightarrow> v3_scan (concat es) = (fs, [])"
  by (induction rule: list_all2_induct) (simp_all add: v3_scan_encoded v3_scan.simps [of "[]"] FRAME_SIZE_def)

text \<open>Frames of version 3 arrive whole and in order however the stream is cut into reads, also when a read ends inside
  the two sync bytes: the parser that is fed the pieces one after the other delivers exactly the frames that were sent.\<close>

theorem v3_any_split_delivers:
  assumes "list_all2 v3_encodes fs es" and "concat reads = concat es"
  shows "feed_all v3_scan [] reads = fs"
proof (cases "reads = []")
  case True
  with assms(2) v3_scan_concat [OF assms(1)] have "v3_scan [] = (fs, [])" by (metis concat.simps(1))
  with True show ?thesis by (simp add: v3_scan.simps [of "[]"] FRAME_SIZE_def)
next
  case False
  then have "feed_all v3_scan [] reads = fst (v3_scan ([] @ concat reads))" by (rule v3.feed_all_concat) simp
  with assms v3_scan_concat [OF assms(1)] show ?thesis by simp
qed

definition v3_sample :: v3_frame where
  "v3_sample = \<lparr>v3_kind = 1, v3_token = 7, v3_seq = 3, v3_ms = 9, v3_payload = replicate 40 0xA5\<rparr>"

lemma v3_any_split_delivers_witness:
  "\<exists>e. v3_encodes v3_sample e \<and> feed_all v3_scan [] [take 1 e, drop 1 e @ take 30 e, drop 30 e] = [v3_sample, v3_sample]"
proof -
  obtain e where e: "v3_encodes v3_sample e"
    by (simp add: v3_encodes_def v3_sample_def v3_encode_frame_def Let_def)
  then have "list_all2 v3_encodes [v3_sample, v3_sample] [e, e]" by simp
  moreover have "concat [take 1 e, drop 1 e @ take 30 e, drop 30 e] = concat [e, e]"
    by (simp only: concat.simps append_assoc append_Nil2) (metis append_assoc append_take_drop_id)
  ultimately have "feed_all v3_scan [] [take 1 e, drop 1 e @ take 30 e, drop 30 e] = [v3_sample, v3_sample]"
    by (rule v3_any_split_delivers)
  with e show ?thesis by blast
qed

text \<open>A COMMAND of version 3 carries the axes to a two-thousandth, right being the negated left.\<close>

lemma v3_command_axes:
  assumes "v3_encode_command token seq ms (Fin f) (Fin l) = Inr e"
  shows "\<exists>fr. v3_encodes fr e \<and> v3_kind fr = V3_COMMAND \<and> v3_token fr = token \<and> v3_seq fr = seq
     \<and> s16_at 0 (v3_payload fr) = py_round (- l * 1000) \<and> s16_at 2 (v3_payload fr) = py_round (f * 1000)
     \<and> \<bar>f\<bar> \<le> 1 \<and> \<bar>l\<bar> \<le> 1"
proof -
  from assms have ax: "- 1 \<le> f" "f \<le> 1" "- 1 \<le> l" "l \<le> 1"
    by (auto simp: v3_encode_command_def split: if_splits option.splits)
  define r where "r = py_round (- l * 1000)"
  define w where "w = py_round (f * 1000)"
  have b: "- 1000 \<le> r" "r \<le> 1000" "- 1000 \<le> w" "w \<le> 1000"
    using ax by (auto simp: r_def w_def intro!: py_round_le py_round_ge)
  define p where "p = le_bytes 2 (s16_enc r) @ le_bytes 2 (s16_enc w)"
  define fr where "fr = \<lparr>v3_kind = V3_COMMAND, v3_token = token, v3_seq = seq, v3_ms = ms, v3_payload = p @ replicate 36 0\<rparr>"
  have "v3_encode_frame V3_COMMAND token seq ms p = Inr e"
    using assms ax b by (simp add: v3_encode_command_def pack_s16_def p_def r_def w_def)
  then have "v3_encodes fr e"
    by (auto simp: v3_encodes_def fr_def v3_encode_frame_Inr v3_body_def p_def)
  moreover have "s16_at 0 (v3_payload fr) = r" "s16_at 2 (v3_payload fr) = w"
    using b s16_at_le_bytes [of r "[]" 0 "le_bytes 2 (s16_enc w) @ replicate 36 0"] s16_at_le_bytes [of w "le_bytes 2 (s16_enc r)" 2 "replicate 36 0"]
    by (simp_all add: fr_def p_def)
  moreover have "\<bar>f\<bar> \<le> 1" "\<bar>l\<bar> \<le> 1" using ax by linarith+
  moreover have "v3_kind fr = V3_COMMAND" "v3_token fr = token" "v3_seq fr = seq" by (simp_all add: fr_def)
  ultimately show ?thesis unfolding r_def w_def by blast
qed

lemma v2_body_Inr:
  "v2_body f = Inr d \<longleftrightarrow> 0 \<le> v2_kind f \<and> v2_kind f < 256 \<and> 0 \<le> v2_token f \<and> v2_token f < 256 ^ 8 \<and> 0 \<le> v2_seq f \<and> v2_seq f < 256 ^ 4
     \<and> 0 \<le> v2_motion f \<and> v2_motion f < 256 \<and> 0 \<le> v2_flags f \<and> v2_flags f < 256 \<and> 0 \<le> v2_fault f \<and> v2_fault f < 256
     \<and> d = SYNC @ le_bytes 1 2 @ le_bytes 1 (nat (v2_kind f)) @ le_bytes 8 (nat (v2_token f)) @ le_bytes 4 (nat (v2_seq f))
         @ le_bytes 1 (nat (v2_motion f)) @ le_bytes 1 (nat (v2_flags f)) @ le_bytes 1 (nat (v2_fault f)) @ le_bytes 1 0"
  by (auto simp: v2_body_def pack_u_Inr)

lemma v2_scan_encoded:
  assumes "v2_encode f = Inr e"
  shows "v2_scan (e @ r) = (case v2_scan r of (fs, rest) \<Rightarrow> (f # fs, rest))"
proof -
  from assms obtain d where d: "v2_body f = Inr d" and e: "e = d @ le_bytes 2 (crc16 d)" by (auto simp: v2_encode_def)
  note b = d [unfolded v2_body_Inr]
  then have ld: "length d = 20" by (simp add: SYNC_def)
  then have le: "length e = V2_SIZE" by (simp add: e V2_SIZE_def)
  have crc: "u_at 20 2 e = int (crc16 d)" "take 20 e = d" using crc16_bound [of d] ld by (simp_all add: e u_at_def)
  have "\<not> v2_bad e" unfolding v2_bad_def crc using b by (auto simp: e SYNC_def u_at_def)
  moreover have "v2_decode e = f"
    using b by (cases f) (auto simp: v2_decode_def e SYNC_def u_at_def nat_less_iff uint_word_of_int)
  ultimately show ?thesis using le by (subst v2_scan.simps) simp
qed

end
