(* ===== verification/Hardware_Bridge.thy ===== *)
theory Hardware_Bridge
  imports Token_Protocol Text_Data "HOL-Library.Char_ord"
begin

text \<open>
  \<^verbatim>\<open>gouda_vehicle/hardware_bridge.py\<close>: the bridge of the earlier stack between the drive commands (JSON texts) and
  the device on the USB port, with the protocol of version 3.  Arming is an explicit request; a reboot of the
  device, an old status, an old drive command and a failed write all disarm.  The state is the attributes of the
  node; the clocks are read once per callback (\<open>hw_clock\<close>), the outcome of each write is given by
  \<open>wr\<close>, and everything written is kept, the newest first.
\<close>

section \<open>The port\<close>

text \<open>\<^verbatim>\<open>re.fullmatch\<close> of the two patterns.\<close>

definition by_id_char :: "char \<Rightarrow> bool" where
  "by_id_char c \<longleftrightarrow> CHR ''A'' \<le> c \<and> c \<le> CHR ''Z'' \<or> c \<in> set ''abcdefghijklmnopqrstuvwxyz0123456789_.:+-''"

definition after :: "string \<Rightarrow> string \<Rightarrow> string option" where
  "after p s = (if startswith s p then Some (drop (length p) s) else None)"

definition nonempty_all :: "(char \<Rightarrow> bool) \<Rightarrow> string option \<Rightarrow> bool" where
  "nonempty_all P s = (case s of None \<Rightarrow> False | Some t \<Rightarrow> t \<noteq> [] \<and> list_all P t)"

fun validate_hardware_port :: "pyval \<Rightarrow> string result" where
  "validate_hardware_port (PStr port) =
     (if nonempty_all by_id_char (after ''/dev/serial/by-id/'' port)
         \<or> nonempty_all (\<lambda>c. c \<in> set ''0123456789'') (after ''/dev/ttyACM'' port)
         \<or> nonempty_all (\<lambda>c. c \<in> set ''0123456789'') (after ''/dev/ttyUSB'' port)
      then Inr port else Inl ValueError)"
| "validate_hardware_port _ = Inl ValueError"

section \<open>State\<close>

text \<open>The drive command that is kept (its \<^verbatim>\<open>issued_at\<close> is not read again) and the attributes.  Of the three messages published
  for a status, \<open>hb_published\<close> keeps what they are made of: the frame and the drive command of that moment.\<close>

record drive =
  d_forward :: real
  d_yaw_left :: real
  d_request_id :: string
  d_enable :: bool

record hw_clock =
  hk_mono :: real
  hk_ms :: int
  hk_ros :: int

datatype hw_write = Count nat | Write_failed

record hw_bridge =
  hb_buffer :: bytes
  hb_status_frame :: "v3_frame option"
  hb_status_values :: "v3_status option"
  hb_last_status :: real
  hb_last_drive :: real
  hb_drive :: "drive option"
  hb_seq :: int
  hb_arm_requested :: bool
  hb_arm_started :: "real option"
  hb_token :: "int option"
  hb_written :: "bytes list"
  hb_published :: "(v3_frame \<times> drive option) list"
  hb_down :: bool

definition new_hw_bridge :: hw_bridge where
  "new_hw_bridge = \<lparr>hb_buffer = [], hb_status_frame = None, hb_status_values = None, hb_last_status = 0, hb_last_drive = 0,
     hb_drive = None, hb_seq = 0, hb_arm_requested = False, hb_arm_started = None, hb_token = None, hb_written = [],
     hb_published = [], hb_down = False\<rparr>"

definition hb_start :: "pyval \<Rightarrow> pyval \<Rightarrow> hw_bridge result" where
  "hb_start enabled port =
     (if enabled \<noteq> PBool True then Inl RuntimeError
      else res_bind (validate_hardware_port port) (\<lambda>_. Inr new_hw_bridge))"

section \<open>Drive commands\<close>

fun exact_int :: "pyval \<Rightarrow> int option" where
  "exact_int (PInt i) = Some i"
| "exact_int _ = None"

definition issued_at :: "pyval \<Rightarrow> int option" where
  "issued_at stamp = (case stamp of
     PDict kvs \<Rightarrow> (case (exact_int (dict_get kvs ''sec'' PNone), exact_int (dict_get kvs ''nanosec'' PNone)) of
         (Some s, Some ns) \<Rightarrow> Some (s * 10 ^ 9 + ns) | _ \<Rightarrow> None)
   | _ \<Rightarrow> None)"

definition drive_of :: "(string \<times> pyval) list \<Rightarrow> int \<Rightarrow> drive option" where
  "drive_of value now =
     (case (finite_number (dict_get value ''forward_norm'' PNone), finite_number (dict_get value ''yaw_left_norm'' PNone)) of
        (Some f, Some l) \<Rightarrow>
          if 1 < \<bar>f\<bar> \<or> 1 < \<bar>l\<bar> then None
          else (case issued_at (dict_get value ''issued_at'' PNone) of
              None \<Rightarrow> None
            | Some issued \<Rightarrow>
                let age = of_int (now - issued) / 10 ^ 9 :: real in
                if \<not> (- 1/20 \<le> age \<and> age \<le> 3/20) then None
                else (case dict_get value ''request_id'' PNone of
                    PStr rid \<Rightarrow> if 80 < length rid then None
                      else Some \<lparr>d_forward = f, d_yaw_left = l, d_request_id = rid,
                             d_enable = (dict_get value ''enable_requested'' PNone = PBool True)\<rparr>
                  | _ \<Rightarrow> None))
      | _ \<Rightarrow> None)"

text \<open>\<open>None\<close>: the text is no JSON.  A JSON value that is no object raises AttributeError out of the callback.\<close>

definition on_drive :: "pyval option \<Rightarrow> hw_clock \<Rightarrow> hw_bridge \<Rightarrow> hw_bridge result" where
  "on_drive data k n = (case data of
     None \<Rightarrow> Inr n
   | Some (PDict value) \<Rightarrow> (case drive_of value (hk_ros k) of
         None \<Rightarrow> Inr n
       | Some d \<Rightarrow> Inr (n\<lparr>hb_drive := Some d, hb_last_drive := hk_mono k\<rparr>))
   | Some _ \<Rightarrow> Inl AttributeError)"

section \<open>Writing\<close>

definition fresh_status :: "real \<Rightarrow> hw_bridge \<Rightarrow> bool" where
  "fresh_status now n = (case hb_status_values n of
     None \<Rightarrow> False
   | Some v \<Rightarrow> hb_last_status n \<noteq> 0 \<and> now - hb_last_status n < 1/4 \<and> vs_connected v \<and> vs_fresh v)"

definition hw_next_seq :: "hw_bridge \<Rightarrow> hw_bridge" where
  "hw_next_seq n = n\<lparr>hb_seq := u32 (hb_seq n + 1)\<rparr>"

definition write_bytes :: "(nat \<Rightarrow> hw_write) \<Rightarrow> bytes \<Rightarrow> hw_bridge \<Rightarrow> hw_bridge \<times> bool" where
  "write_bytes wr data n =
     (let ok = (wr (length (hb_written n)) = Count (length data));
          n = n\<lparr>hb_written := data # hb_written n\<rparr>
      in (if ok then n else n\<lparr>hb_arm_requested := False\<rparr>, ok))"

text \<open>A frame with the next sequence number.\<close>

definition send_frame :: "(nat \<Rightarrow> hw_write) \<Rightarrow> (int \<Rightarrow> bytes result) \<Rightarrow> hw_bridge \<Rightarrow> (hw_bridge \<times> bool) result" where
  "send_frame wr enc n = (let n = hw_next_seq n in res_bind (enc (hb_seq n)) (\<lambda>data. Inr (write_bytes wr data n)))"

definition send_command :: "(nat \<Rightarrow> hw_write) \<Rightarrow> hw_clock \<Rightarrow> real \<Rightarrow> real \<Rightarrow> hw_bridge \<Rightarrow> (hw_bridge \<times> bool) result" where
  "send_command wr k forward yaw_left n = (case hb_token n of
     None \<Rightarrow> Inr (n, False)
   | Some token \<Rightarrow> send_frame wr (\<lambda>q. v3_encode_command token q (u32 (hk_ms k)) (Fin forward) (Fin yaw_left)) n)"

definition send_disarm :: "(nat \<Rightarrow> hw_write) \<Rightarrow> hw_clock \<Rightarrow> hw_bridge \<Rightarrow> hw_bridge result" where
  "send_disarm wr k n = (case hb_token n of
     None \<Rightarrow> Inr n
   | Some token \<Rightarrow> res_bind (send_frame wr (\<lambda>q. v3_encode_disarm token q (u32 (hk_ms k))) n) (\<lambda>r. Inr (fst r)))"

section \<open>Arming\<close>

datatype arm_answer =
    Disarm_sent
  | Drive_required
  | Status_required
  | Not_centered
  | Already_armed
  | Neutral_failed
  | Arm_failed
  | Arm_sent

definition hand_active :: "v3_status \<Rightarrow> bool" where
  "hand_active v \<longleftrightarrow> \<not> vs_centered v \<or> vs_owner v = 1 \<or> vs_manual_right v \<noteq> 0 \<or> vs_manual_forward v \<noteq> 0"

definition drive_old :: "real \<Rightarrow> hw_bridge \<Rightarrow> bool" where
  "drive_old now n \<longleftrightarrow> hb_drive n = None \<or> 3/20 < now - hb_last_drive n"

text \<open>\<open>self.token\<close> is set whenever there is a status; an ARM with no token raises in \<^verbatim>\<open>encode_arm\<close>.\<close>

definition send_arm :: "(nat \<Rightarrow> hw_write) \<Rightarrow> hw_clock \<Rightarrow> hw_bridge \<Rightarrow> (hw_bridge \<times> bool) result" where
  "send_arm wr k n = (case hb_token n of
     None \<Rightarrow> Inl TypeError
   | Some token \<Rightarrow> send_frame wr (\<lambda>q. v3_encode_arm token q (u32 (hk_ms k))) n)"

definition on_arm :: "(nat \<Rightarrow> hw_write) \<Rightarrow> bool \<Rightarrow> hw_clock \<Rightarrow> hw_bridge \<Rightarrow> (hw_bridge \<times> arm_answer) result" where
  "on_arm wr data k n =
     (if \<not> data then res_bind (send_disarm wr k (n\<lparr>hb_arm_requested := False\<rparr>)) (\<lambda>n. Inr (n, Disarm_sent))
      else if drive_old (hk_mono k) n then Inr (n, Drive_required)
      else (case hb_status_values n of
          None \<Rightarrow> Inr (n, Status_required)
        | Some v \<Rightarrow>
            if \<not> fresh_status (hk_mono k) n then Inr (n, Status_required)
            else if hand_active v then Inr (n, Not_centered)
            else if vs_auto_enabled v then Inr (n, Already_armed)
            else res_bind (send_command wr k 0 0 n) (\<lambda>(n, ok).
              if \<not> ok then Inr (n, Neutral_failed)
              else res_bind (send_arm wr k n) (\<lambda>(n, ok).
                if \<not> ok then Inr (n, Arm_failed)
                else Inr (n\<lparr>hb_arm_requested := True, hb_arm_started := Some (hk_mono k)\<rparr>, Arm_sent)))))"

section \<open>The timer\<close>

definition newer_frame :: "v3_frame \<Rightarrow> hw_bridge \<Rightarrow> bool" where
  "newer_frame f n = (case hb_status_frame n of
     None \<Rightarrow> True
   | Some g \<Rightarrow> v3_token g \<noteq> v3_token f \<or> (let delta = u32 (v3_seq f - v3_seq g) in 0 < delta \<and> delta < 0x80000000))"

definition take_token :: "v3_frame \<Rightarrow> hw_bridge \<Rightarrow> hw_bridge" where
  "take_token f n = (if hb_token n \<noteq> Some (v3_token f) then n\<lparr>hb_token := Some (v3_token f), hb_arm_requested := False\<rparr> else n)"

definition take_status :: "real \<Rightarrow> v3_frame \<Rightarrow> v3_status \<Rightarrow> hw_bridge \<Rightarrow> hw_bridge" where
  "take_status now f v n =
     (let n = n\<lparr>hb_status_frame := Some f, hb_status_values := Some v, hb_last_status := now,
              hb_published := hb_published n @ [(f, hb_drive n)]\<rparr>
      in if \<not> vs_connected v \<or> \<not> vs_fresh v then n\<lparr>hb_arm_requested := False\<rparr> else n)"

definition on_status_frame :: "real \<Rightarrow> v3_frame \<Rightarrow> hw_bridge \<Rightarrow> hw_bridge" where
  "on_status_frame now f n =
     (if v3_kind f \<noteq> V3_STATUS then n
      else (case v3_decode_status f of
          Inl _ \<Rightarrow> n
        | Inr None \<Rightarrow> n
        | Inr (Some v) \<Rightarrow> let n = take_token f n in if newer_frame f n then take_status now f v n else n))"

text \<open>\<open>received\<close>: the bytes read, \<open>None\<close> when reading fails.\<close>

definition receive :: "real \<Rightarrow> bytes \<Rightarrow> hw_bridge \<Rightarrow> hw_bridge" where
  "receive now data n = (case v3_feed (hb_buffer n) data of (rest, frames) \<Rightarrow>
     fold (on_status_frame now) frames (n\<lparr>hb_buffer := rest\<rparr>))"

definition keep_driving :: "(nat \<Rightarrow> hw_write) \<Rightarrow> hw_clock \<Rightarrow> hw_bridge \<Rightarrow> hw_bridge result" where
  "keep_driving wr k n =
     (if \<not> fresh_status (hk_mono k) n \<or> drive_old (hk_mono k) n
      then (if hb_arm_requested n then send_disarm wr k (n\<lparr>hb_arm_requested := False\<rparr>) else Inr n)
      else if \<not> hb_arm_requested n then Inr n
      else (case (hb_status_values n, hb_drive n) of
          (Some v, Some d) \<Rightarrow>
            if \<not> vs_auto_enabled v
            then (case hb_arm_started n of
                None \<Rightarrow> Inl AttributeError
              | Some t \<Rightarrow> if hk_mono k - t < 1/5 then res_bind (send_command wr k 0 0 n) (\<lambda>r. Inr (fst r))
                         else Inr (n\<lparr>hb_arm_requested := False\<rparr>))
            else if d_enable d then res_bind (send_command wr k (d_forward d) (d_yaw_left d) n) (\<lambda>r. Inr (fst r))
            else res_bind (send_command wr k 0 0 n) (\<lambda>r. Inr (fst r))
        | _ \<Rightarrow> Inl TypeError))"

definition tick :: "(nat \<Rightarrow> hw_write) \<Rightarrow> bytes option \<Rightarrow> hw_clock \<Rightarrow> hw_bridge \<Rightarrow> hw_bridge result" where
  "tick wr received k n = (case received of
     None \<Rightarrow> Inr (n\<lparr>hb_arm_requested := False\<rparr>)
   | Some data \<Rightarrow> keep_driving wr k (receive (hk_mono k) data n))"

definition close_bridge :: "(nat \<Rightarrow> hw_write) \<Rightarrow> hw_clock \<Rightarrow> hw_bridge \<Rightarrow> hw_bridge result" where
  "close_bridge wr k n = res_bind (send_disarm wr k n) (\<lambda>n. Inr (n\<lparr>hb_arm_requested := False\<rparr>))"

section \<open>Events\<close>

datatype hw_event =
    Drive_msg "pyval option" hw_clock
  | Arm bool hw_clock
  | Tick "bytes option" hw_clock

fun hb_handle :: "(nat \<Rightarrow> hw_write) \<Rightarrow> hw_event \<Rightarrow> hw_bridge \<Rightarrow> hw_bridge result" where
  "hb_handle wr (Drive_msg data k) n = on_drive data k n"
| "hb_handle wr (Arm data k) n = res_bind (on_arm wr data k n) (\<lambda>r. Inr (fst r))"
| "hb_handle wr (Tick received k) n = tick wr received k n"

fun event_clock :: "hw_event \<Rightarrow> hw_clock" where
  "event_clock (Drive_msg data k) = k"
| "event_clock (Arm data k) = k"
| "event_clock (Tick received k) = k"

text \<open>An exception leaves the spin loop: the bridge is closed and down.\<close>

definition shut_down :: "(nat \<Rightarrow> hw_write) \<Rightarrow> hw_clock \<Rightarrow> hw_bridge \<Rightarrow> hw_bridge" where
  "shut_down wr k n = (case close_bridge wr k n of Inl _ \<Rightarrow> n | Inr n' \<Rightarrow> n')\<lparr>hb_down := True\<rparr>"

definition hb_step :: "(nat \<Rightarrow> hw_write) \<Rightarrow> hw_bridge \<Rightarrow> hw_event \<Rightarrow> hw_bridge" where
  "hb_step wr n e =
     (if hb_down n then n else (case hb_handle wr e n of Inl _ \<Rightarrow> shut_down wr (event_clock e) n | Inr n' \<Rightarrow> n'))"

section \<open>What a write leaves\<close>

lemma v3_encode_frame_returns:
  "0 \<le> kind \<Longrightarrow> kind \<le> 255 \<Longrightarrow> 0 \<le> token \<Longrightarrow> token < 2 ^ 64 \<Longrightarrow> 0 \<le> seq \<Longrightarrow> seq < 2 ^ 32 \<Longrightarrow> 0 \<le> ms \<Longrightarrow> ms < 2 ^ 32 \<Longrightarrow> length p \<le> 40
   \<Longrightarrow> \<exists>e. v3_encode_frame kind token seq ms p = Inr e"
  by (simp add: v3_encode_frame_Inr)

lemma v3_encode_command_returns:
  assumes "0 \<le> token" "token < 2 ^ 64" "0 \<le> seq" "seq < 2 ^ 32" "0 \<le> ms" "ms < 2 ^ 32" "\<bar>f\<bar> \<le> 1" "\<bar>l\<bar> \<le> 1"
  shows "\<exists>e. v3_encode_command token seq ms (Fin f) (Fin l) = Inr e"
proof -
  have b: "- 1000 \<le> py_round (f * 1000)" "py_round (f * 1000) \<le> 1000" "- 1000 \<le> py_round (- l * 1000)" "py_round (- l * 1000) \<le> 1000"
    using assms(7,8) by (auto intro!: py_round_le py_round_ge)
  have "- 1 \<le> f" "f \<le> 1" "- 1 \<le> l" "l \<le> 1" using assms(7,8) by linarith+
  with b assms show ?thesis
    by (simp add: v3_encode_command_def pack_s16_def v3_encode_frame_returns V3_COMMAND_def)
qed

definition ready :: "hw_bridge \<Rightarrow> bool" where
  "ready n \<longleftrightarrow> 0 \<le> hb_seq n \<and> hb_seq n < 2 ^ 32 \<and> (\<forall>t. hb_token n = Some t \<longrightarrow> 0 \<le> t \<and> t < 2 ^ 64)"

text \<open>The attributes a write does not touch.\<close>

definition same_inputs :: "hw_bridge \<Rightarrow> hw_bridge \<Rightarrow> bool" where
  "same_inputs n n' \<longleftrightarrow> hb_token n' = hb_token n \<and> hb_drive n' = hb_drive n \<and> hb_last_drive n' = hb_last_drive n
     \<and> hb_status_values n' = hb_status_values n \<and> hb_last_status n' = hb_last_status n \<and> hb_down n' = hb_down n
     \<and> hb_status_frame n' = hb_status_frame n"

definition wrote :: "hw_bridge \<Rightarrow> bytes list \<Rightarrow> hw_bridge \<Rightarrow> bool" where
  "wrote n es n' \<longleftrightarrow> hb_written n' = es @ hb_written n \<and> same_inputs n n' \<and> hb_arm_started n' = hb_arm_started n
     \<and> (hb_arm_requested n' \<longrightarrow> hb_arm_requested n) \<and> ready n'"

lemma wrote_trans: "wrote n es n' \<Longrightarrow> wrote n' fs n'' \<Longrightarrow> wrote n (fs @ es) n''"
  by (simp add: wrote_def same_inputs_def)

lemma send_frame_wrote:
  assumes "ready n" and "\<And>q. 0 \<le> q \<Longrightarrow> q < 2 ^ 32 \<Longrightarrow> \<exists>e. enc q = Inr e"
  shows "\<exists>n' ok e. send_frame wr enc n = Inr (n', ok) \<and> wrote n [e] n' \<and> enc (hb_seq n') = Inr e"
proof -
  let ?n = "hw_next_seq n"
  have q: "0 \<le> hb_seq ?n" "hb_seq ?n < 2 ^ 32" using u32_bounds by (simp_all add: hw_next_seq_def)
  from assms(2) [OF this] obtain e where e: "enc (hb_seq ?n) = Inr e" by blast
  obtain n' ok where w: "write_bytes wr e ?n = (n', ok)" by (cases "write_bytes wr e ?n") auto
  then have "wrote n [e] n' \<and> hb_seq n' = hb_seq ?n"
    using assms(1) q by (auto simp: write_bytes_def Let_def wrote_def same_inputs_def ready_def hw_next_seq_def split: if_splits)
  with e w show ?thesis by (simp add: send_frame_def)
qed

lemma send_command_wrote:
  assumes "ready n" "\<bar>f\<bar> \<le> 1" "\<bar>l\<bar> \<le> 1" "hb_token n = Some t"
  shows "\<exists>n' ok e. send_command wr k f l n = Inr (n', ok) \<and> wrote n [e] n'
     \<and> v3_encode_command t (hb_seq n') (u32 (hk_ms k)) (Fin f) (Fin l) = Inr e"
proof -
  have "\<exists>e. v3_encode_command t q (u32 (hk_ms k)) (Fin f) (Fin l) = Inr e" if "0 \<le> q" "q < 2 ^ 32" for q
    using assms that u32_bounds [of "hk_ms k"] by (intro v3_encode_command_returns) (auto simp: ready_def)
  from send_frame_wrote [OF assms(1) this, where wr = wr] assms(4) show ?thesis by (simp add: send_command_def)
qed

lemma send_kind_wrote:
  assumes "ready n" "hb_token n = Some t" "0 \<le> kind" "kind \<le> 255"
  shows "\<exists>n' ok e. send_frame wr (\<lambda>q. v3_encode_frame kind t q (u32 (hk_ms k)) []) n = Inr (n', ok) \<and> wrote n [e] n'
     \<and> v3_encode_frame kind t (hb_seq n') (u32 (hk_ms k)) [] = Inr e"
proof -
  have "\<exists>e. v3_encode_frame kind t q (u32 (hk_ms k)) [] = Inr e" if "0 \<le> q" "q < 2 ^ 32" for q
    using assms that u32_bounds [of "hk_ms k"] by (intro v3_encode_frame_returns) (auto simp: ready_def)
  from send_frame_wrote [OF assms(1) this, where wr = wr] show ?thesis .
qed

text \<open>A frame that cannot move the vehicle: no COMMAND, or one with both axes at zero.\<close>

definition harmless :: "bytes \<Rightarrow> bool" where
  "harmless e \<longleftrightarrow> (\<forall>fr. v3_encodes fr e \<and> v3_kind fr = V3_COMMAND \<longrightarrow> s16_at 0 (v3_payload fr) = 0 \<and> s16_at 2 (v3_payload fr) = 0)"

lemma v3_encodes_unique: "v3_encodes f e \<Longrightarrow> v3_encodes g e \<Longrightarrow> f = g"
  using v3_scan_encoded [of f e "[]"] v3_scan_encoded [of g e "[]"] by (simp add: v3_scan.simps [of "[]"] FRAME_SIZE_def)

lemma harmless_neutral:
  assumes "v3_encode_command t q ms (Fin 0) (Fin 0) = Inr e" shows "harmless e"
proof -
  from v3_command_axes [OF assms] obtain fr where fr: "v3_encodes fr e" "s16_at 0 (v3_payload fr) = 0" "s16_at 2 (v3_payload fr) = 0"
    using py_round_of_int [of 0] by auto
  then show ?thesis unfolding harmless_def using v3_encodes_unique [OF fr(1)] by blast
qed

lemma harmless_kind:
  assumes "v3_encode_frame kind t q ms [] = Inr e" "kind \<noteq> V3_COMMAND" shows "harmless e"
proof -
  define fr where "fr = \<lparr>v3_kind = kind, v3_token = t, v3_seq = q, v3_ms = ms, v3_payload = replicate 40 0\<rparr>"
  have "v3_encodes fr e" using assms(1) by (auto simp: v3_encodes_def fr_def v3_encode_frame_Inr v3_body_def)
  then have "g = fr" if "v3_encodes g e" for g using v3_encodes_unique that by blast
  with assms(2) show ?thesis by (force simp: harmless_def fr_def)
qed

lemma send_disarm_wrote:
  assumes "ready n"
  shows "\<exists>n' es. send_disarm wr k n = Inr n' \<and> wrote n es n' \<and> (\<forall>e \<in> set es. harmless e)"
proof (cases "hb_token n")
  case None
  with assms show ?thesis by (auto simp: send_disarm_def wrote_def same_inputs_def intro!: exI [of _ "[]"])
next
  case (Some t)
  from send_kind_wrote [OF assms Some, where kind = V3_DISARM and wr = wr and k = k] obtain n' ok e where
    "send_frame wr (\<lambda>q. v3_encode_disarm t q (u32 (hk_ms k))) n = Inr (n', ok)" "wrote n [e] n'"
    "v3_encode_frame V3_DISARM t (hb_seq n') (u32 (hk_ms k)) [] = Inr e"
    by (auto simp: V3_DISARM_def v3_encode_disarm_def)
  moreover from this(3) have "harmless e" by (rule harmless_kind) (simp add: V3_DISARM_def V3_COMMAND_def)
  ultimately show ?thesis using Some by (auto simp: send_disarm_def intro!: exI [of _ "[e]"])
qed

section \<open>The invariant\<close>

definition hb_inv :: "hw_bridge \<Rightarrow> bool" where
  "hb_inv n \<longleftrightarrow> ready n \<and> (\<forall>d. hb_drive n = Some d \<longrightarrow> \<bar>d_forward d\<bar> \<le> 1 \<and> \<bar>d_yaw_left d\<bar> \<le> 1)
     \<and> (hb_arm_requested n \<longrightarrow> hb_arm_started n \<noteq> None) \<and> (hb_status_values n \<noteq> None \<longrightarrow> hb_token n \<noteq> None)"

lemma hb_inv_wrote: "hb_inv n \<Longrightarrow> wrote n es n' \<Longrightarrow> hb_inv n'"
  by (auto simp: hb_inv_def wrote_def same_inputs_def)

lemma hb_inv_unarmed: "hb_inv n \<Longrightarrow> hb_inv (n\<lparr>hb_arm_requested := False\<rparr>)"
  by (simp add: hb_inv_def ready_def)

text \<open>What reading does: nothing is written, and a bridge that stays armed has the same token.\<close>

definition read_only :: "hw_bridge \<Rightarrow> hw_bridge \<Rightarrow> bool" where
  "read_only n n' \<longleftrightarrow> hb_written n' = hb_written n \<and> hb_drive n' = hb_drive n \<and> hb_last_drive n' = hb_last_drive n
     \<and> hb_down n' = hb_down n \<and> (hb_arm_requested n' \<longrightarrow> hb_arm_requested n \<and> hb_token n' = hb_token n)"

lemma read_only_trans: "read_only n n' \<Longrightarrow> read_only n' n'' \<Longrightarrow> read_only n n''"
  by (auto simp: read_only_def)

definition token_ok :: "v3_frame \<Rightarrow> bool" where
  "token_ok f \<longleftrightarrow> 0 \<le> v3_token f \<and> v3_token f < 2 ^ 64"

lemma scan_token_ok: "f \<in> set (fst (v3_scan b)) \<Longrightarrow> token_ok f"
proof (induction b rule: v3_scan.induct)
  case (1 b)
  have ok: "token_ok (v3_decode_frame x)" for x
    using u_at_bounds [of 4 8 x] by (simp add: token_ok_def v3_decode_frame_def)
  show ?case
  proof (cases "length b < FRAME_SIZE \<or> find_sync b = None")
    case True
    with "1.prems" show ?thesis by (auto simp: v3_scan.simps [of b] split: if_splits)
  next
    case False
    then obtain i where i: "find_sync b = Some i" by auto
    show ?thesis using 1 False i ok by (auto simp: v3_scan.simps [of b] Let_def case_prod_beta split: if_splits)
  qed
qed

lemma on_status_frame_reads:
  assumes "hb_inv n" "token_ok f"
  shows "hb_inv (on_status_frame now f n) \<and> read_only n (on_status_frame now f n)"
proof -
  have t: "hb_inv (take_token f n) \<and> read_only n (take_token f n) \<and> hb_token (take_token f n) = Some (v3_token f)"
    using assms by (auto simp: take_token_def hb_inv_def ready_def read_only_def token_ok_def)
  then have "hb_inv (take_status now f v (take_token f n)) \<and> read_only n (take_status now f v (take_token f n))" for v
    by (auto simp: take_status_def Let_def hb_inv_def ready_def read_only_def)
  with t assms(1) show ?thesis
    by (auto simp: on_status_frame_def Let_def read_only_def split: sum.split option.split)
qed

lemma receive_reads:
  assumes "hb_inv n" shows "hb_inv (receive now data n) \<and> read_only n (receive now data n)"
proof -
  have fold: "hb_inv m \<Longrightarrow> \<forall>f \<in> set fs. token_ok f \<Longrightarrow> hb_inv (fold (on_status_frame now) fs m) \<and> read_only m (fold (on_status_frame now) fs m)" for fs m
  proof (induction fs arbitrary: m)
    case Nil
    then show ?case by (simp add: read_only_def)
  next
    case (Cons f fs)
    then have m: "hb_inv (on_status_frame now f m) \<and> read_only m (on_status_frame now f m)" by (intro on_status_frame_reads) simp_all
    with Cons have "hb_inv (fold (on_status_frame now) fs (on_status_frame now f m))
        \<and> read_only (on_status_frame now f m) (fold (on_status_frame now) fs (on_status_frame now f m))" by simp
    with m show ?case using read_only_trans by auto
  qed
  let ?s = "v3_scan (hb_buffer n @ data)"
  have "\<forall>f \<in> set (fst ?s). token_ok f" using scan_token_ok by blast
  moreover have "hb_inv (n\<lparr>hb_buffer := snd ?s\<rparr>)" using assms by (simp add: hb_inv_def ready_def)
  ultimately have "hb_inv (receive now data n) \<and> read_only (n\<lparr>hb_buffer := snd ?s\<rparr>) (receive now data n)"
    using fold [of "n\<lparr>hb_buffer := snd ?s\<rparr>" "fst ?s"] by (simp add: receive_def v3_feed_def case_prod_beta)
  then show ?thesis by (simp add: read_only_def)
qed

section \<open>What is written\<close>

text \<open>Why a frame that moves the vehicle may be written: the bridge is armed, the status is fresh and says the device
  takes the commands, and the drive command is fresh and asks for it.\<close>

definition may_drive :: "hw_clock \<Rightarrow> hw_bridge \<Rightarrow> bytes \<Rightarrow> bool" where
  "may_drive k n e \<longleftrightarrow> hb_arm_requested n \<and> fresh_status (hk_mono k) n \<and> \<not> drive_old (hk_mono k) n
     \<and> (\<exists>v d t q. hb_status_values n = Some v \<and> vs_auto_enabled v \<and> hb_drive n = Some d \<and> d_enable d \<and> hb_token n = Some t
          \<and> v3_encode_command t q (u32 (hk_ms k)) (Fin (d_forward d)) (Fin (d_yaw_left d)) = Inr e)"

lemma send_neutral_wrote:
  assumes "hb_inv n" "hb_status_values n \<noteq> None"
  shows "\<exists>n' ok e. send_command wr k 0 0 n = Inr (n', ok) \<and> wrote n [e] n' \<and> harmless e"
proof -
  from assms obtain t where t: "hb_token n = Some t" by (auto simp: hb_inv_def)
  have "ready n" using assms(1) by (simp add: hb_inv_def)
  from send_command_wrote [OF this _ _ t, of 0 0 wr k] obtain n' ok e where
    "send_command wr k 0 0 n = Inr (n', ok)" "wrote n [e] n'" "v3_encode_command t (hb_seq n') (u32 (hk_ms k)) (Fin 0) (Fin 0) = Inr e" by auto
  with harmless_neutral show ?thesis by blast
qed

lemma keep_driving_writes:
  assumes inv: "hb_inv n"
  shows "\<exists>n' es. keep_driving wr k n = Inr n' \<and> hb_inv n' \<and> hb_written n' = es @ hb_written n \<and> same_inputs n n'
     \<and> (hb_arm_requested n' \<longrightarrow> hb_arm_requested n) \<and> (\<forall>e \<in> set es. harmless e \<or> may_drive k n e)"
proof -
  have done_: "\<exists>n' es. r = Inr n' \<and> hb_inv n' \<and> hb_written n' = es @ hb_written n \<and> same_inputs n n'
     \<and> (hb_arm_requested n' \<longrightarrow> hb_arm_requested n) \<and> (\<forall>e \<in> set es. harmless e \<or> may_drive k n e)"
    if "r = Inr m" "wrote n0 es m" "n0 = n \<or> n0 = n\<lparr>hb_arm_requested := False\<rparr>" "\<forall>e \<in> set es. harmless e \<or> may_drive k n e"
    for r m n0 es
  proof -
    have "hb_inv m" using that inv hb_inv_unarmed hb_inv_wrote by blast
    with that show ?thesis by (auto simp: wrote_def same_inputs_def)
  qed
  have stay: "wrote n [] n" "wrote (n\<lparr>hb_arm_requested := False\<rparr>) [] (n\<lparr>hb_arm_requested := False\<rparr>)"
    using inv by (simp_all add: wrote_def same_inputs_def hb_inv_def ready_def)
  have rd: "ready n" "ready (n\<lparr>hb_arm_requested := False\<rparr>)" using inv by (simp_all add: hb_inv_def ready_def)
  show ?thesis
  proof (cases "\<not> fresh_status (hk_mono k) n \<or> drive_old (hk_mono k) n")
    case True
    from send_disarm_wrote [OF rd(2), of wr k] obtain m es where
      m: "send_disarm wr k (n\<lparr>hb_arm_requested := False\<rparr>) = Inr m" "wrote (n\<lparr>hb_arm_requested := False\<rparr>) es m" "\<forall>e \<in> set es. harmless e" by blast
    with True show ?thesis using done_ [OF _ m(2)] done_ [OF refl stay(1)]
      by (cases "hb_arm_requested n") (simp_all add: keep_driving_def)
  next
    case fresh: False
    then obtain v d where v: "hb_status_values n = Some v" and d: "hb_drive n = Some d"
      by (auto simp: fresh_status_def drive_old_def split: option.splits)
    obtain t where t: "hb_token n = Some t" using inv v by (auto simp: hb_inv_def)
    from send_neutral_wrote [OF inv, of wr k] v obtain m ok e where
      neutral: "send_command wr k 0 0 n = Inr (m, ok)" "wrote n [e] m" "harmless e" by auto
    show ?thesis
    proof (cases "hb_arm_requested n")
      case False
      with fresh show ?thesis using done_ [OF refl stay(1)] by (simp add: keep_driving_def)
    next
      case armed: True
      then obtain s where s: "hb_arm_started n = Some s" using inv by (auto simp: hb_inv_def)
      consider "\<not> vs_auto_enabled v" "hk_mono k - s < 1/5" | "\<not> vs_auto_enabled v" "\<not> hk_mono k - s < 1/5"
        | "vs_auto_enabled v" "\<not> d_enable d" | "vs_auto_enabled v" "d_enable d" by blast
      then show ?thesis
      proof cases
        case 2
        with fresh armed v d s show ?thesis using done_ [OF refl stay(2)] by (simp add: keep_driving_def)
      next
        case 4
        from inv d have "\<bar>d_forward d\<bar> \<le> 1" "\<bar>d_yaw_left d\<bar> \<le> 1" by (auto simp: hb_inv_def)
        from send_command_wrote [OF rd(1) this t, of wr k] obtain m ok e where
          m: "send_command wr k (d_forward d) (d_yaw_left d) n = Inr (m, ok)" "wrote n [e] m"
          "v3_encode_command t (hb_seq m) (u32 (hk_ms k)) (Fin (d_forward d)) (Fin (d_yaw_left d)) = Inr e" by blast
        have "may_drive k n e" unfolding may_drive_def using fresh armed v d t 4 m(3) by blast
        with 4 fresh armed v d m show ?thesis using done_ [OF _ m(2)] by (simp add: keep_driving_def)
      qed (use fresh armed v d s neutral done_ [OF _ neutral(2)] in \<open>simp_all add: keep_driving_def\<close>)
    qed
  qed
qed

lemma on_arm_writes:
  assumes inv: "hb_inv n"
  shows "\<exists>n' r es. on_arm wr data k n = Inr (n', r) \<and> hb_inv n' \<and> hb_written n' = es @ hb_written n \<and> same_inputs n n'
     \<and> (hb_arm_requested n' \<longrightarrow> data) \<and> (\<forall>e \<in> set es. harmless e)"
proof (cases data)
  case False
  have "ready (n\<lparr>hb_arm_requested := False\<rparr>)" using inv by (simp add: hb_inv_def ready_def)
  from send_disarm_wrote [OF this, of wr k] obtain m es where
    m: "send_disarm wr k (n\<lparr>hb_arm_requested := False\<rparr>) = Inr m" "wrote (n\<lparr>hb_arm_requested := False\<rparr>) es m" "\<forall>e \<in> set es. harmless e" by blast
  then have "hb_inv m" using hb_inv_wrote [OF hb_inv_unarmed [OF inv]] by blast
  with False m show ?thesis by (auto simp: on_arm_def wrote_def same_inputs_def)
next
  case True
  show ?thesis
  proof (cases "drive_old (hk_mono k) n \<or> hb_status_values n = None \<or> \<not> fresh_status (hk_mono k) n
      \<or> hand_active (the (hb_status_values n)) \<or> vs_auto_enabled (the (hb_status_values n))")
    case refused: True
    with True inv show ?thesis by (auto simp: on_arm_def same_inputs_def split: option.split)
  next
    case False
    then obtain v where v: "hb_status_values n = Some v" by auto
    from send_neutral_wrote [OF inv, of wr k] v obtain m ok e where
      m: "send_command wr k 0 0 n = Inr (m, ok)" "wrote n [e] m" "harmless e" by auto
    have im: "hb_inv m" by (rule hb_inv_wrote [OF inv m(2)])
    obtain t where t: "hb_token m = Some t" using inv v m(2) by (auto simp: hb_inv_def wrote_def same_inputs_def)
    have "ready m" using im by (simp add: hb_inv_def)
    from send_kind_wrote [OF this t, where kind = V3_ARM and wr = wr and k = k] obtain m' ok' e' where
      a: "send_arm wr k m = Inr (m', ok')" "wrote m [e'] m'" "v3_encode_frame V3_ARM t (hb_seq m') (u32 (hk_ms k)) [] = Inr e'"
      using t by (auto simp: V3_ARM_def v3_encode_arm_def send_arm_def)
    have h: "harmless e'" using a(3) by (rule harmless_kind) (simp add: V3_ARM_def V3_COMMAND_def)
    have im': "hb_inv m'" by (rule hb_inv_wrote [OF im a(2)])
    then have im'': "hb_inv (m'\<lparr>hb_arm_requested := True, hb_arm_started := Some (hk_mono k)\<rparr>)" by (simp add: hb_inv_def ready_def)
    have wr2: "wrote n [e', e] m'" using wrote_trans [OF m(2) a(2)] by simp
    have same: "same_inputs n m" "same_inputs n m'" "hb_written m = [e] @ hb_written n" "hb_written m' = [e', e] @ hb_written n"
      using m(2) wr2 by (auto simp: wrote_def)
    show ?thesis
    proof (cases "ok \<and> ok'")
      case both: True
      with False True v m a have "on_arm wr data k n = Inr (m'\<lparr>hb_arm_requested := True, hb_arm_started := Some (hk_mono k)\<rparr>, Arm_sent)"
        by (simp add: on_arm_def)
      moreover have "same_inputs n (m'\<lparr>hb_arm_requested := True, hb_arm_started := Some (hk_mono k)\<rparr>)"
        using same(2) by (simp add: same_inputs_def)
      ultimately show ?thesis using True im'' same h m(3) by (auto intro!: exI [of _ "[e', e]"])
    next
      case not_both: False
      have "\<exists>r. on_arm wr data k n = Inr (if ok then m' else m, r)"
        using not_both False True v m a by (auto simp: on_arm_def)
      then show ?thesis
        using True im im' same h m(3) by (cases ok) (auto intro: exI [of _ "[e]"] exI [of _ "[e', e]"])
    qed
  qed
qed

lemma tick_writes:
  assumes inv: "hb_inv n"
  shows "\<exists>n' es. tick wr received k n = Inr n' \<and> hb_inv n' \<and> hb_written n' = es @ hb_written n \<and> read_only (n\<lparr>hb_written := hb_written n'\<rparr>) n'
     \<and> (\<forall>e \<in> set es. harmless e \<or> (\<exists>data. received = Some data \<and> may_drive k (receive (hk_mono k) data n) e
            \<and> same_inputs (receive (hk_mono k) data n) n'))"
proof (cases received)
  case None
  with hb_inv_unarmed [OF inv] show ?thesis by (simp add: tick_def read_only_def)
next
  case (Some data)
  let ?m = "receive (hk_mono k) data n"
  from receive_reads [OF inv, of "hk_mono k" data] have m: "hb_inv ?m" "read_only n ?m" by auto
  from keep_driving_writes [OF m(1), of wr k] obtain n' es where
    n': "keep_driving wr k ?m = Inr n'" "hb_inv n'" "hb_written n' = es @ hb_written ?m" "same_inputs ?m n'"
    "hb_arm_requested n' \<longrightarrow> hb_arm_requested ?m" "\<forall>e \<in> set es. harmless e \<or> may_drive k ?m e" by blast
  have "hb_written n' = es @ hb_written n" "read_only (n\<lparr>hb_written := hb_written n'\<rparr>) n'"
    using m(2) n'(3-5) by (auto simp: read_only_def same_inputs_def)
  with n' Some show ?thesis unfolding tick_def by auto
qed

lemma drive_of_bounds: "drive_of value now = Some d \<Longrightarrow> \<bar>d_forward d\<bar> \<le> 1 \<and> \<bar>d_yaw_left d\<bar> \<le> 1"
  by (auto simp: drive_of_def Let_def split: option.splits if_splits pyval.splits)

lemma on_drive_keeps:
  "on_drive data k n = Inr n' \<Longrightarrow> hb_inv n \<Longrightarrow> hb_inv n' \<and> hb_written n' = hb_written n \<and> hb_down n' = hb_down n
     \<and> hb_arm_requested n' = hb_arm_requested n \<and> hb_token n' = hb_token n"
  using drive_of_bounds
  by (fastforce simp: on_drive_def hb_inv_def ready_def split: option.splits pyval.splits)

lemma shut_down_writes:
  assumes "hb_inv n"
  shows "hb_inv (shut_down wr k n) \<and> hb_down (shut_down wr k n) \<and> hb_drive (shut_down wr k n) = hb_drive n
     \<and> hb_last_drive (shut_down wr k n) = hb_last_drive n
     \<and> (\<exists>es. hb_written (shut_down wr k n) = es @ hb_written n \<and> (\<forall>e \<in> set es. harmless e))"
proof -
  have "ready n" using assms by (simp add: hb_inv_def)
  from send_disarm_wrote [OF this, of wr k] obtain m es where
    m: "send_disarm wr k n = Inr m" "wrote n es m" "\<forall>e \<in> set es. harmless e" by blast
  have "hb_inv m" by (rule hb_inv_wrote [OF assms m(2)])
  with m show ?thesis by (auto simp: shut_down_def close_bridge_def wrote_def same_inputs_def hb_inv_def ready_def)
qed

lemma hb_inv_step: "hb_inv n \<Longrightarrow> hb_inv (hb_step wr n e)"
proof (cases e)
  case (Drive_msg data k)
  assume "hb_inv n"
  with Drive_msg show ?thesis
    by (auto simp: hb_step_def shut_down_writes dest: on_drive_keeps split: sum.split)
next
  case (Arm data k)
  assume "hb_inv n"
  with on_arm_writes [OF this, of wr data k] Arm show ?thesis by (auto simp: hb_step_def)
next
  case (Tick received k)
  assume "hb_inv n"
  with tick_writes [OF this, of wr received k] Tick show ?thesis by (auto simp: hb_step_def)
qed

interpretation hw: event_system "\<lambda>n. n = new_hw_bridge" "hb_step wr" hb_inv for wr
  by unfold_locales (auto simp: hb_inv_step, simp add: hb_inv_def ready_def new_hw_bridge_def)

section \<open>Who armed\<close>

lemma hb_step_down: "\<not> hb_down (hb_step wr n e) \<Longrightarrow> \<not> hb_down n"
  by (auto simp: hb_step_def)

lemma hb_run_down: "\<not> hb_down (run (hb_step wr) n es) \<Longrightarrow> \<not> hb_down n"
  by (induction es arbitrary: n) (auto dest: hb_step_down)

lemma hb_step_armed:
  assumes "hb_inv n" "\<not> hb_down (hb_step wr n e)" "hb_arm_requested (hb_step wr n e)" "\<And>k. e \<noteq> Arm True k"
  shows "hb_arm_requested n \<and> hb_token (hb_step wr n e) = hb_token n \<and> (\<forall>k. e \<noteq> Arm False k)"
proof (cases e)
  case (Drive_msg data k)
  with assms shut_down_writes [OF assms(1), of wr k] show ?thesis
    by (auto simp: hb_step_def dest: on_drive_keeps split: sum.splits if_splits)
next
  case (Arm data k)
  with on_arm_writes [OF assms(1), of wr data k] assms show ?thesis by (auto simp: hb_step_def split: if_splits)
next
  case (Tick received k)
  with tick_writes [OF assms(1), of wr received k] assms show ?thesis
    by (auto simp: hb_step_def read_only_def split: if_splits)
qed

lemma armed_since:
  assumes "n = run (hb_step wr) new_hw_bridge es" "\<not> hb_down n" "hb_arm_requested n"
  shows "\<exists>xs k ys. es = xs @ Arm True k # ys \<and> (\<forall>y \<in> set ys. \<forall>k. y \<noteq> Arm False k)
     \<and> (\<forall>i. hb_token (run (hb_step wr) new_hw_bridge (xs @ Arm True k # take i ys)) = hb_token n)"
  using assms
proof (induction es arbitrary: n rule: rev_induct)
  case Nil
  then show ?case by (simp add: new_hw_bridge_def)
next
  case (snoc e es)
  let ?m = "run (hb_step wr) new_hw_bridge es"
  have n: "n = hb_step wr ?m e" using snoc.prems(1) by simp
  show ?case
  proof (cases "\<exists>k. e = Arm True k")
    case True
    then obtain k where "e = Arm True k" by blast
    with n show ?thesis by (intro exI [of _ es] exI [of _ k] exI [of _ "[]"]) simp
  next
    case False
    have "hb_inv ?m" by (rule hw.inv_reachable) simp
    from hb_step_armed [OF this, of wr e] False snoc.prems(2,3) n
    have e: "hb_arm_requested ?m" "hb_token n = hb_token ?m" "\<forall>k. e \<noteq> Arm False k" by auto
    have "\<not> hb_down ?m" using snoc.prems(2) hb_step_down unfolding n by blast
    from snoc.IH [OF refl this e(1)] obtain xs k ys where
      ih: "es = xs @ Arm True k # ys" "\<forall>y \<in> set ys. \<forall>k. y \<noteq> Arm False k"
      "\<forall>i. hb_token (run (hb_step wr) new_hw_bridge (xs @ Arm True k # take i ys)) = hb_token ?m" by blast
    have "hb_token (run (hb_step wr) new_hw_bridge (xs @ Arm True k # take i (ys @ [e]))) = hb_token n" for i
    proof (cases "i \<le> length ys")
      case True
      with ih(3) e(2) show ?thesis by simp
    next
      case False
      then have "xs @ Arm True k # take i (ys @ [e]) = es @ [e]" using ih(1) by simp
      with n show ?thesis by (simp del: append.simps)
    qed
    with ih(1,2) e(3) show ?thesis by (intro exI [of _ xs] exI [of _ k] exI [of _ "ys @ [e]"]) auto
  qed
qed

lemma drive_received:
  assumes "hb_drive (run (hb_step wr) new_hw_bridge es) = Some d"
  shows "\<exists>value k. Drive_msg (Some (PDict value)) k \<in> set es \<and> drive_of value (hk_ros k) = Some d
     \<and> hk_mono k = hb_last_drive (run (hb_step wr) new_hw_bridge es)"
  using assms
proof (induction es rule: rev_induct)
  case Nil
  then show ?case by (simp add: new_hw_bridge_def)
next
  case (snoc e es)
  let ?m = "run (hb_step wr) new_hw_bridge es"
  have inv: "hb_inv ?m" by (rule hw.inv_reachable) simp
  have "hb_drive (hb_step wr ?m e) = hb_drive ?m \<and> hb_last_drive (hb_step wr ?m e) = hb_last_drive ?m
     \<or> (\<exists>value k d. e = Drive_msg (Some (PDict value)) k \<and> drive_of value (hk_ros k) = Some d
          \<and> hb_drive (hb_step wr ?m e) = Some d \<and> hb_last_drive (hb_step wr ?m e) = hk_mono k)"
  proof (cases e)
    case (Drive_msg data k)
    with shut_down_writes [OF inv, of wr k] show ?thesis
      by (auto simp: hb_step_def on_drive_def split: option.splits pyval.splits)
  next
    case (Arm data k)
    with on_arm_writes [OF inv, of wr data k] show ?thesis by (auto simp: hb_step_def same_inputs_def)
  next
    case (Tick received k)
    with tick_writes [OF inv, of wr received k] show ?thesis by (auto simp: hb_step_def read_only_def)
  qed
  with snoc show ?case by fastforce
qed

text \<open>C38. A frame that moves the vehicle (a COMMAND with an axis that is not zero) is only written by the timer, only after
  an explicit ARM request with no DISARM request since and with the same boot of the device ever since, only while the last
  status is less than a quarter of a second old and says that the device is connected, fresh and takes the commands,
  and only from a drive command that was received at most 0.15 s ago and asks for it; the frame carries the token
  of that boot and the axes of that command, rounded to thousandths.\<close>

theorem hw_drive_is_authorised:
  assumes "n = run (hb_step wr) new_hw_bridge es" and "hb_written (hb_step wr n ev) = new @ hb_written n" and "e \<in> set new"
    and "v3_encodes fr e" and "v3_kind fr = V3_COMMAND" and "s16_at 0 (v3_payload fr) \<noteq> 0 \<or> s16_at 2 (v3_payload fr) \<noteq> 0"
  shows "\<exists>data k v d. ev = Tick (Some data) k
     \<and> (\<exists>xs t ys. es = xs @ Arm True t # ys \<and> (\<forall>y \<in> set ys. \<forall>t. y \<noteq> Arm False t)
          \<and> (\<forall>i. hb_token (run (hb_step wr) new_hw_bridge (xs @ Arm True t # take i ys)) = Some (v3_token fr)))
     \<and> hb_status_values (hb_step wr n ev) = Some v \<and> hk_mono k - hb_last_status (hb_step wr n ev) < 1/4
     \<and> vs_connected v \<and> vs_fresh v \<and> vs_auto_enabled v
     \<and> (\<exists>value s. Drive_msg (Some (PDict value)) s \<in> set es \<and> drive_of value (hk_ros s) = Some d \<and> hk_mono k - hk_mono s \<le> 3/20)
     \<and> d_enable d \<and> s16_at 2 (v3_payload fr) = py_round (d_forward d * 1000)
     \<and> s16_at 0 (v3_payload fr) = py_round (- d_yaw_left d * 1000)"
proof -
  have inv: "hb_inv n" unfolding assms(1) by (rule hw.inv_reachable) simp
  have not_harmless: "\<not> harmless e" using assms(4-6) by (auto simp: harmless_def)
  have up: "\<not> hb_down n" using assms(2,3) by (auto simp: hb_step_def)
  obtain received k where ev: "ev = Tick received k"
  proof (cases ev)
    case (Drive_msg data k)
    with assms(2,3) up inv not_harmless shut_down_writes [OF inv, of wr k] show ?thesis
      by (auto simp: hb_step_def dest: on_drive_keeps split: sum.splits)
  next
    case (Arm data k)
    with on_arm_writes [OF inv, of wr data k] assms(2,3) up not_harmless show ?thesis by (auto simp: hb_step_def)
  qed
  from tick_writes [OF inv, of wr received k] obtain n' es' where
    n': "tick wr received k n = Inr n'" "hb_written n' = es' @ hb_written n"
    "\<forall>e \<in> set es'. harmless e \<or> (\<exists>data. received = Some data \<and> may_drive k (receive (hk_mono k) data n) e
            \<and> same_inputs (receive (hk_mono k) data n) n')" by blast
  have step: "hb_step wr n ev = n'" using n'(1) ev up by (simp add: hb_step_def)
  with assms(2,3) n'(2,3) not_harmless obtain data where
    data: "received = Some data" "may_drive k (receive (hk_mono k) data n) e" "same_inputs (receive (hk_mono k) data n) n'" by auto
  let ?m = "receive (hk_mono k) data n"
  from data(2) obtain v d t q where m: "hb_arm_requested ?m" "fresh_status (hk_mono k) ?m" "\<not> drive_old (hk_mono k) ?m"
    "hb_status_values ?m = Some v" "vs_auto_enabled v" "hb_drive ?m = Some d" "d_enable d" "hb_token ?m = Some t"
    "v3_encode_command t q (u32 (hk_ms k)) (Fin (d_forward d)) (Fin (d_yaw_left d)) = Inr e" unfolding may_drive_def by blast
  have rd: "read_only n ?m" using receive_reads [OF inv] by blast
  then have n: "hb_arm_requested n" "hb_token n = Some t" "hb_drive n = Some d" "hb_last_drive ?m = hb_last_drive n"
    using m by (auto simp: read_only_def)
  from v3_command_axes [OF m(9)] v3_encodes_unique [OF assms(4)] have
    fr: "v3_token fr = t" "s16_at 2 (v3_payload fr) = py_round (d_forward d * 1000)" "s16_at 0 (v3_payload fr) = py_round (- d_yaw_left d * 1000)"
    by blast+
  have a: "\<exists>xs t' ys. es = xs @ Arm True t' # ys \<and> (\<forall>y \<in> set ys. \<forall>t. y \<noteq> Arm False t)
          \<and> (\<forall>i. hb_token (run (hb_step wr) new_hw_bridge (xs @ Arm True t' # take i ys)) = Some (v3_token fr))"
    using armed_since [OF assms(1) up n(1)] n(2) fr(1) by simp
  from drive_received [of wr es d] n(3) assms(1) obtain val s where
    "Drive_msg (Some (PDict val)) s \<in> set es" "drive_of val (hk_ros s) = Some d" "hk_mono s = hb_last_drive n" by auto
  moreover from this m(3) n(4) have "hk_mono k - hk_mono s \<le> 3/20" by (simp add: drive_old_def)
  moreover have "hb_status_values n' = Some v" "hk_mono k - hb_last_status n' < 1/4" "vs_connected v" "vs_fresh v"
    using m(2,4) data(3) by (auto simp: same_inputs_def fresh_status_def)
  ultimately show ?thesis using a ev data(1) step m(5,7) fr(2,3) by blast
qed

section \<open>A drive\<close>

definition status_payload :: "byte \<Rightarrow> bytes" where
  "status_payload flags = [2, 0, flags, 0] @ replicate 36 0"

definition status_frame :: "int \<Rightarrow> byte \<Rightarrow> v3_frame" where
  "status_frame q flags = \<lparr>v3_kind = V3_STATUS, v3_token = 7, v3_seq = q, v3_ms = 0, v3_payload = status_payload flags\<rparr>"

definition status_values :: "bool \<Rightarrow> v3_status" where
  "status_values auto = \<lparr>vs_owner = 2, vs_reason = 0, vs_connected = True, vs_fresh = True, vs_centered = True, vs_auto_enabled = auto,
     vs_raw_x = 0, vs_raw_y = 0, vs_manual_right = 0, vs_manual_forward = 0, vs_pc_right = 0, vs_pc_forward = 0, vs_applied_right = 0,
     vs_applied_forward = 0, vs_dac_x = 0, vs_dac_y = 0, vs_mv_x = 0, vs_mv_y = 0, vs_accepted_seq = 0, vs_bt_age = 0, vs_pc_age = 0\<rparr>"

lemma le_val_zeros [simp]: "le_val (replicate n 0) = 0"
  by (induction n) simp_all

lemma status_payload_fields:
  "length (status_payload f) = 40" "u_at 0 1 (status_payload f) = 2" "u_at 1 1 (status_payload f) = 0"
  "u_at 2 2 (status_payload f) = uint f" "map (\<lambda>i. s16_at (4 + 2 * i) (status_payload f)) [0 ..< 8] = [0, 0, 0, 0, 0, 0, 0, 0]"
  "u_at 20 2 (status_payload f) = 0" "u_at 22 2 (status_payload f) = 0" "u_at 24 2 (status_payload f) = 0" "u_at 26 2 (status_payload f) = 0"
  "u_at 28 4 (status_payload f) = 0" "u_at 32 4 (status_payload f) = 0" "u_at 36 4 (status_payload f) = 0"
  by (simp_all add: status_payload_def u_at_def s16_at_def s16_dec_def upt_rec drop_Cons' take_Cons')

lemma status_frame_decodes:
  "v3_decode_status (status_frame q 7) = Inr (Some (status_values False))"
  "v3_decode_status (status_frame q 15) = Inr (Some (status_values True))"
  unfolding v3_decode_status_def status_frame_def v3_frame.simps status_payload_fields Let_def
  by (simp_all add: status_values_def flag_set_def V3_STATUS_FLAGS_def nth_Cons')

definition sample_drive :: "(string \<times> pyval) list" where
  "sample_drive = [(''forward_norm'', PFloat (Fin (1/2))), (''yaw_left_norm'', PInt 0),
     (''issued_at'', PDict [(''sec'', PInt 0), (''nanosec'', PInt 0)]), (''request_id'', PStr ''a''), (''enable_requested'', PBool True)]"

lemma sample_drive_ok:
  "drive_of sample_drive 0 = Some \<lparr>d_forward = 1/2, d_yaw_left = 0, d_request_id = ''a'', d_enable = True\<rparr>"
  by (simp add: drive_of_def sample_drive_def issued_at_def)

definition sample_clock :: hw_clock where
  "sample_clock = \<lparr>hk_mono = 1, hk_ms = 0, hk_ros = 0\<rparr>"

lemma length_v3_encoded:
  "v3_encode_frame kind t q ms p = Inr e \<Longrightarrow> length e = 64"
  "v3_encode_command t q ms f l = Inr e \<Longrightarrow> length e = 64"
  by (auto simp: v3_encode_command_def v3_encode_frame_Inr length_v3_body split: option.splits)

lemma sample_drive_run:
  assumes e1: "v3_encodes (status_frame 1 7) e1" and e2: "v3_encodes (status_frame 2 15) e2"
    and c: "v3_encode_command 7 1 0 (Fin 0) (Fin 0) = Inr c" and a: "v3_encode_arm 7 2 0 = Inr a"
    and d: "v3_encode_command 7 3 0 (Fin (1/2)) (Fin 0) = Inr d"
  shows "hb_written (run (hb_step (\<lambda>_. Count 64)) new_hw_bridge
       [Drive_msg (Some (PDict sample_drive)) sample_clock, Tick (Some e1) sample_clock, Arm True sample_clock]) = [a, c]"
    and "hb_written (run (hb_step (\<lambda>_. Count 64)) new_hw_bridge
       [Drive_msg (Some (PDict sample_drive)) sample_clock, Tick (Some e1) sample_clock, Arm True sample_clock, Tick (Some e2) sample_clock])
     = [d, a, c]"
proof -
  have feeds: "v3_feed [] e1 = ([], [status_frame 1 7])" "v3_feed [] e2 = ([], [status_frame 2 15])"
    using v3_scan_encoded [OF e1, of "[]"] v3_scan_encoded [OF e2, of "[]"] by (simp_all add: v3_feed_def v3_scan.simps [of "[]"] FRAME_SIZE_def)
  have fields: "v3_kind (status_frame q f) = V3_STATUS" "v3_token (status_frame q f) = 7" "v3_seq (status_frame q f) = q" for q f
    by (simp_all add: status_frame_def)
  have len: "length c = 64" "length a = 64" "length d = 64"
    using c a d length_v3_encoded by (auto simp: v3_encode_arm_def)
  note defs = hb_step_def on_drive_def tick_def receive_def feeds on_status_frame_def take_token_def newer_frame_def take_status_def Let_def
    fields status_frame_decodes keep_driving_def fresh_status_def drive_old_def on_arm_def hand_active_def send_command_def send_arm_def
    send_frame_def hw_next_seq_def write_bytes_def u32_def c a d len sample_drive_ok
  show one: "hb_written (run (hb_step (\<lambda>_. Count 64)) new_hw_bridge
       [Drive_msg (Some (PDict sample_drive)) sample_clock, Tick (Some e1) sample_clock, Arm True sample_clock]) = [a, c]"
    by (simp add: new_hw_bridge_def sample_clock_def status_values_def defs)
  show "hb_written (run (hb_step (\<lambda>_. Count 64)) new_hw_bridge
       [Drive_msg (Some (PDict sample_drive)) sample_clock, Tick (Some e1) sample_clock, Arm True sample_clock, Tick (Some e2) sample_clock])
     = [d, a, c]"
    by (simp add: new_hw_bridge_def sample_clock_def status_values_def defs)
qed

lemma hw_drive_is_authorised_witness:
  "\<exists>e1 e2 fr e c a v. hb_written (run (hb_step (\<lambda>_. Count 64)) new_hw_bridge
       [Drive_msg (Some (PDict sample_drive)) sample_clock, Tick (Some e1) sample_clock, Arm True sample_clock, Tick (Some e2) sample_clock])
       = [e, a, c] \<and> v3_encodes fr e \<and> s16_at 2 (v3_payload fr) = 500
     \<and> hb_status_values (run (hb_step (\<lambda>_. Count 64)) new_hw_bridge
       [Drive_msg (Some (PDict sample_drive)) sample_clock, Tick (Some e1) sample_clock, Arm True sample_clock, Tick (Some e2) sample_clock]) = Some v
     \<and> vs_auto_enabled v"
proof -
  have st: "\<exists>e. v3_encodes (status_frame q f) e" if "0 \<le> q" "q < 2 ^ 32" for q f
    using that v3_encode_frame_returns [of V3_STATUS 7 q 0 "status_payload f"]
    by (simp add: v3_encodes_def status_frame_def status_payload_def V3_STATUS_def)
  obtain e1 e2 where e: "v3_encodes (status_frame 1 7) e1" "v3_encodes (status_frame 2 15) e2" using st [of 1 7] st [of 2 15] by auto
  obtain c d where c: "v3_encode_command 7 1 0 (Fin 0) (Fin 0) = Inr c" and d: "v3_encode_command 7 3 0 (Fin (1/2)) (Fin 0) = Inr d"
    using v3_encode_command_returns [of 7 1 0 0 0] v3_encode_command_returns [of 7 3 0 "1/2" 0] by auto
  obtain a where a: "v3_encode_arm 7 2 0 = Inr a"
    using v3_encode_frame_returns [of V3_ARM 7 2 0 "[]"] by (auto simp: v3_encode_arm_def V3_ARM_def)
  let ?es = "[Drive_msg (Some (PDict sample_drive)) sample_clock, Tick (Some e1) sample_clock, Arm True sample_clock]"
  let ?n = "run (hb_step (\<lambda>_. Count 64)) new_hw_bridge ?es" and ?ev = "Tick (Some e2) sample_clock"
  note w = sample_drive_run [OF e c a d]
  have "py_round (1 / 2 * 1000) = 500" by (simp add: py_round_def)
  with v3_command_axes [OF d] obtain fr where
    fr: "v3_encodes fr d" "v3_kind fr = V3_COMMAND" "s16_at 2 (v3_payload fr) = 500" by auto
  have "hb_written (hb_step (\<lambda>_. Count 64) ?n ?ev) = [d] @ hb_written ?n" using w by simp
  from hw_drive_is_authorised [OF refl this _ fr(1,2)] fr(3) obtain v where
    "hb_status_values (hb_step (\<lambda>_. Count 64) ?n ?ev) = Some v" "vs_auto_enabled v" by auto
  moreover have "hb_step (\<lambda>_. Count 64) ?n ?ev = run (hb_step (\<lambda>_. Count 64)) new_hw_bridge (?es @ [?ev])" by simp
  ultimately show ?thesis using w(2) fr(1,3) by (metis append_Cons append_Nil)
qed

text \<open>A drive message that is JSON but no object takes the node down; nothing else does.\<close>

lemma only_a_json_value_raises:
  assumes "n = run (hb_step wr) new_hw_bridge es" "\<not> hb_down n" "hb_down (hb_step wr n ev)"
  shows "\<exists>v k. ev = Drive_msg (Some v) k \<and> (\<forall>kvs. v \<noteq> PDict kvs)"
proof -
  have inv: "hb_inv n" unfolding assms(1) by (rule hw.inv_reachable) simp
  show ?thesis
  proof (cases ev)
    case (Drive_msg data k)
    with assms(2,3) show ?thesis by (auto simp: hb_step_def on_drive_def split: option.splits pyval.splits)
  next
    case (Arm data k)
    with on_arm_writes [OF inv, of wr data k] assms(2,3) show ?thesis by (auto simp: hb_step_def same_inputs_def)
  next
    case (Tick received k)
    with tick_writes [OF inv, of wr received k] assms(2,3) show ?thesis by (auto simp: hb_step_def read_only_def)
  qed
qed

lemma json_array_takes_bridge_down: "hb_down (hb_step wr new_hw_bridge (Drive_msg (Some (PList [])) k))"
  by (simp add: hb_step_def on_drive_def new_hw_bridge_def shut_down_def)

end
