(* ===== verification/Navigation.thy ===== *)
theory Navigation
  imports Contracts Text_Data
begin

text \<open>
  The path follower of the earlier stack, \<^verbatim>\<open>gouda_navigation/control.py\<close>, and the node around it,
  \<^verbatim>\<open>gouda_navigation/node.py\<close>.  The follower steers with five states (0 stop, 1 forward, 2 reverse, 3 left, 4 right) and
  changes between them at rest only; the node asks the planner for a path, drops plans that are out of date, and
  gives the follower nothing while an input is stale.  Messages carry finite numbers in the node; the follower itself
  tests its arguments.
\<close>

section \<open>Angles\<close>

text \<open>\<^verbatim>\<open>math.atan2\<close>; \<^verbatim>\<open>atan2(sin(e), cos(e))\<close> brings an angle into the half-open turn.\<close>

definition py_atan2 :: "real \<Rightarrow> real \<Rightarrow> real" where
  "py_atan2 y x = Arg (Complex x y)"

definition wrap :: "real \<Rightarrow> real" where
  "wrap e = py_atan2 (sin e) (cos e)"

fun yaw_of :: "real \<times> real \<times> real \<times> real \<Rightarrow> real" where
  "yaw_of (x, y, z, w) = py_atan2 (2 * (w * z + x * y)) (1 - 2 * (y * y + z * z))"

definition distance :: "real \<times> real \<Rightarrow> real \<times> real \<Rightarrow> real" where
  "distance p q = sqrt ((fst p - fst q)\<^sup>2 + (snd p - snd q)\<^sup>2)"

section \<open>The follower\<close>

record follower_params =
  fp_lookahead :: real
  fp_tolerance :: real
  fp_enter :: real
  fp_leave :: real
  fp_stop_time :: real
  fp_yaw_tolerance :: real

record follower =
  fl_params :: follower_params
  fl_path :: "(real \<times> real) list"
  fl_mode :: int
  fl_state :: string
  fl_index :: nat
  fl_stopped_since :: "real option"
  fl_final_yaw :: "real option"

fun new_follower :: "xfloat list \<Rightarrow> follower result" where
  "new_follower [Fin la, Fin tol, Fin en, Fin le, Fin st, Fin yt] =
     (if \<not> (0 < la \<and> 0 < tol \<and> 0 < en \<and> 0 < le \<and> 0 < st \<and> 0 < yt) \<or> en \<le> le then Inl ValueError
      else Inr \<lparr>fl_params = \<lparr>fp_lookahead = la, fp_tolerance = tol, fp_enter = en, fp_leave = le, fp_stop_time = st, fp_yaw_tolerance = yt\<rparr>,
        fl_path = [], fl_mode = 0, fl_state = ''IDLE'', fl_index = 0, fl_stopped_since = None, fl_final_yaw = None\<rparr>)"
| "new_follower _ = Inl ValueError"

definition cancel_path :: "string \<Rightarrow> follower \<Rightarrow> follower" where
  "cancel_path state f = f\<lparr>fl_path := [], fl_mode := 0, fl_state := state, fl_stopped_since := None, fl_final_yaw := None\<rparr>"

definition finite_points :: "(xfloat \<times> xfloat) list \<Rightarrow> bool" where
  "finite_points path \<longleftrightarrow> list_all (\<lambda>(x, y). isfinite x \<and> isfinite y) path"

definition set_path :: "(xfloat \<times> xfloat) list \<Rightarrow> xfloat option \<Rightarrow> follower \<Rightarrow> follower" where
  "set_path path final_yaw f =
     (if path = [] \<or> \<not> finite_points path then cancel_path ''INVALID_PATH'' f
      else let f = f\<lparr>fl_path := map (\<lambda>(x, y). (fin_val x, fin_val y)) path, fl_index := 0\<rparr> in
        if (case final_yaw of None \<Rightarrow> False | Some y \<Rightarrow> \<not> isfinite y) then cancel_path ''INVALID_PATH'' f
        else f\<lparr>fl_final_yaw := map_option fin_val final_yaw, fl_mode := 0, fl_state := ''TRACKING'', fl_stopped_since := None\<rparr>)"

text \<open>\<^verbatim>\<open>min(indices, key=...)\<close>: the first of the smallest.  The list is never empty (lemma \<open>index_in_path\<close>).\<close>

fun first_min :: "(nat \<Rightarrow> real) \<Rightarrow> nat \<Rightarrow> nat list \<Rightarrow> nat" where
  "first_min key i [] = i"
| "first_min key i (j # js) = first_min key (if key j < key i then j else i) js"

definition nearest :: "real \<times> real \<Rightarrow> follower \<Rightarrow> nat" where
  "nearest p f = first_min (\<lambda>i. (fst (fl_path f ! i) - fst p)\<^sup>2 + (snd (fl_path f ! i) - snd p)\<^sup>2)
     (fl_index f) [fl_index f + 1 ..< length (fl_path f)]"

definition target_point :: "real \<times> real \<Rightarrow> follower \<Rightarrow> real \<times> real" where
  "target_point p f = (case List.find (\<lambda>q. fp_lookahead (fl_params f) \<le> distance q p) (drop (fl_index f) (fl_path f)) of
     Some q \<Rightarrow> q | None \<Rightarrow> List.last (fl_path f))"

text \<open>The vehicle is taken to stand: \<open>speed < 0.01\<close> and \<open>|wz| < 0.01\<close>.\<close>

definition still :: "real \<Rightarrow> real \<Rightarrow> bool" where
  "still vx wz \<longleftrightarrow> \<bar>vx\<bar> < 1/100 \<and> \<bar>wz\<bar> < 1/100"

text \<open>A turn is braked before it reaches the heading.\<close>

definition braking :: "real \<Rightarrow> real \<Rightarrow> follower \<Rightarrow> bool" where
  "braking error wz f \<longleftrightarrow> \<bar>error\<bar> < \<bar>wz\<bar> * fp_stop_time (fl_params f) / 2 + fp_leave (fl_params f)"

text \<open>The change to the desired state: not while moving, and from 0 only after 0.2 s at rest.\<close>

definition settle :: "int \<Rightarrow> real \<Rightarrow> real \<Rightarrow> real \<Rightarrow> follower \<Rightarrow> follower \<times> int" where
  "settle desired vx wz now f =
     (if desired \<noteq> fl_mode f \<and> \<not> still vx wz then (f\<lparr>fl_mode := 0\<rparr>, 0)
      else if fl_mode f = 0 \<and> desired \<noteq> 0 \<and> (case fl_stopped_since f of None \<Rightarrow> True | Some t \<Rightarrow> now - t < 1/5) then (f, 0)
      else (f\<lparr>fl_mode := desired\<rparr>, desired))"

definition align :: "real \<Rightarrow> real \<Rightarrow> real \<Rightarrow> real \<Rightarrow> follower \<Rightarrow> follower \<times> int" where
  "align error vx wz now f =
     (if \<bar>error\<bar> \<le> fp_yaw_tolerance (fl_params f) \<and> \<bar>wz\<bar> < 1/100 then (cancel_path ''REACHED'' f, 0)
      else settle (if braking error wz f then 0 else if 0 < error then 3 else 4) vx wz now (f\<lparr>fl_state := ''ALIGNING''\<rparr>))"

definition desired_mode :: "real \<Rightarrow> real \<Rightarrow> follower \<Rightarrow> int" where
  "desired_mode error wz f =
     (let m = fl_mode f; turning = (m = 3 \<or> m = 4);
          d = (if fp_enter (fl_params f) < error then 3 else if error < - fp_enter (fl_params f) then 4 else 1);
          d = (if turning \<and> fp_leave (fl_params f) < \<bar>error\<bar> \<and> ((0 < error) = (m = 3)) then m else d)
      in if turning \<and> braking error wz f then 0 else d)"

definition note_rest :: "real \<Rightarrow> real \<Rightarrow> real \<Rightarrow> follower \<Rightarrow> follower" where
  "note_rest vx wz now f =
     f\<lparr>fl_stopped_since := (if still vx wz then (if fl_stopped_since f = None then Some now else fl_stopped_since f) else None)\<rparr>"

definition follow :: "real \<times> real \<Rightarrow> real \<Rightarrow> real \<Rightarrow> real \<Rightarrow> real \<Rightarrow> follower \<Rightarrow> follower \<times> int" where
  "follow p yaw vx wz now f =
     (let f = note_rest vx wz now f; speed = \<bar>vx\<bar>; remaining = distance (List.last (fl_path f)) p; tol = fp_tolerance (fl_params f)
      in if remaining \<le> tol \<and> speed < 1/100 \<and> fl_final_yaw f \<noteq> None
         then align (wrap (the (fl_final_yaw f) - yaw)) vx wz now f
         else if remaining \<le> tol + speed * fp_stop_time (fl_params f) / 2
         then (if still vx wz then cancel_path (if remaining \<le> tol then ''REACHED'' else ''STOPPING'') f else f\<lparr>fl_mode := 0\<rparr>, 0)
         else let f = f\<lparr>fl_index := nearest p f\<rparr>; t = target_point p f;
                  error = wrap (py_atan2 (snd t - snd p) (fst t - fst p) - yaw)
              in settle (desired_mode error wz f) vx wz now f)"

fun update_follower :: "xfloat list \<Rightarrow> bool \<Rightarrow> follower \<Rightarrow> follower \<times> int" where
  "update_follower [Fin x, Fin y, Fin yaw, Fin vx, Fin wz, Fin now] healthy f =
     (if \<not> healthy then (cancel_path ''FAULT'' f, 0)
      else if fl_path f = [] then (f, 0)
      else follow (x, y) yaw vx wz now f)"
| "update_follower _ healthy f = (cancel_path ''FAULT'' f, 0)"

section \<open>The node\<close>

record pose_msg =
  ps_frame :: string
  ps_stamp :: real
  ps_xy :: "real \<times> real"
  ps_orientation :: "real \<times> real \<times> real \<times> real"
  ps_vx :: real
  ps_vy :: real
  ps_wz :: real

record goal_msg =
  go_frame :: string
  go_orientation :: "real \<times> real \<times> real \<times> real"

text \<open>What a callback of the planner remembers of its goal: the generation, the start and the wanted heading.\<close>

record plan_goal =
  pg_generation :: nat
  pg_start :: "real \<times> real"
  pg_yaw :: real

record preview =
  pv_path :: "(xfloat \<times> xfloat) list"
  pv_time :: real
  pv_start :: "real \<times> real"
  pv_yaw :: real

record nav_report =
  nr_state :: string
  nr_motion :: int
  nr_inputs_valid :: bool
  nr_preview_ready :: bool
  nr_explicit_start :: bool

record nav =
  nv_follower :: follower
  nv_auto_start :: bool
  nv_preview :: "preview option"
  nv_pose :: "pose_msg option"
  nv_last_pose :: real
  nv_healthy :: bool
  nv_last_health :: real
  nv_clear :: bool
  nv_last_clear :: real
  nv_generation :: nat
  nv_progress_time :: real
  nv_progress_pose :: "(real \<times> real \<times> real) option"
  nv_goals :: "plan_goal list" \<comment> \<open>sent to the planner, in order\<close>
  nv_waiting :: "nat list" \<comment> \<open>accepted, their results are waited for\<close>
  nv_cancelled :: "nat list" \<comment> \<open>accepted too late and cancelled\<close>
  nv_commands :: "int list" \<comment> \<open>published, the newest first\<close>
  nv_permits :: "bool list"
  nv_reports :: "nav_report list"

definition new_nav :: "follower \<Rightarrow> bool \<Rightarrow> real \<Rightarrow> nav" where
  "new_nav f auto now = \<lparr>nv_follower = f, nv_auto_start = auto, nv_preview = None, nv_pose = None, nv_last_pose = - (10 ^ 9), nv_healthy = False,
     nv_last_health = - (10 ^ 9), nv_clear = False, nv_last_clear = - (10 ^ 9), nv_generation = 0, nv_progress_time = now,
     nv_progress_pose = None, nv_goals = [], nv_waiting = [], nv_cancelled = [], nv_commands = [], nv_permits = [], nv_reports = []\<rparr>"

definition on_pose :: "pose_msg \<Rightarrow> real \<Rightarrow> real \<Rightarrow> nav \<Rightarrow> nav" where
  "on_pose p ros now n =
     (let age = ros - ps_stamp p in
      if ps_frame p \<noteq> ''map'' \<or> \<not> (- 1/20 \<le> age \<and> age < 1/4) then n\<lparr>nv_pose := None\<rparr>
      else n\<lparr>nv_pose := Some p, nv_last_pose := now\<rparr>)"

definition stop_nav :: "string \<Rightarrow> nav \<Rightarrow> nav" where
  "stop_nav state n = n\<lparr>nv_generation := nv_generation n + 1, nv_follower := cancel_path state (nv_follower n), nv_preview := None,
     nv_commands := 0 # nv_commands n\<rparr>"

text \<open>\<open>tf\<close>: the stamp of the transform from the map to the vehicle, when there is one.\<close>

definition inputs_good :: "real \<Rightarrow> real \<Rightarrow> real option \<Rightarrow> nav \<Rightarrow> bool" where
  "inputs_good now ros tf n \<longleftrightarrow> nv_pose n \<noteq> None \<and> nv_healthy n \<and> nv_clear n
     \<and> max (now - nv_last_pose n) (max (now - nv_last_health n) (now - nv_last_clear n)) < 1/4
     \<and> (case tf of None \<Rightarrow> False | Some s \<Rightarrow> 0 \<le> ros - s \<and> ros - s < 1/4)"

definition start_tracking :: "(xfloat \<times> xfloat) list \<Rightarrow> xfloat option \<Rightarrow> real \<Rightarrow> nav \<Rightarrow> nav" where
  "start_tracking path final_yaw now n = n\<lparr>nv_follower := set_path path final_yaw (nv_follower n), nv_progress_time := now, nv_progress_pose := None\<rparr>"

definition start_preview :: "real \<Rightarrow> real \<Rightarrow> real option \<Rightarrow> nav \<Rightarrow> nav \<times> bool" where
  "start_preview now ros tf n = (case (nv_preview n, nv_pose n) of
     (Some v, Some p) \<Rightarrow>
       if 60 < now - pv_time v then (n, False)
       else if 1/5 < distance (ps_xy p) (pv_start v) then (stop_nav ''PREVIEW_STALE'' n, False)
       else if 1/100 \<le> max \<bar>ps_vx p\<bar> (max \<bar>ps_vy p\<bar> \<bar>ps_wz p\<bar>) then (n, False)
       else if \<not> inputs_good now ros tf n then (n, False)
       else (start_tracking (pv_path v) (Some (Fin (pv_yaw v))) now (n\<lparr>nv_preview := None\<rparr>), True)
   | _ \<Rightarrow> (n, False))"

definition on_goal :: "goal_msg \<Rightarrow> bool \<Rightarrow> nav \<Rightarrow> nav" where
  "on_goal g server_ready n =
     (let n = stop_nav ''PLANNING'' n in
      case nv_pose n of
        None \<Rightarrow> stop_nav ''PLAN_UNAVAILABLE'' n
      | Some p \<Rightarrow>
          if go_frame g \<noteq> ''map'' \<or> \<not> server_ready then stop_nav ''PLAN_UNAVAILABLE'' n
          else n\<lparr>nv_goals := nv_goals n @ [\<lparr>pg_generation = nv_generation n, pg_start = ps_xy p, pg_yaw = yaw_of (go_orientation g)\<rparr>]\<rparr>)"

datatype goal_answer = Accepted | Rejected | Answer_raised

definition current :: "plan_goal \<Rightarrow> nav \<Rightarrow> bool" where
  "current g n \<longleftrightarrow> pg_generation g = nv_generation n"

definition on_goal_answer :: "nat \<Rightarrow> goal_answer \<Rightarrow> nav \<Rightarrow> nav" where
  "on_goal_answer i a n =
     (if length (nv_goals n) \<le> i then n
      else let g = nv_goals n ! i in
        (case a of
           Rejected \<Rightarrow> if current g n then stop_nav ''PLAN_REJECTED'' n else n
         | Answer_raised \<Rightarrow> if current g n then stop_nav ''PLAN_ERROR'' n else n
         | Accepted \<Rightarrow> if current g n then n\<lparr>nv_waiting := i # nv_waiting n\<rparr> else n\<lparr>nv_cancelled := i # nv_cancelled n\<rparr>))"

datatype plan_result = Plan int string "(xfloat \<times> xfloat) list" | Plan_raised

definition on_plan_result :: "nat \<Rightarrow> plan_result \<Rightarrow> real \<Rightarrow> nav \<Rightarrow> nav" where
  "on_plan_result i r now n =
     (if i \<notin> set (nv_waiting n) \<or> length (nv_goals n) \<le> i then n
      else let g = nv_goals n ! i; n = n\<lparr>nv_waiting := removeAll i (nv_waiting n)\<rparr> in
        if \<not> current g n then n
        else (case r of
            Plan_raised \<Rightarrow> stop_nav ''PLAN_ERROR'' n
          | Plan code frame path \<Rightarrow>
              if code \<noteq> 0 \<or> frame \<noteq> ''map'' \<or> path = [] then stop_nav ''PLAN_FAILED'' n
              else if \<not> finite_points path then stop_nav ''PLAN_FAILED'' n
              else if nv_auto_start n then start_tracking path None now n
              else n\<lparr>nv_preview := Some \<lparr>pv_path = path, pv_time = now, pv_start = pg_start g, pv_yaw = pg_yaw g\<rparr>,
                     nv_follower := cancel_path ''PREVIEW_READY'' (nv_follower n)\<rparr>))"

definition pose_distance :: "real \<times> real \<times> real \<Rightarrow> real \<times> real \<times> real \<Rightarrow> real" where
  "pose_distance a b = (case (a, b) of ((x, y, z), (u, v, w)) \<Rightarrow> sqrt ((x - u)\<^sup>2 + (y - v)\<^sup>2 + (z - w)\<^sup>2))"

text \<open>The follower runs; without 3 cm of progress in 10 s the drive is stopped.\<close>

definition drive_on :: "real \<Rightarrow> pose_msg \<Rightarrow> nav \<Rightarrow> nav \<times> int \<times> bool" where
  "drive_on now p n =
     (let w = yaw_of (ps_orientation p);
          (f, motion) = update_follower (map Fin [fst (ps_xy p), snd (ps_xy p), w, ps_vx p, ps_wz p, now]) True (nv_follower n);
          n = n\<lparr>nv_follower := f\<rparr>; here = (fst (ps_xy p), snd (ps_xy p), w)
      in if (case nv_progress_pose n of None \<Rightarrow> True | Some q \<Rightarrow> 3/100 < pose_distance here q)
         then (n\<lparr>nv_progress_pose := Some here, nv_progress_time := now\<rparr>, motion, True)
         else if fl_path (nv_follower n) \<noteq> [] \<and> 10 < now - nv_progress_time n then (stop_nav ''NO_PROGRESS'' n, 0, False)
         else (n, motion, True))"

definition expire_preview :: "real \<Rightarrow> nav \<Rightarrow> nav" where
  "expire_preview now n = (case nv_preview n of
     None \<Rightarrow> n
   | Some v \<Rightarrow> if 60 < now - pv_time v then stop_nav ''PREVIEW_EXPIRED'' n else n)"

definition nav_tick :: "real \<Rightarrow> real \<Rightarrow> real option \<Rightarrow> nav \<Rightarrow> nav" where
  "nav_tick now ros tf n0 =
     (let good = inputs_good now ros tf n0;
          n = expire_preview now n0;
          (n, motion, good) = (case nv_pose n of
              Some p \<Rightarrow> if good then drive_on now p n
                else (if fl_path (nv_follower n) \<noteq> [] then stop_nav ''SENSOR_OR_TF_FAULT'' n else n, 0, False)
            | None \<Rightarrow> (if fl_path (nv_follower n) \<noteq> [] then stop_nav ''SENSOR_OR_TF_FAULT'' n else n, 0, False))
      in n\<lparr>nv_commands := motion # nv_commands n, nv_permits := good # nv_permits n,
           nv_reports := \<lparr>nr_state = fl_state (nv_follower n), nr_motion = motion, nr_inputs_valid = good,
             nr_preview_ready = (nv_preview n \<noteq> None), nr_explicit_start = (\<not> nv_auto_start n)\<rparr> # nv_reports n\<rparr>)"

datatype nav_event =
    Pose pose_msg real real
  | Health bool real
  | Swept_clear bool real
  | Start_preview real real "real option"
  | Cancel_request
  | Goal goal_msg bool
  | Goal_answered nat goal_answer
  | Plan_arrived nat plan_result real
  | Nav_tick real real "real option"

fun nav_step :: "nav \<Rightarrow> nav_event \<Rightarrow> nav" where
  "nav_step n (Pose p ros now) = on_pose p ros now n"
| "nav_step n (Health b now) = n\<lparr>nv_healthy := b, nv_last_health := now\<rparr>"
| "nav_step n (Swept_clear b now) = n\<lparr>nv_clear := b, nv_last_clear := now\<rparr>"
| "nav_step n (Start_preview now ros tf) = fst (start_preview now ros tf n)"
| "nav_step n Cancel_request = stop_nav ''CANCELLED'' n"
| "nav_step n (Goal g ready) = on_goal g ready n"
| "nav_step n (Goal_answered i a) = on_goal_answer i a n"
| "nav_step n (Plan_arrived i r now) = on_plan_result i r now n"
| "nav_step n (Nav_tick now ros tf) = nav_tick now ros tf n"

section \<open>The follower moves off from rest only\<close>

datatype fl_event =
    Set_path "(xfloat \<times> xfloat) list" "xfloat option"
  | Cancel_path string
  | Update "xfloat list" bool

fun fl_step :: "follower \<Rightarrow> fl_event \<Rightarrow> follower" where
  "fl_step f (Set_path path y) = set_path path y f"
| "fl_step f (Cancel_path state) = cancel_path state f"
| "fl_step f (Update args healthy) = fst (update_follower args healthy f)"

text \<open>An update at time \<open>t\<close> with the vehicle at rest.\<close>

fun rest_at :: "fl_event \<Rightarrow> real option" where
  "rest_at (Update [Fin x, Fin y, Fin yaw, Fin vx, Fin wz, Fin now] healthy) = (if still vx wz then Some now else None)"
| "rest_at _ = None"

definition rested :: "fl_event list \<Rightarrow> real \<Rightarrow> bool" where
  "rested es t \<longleftrightarrow> (\<exists>xs u ys. es = xs @ u # ys \<and> rest_at u = Some t \<and> (\<forall>y \<in> set ys. rest_at y \<noteq> None))"

lemma rested_snoc:
  assumes "rested es t" "rest_at e \<noteq> None" shows "rested (es @ [e]) t"
proof -
  from assms(1) obtain xs u ys where "es = xs @ u # ys" "rest_at u = Some t" "\<forall>y \<in> set ys. rest_at y \<noteq> None"
    unfolding rested_def by blast
  with assms(2) have "es @ [e] = xs @ u # (ys @ [e]) \<and> rest_at u = Some t \<and> (\<forall>y \<in> set (ys @ [e]). rest_at y \<noteq> None)" by auto
  then show ?thesis unfolding rested_def by blast
qed

lemma rested_now: "rest_at e = Some t \<Longrightarrow> rested (es @ [e]) t"
  by (force simp: rested_def)

lemma first_min_in: "first_min key i js \<in> set (i # js)"
  by (induction js arbitrary: i) (auto split: if_splits)

text \<open>The index the search starts from is inside the path: the list of indices is never empty.  Without a path the follower
  has stopped.\<close>

definition fl_inv :: "follower \<Rightarrow> bool" where
  "fl_inv f \<longleftrightarrow> (if fl_path f = [] then fl_stopped_since f = None \<and> fl_mode f = 0 else fl_index f < length (fl_path f))"

lemma inv_cancel [simp]: "fl_inv (cancel_path s f)"
  by (simp add: fl_inv_def cancel_path_def)

lemma settle_keeps [simp]:
  "fl_path (fst (settle d vx wz now f)) = fl_path f" "fl_index (fst (settle d vx wz now f)) = fl_index f"
  "fl_stopped_since (fst (settle d vx wz now f)) = fl_stopped_since f" "fl_params (fst (settle d vx wz now f)) = fl_params f"
  by (simp_all add: settle_def)

lemma nearest_inside: "fl_index f < length (fl_path f) \<Longrightarrow> nearest p f < length (fl_path f)"
  using first_min_in [of "\<lambda>i. (fst (fl_path f ! i) - fst p)\<^sup>2 + (snd (fl_path f ! i) - snd p)\<^sup>2" "fl_index f" "[fl_index f + 1 ..< length (fl_path f)]"]
  by (auto simp: nearest_def)

lemma note_rest_keeps [simp]:
  "fl_path (note_rest vx wz now f) = fl_path f" "fl_index (note_rest vx wz now f) = fl_index f" "fl_mode (note_rest vx wz now f) = fl_mode f"
  by (simp_all add: note_rest_def)

lemma desired_mode_cases: "desired_mode error wz f \<in> {0, 1, 3, 4}"
  by (auto simp: desired_mode_def Let_def)

lemma nearest_note: "fl_index f < length (fl_path f) \<Longrightarrow> nearest p (note_rest vx wz now f) < length (fl_path f)"
  using nearest_inside [of "note_rest vx wz now f" p] by simp

text \<open>The four ends of an update of a follower with a path.\<close>

lemma follow_cases:
  obtains
    (align) error where "follow p w vx wz now f = align error vx wz now (note_rest vx wz now f)"
  | (arrived) s where "follow p w vx wz now f = (cancel_path s (note_rest vx wz now f), 0)"
  | (stopping) "follow p w vx wz now f = ((note_rest vx wz now f)\<lparr>fl_mode := 0\<rparr>, 0)"
  | (steer) d where "d \<in> {0, 1, 3, 4}"
      "follow p w vx wz now f = settle d vx wz now ((note_rest vx wz now f)\<lparr>fl_index := nearest p (note_rest vx wz now f)\<rparr>)"
proof -
  let ?g = "note_rest vx wz now f"
  let ?r = "distance (List.last (fl_path ?g)) p" and ?tol = "fp_tolerance (fl_params ?g)"
  let ?near = "?r \<le> ?tol \<and> \<bar>vx\<bar> < 1/100 \<and> fl_final_yaw ?g \<noteq> None"
  let ?close = "?r \<le> ?tol + \<bar>vx\<bar> * fp_stop_time (fl_params ?g) / 2"
  consider "?near" | "\<not> ?near" "?close" "still vx wz" | "\<not> ?near" "?close" "\<not> still vx wz" | "\<not> ?near" "\<not> ?close" by argo
  then show ?thesis
  proof cases
    case 1
    then show ?thesis by (intro align) (simp add: follow_def Let_def)
  next
    case 2
    then show ?thesis by (intro arrived) (simp only: follow_def Let_def if_True if_False)
  next
    case 3
    then show ?thesis by (intro stopping) (simp only: follow_def Let_def if_True if_False)
  next
    case 4
    then show ?thesis by (intro steer [OF desired_mode_cases]) (simp only: follow_def Let_def if_False)
  qed
qed

lemma inv_follow: "fl_path f \<noteq> [] \<Longrightarrow> fl_inv f \<Longrightarrow> fl_inv (fst (follow p w vx wz now f))"
  by (cases rule: follow_cases [of p w vx wz now f]) (auto simp: align_def fl_inv_def cancel_path_def nearest_note)

lemma fl_inv_update: "fl_inv f \<Longrightarrow> fl_inv (fst (update_follower args healthy f))"
  by (cases "(args, healthy, f)" rule: update_follower.cases) (auto simp: inv_follow)

lemma fl_inv_set_path: "fl_inv (set_path path y f)"
  by (auto simp: set_path_def Let_def fl_inv_def cancel_path_def)

lemma fl_inv_new: "new_follower ps = Inr f0 \<Longrightarrow> fl_inv f0"
  by (auto simp: fl_inv_def elim!: new_follower.elims split: if_splits)

interpretation follower: event_system "\<lambda>f. \<exists>ps. new_follower ps = Inr f" fl_step fl_inv
proof
  fix f e assume "fl_inv f"
  then show "fl_inv (fl_step f e)" by (cases e) (simp_all add: fl_inv_update fl_inv_set_path)
qed (auto simp: fl_inv_new)

lemma index_in_path: "new_follower ps = Inr f0 \<Longrightarrow> fl_path (run fl_step f0 es) \<noteq> [] \<Longrightarrow>
    fl_index (run fl_step f0 es) < length (fl_path (run fl_step f0 es))"
  using follower.inv_reachable [of f0 es] by (auto simp: fl_inv_def)

text \<open>Since when the vehicle stands is never older than the updates say.\<close>

lemma follow_stopped_since:
  "fl_stopped_since (fst (follow p w vx wz now f)) = Some t \<Longrightarrow> still vx wz \<and> (fl_stopped_since f = Some t \<or> t = now)"
  by (cases rule: follow_cases [of p w vx wz now f]) (auto simp: align_def cancel_path_def note_rest_def split: if_splits)

lemma stopped_since_rested:
  "new_follower ps = Inr f0 \<Longrightarrow> fl_stopped_since (run fl_step f0 es) = Some t \<Longrightarrow> rested es t"
proof (induction es arbitrary: t rule: rev_induct)
  case Nil
  then show ?case by (auto elim!: new_follower.elims split: if_splits)
next
  case (snoc e es)
  let ?f = "run fl_step f0 es"
  have e: "fl_stopped_since (fl_step ?f e) = Some t" using snoc.prems(2) by simp
  show ?case
  proof (cases e)
    case (Set_path path y)
    with e show ?thesis by (auto simp: set_path_def Let_def cancel_path_def split: if_splits)
  next
    case (Cancel_path s)
    with e show ?thesis by (simp add: cancel_path_def)
  next
    case (Update args healthy)
    show ?thesis
    proof (cases "(args, healthy, ?f)" rule: update_follower.cases)
      case (1 x y w vx wz now h f)
      show ?thesis
      proof (cases "healthy \<and> fl_path ?f \<noteq> []")
        case True
        with 1 e Update have "fl_stopped_since (fst (follow (x, y) w vx wz now ?f)) = Some t" by simp
        from follow_stopped_since [OF this] have "still vx wz" "fl_stopped_since ?f = Some t \<or> t = now" by auto
        with 1 Update snoc.IH [OF snoc.prems(1)] show ?thesis by (auto intro: rested_snoc rested_now)
      next
        case False
        have "fl_inv ?f" using snoc.prems(1) by (intro follower.inv_reachable) blast
        with False 1 e Update show ?thesis by (auto simp: cancel_path_def fl_inv_def split: if_splits)
      qed
    qed (use e Update in \<open>simp_all add: cancel_path_def\<close>)
  qed
qed

lemma settle_moves:
  "settle d vx wz now f = (f', m) \<Longrightarrow> m \<noteq> 0 \<Longrightarrow> m = d \<and> (m = fl_mode f \<or> still vx wz \<and>
     (fl_mode f \<noteq> 0 \<or> (\<exists>t. fl_stopped_since f = Some t \<and> 1/5 \<le> now - t)))"
  by (auto simp: settle_def split: if_splits option.splits)

lemma settle_follow_moves:
  assumes "settle d vx wz now g = (f', m)" "m \<noteq> 0" "d \<in> {0, 1, 3, 4}"
  shows "m \<in> {1, 3, 4} \<and> (m = fl_mode g \<or> still vx wz \<and> (fl_mode g \<noteq> 0 \<or> (\<exists>t. fl_stopped_since f' = Some t \<and> 1/5 \<le> now - t)))"
  using settle_moves [OF assms(1,2)] settle_keeps(3) [of d vx wz now g] assms by auto

lemma follow_moves:
  assumes "follow p w vx wz now f = (f', m)" "m \<noteq> 0"
  shows "m \<in> {1, 3, 4} \<and> (m = fl_mode f \<or> still vx wz \<and> (fl_mode f \<noteq> 0 \<or> (\<exists>t. fl_stopped_since f' = Some t \<and> 1/5 \<le> now - t)))"
proof (cases rule: follow_cases [of p w vx wz now f])
  case (align error)
  with assms have "settle (if braking error wz (note_rest vx wz now f) then 0 else if 0 < error then 3 else 4) vx wz now
      ((note_rest vx wz now f)\<lparr>fl_state := ''ALIGNING''\<rparr>) = (f', m)"
    by (simp add: align_def split: if_split_asm)
  from settle_follow_moves [OF this assms(2)] show ?thesis by simp
next
  case (steer d)
  with assms have "settle d vx wz now ((note_rest vx wz now f)\<lparr>fl_index := nearest p (note_rest vx wz now f)\<rparr>) = (f', m)" by simp
  from settle_follow_moves [OF this assms(2) steer(1)] show ?thesis by simp
qed (use assms in simp_all)

text \<open>C39. The follower only ever answers stop, forward, left or right; it moves only with a path, healthy inputs and finite numbers;
  and a motion other than the one it was in starts only with the vehicle at rest: out of stop after updates that
  showed it at rest for at least 0.2 s without a break, and from one motion to another never while it moves.\<close>

theorem follower_starts_from_rest:
  assumes "new_follower ps = Inr f0" and "f = run fl_step f0 es"
    and "update_follower args healthy f = (f', m)" and "m \<noteq> 0"
  shows "m \<in> {1, 3, 4} \<and> healthy \<and> fl_path f \<noteq> [] \<and> list_all isfinite args
     \<and> (m = fl_mode f \<or> rest_at (Update args healthy) \<noteq> None \<and> (fl_mode f \<noteq> 0
          \<or> (\<exists>t now. rest_at (Update args healthy) = Some now \<and> rested (es @ [Update args healthy]) t \<and> 1/5 \<le> now - t)))"
proof (cases "(args, healthy, f)" rule: update_follower.cases)
  case (1 x y w vx wz now h g)
  with assms(3,4) have go: "healthy" "fl_path f \<noteq> []" "follow (x, y) w vx wz now f = (f', m)"
    by (auto split: if_splits)
  have "rested (es @ [Update args healthy]) t" if "fl_stopped_since f' = Some t" for t
  proof -
    have "run fl_step f0 (es @ [Update args healthy]) = f'" using assms(2,3) by simp
    with that show ?thesis using stopped_since_rested [OF assms(1)] by blast
  qed
  with follow_moves [OF go(3) assms(4)] go(1,2) 1 show ?thesis by fastforce
qed (use assms(3,4) in \<open>auto simp: cancel_path_def\<close>)

lemma atan2_ahead [simp]: "0 \<le> x \<Longrightarrow> py_atan2 0 x = 0"
proof (cases "x = 0")
  case True
  then show ?thesis by (simp add: py_atan2_def Complex_eq Arg_zero)
next
  case False
  assume "0 \<le> x"
  with False have "sgn (Complex x 0) = cis 0" by (simp add: sgn_eq complex_eq_iff cmod_def)
  then show ?thesis unfolding py_atan2_def by (rule cis_Arg_unique) simp_all
qed

lemma wrap_zero [simp]: "wrap 0 = 0"
  by (simp add: wrap_def)

definition default_params :: "xfloat list" where
  "default_params = map Fin [45/100, 16/100, 21/100, 7/100, 3/2, 15/100]"

definition default_follower :: follower where
  "default_follower = \<lparr>fl_params = \<lparr>fp_lookahead = 45/100, fp_tolerance = 16/100, fp_enter = 21/100, fp_leave = 7/100, fp_stop_time = 3/2,
     fp_yaw_tolerance = 15/100\<rparr>, fl_path = [], fl_mode = 0, fl_state = ''IDLE'', fl_index = 0, fl_stopped_since = None, fl_final_yaw = None\<rparr>"

lemma default_follower_new: "new_follower default_params = Inr default_follower"
  by (simp add: default_params_def default_follower_def)

definition at_origin :: "real \<Rightarrow> xfloat list" where
  "at_origin now = [Fin 0, Fin 0, Fin 0, Fin 0, Fin 0, Fin now]"

lemma follower_starts_from_rest_witness:
  "snd (update_follower (at_origin 1) True (run fl_step default_follower [Set_path [(Fin 10, Fin 0)] None, Update (at_origin 0) True])) = 1
   \<and> fl_path (run fl_step default_follower [Set_path [(Fin 10, Fin 0)] None, Update (at_origin 0) True]) \<noteq> []"
proof -
  let ?f = "run fl_step default_follower [Set_path [(Fin 10, Fin 0)] None, Update (at_origin 0) True]"
  have one: "snd (update_follower (at_origin 1) True ?f) = 1"
    by (simp add: default_follower_def at_origin_def set_path_def finite_points_def follow_def note_rest_def still_def Let_def distance_def
        nearest_def target_point_def desired_mode_def settle_def)
  then obtain f' where u: "update_follower (at_origin 1) True ?f = (f', 1)" by (metis prod.collapse)
  from follower_starts_from_rest [OF default_follower_new refl u] one show ?thesis by simp
qed

section \<open>The node moves on fresh inputs only\<close>

fun health_of :: "nav_event \<Rightarrow> real option option" where
  "health_of (Health b t) = Some (if b then Some t else None)"
| "health_of _ = None"

fun clear_of :: "nav_event \<Rightarrow> real option option" where
  "clear_of (Swept_clear b t) = Some (if b then Some t else None)"
| "clear_of _ = None"

definition pose_fresh :: "pose_msg \<Rightarrow> real \<Rightarrow> bool" where
  "pose_fresh p ros \<longleftrightarrow> ps_frame p = ''map'' \<and> - 1/20 \<le> ros - ps_stamp p \<and> ros - ps_stamp p < 1/4"

fun pose_of :: "nav_event \<Rightarrow> (pose_msg \<times> real) option option" where
  "pose_of (Pose p ros t) = Some (if pose_fresh p ros then Some (p, t) else None)"
| "pose_of _ = None"

text \<open>No callback but its own changes the state of an input.\<close>

definition inputs_of :: "nav \<Rightarrow> pose_msg option \<times> real \<times> bool \<times> real \<times> bool \<times> real" where
  "inputs_of n = (nv_pose n, nv_last_pose n, nv_healthy n, nv_last_health n, nv_clear n, nv_last_clear n)"

lemma inputs_stop [simp]: "inputs_of (stop_nav s n) = inputs_of n"
  by (simp add: inputs_of_def stop_nav_def)

lemma inputs_tracking [simp]: "inputs_of (start_tracking path y t n) = inputs_of n"
  by (simp add: inputs_of_def start_tracking_def)

lemma inputs_fields [simp]:
  "inputs_of (n\<lparr>nv_preview := a\<rparr>) = inputs_of n" "inputs_of (n\<lparr>nv_follower := b\<rparr>) = inputs_of n"
  "inputs_of (n\<lparr>nv_goals := c\<rparr>) = inputs_of n" "inputs_of (n\<lparr>nv_waiting := d\<rparr>) = inputs_of n"
  "inputs_of (n\<lparr>nv_cancelled := e\<rparr>) = inputs_of n" "inputs_of (n\<lparr>nv_progress_pose := h\<rparr>) = inputs_of n"
  "inputs_of (n\<lparr>nv_progress_time := i\<rparr>) = inputs_of n" "inputs_of (n\<lparr>nv_commands := j\<rparr>) = inputs_of n"
  "inputs_of (n\<lparr>nv_permits := k\<rparr>) = inputs_of n" "inputs_of (n\<lparr>nv_reports := l\<rparr>) = inputs_of n"
  by (simp_all add: inputs_of_def)

lemma inputs_start_preview: "inputs_of (fst (start_preview now ros tf n)) = inputs_of n"
  by (simp add: start_preview_def split: option.split)

lemma inputs_on_goal: "inputs_of (on_goal g ready n) = inputs_of n"
  by (simp add: on_goal_def Let_def split: option.split)

lemma inputs_on_goal_answer: "inputs_of (on_goal_answer i a n) = inputs_of n"
  by (simp add: on_goal_answer_def Let_def split: goal_answer.split)

lemma inputs_on_plan_result: "inputs_of (on_plan_result i r now n) = inputs_of n"
  by (simp add: on_plan_result_def Let_def split: plan_result.split)

lemma inputs_drive_on: "inputs_of (fst (drive_on now p n)) = inputs_of n"
  by (simp add: drive_on_def Let_def split: prod.split option.split)

lemma inputs_expire [simp]: "inputs_of (expire_preview now n) = inputs_of n"
  by (simp add: expire_preview_def split: option.split)

lemma inputs_nav_tick: "inputs_of (nav_tick now ros tf n) = inputs_of n"
  by (simp add: nav_tick_def Let_def case_prod_beta inputs_drive_on split: option.split)

lemma nav_tick_moves:
  assumes "nv_commands (nav_tick now ros tf n) = c # cs" "c \<noteq> 0"
  shows "inputs_good now ros tf n \<and> hd (nv_permits (nav_tick now ros tf n))
    \<and> (\<exists>p f. nv_pose n = Some p \<and> update_follower (map Fin [fst (ps_xy p), snd (ps_xy p), yaw_of (ps_orientation p), ps_vx p, ps_wz p, now]) True
          (nv_follower (expire_preview now n)) = (f, c))"
proof -
  have pose: "nv_pose (expire_preview now n) = nv_pose n"
    using inputs_expire [of now n] by (simp add: inputs_of_def)
  from assms pose obtain p where p: "nv_pose n = Some p" "inputs_good now ros tf n"
    and c: "fst (snd (drive_on now p (expire_preview now n))) = c"
    and permit: "hd (nv_permits (nav_tick now ros tf n)) = snd (snd (drive_on now p (expire_preview now n)))"
    by (auto simp: nav_tick_def Let_def case_prod_beta split: option.splits if_splits)
  let ?u = "update_follower (map Fin [fst (ps_xy p), snd (ps_xy p), yaw_of (ps_orientation p), ps_vx p, ps_wz p, now]) True
          (nv_follower (expire_preview now n))"
  have "snd ?u = c \<and> snd (snd (drive_on now p (expire_preview now n)))"
    using c assms(2) unfolding drive_on_def Let_def case_prod_beta by (auto split: if_splits)
  with p permit show ?thesis by (metis prod.collapse)
qed

lemma inputs_of_step:
  "health_of e = None \<Longrightarrow> clear_of e = None \<Longrightarrow> pose_of e = None \<Longrightarrow> inputs_of (nav_step n e) = inputs_of n"
  by (cases e) (simp_all add: inputs_start_preview inputs_on_goal inputs_on_goal_answer inputs_on_plan_result inputs_nav_tick)

definition health_seen :: "nav \<Rightarrow> real option option" where
  "health_seen n = Some (if nv_healthy n then Some (nv_last_health n) else None)"

definition clear_seen :: "nav \<Rightarrow> real option option" where
  "clear_seen n = Some (if nv_clear n then Some (nv_last_clear n) else None)"

definition pose_seen :: "nav \<Rightarrow> (pose_msg \<times> real) option option" where
  "pose_seen n = Some (case nv_pose n of None \<Rightarrow> None | Some p \<Rightarrow> Some (p, nv_last_pose n))"

lemma seen_inputs:
  "inputs_of n = inputs_of m \<Longrightarrow> health_seen n = health_seen m \<and> clear_seen n = clear_seen m \<and> pose_seen n = pose_seen m"
  by (auto simp: inputs_of_def health_seen_def clear_seen_def pose_seen_def split: option.split)

lemma nav_step_cases:
  obtains (pose) p ros t where "e = Pose p ros t" | (health) b t where "e = Health b t" | (clear) b t where "e = Swept_clear b t"
    | (other) "health_of e = None" "clear_of e = None" "pose_of e = None"
  by (cases e) auto

interpretation health_msgs: latest_message nav_step health_seen health_of
proof
  fix n e show "health_seen (nav_step n e) = (case health_of e of None \<Rightarrow> health_seen n | Some v \<Rightarrow> Some v)"
  proof (cases e rule: nav_step_cases)
    case other
    then show ?thesis using seen_inputs [OF inputs_of_step [OF other]] by simp
  qed (simp_all add: health_seen_def on_pose_def Let_def)
qed

interpretation clear_msgs: latest_message nav_step clear_seen clear_of
proof
  fix n e show "clear_seen (nav_step n e) = (case clear_of e of None \<Rightarrow> clear_seen n | Some v \<Rightarrow> Some v)"
  proof (cases e rule: nav_step_cases)
    case other
    then show ?thesis using seen_inputs [OF inputs_of_step [OF other]] by simp
  qed (simp_all add: clear_seen_def on_pose_def Let_def)
qed

interpretation pose_msgs: latest_message nav_step pose_seen pose_of
proof
  fix n e show "pose_seen (nav_step n e) = (case pose_of e of None \<Rightarrow> pose_seen n | Some v \<Rightarrow> Some v)"
  proof (cases e rule: nav_step_cases)
    case other
    then show ?thesis using seen_inputs [OF inputs_of_step [OF other]] by simp
  qed (auto simp: pose_seen_def on_pose_def Let_def pose_fresh_def split: option.split)
qed

text \<open>C40. Every motion command other than stop that the timer publishes comes with the permit, from a follower with a path, and
  rests on three inputs less than a quarter of a second old: the last health message says healthy, the last swept-area message
  says clear, the last pose was in the map frame and fresh when it came; and the transform is fresh too.  Any newer message to
  the contrary, of any of the three, stops the vehicle at the next tick.\<close>

theorem nav_moves_on_fresh_inputs:
  assumes "n = run nav_step (new_nav f0 auto t0) es" and "nv_commands (nav_step n (Nav_tick now ros tf)) = c # cs" and "c \<noteq> 0"
  shows "hd (nv_permits (nav_step n (Nav_tick now ros tf))) \<and> fl_path (nv_follower n) \<noteq> []
     \<and> (\<exists>xs t ys. es = xs @ Health True t # ys \<and> (\<forall>y \<in> set ys. health_of y = None) \<and> now - t < 1/4)
     \<and> (\<exists>xs t ys. es = xs @ Swept_clear True t # ys \<and> (\<forall>y \<in> set ys. clear_of y = None) \<and> now - t < 1/4)
     \<and> (\<exists>xs p r t ys. es = xs @ Pose p r t # ys \<and> (\<forall>y \<in> set ys. pose_of y = None) \<and> pose_fresh p r \<and> now - t < 1/4)
     \<and> (\<exists>s. tf = Some s \<and> 0 \<le> ros - s \<and> ros - s < 1/4)"
proof -
  from nav_tick_moves [of now ros tf n c cs] assms(2,3) obtain p f where
    good: "inputs_good now ros tf n" and permit: "hd (nv_permits (nav_tick now ros tf n))" and p: "nv_pose n = Some p"
    and u: "update_follower (map Fin [fst (ps_xy p), snd (ps_xy p), yaw_of (ps_orientation p), ps_vx p, ps_wz p, now]) True
          (nv_follower (expire_preview now n)) = (f, c)" by auto
  have "fl_path (nv_follower (expire_preview now n)) \<noteq> []" using u assms(3) by (auto split: if_splits)
  then have path: "fl_path (nv_follower n) \<noteq> []"
    by (auto simp: expire_preview_def stop_nav_def cancel_path_def split: option.splits if_splits)
  have h: "health_seen n = Some (Some (nv_last_health n))" and k: "clear_seen n = Some (Some (nv_last_clear n))"
    and q: "pose_seen n = Some (Some (p, nv_last_pose n))"
    using good p by (simp_all add: inputs_good_def health_seen_def clear_seen_def pose_seen_def)
  have ages: "now - nv_last_health n < 1/4" "now - nv_last_clear n < 1/4" "now - nv_last_pose n < 1/4"
    using good unfolding inputs_good_def max_less_iff_conj by blast+
  from health_msgs.seen_run [of "new_nav f0 auto t0" es] h assms(1) obtain xs e ys where
    e: "es = xs @ e # ys" "health_of e = Some (Some (nv_last_health n))" "\<forall>y \<in> set ys. health_of y = None"
    by (auto simp: health_seen_def new_nav_def)
  then have a: "\<exists>xs t ys. es = xs @ Health True t # ys \<and> (\<forall>y \<in> set ys. health_of y = None) \<and> now - t < 1/4"
    using ages(1) by (cases e rule: health_of.cases) (auto split: if_splits)
  from clear_msgs.seen_run [of "new_nav f0 auto t0" es] k assms(1) obtain xs e ys where
    e: "es = xs @ e # ys" "clear_of e = Some (Some (nv_last_clear n))" "\<forall>y \<in> set ys. clear_of y = None"
    by (auto simp: clear_seen_def new_nav_def)
  then have b: "\<exists>xs t ys. es = xs @ Swept_clear True t # ys \<and> (\<forall>y \<in> set ys. clear_of y = None) \<and> now - t < 1/4"
    using ages(2) by (cases e rule: clear_of.cases) (auto split: if_splits)
  from pose_msgs.seen_run [of "new_nav f0 auto t0" es] q assms(1) obtain xs e ys where
    e: "es = xs @ e # ys" "pose_of e = Some (Some (p, nv_last_pose n))" "\<forall>y \<in> set ys. pose_of y = None"
    by (auto simp: pose_seen_def new_nav_def)
  from e(2) obtain r where "e = Pose p r (nv_last_pose n)" "pose_fresh p r"
    by (cases e rule: pose_of.cases) (auto split: if_splits)
  with e(1,3) ages(3) have d: "\<exists>xs p r t ys. es = xs @ Pose p r t # ys \<and> (\<forall>y \<in> set ys. pose_of y = None) \<and> pose_fresh p r \<and> now - t < 1/4"
    by blast
  have "\<exists>s. tf = Some s \<and> 0 \<le> ros - s \<and> ros - s < 1/4" using good by (auto simp: inputs_good_def split: option.splits)
  with a b d path permit show ?thesis by simp
qed

definition origin_pose :: pose_msg where
  "origin_pose = \<lparr>ps_frame = ''map'', ps_stamp = 0, ps_xy = (0, 0), ps_orientation = (0, 0, 0, 1), ps_vx = 0, ps_vy = 0, ps_wz = 0\<rparr>"

definition sample_plan_run :: "nav_event list" where
  "sample_plan_run = [Pose origin_pose 0 0, Goal \<lparr>go_frame = ''map'', go_orientation = (0, 0, 0, 1)\<rparr> True, Goal_answered 0 Accepted,
     Plan_arrived 0 (Plan 0 ''map'' [(Fin 10, Fin 0)]) 0, Health True 0, Swept_clear True 0, Nav_tick 0 0 (Some 0),
     Pose origin_pose 0 (3/10), Health True (3/10), Swept_clear True (3/10)]"

lemma nav_moves_on_fresh_inputs_witness:
  "hd (nv_commands (nav_step (run nav_step (new_nav default_follower True 0) sample_plan_run) (Nav_tick (4/10) (1/10) (Some (1/10))))) = 1
   \<and> (\<exists>xs t ys. sample_plan_run = xs @ Health True t # ys \<and> (\<forall>y \<in> set ys. health_of y = None) \<and> 4/10 - t < 1/4)"
proof -
  let ?n = "run nav_step (new_nav default_follower True 0) sample_plan_run"
  have c: "nv_commands (nav_step ?n (Nav_tick (4/10) (1/10) (Some (1/10)))) = 1 # [0, 0]"
    by (simp add: sample_plan_run_def new_nav_def on_pose_def origin_pose_def on_goal_def on_goal_answer_def current_def on_plan_result_def
        finite_points_def start_tracking_def set_path_def stop_nav_def cancel_path_def nav_tick_def expire_preview_def inputs_good_def
        drive_on_def default_follower_def follow_def note_rest_def still_def distance_def nearest_def target_point_def desired_mode_def
        settle_def pose_distance_def Let_def)
  from nav_moves_on_fresh_inputs [OF refl c] c show ?thesis by simp
qed

end
