(* ===== verification/Localization_Node.thy ===== *)
theory Localization_Node
  imports Localization
begin

text \<open>
  The nodes around the localization core: \<^verbatim>\<open>gouda_core/global_localization_node.py\<close> (ND-07, \<open>ln_*\<close>) and
  \<^verbatim>\<open>gouda_core/local_odometry_node.py\<close> (ND-08, \<open>lo_*\<close>).  The localization node is a lifecycle node whose initialization
  runs in a worker thread: a worker is a stage of \<^verbatim>\<open>_initialize\<close>, each event lets one of them go from one blocking call
  to the next while callbacks come in between, and the token tells it that its activation is over.  What the node publishes
  is kept, the newest first.
\<close>

section \<open>State\<close>

datatype lifecycle = Unconfigured_node | Inactive | Active | Finalized

text \<open>A pose as it is handed on: position and orientation; the height is that of the request.\<close>

type_synonym pose_in = pose

datatype stage =
    Wait_pose
  | Read_pose
  | Wait_align pose
  | Note_points pose
  | Wait_points pose
  | Align pose
  | Wait_ekf
  | Trigger_ekf
  | Wait_ndt
  | Trigger_ndt
  | Finish
  | Ended
  | Died \<comment> \<open>an exception ended the thread\<close>

datatype reply = Go | Aligned "pose option" | Triggered bool

record worker =
  wk_token :: nat
  wk_stage :: stage
  wk_replies :: "reply list" \<comment> \<open>what its calls have returned, in order\<close>

datatype ln_decision =
    Configure_refused
  | Configured
  | Localizer_exit
  | Initial_pose_received "real \<times> real" "real \<times> real"
  | Ndt_points_waiting string
  | Initial_pose_aligned pose
  | Initialized
  | Init_failure string
  | Trigger_off string
  | Deactivated
  | Cleaned_up
  | Ndt_points_kept
  | Ndt_points_dropped string
  | Estimator_change estimator_state state_reason

record loc_node =
  ln_lifecycle :: lifecycle
  ln_settings :: "settings option"
  ln_inputs :: inputs
  ln_estimator :: "map_odom_estimator option"
  ln_child :: "nat option" \<comment> \<open>the child launch, by the number of its start\<close>
  ln_children :: nat
  ln_exited :: "nat list"
  ln_map_dir :: string
  ln_trajectory :: "(real \<times> real \<times> real \<times> real) list"
  ln_imu_height :: real
  ln_initial_pose :: "pose_in option"
  ln_pose_event :: bool
  ln_points_event :: bool
  ln_points_last :: "(bool \<times> string) option"
  ln_points_waiting :: bool
  ln_token :: nat
  ln_last_state :: "(estimator_state \<times> string) option"
  ln_workers :: "worker list"
  ln_statuses :: "(estimator_state \<times> state_reason \<times> string) list"
  ln_decisions :: "ln_decision list"
  ln_tf :: "((int \<times> int) \<times> pose) list"
  ln_poses :: "pose list"
  ln_init_poses :: "pose list"
  ln_twists :: "xfloat list list"
  ln_down :: bool

definition new_inputs :: inputs where
  "new_inputs = \<lparr>in_phase = Unconfigured, in_phase_detail = '''', in_localizer_running = False, in_last_ekf_pose = None,
     in_last_ndt_score = None, in_last_ekf_diag = None, in_last_odometry = None, in_ndt_nvtl = None, in_no_update_count = None,
     in_xy_stddev = None, in_has_map_odom = False\<rparr>"

section \<open>The published status\<close>

fun reason_name :: "state_reason \<Rightarrow> string" where
  "reason_name Not_configured = ''not_configured''"
| "reason_name Not_initialized = ''not_initialized''"
| "reason_name (Init_failed _) = ''init_failed''"
| "reason_name Localizer_exited = ''localizer_exited''"
| "reason_name (Initializing_now _) = ''initializing''"
| "reason_name (Awaiting_inputs _) = ''awaiting_inputs''"
| "reason_name (Input_stale _) = ''input_stale''"
| "reason_name Ndt_diagnostics_missing = ''ndt_diagnostics_missing''"
| "reason_name (Ndt_score_low _) = ''ndt_score_low''"
| "reason_name Ekf_diagnostics_missing = ''ekf_diagnostics_missing''"
| "reason_name (Ekf_pose_not_updated _) = ''ekf_pose_not_updated''"
| "reason_name (Ekf_covariance_large _) = ''ekf_covariance_large''"
| "reason_name No_reason = ''''"

definition ln_decide :: "ln_decision \<Rightarrow> loc_node \<Rightarrow> loc_node" where
  "ln_decide d n = n\<lparr>ln_decisions := d # ln_decisions n\<rparr>"

definition publish_status :: "real \<Rightarrow> loc_node \<Rightarrow> loc_node" where
  "publish_status now n =
     (let (state, reason) = (case ln_settings n of None \<Rightarrow> (Uninitialized, Not_configured) | Some s \<Rightarrow> evaluate now (ln_inputs n) s);
          n = n\<lparr>ln_statuses := (state, reason, ln_map_dir n) # ln_statuses n\<rparr>; key = (state, reason_name reason)
      in if ln_last_state n \<noteq> Some key then ln_decide (Estimator_change state reason) (n\<lparr>ln_last_state := Some key\<rparr>) else n)"

definition set_phase :: "phase \<Rightarrow> string \<Rightarrow> loc_node \<Rightarrow> loc_node" where
  "set_phase p detail n = n\<lparr>ln_inputs := (ln_inputs n)\<lparr>in_phase := p, in_phase_detail := detail\<rparr>\<rparr>"

definition new_loc_node :: "real \<Rightarrow> loc_node" where
  "new_loc_node now = publish_status now
     \<lparr>ln_lifecycle = Unconfigured_node, ln_settings = None, ln_inputs = new_inputs, ln_estimator = None, ln_child = None, ln_children = 0,
      ln_exited = [], ln_map_dir = '''', ln_trajectory = [], ln_imu_height = 0, ln_initial_pose = None, ln_pose_event = False,
      ln_points_event = False, ln_points_last = None, ln_points_waiting = False, ln_token = 0, ln_last_state = None, ln_workers = [],
      ln_statuses = [], ln_decisions = [], ln_tf = [], ln_poses = [], ln_init_poses = [], ln_twists = [], ln_down = False\<rparr>"

section \<open>Lifecycle\<close>

text \<open>What configure reads: the parameters, the value saved for the offset, the map's files (the rows of its trajectory, \<open>None\<close>
  without the file), the height of the IMU when it is a number, and whether the launch starts.\<close>

record configuration =
  cf_values :: "(string \<times> pyval) list"
  cf_saved_offset :: xfloat
  cf_map_dir :: string
  cf_meta :: bool
  cf_trajectory :: "(real \<times> real \<times> real \<times> real) list option"
  cf_imu_z :: "real option"
  cf_starts :: bool

definition refuse :: "loc_node \<Rightarrow> loc_node" where
  "refuse n = ln_decide Configure_refused n"

definition ln_on_configure :: "(string \<Rightarrow> xfloat option) \<Rightarrow> (string \<Rightarrow> int option) \<Rightarrow> configuration \<Rightarrow> real \<Rightarrow> loc_node \<Rightarrow> loc_node" where
  "ln_on_configure pf pint c now n = (case settings_from_values pf pint (cf_values c) of
     Inl e \<Rightarrow> if e = ValueError then refuse n else n\<lparr>ln_down := True\<rparr>
   | Inr s \<Rightarrow>
       (let s = with_map_odom_offset s (cf_saved_offset c); rows = (case cf_trajectory c of None \<Rightarrow> [] | Some r \<Rightarrow> r) in
        if \<not> cf_meta c then refuse n
        else if rows = [] then refuse n
        else if \<not> cf_starts c then refuse n
        else publish_status now (ln_decide Configured (n\<lparr>ln_lifecycle := Inactive, ln_child := Some (ln_children n), ln_children := ln_children n + 1,
               ln_points_event := False, ln_points_last := None, ln_settings := Some s, ln_map_dir := cf_map_dir c, ln_trajectory := rows,
               ln_imu_height := (case cf_imu_z c of None \<Rightarrow> 0 | Some z \<Rightarrow> z), ln_estimator := Some (new_estimator (fin_val (stale_timeout s))),
               ln_inputs := new_inputs\<lparr>in_phase := Waiting, in_localizer_running := True\<rparr>\<rparr>))))"

definition ln_on_activate :: "real \<Rightarrow> loc_node \<Rightarrow> loc_node" where
  "ln_on_activate now n =
     (let n = n\<lparr>ln_token := ln_token n + 1,
              ln_inputs := new_inputs\<lparr>in_phase := Initializing_phase, in_phase_detail := ''waiting for the initial pose (IFD-34)'',
                in_localizer_running := in_localizer_running (ln_inputs n)\<rparr>,
              ln_estimator := map_option estimator_reset (ln_estimator n)\<rparr>;
          n = publish_status now n
      in n\<lparr>ln_lifecycle := Active, ln_workers := ln_workers n @ [\<lparr>wk_token = ln_token n, wk_stage = Wait_pose, wk_replies = []\<rparr>]\<rparr>)"

text \<open>\<open>ready\<close>: the trigger services that are ready (their answers are recorded).\<close>

definition ln_on_deactivate :: "string list \<Rightarrow> real \<Rightarrow> loc_node \<Rightarrow> loc_node" where
  "ln_on_deactivate ready now n =
     (let n = n\<lparr>ln_token := ln_token n + 1, ln_points_waiting := False, ln_estimator := map_option estimator_reset (ln_estimator n),
              ln_initial_pose := None, ln_pose_event := False\<rparr>;
          n = set_phase Waiting '''' n;
          n = foldl (\<lambda>n name. ln_decide (Trigger_off name) n) n (filter (\<lambda>x. x \<in> set ready) [''ekf'', ''ndt''])
      in (publish_status now (ln_decide Deactivated n))\<lparr>ln_lifecycle := Inactive\<rparr>)"

definition stop_child :: "loc_node \<Rightarrow> loc_node" where
  "stop_child n = n\<lparr>ln_child := None\<rparr>"

definition ln_on_cleanup :: "real \<Rightarrow> loc_node \<Rightarrow> loc_node" where
  "ln_on_cleanup now n =
     (let n = (stop_child n)\<lparr>ln_settings := None, ln_map_dir := '''', ln_inputs := new_inputs, ln_points_event := False, ln_points_last := None,
              ln_points_waiting := False\<rparr>
      in (publish_status now (ln_decide Cleaned_up n))\<lparr>ln_lifecycle := Unconfigured_node\<rparr>)"

definition ln_on_shutdown :: "loc_node \<Rightarrow> loc_node" where
  "ln_on_shutdown n = (stop_child n)\<lparr>ln_lifecycle := Finalized\<rparr>"

text \<open>The thread that waits for the end of child \<open>i\<close>.\<close>

definition child_exited :: "nat \<Rightarrow> real \<Rightarrow> loc_node \<Rightarrow> loc_node" where
  "child_exited i now n =
     (if ln_children n \<le> i \<or> i \<in> set (ln_exited n) then n
      else let n = n\<lparr>ln_exited := i # ln_exited n\<rparr> in
        if ln_child n \<noteq> Some i then n
        else publish_status now (ln_decide Localizer_exit (n\<lparr>ln_inputs := (ln_inputs n)\<lparr>in_localizer_running := False\<rparr>\<rparr>)))"

section \<open>Initialization\<close>

definition on_initial_pose :: "pose_in \<Rightarrow> loc_node \<Rightarrow> loc_node" where
  "on_initial_pose p n = n\<lparr>ln_initial_pose := Some p, ln_pose_event := True\<rparr>"

text \<open>\<open>alive\<close>, \<open>step\<close> and \<open>fail\<close> of \<^verbatim>\<open>_initialize\<close>.\<close>

definition alive :: "worker \<Rightarrow> loc_node \<Rightarrow> bool" where
  "alive w n \<longleftrightarrow> wk_token w = ln_token n"

definition init_step :: "string \<Rightarrow> real \<Rightarrow> worker \<Rightarrow> loc_node \<Rightarrow> loc_node" where
  "init_step detail now w n =
     publish_status now (if alive w n then n\<lparr>ln_inputs := (ln_inputs n)\<lparr>in_phase_detail := detail\<rparr>\<rparr> else n)"

definition init_fail :: "string \<Rightarrow> real \<Rightarrow> worker \<Rightarrow> loc_node \<Rightarrow> loc_node" where
  "init_fail why now w n = (if alive w n then publish_status now (ln_decide (Init_failure why) (set_phase Failed_phase why n)) else n)"

definition points_text :: "(bool \<times> string) option \<Rightarrow> string" where
  "points_text seen =
     ''waiting for the NDT to keep a point cloud (IFD-21) before ndt_align_srv''
     @ (case points_wait_detail seen of
          No_scan_status \<Rightarrow> '': no scan status from the NDT yet''
        | Cloud_dropped message \<Rightarrow> '': last cloud dropped: '' @ message
        | Points_waiting \<Rightarrow> '''')"

definition read_pose :: "real \<Rightarrow> worker \<Rightarrow> loc_node \<Rightarrow> stage \<times> loc_node" where
  "read_pose now w n = (case (ln_initial_pose n, ln_settings n) of
     (Some ((x, y, z), q), Some s) \<Rightarrow>
       (case initial_height (ln_trajectory n) x y (ln_imu_height n) of
          None \<Rightarrow> (Died, n)
        | Some (h, d) \<Rightarrow>
            (Wait_align ((x, y, h), q),
             init_step ''waiting for ndt_align_srv (the A3 launch is starting)'' now w (ln_decide (Initial_pose_received (x, y) (h, d)) n)))
   | _ \<Rightarrow> (Died, n))"

definition note_points :: "pose \<Rightarrow> real \<Rightarrow> worker \<Rightarrow> loc_node \<Rightarrow> stage \<times> loc_node" where
  "note_points req now w n =
     (let kept = ln_points_event n; seen = ln_points_last n; n = n\<lparr>ln_points_waiting := True\<rparr> in
      (Wait_points req,
       if kept then n else ln_decide (Ndt_points_waiting (points_text seen)) (init_step (points_text seen) now w n)))"

definition aligned :: "pose option \<Rightarrow> real \<Rightarrow> worker \<Rightarrow> loc_node \<Rightarrow> stage \<times> loc_node" where
  "aligned res now w n = (case res of
     None \<Rightarrow> (Ended, init_fail ''ndt_align_srv did not succeed (no map->odom is published)'' now w n)
   | Some p \<Rightarrow>
       (let n = ln_decide (Initial_pose_aligned p) n; n = n\<lparr>ln_init_poses := p # ln_init_poses n\<rparr>
        in (Wait_ekf, init_step ''activating the ekf (trigger_node)'' now w n)))"

definition finish :: "real \<Rightarrow> worker \<Rightarrow> loc_node \<Rightarrow> loc_node" where
  "finish now w n = (if alive w n then publish_status now (ln_decide Initialized (set_phase Running '''' n)) else n)"

text \<open>
  One step of a worker: from one blocking call to the next.  \<open>Go\<close> is the return of a wait (the event is set, the service is
  there), which the two events hold back; a step whose reply does not fit waits on.  The detail of a failed trigger is kept without the
  text of the reply.
\<close>

fun move :: "stage \<Rightarrow> reply \<Rightarrow> real \<Rightarrow> worker \<Rightarrow> loc_node \<Rightarrow> stage \<times> loc_node" where
  "move Wait_pose Go now w n =
     (if \<not> ln_pose_event n then (Wait_pose, n) else if alive w n then (Read_pose, n) else (Ended, n))"
| "move Read_pose Go now w n = read_pose now w n"
| "move (Wait_align req) Go now w n = (if alive w n then (Note_points req, n) else (Ended, n))"
| "move (Note_points req) Go now w n = note_points req now w n"
| "move (Wait_points req) Go now w n =
     (if \<not> ln_points_event n then (Wait_points req, n)
      else if alive w n then (Align req, init_step ''Monte Carlo search of the initial pose (ndt_align_srv)'' now w (n\<lparr>ln_points_waiting := False\<rparr>))
      else (Ended, n))"
| "move (Align req) (Aligned res) now w n = (if alive w n then aligned res now w n else (Ended, n))"
| "move Wait_ekf Go now w n = (if alive w n then (Trigger_ekf, n) else (Ended, n))"
| "move Trigger_ekf (Triggered ok) now w n =
     (if ok then (Wait_ndt, init_step ''activating the ndt (trigger_node)'' now w n)
      else (Ended, init_fail ''ekf trigger_node true failed'' now w n))"
| "move Wait_ndt Go now w n = (if alive w n then (Trigger_ndt, n) else (Ended, n))"
| "move Trigger_ndt (Triggered ok) now w n =
     (if ok then (Finish, n) else (Ended, init_fail ''ndt trigger_node true failed'' now w n))"
| "move Finish Go now w n = (Ended, finish now w n)"
| "move s r now w n = (s, n)"

definition advance :: "reply \<Rightarrow> real \<Rightarrow> worker \<Rightarrow> loc_node \<Rightarrow> stage \<times> loc_node" where
  "advance r now w n = move (wk_stage w) r now w n"

definition worker_moves :: "nat \<Rightarrow> reply \<Rightarrow> real \<Rightarrow> loc_node \<Rightarrow> loc_node" where
  "worker_moves i r now n =
     (if length (ln_workers n) \<le> i then n
      else let w = ln_workers n ! i; (s, n) = advance r now w n in
        if s = wk_stage w then n
        else n\<lparr>ln_workers := (ln_workers n)[i := w\<lparr>wk_stage := s, wk_replies := wk_replies w @ [r]\<rparr>]\<rparr>)"


section \<open>Inputs\<close>

definition in_active :: "phase \<Rightarrow> bool" where
  "in_active p \<longleftrightarrow> p = Initializing_phase \<or> p = Running"

definition stamp_s :: "int \<times> int \<Rightarrow> real" where
  "stamp_s st = real_of_int (fst st) + real_of_int (snd st) / 10 ^ 9"

definition set_estimator :: "map_odom_estimator \<Rightarrow> loc_node \<Rightarrow> loc_node" where
  "set_estimator e n = n\<lparr>ln_estimator := Some e, ln_inputs := (ln_inputs n)\<lparr>in_has_map_odom := e_map_odom e \<noteq> None\<rparr>\<rparr>"

definition publish_twist :: "settings \<Rightarrow> loc_node \<Rightarrow> loc_node" where
  "publish_twist s n = n\<lparr>ln_twists := twist_covariance s # ln_twists n\<rparr>"

definition send_transform :: "int \<times> int \<Rightarrow> settings \<Rightarrow> pose \<Rightarrow> loc_node \<Rightarrow> loc_node" where
  "send_transform st s p n =
     n\<lparr>ln_tf := (future_stamp (fst st) (snd st) (fin_val (s_double s ''map_odom_future_offset_s'')), p) # ln_tf n\<rparr>"

definition ln_on_odometry :: "int \<times> int \<Rightarrow> pose \<Rightarrow> real \<Rightarrow> loc_node \<Rightarrow> loc_node" where
  "ln_on_odometry st p now n = (case (ln_settings n, ln_estimator n) of
     (Some s, Some e) \<Rightarrow>
       (let n = n\<lparr>ln_inputs := (ln_inputs n)\<lparr>in_last_odometry := Some now\<rparr>\<rparr> in
        if \<not> in_active (in_phase (ln_inputs n)) then n
        else case on_odometry (stamp_s st) p e of
          Inl _ \<Rightarrow> n\<lparr>ln_down := True\<rparr>
        | Inr e \<Rightarrow>
            (let n = publish_twist s (set_estimator e n) in
             case e_map_odom e of
               Some (since, mo) \<Rightarrow> if in_phase (ln_inputs n) = Running then send_transform st s mo n else n
             | None \<Rightarrow> n))
   | _ \<Rightarrow> n)"

definition ln_on_ekf_pose :: "int \<times> int \<Rightarrow> pose \<Rightarrow> real list \<Rightarrow> real \<Rightarrow> loc_node \<Rightarrow> loc_node" where
  "ln_on_ekf_pose st p cov now n = (case (ln_settings n, ln_estimator n) of
     (Some s, Some e) \<Rightarrow>
       if in_phase (ln_inputs n) \<noteq> Running then n
       else (let n = n\<lparr>ln_inputs := (ln_inputs n)\<lparr>in_last_ekf_pose := Some now\<rparr>\<rparr> in
         case xy_stddev cov of
           Inl _ \<Rightarrow> n\<lparr>ln_down := True\<rparr>
         | Inr d \<Rightarrow>
             (let n = n\<lparr>ln_inputs := (ln_inputs n)\<lparr>in_xy_stddev := Some (Fin d)\<rparr>\<rparr> in
              case on_ekf_pose (stamp_s st) p e of
                Inl _ \<Rightarrow> n\<lparr>ln_down := True\<rparr>
              | Inr e \<Rightarrow> (set_estimator e n)\<lparr>ln_poses := p # ln_poses n\<rparr>))
   | _ \<Rightarrow> n)"

definition ln_on_ndt_points :: "bool \<times> string \<Rightarrow> loc_node \<Rightarrow> loc_node" where
  "ln_on_ndt_points points n =
     (if ln_settings n = None then n
      else let first_kept = fst points \<and> \<not> ln_points_event n;
               dropped = (\<not> fst points \<and> (case ln_points_last n of None \<Rightarrow> True | Some prev \<Rightarrow> fst prev));
               n = n\<lparr>ln_points_last := Some points, ln_points_event := ln_points_event n \<or> fst points\<rparr>;
               n = (if ln_points_waiting n \<and> in_phase (ln_inputs n) = Initializing_phase
                    then n\<lparr>ln_inputs := (ln_inputs n)\<lparr>in_phase_detail := points_text (Some points)\<rparr>\<rparr> else n)
           in if first_kept then ln_decide Ndt_points_kept n
              else if dropped then ln_decide (Ndt_points_dropped (snd points)) n else n)"

definition note_score :: "real \<Rightarrow> xfloat option \<Rightarrow> inputs \<Rightarrow> inputs" where
  "note_score now x i = (if x = None then i else i\<lparr>in_ndt_nvtl := x, in_last_ndt_score := Some now\<rparr>)"

definition note_count :: "real \<Rightarrow> int option \<Rightarrow> inputs \<Rightarrow> inputs" where
  "note_count now x i = (if x = None then i else i\<lparr>in_no_update_count := x, in_last_ekf_diag := Some now\<rparr>)"

definition ln_on_diagnostics :: "(string \<Rightarrow> xfloat option) \<Rightarrow> (string \<times> string \<times> (string \<times> pyval) list) list \<Rightarrow> real \<Rightarrow> loc_node \<Rightarrow> loc_node" where
  "ln_on_diagnostics pf statuses now n =
     (let n = (case read_ndt_points statuses of None \<Rightarrow> n | Some points \<Rightarrow> ln_on_ndt_points points n) in
      case read_diagnostics pf (map (\<lambda>(name, message, values). (name, values)) statuses) of
        Inl _ \<Rightarrow> n\<lparr>ln_down := True\<rparr>
      | Inr found \<Rightarrow> n\<lparr>ln_inputs := note_count now (d_count found) (note_score now (d_score found) (ln_inputs n))\<rparr>)"

section \<open>Runs\<close>

text \<open>
  What can happen to the node; a transition comes only in the lifecycle state that has it.  The subscriptions stand
  from configure to cleanup; a message in another state is the early return of its handler.
\<close>

datatype ln_event =
    Ln_configure configuration
  | Ln_activate
  | Ln_deactivate "string list"
  | Ln_cleanup
  | Ln_shutdown
  | Ln_child_exited nat
  | Ln_initial_pose pose
  | Ln_worker nat reply
  | Ln_odometry "int \<times> int" pose
  | Ln_ekf_pose "int \<times> int" pose "real list"
  | Ln_diagnostics "(string \<times> string \<times> (string \<times> pyval) list) list"
  | Ln_status_timer

fun ln_legal :: "ln_event \<Rightarrow> loc_node \<Rightarrow> bool" where
  "ln_legal (Ln_configure c) n = (ln_lifecycle n = Unconfigured_node)"
| "ln_legal Ln_activate n = (ln_lifecycle n = Inactive)"
| "ln_legal (Ln_deactivate ready) n = (ln_lifecycle n = Active)"
| "ln_legal Ln_cleanup n = (ln_lifecycle n = Inactive)"
| "ln_legal Ln_shutdown n = (ln_lifecycle n \<noteq> Finalized)"
| "ln_legal (Ln_initial_pose p) n = (ln_lifecycle n \<noteq> Unconfigured_node)"
| "ln_legal Ln_status_timer n = (ln_lifecycle n \<noteq> Unconfigured_node)"
| "ln_legal e n = True"

fun ln_handle :: "(string \<Rightarrow> xfloat option) \<Rightarrow> (string \<Rightarrow> int option) \<Rightarrow> real \<Rightarrow> ln_event \<Rightarrow> loc_node \<Rightarrow> loc_node" where
  "ln_handle pf pint now (Ln_configure c) n = ln_on_configure pf pint c now n"
| "ln_handle pf pint now Ln_activate n = ln_on_activate now n"
| "ln_handle pf pint now (Ln_deactivate ready) n = ln_on_deactivate ready now n"
| "ln_handle pf pint now Ln_cleanup n = ln_on_cleanup now n"
| "ln_handle pf pint now Ln_shutdown n = ln_on_shutdown n"
| "ln_handle pf pint now (Ln_child_exited i) n = child_exited i now n"
| "ln_handle pf pint now (Ln_initial_pose p) n = on_initial_pose p n"
| "ln_handle pf pint now (Ln_worker i r) n = worker_moves i r now n"
| "ln_handle pf pint now (Ln_odometry st p) n = ln_on_odometry st p now n"
| "ln_handle pf pint now (Ln_ekf_pose st p cov) n = ln_on_ekf_pose st p cov now n"
| "ln_handle pf pint now (Ln_diagnostics sts) n = ln_on_diagnostics pf sts now n"
| "ln_handle pf pint now Ln_status_timer n = publish_status now n"

definition ln_step :: "(string \<Rightarrow> xfloat option) \<Rightarrow> (string \<Rightarrow> int option) \<Rightarrow> loc_node \<Rightarrow> real \<times> ln_event \<Rightarrow> loc_node" where
  "ln_step pf pint n te =
     (if ln_down n \<or> \<not> ln_legal (snd te) n then n else ln_handle pf pint (fst te) (snd te) n)"

definition ln_run :: "(string \<Rightarrow> xfloat option) \<Rightarrow> (string \<Rightarrow> int option) \<Rightarrow> (real \<times> ln_event) list \<Rightarrow> loc_node \<Rightarrow> loc_node" where
  "ln_run pf pint tes n = foldl (ln_step pf pint) n tes"

section \<open>Local odometry\<close>

record lo_node =
  lo_to_glim :: pose
  lo_prev :: "(pose \<times> real) option"
  lo_published :: "((int \<times> int) \<times> pose \<times> (real \<times> real \<times> real \<times> real) option) list" \<comment> \<open>the newest first\<close>

definition new_lo_node :: lo_node where
  "new_lo_node = \<lparr>lo_to_glim = ((0, 0, 0), (0, 0, 0, 1)), lo_prev = None, lo_published = []\<rparr>"

record tf_edge =
  te_parent :: string
  te_child :: string
  te_stamp :: "int \<times> int"
  te_pose :: pose

definition lo_publish :: "(real \<Rightarrow> real \<Rightarrow> real) \<Rightarrow> tf_edge \<Rightarrow> lo_node \<Rightarrow> lo_node" where
  "lo_publish atan2 t n =
     (let stamp = stamp_s (te_stamp t); p = compose (lo_to_glim n) (te_pose t);
          tw = (case lo_prev n of None \<Rightarrow> None | Some (q, tq) \<Rightarrow> body_twist atan2 q tq p stamp)
      in n\<lparr>lo_prev := Some (p, stamp), lo_published := (te_stamp t, p, tw) # lo_published n\<rparr>)"

text \<open>\<^verbatim>\<open>_on_tf\<close>; the frame of GLIM comes from \<^verbatim>\<open>glim_runner.ODOMETRY_ONLY_FRAMES\<close>.\<close>

definition lo_on_transform :: "(real \<Rightarrow> real \<Rightarrow> real) \<Rightarrow> lo_node \<Rightarrow> tf_edge \<Rightarrow> lo_node" where
  "lo_on_transform atan2 n t =
     (if te_parent t = ''odom'' \<and> te_child t = ''odom_glim'' then n\<lparr>lo_to_glim := te_pose t\<rparr>
      else if te_parent t = ''odom_glim'' \<and> te_child t = ''base_link'' then lo_publish atan2 t n else n)"

definition lo_on_tf :: "(real \<Rightarrow> real \<Rightarrow> real) \<Rightarrow> tf_edge list \<Rightarrow> lo_node \<Rightarrow> lo_node" where
  "lo_on_tf atan2 ts n = foldl (lo_on_transform atan2) n ts"


section \<open>What the helpers leave alone\<close>

lemma publish_status_frame [simp]:
  "ln_lifecycle (publish_status t n) = ln_lifecycle n" "ln_inputs (publish_status t n) = ln_inputs n"
  "ln_token (publish_status t n) = ln_token n" "ln_workers (publish_status t n) = ln_workers n"
  "ln_tf (publish_status t n) = ln_tf n" "ln_down (publish_status t n) = ln_down n"
  "ln_settings (publish_status t n) = ln_settings n" "ln_estimator (publish_status t n) = ln_estimator n"
  by (simp_all add: publish_status_def Let_def ln_decide_def split: option.split prod.split)

lemma ln_decide_frame [simp]:
  "ln_lifecycle (ln_decide d n) = ln_lifecycle n" "ln_inputs (ln_decide d n) = ln_inputs n"
  "ln_token (ln_decide d n) = ln_token n" "ln_workers (ln_decide d n) = ln_workers n" "ln_tf (ln_decide d n) = ln_tf n"
  "ln_settings (ln_decide d n) = ln_settings n" "ln_estimator (ln_decide d n) = ln_estimator n"
  by (simp_all add: ln_decide_def)

lemma foldl_decide_frame [simp]:
  "ln_lifecycle (foldl (\<lambda>n x. ln_decide (f x) n) n xs) = ln_lifecycle n"
  "ln_inputs (foldl (\<lambda>n x. ln_decide (f x) n) n xs) = ln_inputs n"
  "ln_token (foldl (\<lambda>n x. ln_decide (f x) n) n xs) = ln_token n"
  "ln_workers (foldl (\<lambda>n x. ln_decide (f x) n) n xs) = ln_workers n"
  "ln_tf (foldl (\<lambda>n x. ln_decide (f x) n) n xs) = ln_tf n"
  by (induction xs arbitrary: n) simp_all

lemma set_phase_frame [simp]:
  "ln_lifecycle (set_phase p d n) = ln_lifecycle n" "in_phase (ln_inputs (set_phase p d n)) = p"
  "ln_token (set_phase p d n) = ln_token n" "ln_workers (set_phase p d n) = ln_workers n" "ln_tf (set_phase p d n) = ln_tf n"
  by (simp_all add: set_phase_def)

lemma init_step_frame [simp]:
  "ln_lifecycle (init_step d t w n) = ln_lifecycle n" "in_phase (ln_inputs (init_step d t w n)) = in_phase (ln_inputs n)"
  "ln_token (init_step d t w n) = ln_token n" "ln_workers (init_step d t w n) = ln_workers n" "ln_tf (init_step d t w n) = ln_tf n"
  by (simp_all add: init_step_def)

lemma init_fail_frame [simp]:
  "ln_lifecycle (init_fail d t w n) = ln_lifecycle n" "ln_token (init_fail d t w n) = ln_token n"
  "ln_workers (init_fail d t w n) = ln_workers n" "ln_tf (init_fail d t w n) = ln_tf n"
  "in_phase (ln_inputs (init_fail d t w n)) = Running \<longleftrightarrow> in_phase (ln_inputs n) = Running \<and> \<not> alive w n"
  by (simp_all add: init_fail_def)

section \<open>The worker\<close>

text \<open>What the calls of a worker have returned when it is at a stage.\<close>

definition search_ok :: "reply list \<Rightarrow> bool" where
  "search_ok rs \<longleftrightarrow> list_ex (\<lambda>r. case r of Aligned (Some p) \<Rightarrow> True | _ \<Rightarrow> False) rs"

definition triggers_ok :: "reply list \<Rightarrow> nat" where
  "triggers_ok rs = length (filter (\<lambda>r. r = Triggered True) rs)"

definition initialized_by :: "reply list \<Rightarrow> bool" where
  "initialized_by rs \<longleftrightarrow> search_ok rs \<and> 2 \<le> triggers_ok rs"

fun stage_ok :: "stage \<Rightarrow> reply list \<Rightarrow> bool" where
  "stage_ok Wait_ekf rs = search_ok rs"
| "stage_ok Trigger_ekf rs = search_ok rs"
| "stage_ok Wait_ndt rs = (search_ok rs \<and> 1 \<le> triggers_ok rs)"
| "stage_ok Trigger_ndt rs = (search_ok rs \<and> 1 \<le> triggers_ok rs)"
| "stage_ok Finish rs = initialized_by rs"
| "stage_ok s rs = True"

lemma search_ok_snoc [simp]:
  "search_ok (rs @ [r]) = (search_ok rs \<or> (\<exists>p. r = Aligned (Some p)))"
  by (auto simp: search_ok_def split: reply.split option.split)

lemma triggers_ok_snoc [simp]:
  "triggers_ok (rs @ [r]) = triggers_ok rs + (if r = Triggered True then 1 else 0)"
  by (simp add: triggers_ok_def)

lemmas advance_defs = read_pose_def note_points_def aligned_def Let_def

lemma move_frame:
  "ln_lifecycle (snd (move s r t w n)) = ln_lifecycle n \<and> ln_token (snd (move s r t w n)) = ln_token n
   \<and> ln_workers (snd (move s r t w n)) = ln_workers n \<and> ln_tf (snd (move s r t w n)) = ln_tf n"
  by (cases "(s, r, t, w, n)" rule: move.cases) (simp_all add: advance_defs finish_def split: option.split prod.split)

lemma move_stage:
  "stage_ok s rs \<Longrightarrow> fst (move s r t w n) \<noteq> s \<Longrightarrow> stage_ok (fst (move s r t w n)) (rs @ [r])"
  by (cases "(s, r, t, w, n)" rule: move.cases)
     (simp_all add: advance_defs initialized_by_def split: option.split prod.split)

lemma step_phases:
  "in_phase (ln_inputs (snd (read_pose t w n))) = in_phase (ln_inputs n)"
  "in_phase (ln_inputs (snd (note_points req t w n))) = in_phase (ln_inputs n)"
  "in_phase (ln_inputs (snd (aligned res t w n))) = Running \<Longrightarrow> in_phase (ln_inputs n) = Running"
  "in_phase (ln_inputs (finish t w n)) = Running \<Longrightarrow> in_phase (ln_inputs n) = Running \<or> alive w n"
  by (simp_all add: advance_defs finish_def split: option.split_asm option.split prod.split if_split_asm)

lemma move_running:
  "in_phase (ln_inputs (snd (move s r t w n))) = Running \<Longrightarrow>
   in_phase (ln_inputs n) = Running \<or> (s = Finish \<and> r = Go \<and> alive w n)"
  by (cases "(s, r, t, w, n)" rule: move.cases) (auto simp: step_phases(1, 2) split: if_split_asm dest: step_phases(3, 4))


section \<open>The invariant of a run\<close>

definition worker_ok :: "loc_node \<Rightarrow> worker \<Rightarrow> bool" where
  "worker_ok n w \<longleftrightarrow> wk_token w \<le> ln_token n \<and> (alive w n \<longrightarrow> ln_lifecycle n \<in> {Active, Finalized})
     \<and> stage_ok (wk_stage w) (wk_replies w)"

definition initialized_now :: "loc_node \<Rightarrow> bool" where
  "initialized_now n \<longleftrightarrow> list_ex (\<lambda>w. alive w n \<and> initialized_by (wk_replies w)) (ln_workers n)"

definition ln_inv :: "loc_node \<Rightarrow> bool" where
  "ln_inv n \<longleftrightarrow> list_all (worker_ok n) (ln_workers n) \<and> (in_phase (ln_inputs n) = Running \<longrightarrow> initialized_now n)"

lemma ln_inv_cong:
  assumes "ln_inv n" "ln_token n' = ln_token n" "ln_workers n' = ln_workers n" "ln_lifecycle n' = ln_lifecycle n"
    and "in_phase (ln_inputs n') = Running \<Longrightarrow> in_phase (ln_inputs n) = Running"
  shows "ln_inv n'"
proof -
  have "worker_ok n' = worker_ok n" using assms(2, 4) by (intro ext) (simp add: worker_ok_def alive_def)
  then show ?thesis using assms by (simp add: ln_inv_def initialized_now_def alive_def)
qed

lemma initialized_by_snoc: "initialized_by rs \<Longrightarrow> initialized_by (rs @ [r])"
  by (simp add: initialized_by_def)

lemma worker_ok_moved:
  "worker_ok n w \<Longrightarrow> fst (move (wk_stage w) r t w n) \<noteq> wk_stage w \<Longrightarrow>
   worker_ok n (w\<lparr>wk_stage := fst (move (wk_stage w) r t w n), wk_replies := wk_replies w @ [r]\<rparr>)"
  by (simp add: worker_ok_def alive_def move_stage)

lemma moved_initialized:
  assumes "i < length ws" "w = ws ! i" "initialized_by (wk_replies w) \<Longrightarrow> initialized_by (wk_replies w')" "wk_token w' = wk_token w"
    and "list_ex (\<lambda>w. alive w n \<and> initialized_by (wk_replies w)) ws"
  shows "list_ex (\<lambda>w. alive w n \<and> initialized_by (wk_replies w)) (ws[i := w'])"
proof -
  obtain j where j: "j < length ws" "alive (ws ! j) n" "initialized_by (wk_replies (ws ! j))"
    using assms(5) by (auto simp: list_ex_length)
  then have "alive (ws[i := w'] ! j) n \<and> initialized_by (wk_replies (ws[i := w'] ! j))"
    using assms by (cases "j = i") (simp_all add: alive_def)
  then show ?thesis using j(1) by (auto simp: list_ex_length)
qed

lemma worker_moves_inv:
  assumes "ln_inv n"
  shows "ln_inv (worker_moves i r t n)"
proof (cases "i < length (ln_workers n)")
  case True
  let ?w = "ln_workers n ! i"
  let ?s = "fst (move (wk_stage ?w) r t ?w n)" and ?n = "snd (move (wk_stage ?w) r t ?w n)"
  let ?w' = "?w\<lparr>wk_stage := ?s, wk_replies := wk_replies ?w @ [r]\<rparr>"
  let ?m = "?n\<lparr>ln_workers := (ln_workers ?n)[i := ?w']\<rparr>"
  note f = move_frame [of "wk_stage ?w" r t ?w n]
  have eq: "worker_moves i r t n = (if ?s = wk_stage ?w then ?n else ?m)"
    using True by (simp add: worker_moves_def advance_def Let_def case_prod_beta)
  have wok: "worker_ok m = worker_ok n" if "ln_token m = ln_token n" "ln_lifecycle m = ln_lifecycle n" for m
    using that by (intro ext) (simp add: worker_ok_def alive_def)
  have ok: "worker_ok n ?w" "list_all (worker_ok n) (ln_workers n)"
    using assms True by (simp_all add: ln_inv_def list_all_length)
  note run = move_running [of "wk_stage ?w" r t ?w n]
  show ?thesis
  proof (cases "?s = wk_stage ?w")
    case True
    then have "in_phase (ln_inputs ?n) = Running \<Longrightarrow> in_phase (ln_inputs n) = Running" using run by auto
    with True show ?thesis using f by (simp add: eq) (rule ln_inv_cong [OF assms]; simp)
  next
    case False
    have "list_all (worker_ok n) ((ln_workers n)[i := ?w'])"
      using ok worker_ok_moved [OF ok(1) False] True by (simp add: list_all_length nth_list_update)
    moreover have "initialized_now ?m" if r: "in_phase (ln_inputs ?n) = Running"
      using run [OF r]
    proof
      assume "in_phase (ln_inputs n) = Running"
      then have "list_ex (\<lambda>w. alive w n \<and> initialized_by (wk_replies w)) (ln_workers n)"
        using assms by (simp add: ln_inv_def initialized_now_def)
      then show ?thesis using f moved_initialized [OF True refl _ _ , of ?w' n] initialized_by_snoc
        by (simp add: initialized_now_def alive_def)
    next
      assume "wk_stage ?w = Finish \<and> r = Go \<and> alive ?w n"
      then have "alive ?w' n \<and> initialized_by (wk_replies ?w')"
        using ok(1) by (simp add: worker_ok_def alive_def initialized_by_snoc)
      then show ?thesis using f True by (auto simp: initialized_now_def list_ex_length alive_def intro: exI [of _ i])
    qed
    ultimately show ?thesis using f False wok [of ?m] by (simp add: eq ln_inv_def)
  qed
qed (simp add: worker_moves_def assms)


lemma ln_inv_no_run:
  assumes "list_all (\<lambda>w. wk_token w \<le> ln_token n' \<and> (alive w n' \<longrightarrow> ln_lifecycle n' \<in> {Active, Finalized}) \<and> stage_ok (wk_stage w) (wk_replies w))
      (ln_workers n')" "in_phase (ln_inputs n') \<noteq> Running"
  shows "ln_inv n'"
  using assms by (simp add: ln_inv_def worker_ok_def [abs_def])

lemma on_activate_inv: "ln_inv n \<Longrightarrow> ln_inv (ln_on_activate t n)"
  by (rule ln_inv_no_run)
     (auto simp: ln_on_activate_def Let_def ln_inv_def worker_ok_def alive_def list_all_iff new_inputs_def)

lemma on_deactivate_inv: "ln_inv n \<Longrightarrow> ln_inv (ln_on_deactivate ready t n)"
  by (rule ln_inv_no_run)
     (auto simp: ln_on_deactivate_def Let_def ln_inv_def worker_ok_def alive_def list_all_iff)

lemma idle_workers:
  assumes "ln_inv n" "ln_lifecycle n \<in> {Unconfigured_node, Inactive}" "ln_workers n' = ln_workers n" "ln_token n' = ln_token n"
    and "in_phase (ln_inputs n') \<noteq> Running"
  shows "ln_inv n'"
  using assms by (intro ln_inv_no_run) (auto simp: ln_inv_def worker_ok_def alive_def list_all_iff)

lemma idle_not_running:
  "ln_inv n \<Longrightarrow> ln_lifecycle n \<in> {Unconfigured_node, Inactive} \<Longrightarrow> in_phase (ln_inputs n) \<noteq> Running"
  by (auto simp: ln_inv_def worker_ok_def initialized_now_def list_all_iff list_ex_iff)

lemma on_configure_inv:
  assumes "ln_inv n" "ln_lifecycle n = Unconfigured_node"
  shows "ln_inv (ln_on_configure pf pint c t n)"
proof -
  have "ln_workers (ln_on_configure pf pint c t n) = ln_workers n \<and> ln_token (ln_on_configure pf pint c t n) = ln_token n
      \<and> (in_phase (ln_inputs (ln_on_configure pf pint c t n)) = Waiting \<or> ln_inputs (ln_on_configure pf pint c t n) = ln_inputs n)"
    by (simp add: ln_on_configure_def Let_def refuse_def new_inputs_def split: sum.split)
  then show ?thesis using assms idle_not_running [OF assms(1)] by (intro idle_workers [OF assms(1)]) auto
qed

lemma on_cleanup_inv:
  assumes "ln_inv n" "ln_lifecycle n = Inactive"
  shows "ln_inv (ln_on_cleanup t n)"
  using assms by (intro idle_workers [OF assms(1)]) (simp_all add: ln_on_cleanup_def Let_def stop_child_def new_inputs_def)

lemma on_shutdown_inv: "ln_inv n \<Longrightarrow> ln_inv (ln_on_shutdown n)"
  by (auto simp: ln_on_shutdown_def stop_child_def ln_inv_def worker_ok_def alive_def list_all_iff initialized_now_def)

lemma ndt_points_frame:
  "ln_token (ln_on_ndt_points x n) = ln_token n \<and> ln_workers (ln_on_ndt_points x n) = ln_workers n
   \<and> ln_lifecycle (ln_on_ndt_points x n) = ln_lifecycle n \<and> ln_tf (ln_on_ndt_points x n) = ln_tf n
   \<and> in_phase (ln_inputs (ln_on_ndt_points x n)) = in_phase (ln_inputs n)"
  by (simp add: ln_on_ndt_points_def Let_def)

lemma diagnostics_frame:
  "ln_token (ln_on_diagnostics pf s t n) = ln_token n \<and> ln_workers (ln_on_diagnostics pf s t n) = ln_workers n
   \<and> ln_lifecycle (ln_on_diagnostics pf s t n) = ln_lifecycle n \<and> ln_tf (ln_on_diagnostics pf s t n) = ln_tf n
   \<and> in_phase (ln_inputs (ln_on_diagnostics pf s t n)) = in_phase (ln_inputs n)"
  by (simp add: ln_on_diagnostics_def Let_def ndt_points_frame note_count_def note_score_def split: option.split sum.split)

lemma odometry_frame:
  "ln_token (ln_on_odometry st p t n) = ln_token n \<and> ln_workers (ln_on_odometry st p t n) = ln_workers n
   \<and> ln_lifecycle (ln_on_odometry st p t n) = ln_lifecycle n \<and> in_phase (ln_inputs (ln_on_odometry st p t n)) = in_phase (ln_inputs n)"
  by (simp add: ln_on_odometry_def Let_def publish_twist_def set_estimator_def send_transform_def split: option.split sum.split)

lemma ekf_pose_frame:
  "ln_token (ln_on_ekf_pose st p cov t n) = ln_token n \<and> ln_workers (ln_on_ekf_pose st p cov t n) = ln_workers n
   \<and> ln_lifecycle (ln_on_ekf_pose st p cov t n) = ln_lifecycle n \<and> ln_tf (ln_on_ekf_pose st p cov t n) = ln_tf n
   \<and> in_phase (ln_inputs (ln_on_ekf_pose st p cov t n)) = in_phase (ln_inputs n)"
  by (simp add: ln_on_ekf_pose_def Let_def set_estimator_def split: option.split sum.split)

lemma child_exited_frame:
  "ln_token (child_exited i t n) = ln_token n \<and> ln_workers (child_exited i t n) = ln_workers n
   \<and> ln_lifecycle (child_exited i t n) = ln_lifecycle n \<and> ln_tf (child_exited i t n) = ln_tf n
   \<and> in_phase (ln_inputs (child_exited i t n)) = in_phase (ln_inputs n)"
  by (simp add: child_exited_def Let_def)

lemma ln_handle_inv:
  assumes "ln_inv n" "ln_legal e n"
  shows "ln_inv (ln_handle pf pint t e n)"
proof (cases e)
  case (Ln_odometry st p) with assms show ?thesis using odometry_frame by simp (rule ln_inv_cong [OF assms(1)]; simp)
next
  case (Ln_ekf_pose st p cov) with assms show ?thesis using ekf_pose_frame by simp (rule ln_inv_cong [OF assms(1)]; simp)
next
  case (Ln_diagnostics s) with assms show ?thesis using diagnostics_frame by simp (rule ln_inv_cong [OF assms(1)]; simp)
next
  case (Ln_child_exited i) with assms show ?thesis using child_exited_frame by simp (rule ln_inv_cong [OF assms(1)]; simp)
next
  case (Ln_initial_pose p) with assms show ?thesis by simp (rule ln_inv_cong [OF assms(1)]; simp add: on_initial_pose_def)
next
  case Ln_status_timer with assms show ?thesis by simp (rule ln_inv_cong [OF assms(1)]; simp)
qed (use assms on_configure_inv on_activate_inv on_deactivate_inv on_cleanup_inv on_shutdown_inv worker_moves_inv in simp_all)

lemma ln_run_inv: "ln_inv n \<Longrightarrow> ln_inv (ln_run pf pint tes n)"
  by (induction tes arbitrary: n) (simp_all add: ln_run_def ln_step_def ln_handle_inv)

lemma new_loc_node_inv: "ln_inv (new_loc_node t)"
  by (simp add: ln_inv_def new_loc_node_def new_inputs_def)


section \<open>Published transforms\<close>

lemma activate_tf: "ln_tf (ln_on_activate t n) = ln_tf n"
  by (simp add: ln_on_activate_def Let_def)

lemma deactivate_tf: "ln_tf (ln_on_deactivate ready t n) = ln_tf n"
  by (simp add: ln_on_deactivate_def Let_def)

lemma configure_tf: "ln_tf (ln_on_configure pf pint c t n) = ln_tf n"
  by (simp add: ln_on_configure_def Let_def refuse_def split: sum.split)

lemma worker_moves_tf: "ln_tf (worker_moves i r t n) = ln_tf n"
  using move_frame by (simp add: worker_moves_def advance_def Let_def case_prod_beta)

lemma odometry_tf:
  assumes "ln_tf (ln_on_odometry st p t n) \<noteq> ln_tf n"
  shows "in_phase (ln_inputs n) = Running \<and> (\<exists>s e since mo. ln_settings n = Some s \<and> e_map_odom e = Some (since, mo)
    \<and> ln_estimator (ln_on_odometry st p t n) = Some e
    \<and> ln_tf (ln_on_odometry st p t n) = (future_stamp (fst st) (snd st) (fin_val (s_double s ''map_odom_future_offset_s'')), mo) # ln_tf n)"
  using assms
  by (auto simp: ln_on_odometry_def Let_def publish_twist_def set_estimator_def send_transform_def
      split: option.split_asm sum.split_asm if_split_asm)

lemma only_odometry_sends:
  assumes "ln_tf (ln_handle pf pint t e n) \<noteq> ln_tf n"
  obtains st p where "e = Ln_odometry st p"
  using assms
  by (cases e) (simp_all add: configure_tf activate_tf deactivate_tf worker_moves_tf ekf_pose_frame diagnostics_frame child_exited_frame
      on_initial_pose_def ln_on_cleanup_def ln_on_shutdown_def stop_child_def Let_def)

text \<open>C28. Global localization: the transform from the map to the odometry frame is published only for an odometry message,
  with the newest transform of the estimator, after an activation whose worker has had a search that succeeded and both
  triggers confirmed, and that no deactivation has ended since.\<close>
theorem map_odom_needs_initialization:
  assumes "n = ln_run pf pint tes (new_loc_node t0)" "n' = ln_step pf pint n (t, e)" "ln_tf n' \<noteq> ln_tf n"
  shows "(\<exists>w \<in> set (ln_workers n). alive w n \<and> initialized_by (wk_replies w)) \<and> ln_lifecycle n \<in> {Active, Finalized}
    \<and> in_phase (ln_inputs n) = Running
    \<and> (\<exists>st p s est since mo. e = Ln_odometry st p \<and> ln_settings n = Some s \<and> ln_estimator n' = Some est \<and> e_map_odom est = Some (since, mo)
         \<and> ln_tf n' = (future_stamp (fst st) (snd st) (fin_val (s_double s ''map_odom_future_offset_s'')), mo) # ln_tf n)"
proof -
  have step: "n' = ln_handle pf pint t e n" using assms(2, 3) by (auto simp: ln_step_def split: if_split_asm)
  then obtain st p where e: "e = Ln_odometry st p" using assms(3) only_odometry_sends by metis
  with step have n': "n' = ln_on_odometry st p t n" by simp
  note tf = odometry_tf [of st p t n, folded n', OF assms(3)]
  have inv: "ln_inv n" unfolding assms(1) by (rule ln_run_inv [OF new_loc_node_inv])
  obtain w where w: "w \<in> set (ln_workers n)" "alive w n" "initialized_by (wk_replies w)"
    using inv tf by (auto simp: ln_inv_def initialized_now_def list_ex_iff)
  moreover have "ln_lifecycle n \<in> {Active, Finalized}"
    using inv w(1, 2) by (auto simp: ln_inv_def worker_ok_def list_all_iff)
  ultimately show ?thesis using tf e by blast
qed

definition example_configuration :: configuration where
  "example_configuration = \<lparr>cf_values = map (\<lambda>k. (k, PFloat (Fin (if k = ''points_near_crop_m'' \<or> k = ''map_odom_future_offset_s'' then 1 else 2)))) DOUBLE_SETTINGS
       @ map (\<lambda>k. (k, PInt 5)) INT_SETTINGS,
     cf_saved_offset = Fin 1, cf_map_dir = ''maps/m1'', cf_meta = True, cf_trajectory = Some [(0, 0, 0, 1)], cf_imu_z = None, cf_starts = True\<rparr>"

definition example_start :: "(real \<times> ln_event) list" where
  "example_start = [(1, Ln_configure example_configuration), (2, Ln_activate), (3, Ln_initial_pose ((0, 0, 0), (0, 0, 0, 1))),
     (4, Ln_worker 0 Go), (4, Ln_worker 0 Go), (4, Ln_worker 0 Go), (4, Ln_worker 0 Go),
     (5, Ln_diagnostics [(''ndt: scan_matching_status'', ''OK'', [(''is_activated'', PStr ''1'')])]),
     (6, Ln_worker 0 Go), (6, Ln_worker 0 (Aligned (Some ((0, 0, 1), (0, 0, 0, 1))))), (6, Ln_worker 0 Go), (6, Ln_worker 0 (Triggered True)),
     (6, Ln_worker 0 Go), (6, Ln_worker 0 (Triggered True)), (6, Ln_worker 0 Go),
     (7, Ln_odometry (7, 0) ((0, 0, 0), (0, 0, 0, 1))), (8, Ln_ekf_pose (7, 0) ((3, 4, 0), (0, 0, 0, 1)) (replicate 36 0))]"


lemma map_odom_needs_initialization_witness:
  "let n = ln_run (\<lambda>_. None) (\<lambda>_. None) example_start (new_loc_node 0) in
   ln_lifecycle n \<in> {Active, Finalized} \<and> in_phase (ln_inputs n) = Running"
proof -
  define n where "n = ln_run (\<lambda>_. None) (\<lambda>_. None) example_start (new_loc_node 0)"
  have "ln_tf (ln_step (\<lambda>_. None) (\<lambda>_. None) n (9, Ln_odometry (9, 0) ((1, 0, 0), (0, 0, 0, 1)))) \<noteq> ln_tf n"
    unfolding n_def by code_simp
  from map_odom_needs_initialization [OF n_def refl this] show ?thesis by (simp add: n_def Let_def)
qed


text \<open>A shutdown from the active state does not end the publication: the subscriptions and the phase stay.\<close>

lemma shutdown_keeps_publishing:
  "let n = ln_run (\<lambda>_. None) (\<lambda>_. None) (example_start @ [(9, Ln_shutdown)]) (new_loc_node 0) in
   ln_lifecycle n = Finalized
   \<and> length (ln_tf (ln_step (\<lambda>_. None) (\<lambda>_. None) n (10, Ln_odometry (10, 0) ((1, 0, 0), (0, 0, 0, 1))))) = length (ln_tf n) + 1"
  by code_simp

text \<open>A count that is infinite ends the node: the exception leaves the callback.\<close>

lemma infinite_count_ends_node:
  "ln_down (ln_on_diagnostics (\<lambda>s. if s = ''inf'' then Some PosInf else None)
     [(''ekf'', '''', [(''pose_no_update_count'', PStr ''inf'')])] 1 (new_loc_node 0))"
  by code_simp

section \<open>The odometry relay\<close>

definition base_edge :: "tf_edge \<Rightarrow> bool" where
  "base_edge t \<longleftrightarrow> te_parent t = ''odom_glim'' \<and> te_child t = ''base_link''"

lemma lo_step_published:
  "map fst (lo_published (lo_on_transform atan2 n t)) = (if base_edge t then [te_stamp t] else []) @ map fst (lo_published n)"
  by (auto simp: lo_on_transform_def lo_publish_def Let_def base_edge_def)

text \<open>One odometry per transform of the base, with its stamp, in their order, and nothing else.\<close>

lemma lo_publishes_each_base_transform:
  "map fst (lo_published (lo_on_tf atan2 ts n)) = rev (map te_stamp (filter base_edge ts)) @ map fst (lo_published n)"
  by (induction ts arbitrary: n) (simp_all add: lo_on_tf_def lo_step_published)

lemma lo_without_global_mapping:
  "lo_prev n = None \<Longrightarrow> te_parent t = ''odom_glim'' \<Longrightarrow> te_child t = ''base_link'' \<Longrightarrow> lo_to_glim n = lo_to_glim new_lo_node \<Longrightarrow>
   lo_published (lo_on_tf atan2 [t] n) = (te_stamp t, te_pose t, None) # lo_published n"
  by (cases "te_pose t" rule: prod.exhaust; cases "fst (te_pose t)"; cases "snd (te_pose t)")
     (auto simp: lo_on_tf_def lo_on_transform_def lo_publish_def Let_def new_lo_node_def compose_def)

end
