(* ===== verification/Map_Grid.thy ===== *)
theory Map_Grid
  imports Sensor_Extrinsics Png
begin

text \<open>
  The geometry of \<^verbatim>\<open>gouda_core/map_convert.py\<close> (ND-05): the swept corridor (the map the vehicle drives on), the
  ground under the points of the mapping run, the grid of the obstacle band, the thinned points and their tiles,
  slope and step, and the files of a map with their check.  An array of numpy is the list of its rows; infinity and
  NaN, which mark the cells without a value, are \<open>None\<close>; points and the trajectory are finite numbers.
\<close>

section \<open>Arrays\<close>

type_synonym 'a array = "'a list list"

definition tabulate :: "nat \<Rightarrow> nat \<Rightarrow> (nat \<Rightarrow> nat \<Rightarrow> 'a) \<Rightarrow> 'a array" where
  "tabulate h w f = map (\<lambda>j. map (f j) [0 ..< w]) [0 ..< h]"

lemma tabulate_nth [simp]: "j < h \<Longrightarrow> i < w \<Longrightarrow> tabulate h w f ! j ! i = f j i"
  by (simp add: tabulate_def)

definition truncated :: "real \<Rightarrow> int" where \<comment> \<open>\<^verbatim>\<open>int(x)\<close> and \<^verbatim>\<open>astype(np.int64)\<close>\<close>
  "truncated x = (if 0 \<le> x then \<lfloor>x\<rfloor> else \<lceil>x\<rceil>)"

definition clip_index :: "int \<Rightarrow> nat \<Rightarrow> nat" where
  "clip_index i n = nat (max 0 (min i (int n - 1)))"

definition MAX_CELLS :: nat where "MAX_CELLS = 50000000"

record grid_result =
  gr_resolution :: real
  gr_origin :: "real \<times> real"
  gr_width :: nat
  gr_height :: nat
  gr_occupied :: nat
  gr_free :: nat
  gr_unknown :: nat
  gr_total :: nat
  gr_obstacle :: nat
  gr_ground :: nat
  gr_between :: nat
  gr_above :: nat
  gr_no_ground :: nat

definition count_value :: "nat \<Rightarrow> nat array \<Rightarrow> nat" where
  "count_value v grid = length (filter (\<lambda>x. x = v) (concat grid))"

section \<open>The swept corridor\<close>

type_synonym xy = "real \<times> real"

text \<open>A row of a TUM trajectory: time, position, orientation.\<close>

type_synonym tum = "real \<times> vec \<times> quat"

fun tum_of :: "real list \<Rightarrow> tum option" where
  "tum_of [t, x, y, z, a, b, c, d] = Some (t, (x, y, z), (a, b, c, d))"
| "tum_of _ = None"

text \<open>\<open>fl\<close> is the number a text spells, \<open>None\<close> where \<^verbatim>\<open>float\<close> raises; a text of infinity or NaN is not modelled.\<close>

definition trajectory_row :: "(string \<Rightarrow> real option) \<Rightarrow> string \<Rightarrow> tum option" where
  "trajectory_row fl line =
     (let f = split_ws line in
      if length f \<noteq> 8 \<or> startswith (lstrip line) ''#'' then None else Option.bind (those (map fl f)) tum_of)"

definition read_trajectory :: "(string \<Rightarrow> real option) \<Rightarrow> string \<Rightarrow> tum list" where
  "read_trajectory fl s = List.map_filter (trajectory_row fl) (splitlines s)"

fun quat_matrix :: "quat \<Rightarrow> matrix" where
  "quat_matrix (x, y, z, w) =
     ((1 - 2 * (y * y + z * z), 2 * (x * y - z * w), 2 * (x * z + y * w)),
      (2 * (x * y + z * w), 1 - 2 * (x * x + z * z), 2 * (y * z - x * w)),
      (2 * (x * z - y * w), 2 * (y * z + x * w), 1 - 2 * (x * x + y * y)))"

definition base_matrix :: "matrix \<Rightarrow> quat \<Rightarrow> matrix" where
  "base_matrix r_bi q = matmul (quat_matrix q) (transpose r_bi)"

fun base_position :: "matrix \<Rightarrow> vec \<Rightarrow> tum \<Rightarrow> vec" where
  "base_position r_bi t_bi (t, p, q) = vec_sub p (times_vec (base_matrix r_bi q) t_bi)"

definition base_path :: "tum list \<Rightarrow> matrix \<Rightarrow> vec \<Rightarrow> xy list" where
  "base_path traj r_bi t_bi = map (\<lambda>r. case base_position r_bi t_bi r of (x, y, z) \<Rightarrow> (x, y)) traj"

record end_pose =
  ep_xy :: xy
  ep_yaw :: real
  ep_time :: real

definition mapping_end_pose :: "(real \<Rightarrow> real \<Rightarrow> real) \<Rightarrow> tum list \<Rightarrow> matrix \<Rightarrow> vec \<Rightarrow> end_pose option" where
  "mapping_end_pose atan2 traj r_bi t_bi =
     (if traj = [] then None
      else let r = last traj; p = base_position r_bi t_bi r; m = base_matrix r_bi (snd (snd r)) in
        Some \<lparr>ep_xy = (fst p, fst (snd p)), ep_yaw = atan2 (fst (fst (snd m))) (fst (fst m)), ep_time = fst r\<rparr>)"

definition distance :: "xy \<Rightarrow> xy \<Rightarrow> real" where
  "distance a b = sqrt ((fst b - fst a)\<^sup>2 + (snd b - snd a)\<^sup>2)"

text \<open>The ranges of indices that are joined, and the jumps.\<close>

definition split_at_gaps :: "xy list \<Rightarrow> real \<Rightarrow> ((nat \<times> nat) list \<times> (nat \<times> real) list) result" where
  "split_at_gaps ps gap =
     (if \<not> 0 < gap then Inl ValueError
      else let step = (\<lambda>k. distance (ps ! k) (ps ! Suc k)); cuts = filter (\<lambda>k. gap < step k) [0 ..< length ps - 1];
               bounds = 0 # map Suc cuts @ [length ps]
           in Inr (filter (\<lambda>(a, b). a < b) (zip bounds (tl bounds)), map (\<lambda>k. (k, step k)) cuts))"

definition segments :: "xy list \<Rightarrow> (nat \<times> nat) list \<Rightarrow> (xy \<times> xy) list" where
  "segments ps pieces = concat (map (\<lambda>(s, e). (if e - s = 1 then [(ps ! s, ps ! s)] else [])
     @ map (\<lambda>k. (ps ! k, ps ! Suc k)) [s ..< e - 1]) pieces)"

definition foot :: "xy \<Rightarrow> xy \<Rightarrow> xy \<Rightarrow> xy" where
  "foot a b p =
     (let dx = fst b - fst a; dy = snd b - snd a; L = dx * dx + dy * dy;
          u = (if L = 0 then 0 else max 0 (min 1 (((fst p - fst a) * dx + (snd p - snd a) * dy) / L)))
      in (fst a + u * dx, snd a + u * dy))"

definition near :: "real \<Rightarrow> xy \<times> xy \<Rightarrow> xy \<Rightarrow> bool" where
  "near hw ab p \<longleftrightarrow> distance (foot (fst ab) (snd ab) p) p \<le> hw"

definition cell_centre :: "xy \<Rightarrow> real \<Rightarrow> nat \<Rightarrow> nat \<Rightarrow> xy" where
  "cell_centre lo res j i = (fst lo + (real i * 2 + 1) * res / 2, snd lo + (real j * 2 + 1) * res / 2)"

text \<open>The rows or columns a segment can reach: from \<open>a\<close> to \<open>b\<close> in one coordinate.\<close>

definition reach :: "real \<Rightarrow> real \<Rightarrow> real \<Rightarrow> nat \<Rightarrow> real \<Rightarrow> real \<Rightarrow> nat \<Rightarrow> bool" where
  "reach hw lo res n a b i \<longleftrightarrow>
     max \<lfloor>(min a b - hw - lo) / res\<rfloor> 0 \<le> int i \<and> int i < min \<lceil>(max a b + hw - lo) / res\<rceil> (int n)"

definition mark :: "real \<Rightarrow> xy \<Rightarrow> real \<Rightarrow> nat \<Rightarrow> nat \<Rightarrow> nat array \<Rightarrow> xy \<times> xy \<Rightarrow> nat array" where
  "mark hw lo res w h grid ab =
     tabulate h w (\<lambda>j i. if reach hw (fst lo) res w (fst (fst ab)) (fst (snd ab)) i \<and> reach hw (snd lo) res h (snd (fst ab)) (snd (snd ab)) j
       \<and> near hw ab (cell_centre lo res j i) then 0 else grid ! j ! i)"

definition corridor_grid :: "xy list \<Rightarrow> (nat \<times> nat) list \<Rightarrow> real \<Rightarrow> real \<Rightarrow> (nat array \<times> grid_result) result" where
  "corridor_grid ps pieces hw res =
     (if \<not> 0 < hw \<or> \<not> 0 < res \<or> ps = [] then Inl ValueError
      else let xs = map fst ps; ys = map snd ps;
               lo = (Min (set xs) - hw - res, Min (set ys) - hw - res);
               hi = (Max (set xs) + hw + res, Max (set ys) + hw + res);
               w = nat \<lceil>(fst hi - fst lo) / res\<rceil>; h = nat \<lceil>(snd hi - snd lo) / res\<rceil>
           in if MAX_CELLS < w * h then Inl ValueError
              else let grid = foldl (mark hw lo res w h) (tabulate h w (\<lambda>j i. 255)) (segments ps pieces); n = count_value 0 grid
                in Inr (grid, \<lparr>gr_resolution = res, gr_origin = lo, gr_width = w, gr_height = h, gr_occupied = 0, gr_free = n,
                     gr_unknown = w * h - n, gr_total = 0, gr_obstacle = 0, gr_ground = 0, gr_between = 0, gr_above = 0, gr_no_ground = 0\<rparr>))"


section \<open>The nearest point of a segment\<close>

definition along :: "xy \<Rightarrow> xy \<Rightarrow> real \<Rightarrow> xy" where
  "along a b u = (fst a + u * (fst b - fst a), snd a + u * (snd b - snd a))"

lemma quadratic_min:
  fixes L s u :: real
  assumes "0 < L" "0 \<le> u" "u \<le> 1"
  shows "L * (max 0 (min 1 (s / L)))\<^sup>2 - 2 * s * max 0 (min 1 (s / L)) \<le> L * u\<^sup>2 - 2 * s * u"
proof -
  define u0 where "u0 = max 0 (min 1 (s / L))"
  have "0 \<le> (u - u0) * (L * (u + u0) - 2 * s)"
  proof (cases "s / L < 0")
    case True
    then have "u0 = 0" "s < 0" using assms(1) by (auto simp: u0_def divide_less_0_iff)
    then show ?thesis using assms by (intro mult_nonneg_nonneg) (auto intro: order_trans [OF _ mult_nonneg_nonneg])
  next
    case False
    show ?thesis
    proof (cases "1 < s / L")
      case True
      then have u0: "u0 = 1" "L < s" using assms(1) by (auto simp: u0_def less_divide_eq)
      then have "L * (u + u0) \<le> L * 2" using assms by (intro mult_left_mono) auto
      then have "L * (u + u0) - 2 * s \<le> 0" using u0 by linarith
      then show ?thesis using u0 assms by (intro mult_nonpos_nonpos) auto
    next
      case False
      then have "u0 = s / L" using \<open>\<not> s / L < 0\<close> by (simp add: u0_def)
      then have "L * (u + u0) - 2 * s = L * (u - u0)" using assms(1) by (simp add: field_simps)
      then have "(u - u0) * (L * (u + u0) - 2 * s) = L * (u - u0)\<^sup>2" by (simp add: power2_eq_square)
      then show ?thesis using assms(1) by simp
    qed
  qed
  then have "0 \<le> L * u\<^sup>2 - 2 * s * u - (L * u0\<^sup>2 - 2 * s * u0)" by (simp add: algebra_simps power2_eq_square)
  then show ?thesis by (simp add: u0_def)
qed

lemma foot_along:
  obtains u where "0 \<le> u" "u \<le> 1" "foot a b p = along a b u"
  by (rule that [of "if (fst b - fst a) * (fst b - fst a) + (snd b - snd a) * (snd b - snd a) = 0 then 0
      else max 0 (min 1 (((fst p - fst a) * (fst b - fst a) + (snd p - snd a) * (snd b - snd a))
        / ((fst b - fst a) * (fst b - fst a) + (snd b - snd a) * (snd b - snd a))))"])
     (simp_all add: foot_def along_def Let_def)

lemma distance_along:
  "(fst p - fst (along a b u))\<^sup>2 + (snd p - snd (along a b u))\<^sup>2
   = (fst p - fst a)\<^sup>2 + (snd p - snd a)\<^sup>2
     + (((fst b - fst a) * (fst b - fst a) + (snd b - snd a) * (snd b - snd a)) * u\<^sup>2
        - 2 * ((fst p - fst a) * (fst b - fst a) + (snd p - snd a) * (snd b - snd a)) * u)"
  by (simp add: along_def algebra_simps power2_eq_square)

lemma foot_nearest:
  assumes "0 \<le> u" "u \<le> 1"
  shows "distance (foot a b p) p \<le> distance (along a b u) p"
proof -
  let ?L = "(fst b - fst a) * (fst b - fst a) + (snd b - snd a) * (snd b - snd a)"
  let ?s = "(fst p - fst a) * (fst b - fst a) + (snd p - snd a) * (snd b - snd a)"
  show ?thesis
  proof (cases "?L = 0")
    case True
    then have "fst b = fst a \<and> snd b = snd a" by (simp add: sum_squares_eq_zero_iff)
    then show ?thesis by (simp add: foot_def along_def Let_def)
  next
    case False
    then have L: "0 < ?L" by (metis not_sum_squares_lt_zero linorder_neqE_linordered_idom)
    have "foot a b p = along a b (max 0 (min 1 (?s / ?L)))" using False by (simp add: foot_def along_def Let_def)
    then show ?thesis unfolding distance_def using distance_along [of p a b] quadratic_min [OF L assms, of ?s] by simp
  qed
qed

lemma near_iff: "near hw (a, b) p \<longleftrightarrow> (\<exists>u. 0 \<le> u \<and> u \<le> 1 \<and> distance (along a b u) p \<le> hw)"
proof
  assume "near hw (a, b) p"
  moreover obtain u where "0 \<le> u" "u \<le> 1" "foot a b p = along a b u" by (rule foot_along [of a b p])
  ultimately show "\<exists>u. 0 \<le> u \<and> u \<le> 1 \<and> distance (along a b u) p \<le> hw"
    by (intro exI [of _ u]) (simp add: near_def)
next
  assume "\<exists>u. 0 \<le> u \<and> u \<le> 1 \<and> distance (along a b u) p \<le> hw"
  then obtain u where u: "0 \<le> u" "u \<le> 1" "distance (along a b u) p \<le> hw" by blast
  show "near hw (a, b) p" using foot_nearest [OF u(1, 2), of a b p] u(3) by (simp add: near_def)
qed

text \<open>A cell whose centre is near a segment is in the rows and columns the code looks at.\<close>

lemma fraction_bound:
  fixes d u :: real
  assumes "0 \<le> u" "u \<le> 1" "0 \<le> d"
  obtains e where "e = u * d" "0 \<le> e" "e \<le> d"
  using assms mult_right_mono [OF assms(2, 3)] by (intro that [of "u * d"]) simp_all

lemma coordinate_bound:
  fixes a b u :: real
  assumes "0 \<le> u" "u \<le> 1"
  shows "min a b \<le> a + u * (b - a) \<and> a + u * (b - a) \<le> max a b"
proof (cases "a \<le> b")
  case True
  then obtain e where "e = u * (b - a)" "0 \<le> e" "e \<le> b - a" using fraction_bound [OF assms, of "b - a"] by auto
  then show ?thesis using True by (simp flip: \<open>e = u * (b - a)\<close>)
next
  case False
  then obtain e where e: "e = u * (a - b)" "0 \<le> e" "e \<le> a - b" using fraction_bound [OF assms, of "a - b"] by auto
  have "u * (b - a) = - e" by (simp add: e(1) algebra_simps)
  then show ?thesis using False e(2, 3) by simp
qed

lemma reach_if_near:
  assumes res: "0 < res" and "i < n" and q: "min a b \<le> q" "q \<le> max a b" and d: "\<bar>lo + (real i * 2 + 1) * res / 2 - q\<bar> \<le> hw"
  shows "reach hw lo res n a b i"
proof -
  let ?c = "lo + (real i * 2 + 1) * res / 2"
  have "?c = lo + (real i + 1/2) * res" by (simp add: field_simps)
  then have c: "(?c - lo) / res = real i + 1/2" using res by (simp add: field_simps)
  have "(min a b - hw - lo) / res \<le> (?c - lo) / res" using res q d by (intro divide_right_mono) auto
  moreover have "(?c - lo) / res \<le> (max a b + hw - lo) / res" using res q d by (intro divide_right_mono) auto
  ultimately have "(min a b - hw - lo) / res < real i + 1" "real i < (max a b + hw - lo) / res" using c by auto
  then show ?thesis using assms(2) unfolding reach_def by (simp add: floor_le_iff less_ceiling_iff)
qed

lemma distance_coordinates: "\<bar>fst b - fst a\<bar> \<le> distance a b" "\<bar>snd b - snd a\<bar> \<le> distance a b"
  by (simp_all add: distance_def real_le_rsqrt)

lemma near_reach:
  assumes "0 < res" "i < w" "j < h" "near hw ab (cell_centre lo res j i)"
  shows "reach hw (fst lo) res w (fst (fst ab)) (fst (snd ab)) i \<and> reach hw (snd lo) res h (snd (fst ab)) (snd (snd ab)) j"
proof -
  obtain u where u: "0 \<le> u" "u \<le> 1" "distance (along (fst ab) (snd ab) u) (cell_centre lo res j i) \<le> hw"
    using assms(4) near_iff [of hw "fst ab" "snd ab"] by auto
  let ?q = "along (fst ab) (snd ab) u"
  have "\<bar>fst (cell_centre lo res j i) - fst ?q\<bar> \<le> hw" "\<bar>snd (cell_centre lo res j i) - snd ?q\<bar> \<le> hw"
    using distance_coordinates [of "cell_centre lo res j i" ?q] u(3) by auto
  then have c: "\<bar>fst lo + (real i * 2 + 1) * res / 2 - fst ?q\<bar> \<le> hw" "\<bar>snd lo + (real j * 2 + 1) * res / 2 - snd ?q\<bar> \<le> hw"
    by (simp_all add: cell_centre_def)
  have q: "min (fst (fst ab)) (fst (snd ab)) \<le> fst ?q \<and> fst ?q \<le> max (fst (fst ab)) (fst (snd ab))"
    "min (snd (fst ab)) (snd (snd ab)) \<le> snd ?q \<and> snd ?q \<le> max (snd (fst ab)) (snd (snd ab))"
    unfolding along_def fst_conv snd_conv by (rule coordinate_bound [OF u(1, 2)])+
  show ?thesis
    using reach_if_near [OF assms(1, 2) _ _ c(1)] reach_if_near [OF assms(1, 3) _ _ c(2)] q by blast
qed

lemma mark_cell:
  "0 < res \<Longrightarrow> j < h \<Longrightarrow> i < w \<Longrightarrow>
   mark hw lo res w h grid ab ! j ! i = (if near hw ab (cell_centre lo res j i) then 0 else grid ! j ! i)"
  using near_reach [of res i w j h hw ab lo] by (auto simp: mark_def)

lemma marks_cell:
  "0 < res \<Longrightarrow> j < h \<Longrightarrow> i < w \<Longrightarrow>
   foldl (mark hw lo res w h) grid segs ! j ! i = (if \<exists>ab \<in> set segs. near hw ab (cell_centre lo res j i) then 0 else grid ! j ! i)"
  by (induction segs arbitrary: grid) (auto simp: mark_cell)

lemma corridor_cell:
  assumes "corridor_grid ps pieces hw res = Inr (grid, r)" "j < gr_height r" "i < gr_width r"
  shows "grid ! j ! i = (if \<exists>ab \<in> set (segments ps pieces). near hw ab (cell_centre (gr_origin r) res j i) then 0 else 255)"
  using assms by (auto simp: corridor_grid_def Let_def marks_cell split: if_split_asm)


section \<open>The path in pieces\<close>

text \<open>The bounds of the pieces from \<open>s\<close> on.\<close>

definition pieces_from :: "nat \<Rightarrow> nat list \<Rightarrow> nat \<Rightarrow> (nat \<times> nat) list" where
  "pieces_from s cuts n = filter (\<lambda>(a, b). a < b) (zip (s # map Suc cuts) (map Suc cuts @ [n]))"

lemma pieces_from_simps:
  "pieces_from s [] n = (if s < n then [(s, n)] else [])"
  "pieces_from s (c # cs) n = (if s \<le> c then [(s, Suc c)] else []) @ pieces_from (Suc c) cs n"
  by (simp_all add: pieces_from_def less_Suc_eq_le)

lemma pieces_from_joined:
  assumes "sorted_wrt (<) cuts" "\<forall>c \<in> set cuts. s \<le> c \<and> Suc c < n" "s \<le> n"
  shows "(\<exists>(a, b) \<in> set (pieces_from s cuts n). a \<le> k \<and> Suc k < b) \<longleftrightarrow> s \<le> k \<and> Suc k < n \<and> k \<notin> set cuts"
  using assms
proof (induction cuts arbitrary: s)
  case (Cons c cs)
  have ih: "(\<exists>(a, b) \<in> set (pieces_from (Suc c) cs n). a \<le> k \<and> Suc k < b) \<longleftrightarrow> Suc c \<le> k \<and> Suc k < n \<and> k \<notin> set cs"
    using Cons.prems by (intro Cons.IH) auto
  have "\<forall>x \<in> set cs. c < x" using Cons.prems by simp
  then show ?case using Cons.prems ih by (auto simp: pieces_from_simps)
qed (auto simp: pieces_from_simps)

lemma pieces_from_covers:
  assumes "sorted_wrt (<) cuts" "\<forall>c \<in> set cuts. s \<le> c \<and> Suc c < n" "s \<le> k" "k < n"
  shows "\<exists>(a, b) \<in> set (pieces_from s cuts n). a \<le> k \<and> k < b"
  using assms
proof (induction cuts arbitrary: s)
  case (Cons c cs)
  show ?case
  proof (cases "k \<le> c")
    case False
    then show ?thesis using Cons.prems Cons.IH [of "Suc c"] by (force simp: pieces_from_simps)
  qed (use Cons.prems in \<open>auto simp: pieces_from_simps\<close>)
qed (auto simp: pieces_from_simps)

lemma pieces_from_bounds: "(a, b) \<in> set (pieces_from s cuts n) \<Longrightarrow> a < b"
  by (auto simp: pieces_from_def)

lemma pieces_from_end:
  "\<forall>c \<in> set cuts. Suc c < n \<Longrightarrow> (a, b) \<in> set (pieces_from s cuts n) \<Longrightarrow> b \<le> n"
  by (induction cuts arbitrary: s) (auto simp: pieces_from_simps split: if_split_asm)

definition cut_indices :: "xy list \<Rightarrow> real \<Rightarrow> nat list" where
  "cut_indices ps gap = filter (\<lambda>k. gap < distance (ps ! k) (ps ! Suc k)) [0 ..< length ps - 1]"

lemma split_pieces:
  assumes "split_at_gaps ps gap = Inr (pieces, gaps)"
  shows "pieces = pieces_from 0 (cut_indices ps gap) (length ps)"
proof -
  have "zip ((0 # map Suc cs) @ [n]) (map Suc cs @ [n]) = zip (0 # map Suc cs) (map Suc cs @ [n])" for cs and n :: nat
    by (simp only: zip_append1) simp
  then show ?thesis using assms
    by (auto simp: split_at_gaps_def pieces_from_def Let_def cut_indices_def split: if_split_asm)
qed

lemma cut_indices_ok:
  "sorted_wrt (<) (cut_indices ps gap)" "\<forall>c \<in> set (cut_indices ps gap). 0 \<le> c \<and> Suc c < length ps"
  by (auto simp: cut_indices_def sorted_wrt_filter strict_sorted_iff)

text \<open>What the path has swept: its points, and what lies between two of them that are no jump.\<close>

definition swept :: "xy list \<Rightarrow> real \<Rightarrow> real \<Rightarrow> xy \<Rightarrow> bool" where
  "swept ps gap hw p \<longleftrightarrow>
     (\<exists>k < length ps. distance (ps ! k) p \<le> hw)
     \<or> (\<exists>k u. Suc k < length ps \<and> distance (ps ! k) (ps ! Suc k) \<le> gap \<and> 0 \<le> u \<and> u \<le> 1 \<and> distance (along (ps ! k) (ps ! Suc k) u) p \<le> hw)"

lemma segment_cases:
  assumes "ab \<in> set (segments ps pieces)"
  obtains s e where "(s, e) \<in> set pieces" "e - s = 1" "ab = (ps ! s, ps ! s)"
  | s e k where "(s, e) \<in> set pieces" "s \<le> k" "Suc k < e" "ab = (ps ! k, ps ! Suc k)"
  using assms by (force simp: segments_def split: if_split_asm)

lemma along_ends [simp]: "along a b 0 = a" "along a b 1 = b" "along a a u = a"
  by (simp_all add: along_def)

lemma segments_swept:
  assumes "split_at_gaps ps gap = Inr (pieces, gaps)" "ab \<in> set (segments ps pieces)" "near hw ab p"
  shows "swept ps gap hw p"
proof -
  note pc = split_pieces [OF assms(1)] and ok = cut_indices_ok [of ps gap]
  obtain u where u: "0 \<le> u" "u \<le> 1" "distance (along (fst ab) (snd ab) u) p \<le> hw"
    using assms(3) near_iff [of hw "fst ab" "snd ab"] by auto
  from assms(2) show ?thesis
  proof (cases rule: segment_cases)
    case (1 s e)
    have "s < e" using pieces_from_bounds 1(1) unfolding pc .
    moreover have "e \<le> length ps" using pieces_from_end [of "cut_indices ps gap" "length ps"] ok(2) 1(1) unfolding pc by blast
    ultimately have "s < length ps" by simp
    then show ?thesis using u(3) 1(3) unfolding swept_def by (intro disjI1 exI [of _ s]) simp
  next
    case (2 s e k)
    then have k: "Suc k < length ps" "k \<notin> set (cut_indices ps gap)"
      using pieces_from_joined [OF ok, of k] pc by auto
    then have "distance (ps ! k) (ps ! Suc k) \<le> gap" by (auto simp: cut_indices_def)
    then show ?thesis using u 2(4) k(1) unfolding swept_def by (intro disjI2 exI [of _ k] exI [of _ u]) simp
  qed
qed

definition piece_segments :: "xy list \<Rightarrow> nat \<times> nat \<Rightarrow> (xy \<times> xy) list" where
  "piece_segments ps p = (if snd p - fst p = 1 then [(ps ! fst p, ps ! fst p)] else [])
     @ map (\<lambda>k. (ps ! k, ps ! Suc k)) [fst p ..< snd p - 1]"

lemma segments_pieces: "set (segments ps pieces) = (\<Union>p \<in> set pieces. set (piece_segments ps p))"
  by (simp add: segments_def piece_segments_def case_prod_beta)

lemma joined_segment:
  assumes "(a, b) \<in> set pieces" "a \<le> k" "Suc k < b"
  shows "(ps ! k, ps ! Suc k) \<in> set (segments ps pieces)"
proof -
  have "(ps ! k, ps ! Suc k) \<in> (\<lambda>k. (ps ! k, ps ! Suc k)) ` {a ..< b - 1}" by (rule image_eqI [of _ _ k]) (use assms in auto)
  then have "(ps ! k, ps ! Suc k) \<in> set (piece_segments ps (a, b))" by (simp add: piece_segments_def)
  with assms(1) show ?thesis unfolding segments_pieces by blast
qed

lemma single_segment:
  assumes "(a, Suc a) \<in> set pieces"
  shows "(ps ! a, ps ! a) \<in> set (segments ps pieces)"
proof -
  have "(ps ! a, ps ! a) \<in> set (piece_segments ps (a, Suc a))" by (simp add: piece_segments_def)
  with assms show ?thesis unfolding segments_pieces by blast
qed

lemma swept_segments:
  assumes "split_at_gaps ps gap = Inr (pieces, gaps)" "swept ps gap hw p"
  shows "\<exists>ab \<in> set (segments ps pieces). near hw ab p"
proof -
  note pc = split_pieces [OF assms(1)] and ok = cut_indices_ok [of ps gap]
  from assms(2) show ?thesis unfolding swept_def
  proof
    assume "\<exists>k < length ps. distance (ps ! k) p \<le> hw"
    then obtain k where k: "k < length ps" "distance (ps ! k) p \<le> hw" by blast
    then obtain a b where ab: "(a, b) \<in> set pieces" "a \<le> k" "k < b" using pieces_from_covers [OF ok] pc by blast
    consider "Suc k < b" | "a < k" "b = Suc k" | "b = Suc a" "k = a" using ab by linarith
    then show ?thesis
    proof cases
      case 1
      then show ?thesis using joined_segment [OF ab(1, 2)] k(2) near_iff [of hw "ps ! k" "ps ! Suc k" p]
        by (metis along_ends(1) order_refl zero_le_one)
    next
      case 2
      then have "Suc (k - 1) = k" "a \<le> k - 1" "Suc (k - 1) < b" by auto
      then show ?thesis using joined_segment [OF ab(1)] k(2) near_iff [of hw "ps ! (k - 1)" "ps ! k" p]
        by (metis along_ends(2) order_refl zero_le_one)
    next
      case 3
      then show ?thesis using single_segment [of a] ab(1) k(2) near_iff [of hw "ps ! k" "ps ! k" p]
        by (metis along_ends(1) order_refl zero_le_one)
    qed
  next
    assume "\<exists>k u. Suc k < length ps \<and> distance (ps ! k) (ps ! Suc k) \<le> gap \<and> 0 \<le> u \<and> u \<le> 1
      \<and> distance (along (ps ! k) (ps ! Suc k) u) p \<le> hw"
    then obtain k u where k: "Suc k < length ps" "distance (ps ! k) (ps ! Suc k) \<le> gap"
      and u: "0 \<le> u" "u \<le> 1" "distance (along (ps ! k) (ps ! Suc k) u) p \<le> hw" by blast
    have "k \<notin> set (cut_indices ps gap)" using k by (auto simp: cut_indices_def)
    then obtain a b where "(a, b) \<in> set pieces" "a \<le> k" "Suc k < b"
      using pieces_from_joined [OF ok, of k] k(1) pc by auto
    then show ?thesis using joined_segment near_iff u by blast
  qed
qed

lemma corridor_swept:
  assumes "split_at_gaps ps gap = Inr (pieces, gaps)" "corridor_grid ps pieces hw res = Inr (grid, r)"
    "j < gr_height r" "i < gr_width r"
  shows "grid ! j ! i = (if swept ps gap hw (cell_centre (gr_origin r) res j i) then 0 else 255)"
proof -
  have "(\<exists>ab \<in> set (segments ps pieces). near hw ab c) \<longleftrightarrow> swept ps gap hw c" for c
    using segments_swept [OF assms(1)] swept_segments [OF assms(1)] by blast
  then show ?thesis using corridor_cell [OF assms(2-4)] by simp
qed

text \<open>C17. Map conversion: the map the vehicle drives on is exactly what the mapping run has swept.  A cell is free if and only if
  its centre is within the half width of the path of the base, where two positions farther apart than the gap are not joined;
  every other cell is unknown, and none is occupied.\<close>
theorem corridor_is_swept_path:
  assumes "split_at_gaps ps gap = Inr (pieces, gaps)" "corridor_grid ps pieces hw res = Inr (grid, r)"
    and "j < gr_height r" "i < gr_width r"
  shows "grid ! j ! i = (if swept ps gap hw (cell_centre (gr_origin r) res j i) then 0 else 255)"
  by (rule corridor_swept [OF assms])

lemma near_code [code]:
  "near hw ab p \<longleftrightarrow> 0 \<le> hw \<and> (let q = foot (fst ab) (snd ab) p in (fst p - fst q)\<^sup>2 + (snd p - snd q)\<^sup>2 \<le> hw\<^sup>2)"
proof -
  have "sqrt a \<le> hw \<longleftrightarrow> 0 \<le> hw \<and> a \<le> hw\<^sup>2" if "0 \<le> a" for a
    using that order_trans [OF real_sqrt_ge_zero [OF that]] by (auto intro: real_le_lsqrt simp: sqrt_le_D)
  then show ?thesis by (simp add: near_def distance_def Let_def)
qed

definition example_path :: "xy list" where
  "example_path = [(0, 0), (1, 0), (1, 1)]"

lemma corridor_is_swept_path_witness:
  "\<exists>grid r. corridor_grid example_path [(0, 3)] 1 1 = Inr (grid, r) \<and> gr_width r = 5 \<and> gr_height r = 5
     \<and> grid ! 2 ! 2 = (if swept example_path 2 1 (cell_centre (gr_origin r) 1 2 2) then 0 else 255)"
proof -
  obtain grid r where g: "corridor_grid example_path [(0, 3)] 1 1 = Inr (grid, r)" and d: "gr_width r = 5" "gr_height r = 5"
  proof -
    have "case corridor_grid example_path [(0, 3)] 1 1 of Inr (grid, r) \<Rightarrow> gr_width r = 5 \<and> gr_height r = 5 | Inl e \<Rightarrow> False"
      by (simp add: corridor_grid_def example_path_def MAX_CELLS_def Let_def)
    then show ?thesis using that by (auto split: sum.split_asm prod.split_asm)
  qed
  have "split_at_gaps example_path 2 = Inr ([(0, 3)], [])" by code_simp
  from corridor_is_swept_path [OF this g, of 2 2] g d show ?thesis by auto
qed

end
