(* ===== verification/Map_Points.thy ===== *)
theory Map_Points
  imports Map_Grid "HOL-Library.Product_Lexorder" "HOL-Library.Multiset" "HOL-Library.Sublist"
begin

text \<open>
  The points of \<^verbatim>\<open>gouda_core/map_convert.py\<close> (ND-05): the ground below them and their classification, the grid
  of the obstacle band, slope and step, the thinned points and their tiles.
\<close>

section \<open>The ground\<close>

definition NEIGHBOURS :: "(int \<times> int) list" where
  "NEIGHBOURS = [(- 1, - 1), (- 1, 0), (- 1, 1), (0, - 1), (0, 1), (1, - 1), (1, 0), (1, 1)]"

text \<open>\<^verbatim>\<open>_shifted\<close>: the entry at \<open>(j + dy, i + dx)\<close>, nothing outside.\<close>

definition shifted :: "nat \<Rightarrow> nat \<Rightarrow> 'a option array \<Rightarrow> int \<times> int \<Rightarrow> nat \<Rightarrow> nat \<Rightarrow> 'a option" where
  "shifted h w a d j i =
     (let y = int j + fst d; x = int i + snd d in
      if 0 \<le> y \<and> y < int h \<and> 0 \<le> x \<and> x < int w then a ! nat y ! nat x else None)"

fun lower_of :: "real option \<Rightarrow> real option \<Rightarrow> real option" where
  "lower_of None b = b"
| "lower_of a None = a"
| "lower_of (Some a) (Some b) = Some (min a b)"

definition hypot :: "int \<times> int \<Rightarrow> real" where
  "hypot d = sqrt ((of_int (fst d))\<^sup>2 + (of_int (snd d))\<^sup>2)"

text \<open>One sweep over the neighbours, each with the array of before the sweep.\<close>

definition candidate :: "nat \<Rightarrow> nat \<Rightarrow> real \<Rightarrow> real option array \<Rightarrow> nat \<Rightarrow> nat \<Rightarrow> int \<times> int \<Rightarrow> real option" where
  "candidate h w rise prev j i d = map_option (\<lambda>v. v + rise * hypot d) (shifted h w prev d j i)"

definition sweep :: "nat \<Rightarrow> nat \<Rightarrow> real \<Rightarrow> (nat \<Rightarrow> nat \<Rightarrow> bool) \<Rightarrow> real option array \<Rightarrow> real option array" where
  "sweep h w rise allowed prev =
     tabulate h w (\<lambda>j i. if allowed j i then foldl (\<lambda>v d. lower_of v (candidate h w rise prev j i d)) (prev ! j ! i) NEIGHBOURS else None)"

fun sweeps :: "nat \<Rightarrow> (real option array \<Rightarrow> real option array) \<Rightarrow> real option array \<Rightarrow> real option array" where
  "sweeps 0 f a = a"
| "sweeps (Suc n) f a = (let b = f a in if b = a then b else sweeps n f b)"

record ground =
  gd_cell :: real
  gd_origin :: xy
  gd_width :: nat
  gd_height :: nat
  gd_lowest :: "real option array"
  gd_ground :: "real option array"
  gd_filled :: nat

definition cell_of :: "xy \<Rightarrow> real \<Rightarrow> nat \<Rightarrow> nat \<Rightarrow> vec \<Rightarrow> nat \<times> nat" where
  "cell_of lo sz w h p =
     (clip_index (truncated ((fst (snd p) - snd lo) / sz)) h, clip_index (truncated ((fst p - fst lo) / sz)) w)"

text \<open>The smallest corner of some points, and how many cells reach to the largest.\<close>

definition lower_corner :: "vec list \<Rightarrow> xy" where
  "lower_corner pts = (Min (set (map fst pts)), Min (set (map (fst \<circ> snd) pts)))"

definition cells_x :: "vec list \<Rightarrow> real \<Rightarrow> nat" where
  "cells_x pts sz = nat \<lfloor>(Max (set (map fst pts)) - fst (lower_corner pts)) / sz\<rfloor> + 1"

definition cells_y :: "vec list \<Rightarrow> real \<Rightarrow> nat" where
  "cells_y pts sz = nat \<lfloor>(Max (set (map (fst \<circ> snd) pts)) - snd (lower_corner pts)) / sz\<rfloor> + 1"

definition lowest :: "real list \<Rightarrow> real option" where
  "lowest zs = (if zs = [] then None else Some (Min (set zs)))"

definition MAX_GROUND_CELLS :: nat where "MAX_GROUND_CELLS = 20000000"

definition lowest_points :: "xy \<Rightarrow> real \<Rightarrow> nat \<Rightarrow> nat \<Rightarrow> vec list \<Rightarrow> real option array" where
  "lowest_points lo cell w h pts =
     tabulate h w (\<lambda>j i. lowest (map (snd \<circ> snd) (filter (\<lambda>p. cell_of lo cell w h p = (j, i)) pts)))"

text \<open>The cells that get a height: those with points, and those within the fill radius of one.\<close>

definition distances :: "nat \<Rightarrow> nat \<Rightarrow> real \<Rightarrow> real \<Rightarrow> real option array \<Rightarrow> real option array" where
  "distances h w cell fill zmin = sweeps (nat \<lceil>fill / cell\<rceil> + 1) (sweep h w cell (\<lambda>j i. True))
     (tabulate h w (\<lambda>j i. if zmin ! j ! i \<noteq> None then Some 0 else None))"

definition allowed_cell :: "real \<Rightarrow> real option array \<Rightarrow> real option array \<Rightarrow> nat \<Rightarrow> nat \<Rightarrow> bool" where
  "allowed_cell fill zmin near_by j i \<longleftrightarrow> zmin ! j ! i \<noteq> None \<or> (case near_by ! j ! i of None \<Rightarrow> False | Some d \<Rightarrow> d \<le> fill)"

definition envelope :: "nat \<Rightarrow> nat \<Rightarrow> real \<Rightarrow> real \<Rightarrow> real \<Rightarrow> real option array \<Rightarrow> real option array" where
  "envelope h w cell slope fill zmin =
     sweeps (h + w + 1) (sweep h w (tan slope * cell) (allowed_cell fill zmin (distances h w cell fill zmin))) zmin"

definition estimate_ground :: "vec list \<Rightarrow> real \<Rightarrow> real \<Rightarrow> real \<Rightarrow> ground result" where
  "estimate_ground pts cell max_slope_deg fill =
     (let slope = max_slope_deg * pi / 180 in
      if cell \<le> 0 \<or> \<not> (0 < slope \<and> slope < pi / 2) \<or> fill < 0 \<or> pts = [] then Inl ValueError
      else let lo = lower_corner pts; w = cells_x pts cell; h = cells_y pts cell
           in if MAX_GROUND_CELLS < w * h then Inl ValueError
              else let zmin = lowest_points lo cell w h pts; g = envelope h w cell slope fill zmin
                in Inr \<lparr>gd_cell = cell, gd_origin = lo, gd_width = w, gd_height = h, gd_lowest = zmin, gd_ground = g,
                     gd_filled = length (filter (\<lambda>(j, i). g ! j ! i \<noteq> None \<and> zmin ! j ! i = None) (List.product [0 ..< h] [0 ..< w]))\<rparr>)"

text \<open>\<^verbatim>\<open>Ground.at\<close>: between the centres of four cells; those without a height are left out.\<close>

definition corner :: "ground \<Rightarrow> int \<times> int \<Rightarrow> real option" where
  "corner g c = (if 0 \<le> fst c \<and> fst c < int (gd_width g) \<and> 0 \<le> snd c \<and> snd c < int (gd_height g)
     then gd_ground g ! nat (snd c) ! nat (fst c) else None)"

definition ground_at :: "ground \<Rightarrow> real \<Rightarrow> real \<Rightarrow> real option" where
  "ground_at g x y =
     (let fx = (x - fst (gd_origin g)) / gd_cell g - 1/2; fy = (y - snd (gd_origin g)) / gd_cell g - 1/2;
          x0 = \<lfloor>fx\<rfloor>; y0 = \<lfloor>fy\<rfloor>; tx = fx - of_int x0; ty = fy - of_int y0;
          corners = [((x0, y0), (1 - tx) * (1 - ty)), ((x0 + 1, y0), tx * (1 - ty)), ((x0, y0 + 1), (1 - tx) * ty), ((x0 + 1, y0 + 1), tx * ty)];
          ok = filter (\<lambda>(c, wt). corner g c \<noteq> None \<and> 0 < wt) corners; den = sum_list (map snd ok)
      in if 0 < den then Some (sum_list (map (\<lambda>(c, wt). wt * the (corner g c)) ok) / den) else None)"

section \<open>The bands\<close>

record bands =
  ground_band_max :: real
  obstacle_band_min :: real
  obstacle_band_max :: real

record classified =
  cl_point :: vec
  cl_height :: "real option" \<comment> \<open>above the ground\<close>
  cl_ground :: bool
  cl_obstacle :: bool

definition classify :: "ground \<Rightarrow> bands \<Rightarrow> vec list \<Rightarrow> classified list" where
  "classify g b pts = map (\<lambda>p. let hag = map_option (\<lambda>z. snd (snd p) - z) (ground_at g (fst p) (fst (snd p))) in
     \<lparr>cl_point = p, cl_height = hag,
       cl_ground = (case hag of None \<Rightarrow> False | Some v \<Rightarrow> v \<le> ground_band_max b),
       cl_obstacle = (case hag of None \<Rightarrow> False | Some v \<Rightarrow> obstacle_band_min b \<le> v \<and> v \<le> obstacle_band_max b)\<rparr>) pts"

definition in_grid :: "xy \<Rightarrow> real \<Rightarrow> nat \<Rightarrow> nat \<Rightarrow> vec \<Rightarrow> bool" where
  "in_grid lo res w h p \<longleftrightarrow> fst lo \<le> fst p \<and> snd lo \<le> fst (snd p) \<and> fst p < fst lo + real w * res \<and> fst (snd p) < snd lo + real h * res"

definition count_in :: "(classified \<Rightarrow> bool) \<Rightarrow> xy \<Rightarrow> real \<Rightarrow> nat \<Rightarrow> nat \<Rightarrow> classified list \<Rightarrow> nat \<Rightarrow> nat \<Rightarrow> nat" where
  "count_in P lo res w h cs j i =
     length (filter (\<lambda>c. P c \<and> in_grid lo res w h (cl_point c) \<and> cell_of lo res w h (cl_point c) = (j, i)) cs)"

definition count_points :: "(classified \<Rightarrow> bool) \<Rightarrow> classified list \<Rightarrow> nat" where
  "count_points P cs = length (filter P cs)"

definition fill_grid :: "xy \<Rightarrow> real \<Rightarrow> nat \<Rightarrow> nat \<Rightarrow> real \<Rightarrow> classified list \<Rightarrow> nat array" where
  "fill_grid lo res w h min_points cs = tabulate h w (\<lambda>j i.
     if truncated min_points \<le> int (count_in cl_obstacle lo res w h cs j i) then 100
     else if 0 < count_in cl_ground lo res w h cs j i then 0 else 255)"

definition grid_report :: "xy \<Rightarrow> real \<Rightarrow> nat \<Rightarrow> nat \<Rightarrow> nat array \<Rightarrow> bands \<Rightarrow> classified list \<Rightarrow> grid_result" where
  "grid_report lo res w h grid b cs =
     \<lparr>gr_resolution = res, gr_origin = lo, gr_width = w, gr_height = h, gr_occupied = count_value 100 grid,
       gr_free = count_value 0 grid, gr_unknown = count_value 255 grid, gr_total = length cs,
       gr_obstacle = count_points cl_obstacle cs, gr_ground = count_points cl_ground cs,
       gr_between = count_points (\<lambda>c. case cl_height c of None \<Rightarrow> False | Some v \<Rightarrow> \<not> cl_ground c \<and> v < obstacle_band_min b) cs,
       gr_above = count_points (\<lambda>c. case cl_height c of None \<Rightarrow> False | Some v \<Rightarrow> obstacle_band_max b < v) cs,
       gr_no_ground = count_points (\<lambda>c. cl_height c = None) cs\<rparr>"

definition selected :: "classified list \<Rightarrow> vec list" where
  "selected cs = map cl_point (filter (\<lambda>c. cl_ground c \<or> cl_obstacle c) cs)"

definition build_grid :: "classified list \<Rightarrow> real \<Rightarrow> real \<Rightarrow> bands \<Rightarrow> (nat array \<times> grid_result) result" where
  "build_grid cs res min_points b =
     (if res \<le> 0 \<or> selected cs = [] then Inl ValueError
      else let lo = lower_corner (selected cs); w = cells_x (selected cs) res; h = cells_y (selected cs) res in
        if MAX_CELLS < w * h then Inl ValueError
        else let grid = fill_grid lo res w h min_points cs in Inr (grid, grid_report lo res w h grid b cs))"

section \<open>Slope and step\<close>

definition ground_like :: "ground \<Rightarrow> bands \<Rightarrow> nat \<Rightarrow> nat \<Rightarrow> bool" where
  "ground_like g b j i = (case (gd_lowest g ! j ! i, gd_ground g ! j ! i) of
     (Some z, Some e) \<Rightarrow> z - e \<le> ground_band_max b | _ \<Rightarrow> False)"

definition surface :: "ground \<Rightarrow> bands \<Rightarrow> real option array" where
  "surface g b = tabulate (gd_height g) (gd_width g) (\<lambda>j i. if ground_like g b j i then gd_lowest g ! j ! i else None)"

fun slope_1d :: "real \<Rightarrow> real option \<Rightarrow> real option \<Rightarrow> real option \<Rightarrow> real option" where
  "slope_1d c z (Some a) (Some b) = Some ((a - b) / (2 * c))"
| "slope_1d c (Some z) (Some a) None = Some ((a - z) / c)"
| "slope_1d c (Some z) None (Some b) = Some ((z - b) / c)"
| "slope_1d c z a b = None"

definition or_zero :: "real option \<Rightarrow> real" where
  "or_zero x = (case x of None \<Rightarrow> 0 | Some v \<Rightarrow> v)"

fun higher_of :: "real option \<Rightarrow> real option \<Rightarrow> real option" where
  "higher_of None b = b"
| "higher_of a None = a"
| "higher_of (Some a) (Some b) = Some (max a b)"

record terrain_views =
  tv_slope :: "real option array"
  tv_step :: "real option array"

definition terrain :: "ground \<Rightarrow> bands \<Rightarrow> terrain_views" where
  "terrain g b =
     (let h = gd_height g; w = gd_width g; z = surface g b; c = gd_cell g; nb = (\<lambda>d j i. shifted h w z d j i) in
      \<lparr>tv_slope = tabulate h w (\<lambda>j i.
         let gx = slope_1d c (z ! j ! i) (nb (0, 1) j i) (nb (0, - 1) j i); gy = slope_1d c (z ! j ! i) (nb (1, 0) j i) (nb (- 1, 0) j i)
         in if ground_like g b j i \<and> (gx \<noteq> None \<or> gy \<noteq> None)
            then Some (arctan (sqrt ((or_zero gx)\<^sup>2 + (or_zero gy)\<^sup>2)) * 180 / pi) else None),
       tv_step = tabulate h w (\<lambda>j i. foldl (\<lambda>s d. case (z ! j ! i, nb d j i) of
           (Some a, Some n) \<Rightarrow> higher_of s (Some \<bar>a - n\<bar>) | _ \<Rightarrow> s) None [(0, 1), (0, - 1), (1, 0), (- 1, 0)])\<rparr>)"

section \<open>Thinned points and tiles\<close>

definition voxel_of :: "real \<Rightarrow> vec \<Rightarrow> int \<times> int \<times> int" where
  "voxel_of v p = (\<lfloor>fst p / v\<rfloor>, \<lfloor>fst (snd p) / v\<rfloor>, \<lfloor>snd (snd p) / v\<rfloor>)"

text \<open>The first point of each voxel, in the order of the points.\<close>

fun first_per :: "('a \<Rightarrow> 'b) \<Rightarrow> 'b list \<Rightarrow> 'a list \<Rightarrow> 'a list" where
  "first_per f seen [] = []"
| "first_per f seen (p # ps) = (if f p \<in> set seen then first_per f seen ps else p # first_per f (f p # seen) ps)"

definition voxel_thin :: "vec list \<Rightarrow> real \<Rightarrow> vec list result" where
  "voxel_thin pts voxel = (if \<not> 0 < voxel then Inl ValueError else Inr (first_per (voxel_of voxel) [] pts))"

definition tile_of :: "real \<Rightarrow> vec \<Rightarrow> int \<times> int" where
  "tile_of tile p = (\<lfloor>fst p / tile\<rfloor>, \<lfloor>fst (snd p) / tile\<rfloor>)"

record tile =
  tl_index :: "int \<times> int"
  tl_corner :: "int \<times> int" \<comment> \<open>what \<^verbatim>\<open>metadata.yaml\<close> says\<close>
  tl_points :: "vec list"

text \<open>\<^verbatim>\<open>np.unique\<close>: the tiles that have points, in the order of their indices.\<close>

definition write_tiles :: "vec list \<Rightarrow> real \<Rightarrow> tile list result" where
  "write_tiles pts tile =
     (if \<not> 0 < tile \<or> tile \<noteq> of_int (truncated tile) then Inl ValueError
      else let t = truncated tile in
        Inr (map (\<lambda>(i, j). \<lparr>tl_index = (i, j), tl_corner = (i * t, j * t), tl_points = filter (\<lambda>p. tile_of tile p = (i, j)) pts\<rparr>)
          (sorted_list_of_set (set (map (tile_of tile) pts)))))"


section \<open>Cells and points\<close>

definition in_box :: "xy \<Rightarrow> real \<Rightarrow> nat \<Rightarrow> nat \<Rightarrow> vec \<Rightarrow> bool" where
  "in_box lo sz j i p \<longleftrightarrow>
     fst lo + real i * sz \<le> fst p \<and> fst p < fst lo + (real i + 1) * sz
     \<and> snd lo + real j * sz \<le> fst (snd p) \<and> fst (snd p) < snd lo + (real j + 1) * sz"

lemma truncated_nonneg: "0 \<le> x \<Longrightarrow> truncated x = \<lfloor>x\<rfloor>"
  by (simp add: truncated_def)

lemma index_iff:
  assumes "0 < sz" "lo \<le> x" "x < lo + real n * sz"
  shows "clip_index (truncated ((x - lo) / sz)) n = i \<longleftrightarrow> lo + real i * sz \<le> x \<and> x < lo + (real i + 1) * sz"
proof -
  let ?q = "(x - lo) / sz"
  have q: "0 \<le> ?q" "?q < real n" using assms by (simp_all add: field_simps)
  then have "clip_index (truncated ?q) n = nat \<lfloor>?q\<rfloor>"
    by (simp add: clip_index_def truncated_nonneg) (smt (verit) floor_less_iff of_int_of_nat_eq zero_le_floor)
  also have "nat \<lfloor>?q\<rfloor> = i \<longleftrightarrow> \<lfloor>?q\<rfloor> = int i" using q by auto
  also have "\<dots> \<longleftrightarrow> real i \<le> ?q \<and> ?q < real i + 1" by (simp add: floor_eq_iff)
  also have "\<dots> \<longleftrightarrow> lo + real i * sz \<le> x \<and> x < lo + (real i + 1) * sz" using assms(1) by (simp add: field_simps)
  finally show ?thesis .
qed

lemma cell_of_iff:
  assumes "0 < sz" "in_grid lo sz w h p"
  shows "cell_of lo sz w h p = (j, i) \<longleftrightarrow> in_box lo sz j i p"
  using assms index_iff [OF assms(1), of "fst lo" "fst p" w i] index_iff [OF assms(1), of "snd lo" "fst (snd p)" h j]
  by (auto simp: cell_of_def in_grid_def in_box_def)

lemma in_grid_if_between:
  fixes lo hi x :: real
  assumes "0 < sz" "lo \<le> x" "x \<le> hi"
  shows "x < lo + real (nat \<lfloor>(hi - lo) / sz\<rfloor> + 1) * sz"
proof -
  have "0 \<le> (hi - lo) / sz" using assms by simp
  then have eq: "real (nat \<lfloor>(hi - lo) / sz\<rfloor> + 1) = of_int \<lfloor>(hi - lo) / sz\<rfloor> + 1" by simp
  have "(hi - lo) / sz < of_int \<lfloor>(hi - lo) / sz\<rfloor> + 1" by linarith
  then have "hi - lo < (of_int \<lfloor>(hi - lo) / sz\<rfloor> + 1) * sz" using assms(1) by (simp only: pos_divide_less_eq)
  then show ?thesis unfolding eq using assms(3) by linarith
qed

lemma build_grid_cases:
  assumes "build_grid cs res mp b = Inr (grid, r)"
  shows "0 < res" "gr_origin r = lower_corner (selected cs)" "gr_width r = cells_x (selected cs) res"
    "gr_height r = cells_y (selected cs) res" "grid = fill_grid (gr_origin r) res (gr_width r) (gr_height r) mp cs"
  using assms by (auto simp: build_grid_def Let_def grid_report_def split: if_split_asm)

text \<open>The grid is large enough: no point of the bands is left out of it.\<close>

lemma points_in_grid:
  assumes "0 < sz" "p \<in> set pts"
  shows "in_grid (lower_corner pts) sz (cells_x pts sz) (cells_y pts sz) p"
proof -
  have x: "fst (lower_corner pts) \<le> fst p" "fst p \<le> Max (set (map fst pts))"
    using assms(2) by (simp_all add: lower_corner_def)
  have "(fst \<circ> snd) p \<in> set (map (fst \<circ> snd) pts)" using assms(2) by simp
  then have y: "snd (lower_corner pts) \<le> fst (snd p)" "fst (snd p) \<le> Max (set (map (fst \<circ> snd) pts))"
    using Min_le [of "set (map (fst \<circ> snd) pts)"] Max_ge [of "set (map (fst \<circ> snd) pts)"] by (auto simp: lower_corner_def)
  show ?thesis unfolding in_grid_def cells_x_def cells_y_def
    using x y in_grid_if_between [OF assms(1) x] in_grid_if_between [OF assms(1) y] by blast
qed

lemma count_in_box:
  assumes "build_grid cs res mp b = Inr (grid, r)" "\<And>c. P c \<Longrightarrow> cl_ground c \<or> cl_obstacle c"
  shows "count_in P (gr_origin r) res (gr_width r) (gr_height r) cs j i = length (filter (\<lambda>c. P c \<and> in_box (gr_origin r) res j i (cl_point c)) cs)"
proof -
  note bg = build_grid_cases [OF assms(1)]
  have "P c \<and> in_grid (gr_origin r) res (gr_width r) (gr_height r) (cl_point c) \<and> cell_of (gr_origin r) res (gr_width r) (gr_height r) (cl_point c) = (j, i)
      \<longleftrightarrow> P c \<and> in_box (gr_origin r) res j i (cl_point c)" if "c \<in> set cs" for c
  proof (cases "P c")
    case True
    then have "cl_point c \<in> set (selected cs)" using that assms(2) by (auto simp: selected_def)
    from points_in_grid [OF bg(1) this]
    have g: "in_grid (gr_origin r) res (gr_width r) (gr_height r) (cl_point c)" by (simp add: bg(2-4))
    then show ?thesis using cell_of_iff [OF bg(1) g] by simp
  qed simp
  then show ?thesis unfolding count_in_def by (intro arg_cong [of _ _ length] filter_cong) simp_all
qed

text \<open>C18. Map conversion: in the grid of the obstacle band a cell is occupied if and only if at least the set number of obstacle
  points of the whole run lie in its square, else free if a ground point lies in it, else unknown; no point of
  the bands falls outside the grid.\<close>
theorem grid_counts_the_points:
  assumes "build_grid cs res mp b = Inr (grid, r)" "j < gr_height r" "i < gr_width r"
  shows "grid ! j ! i =
      (if truncated mp \<le> int (length (filter (\<lambda>c. cl_obstacle c \<and> in_box (gr_origin r) res j i (cl_point c)) cs)) then 100
       else if (\<exists>c \<in> set cs. cl_ground c \<and> in_box (gr_origin r) res j i (cl_point c)) then 0 else 255)
    \<and> (\<forall>c \<in> set cs. cl_ground c \<or> cl_obstacle c \<longrightarrow> in_grid (gr_origin r) res (gr_width r) (gr_height r) (cl_point c))"
proof -
  have o': "count_in cl_obstacle (gr_origin r) res (gr_width r) (gr_height r) cs j i
      = length (filter (\<lambda>c. cl_obstacle c \<and> in_box (gr_origin r) res j i (cl_point c)) cs)"
    and g': "count_in cl_ground (gr_origin r) res (gr_width r) (gr_height r) cs j i
      = length (filter (\<lambda>c. cl_ground c \<and> in_box (gr_origin r) res j i (cl_point c)) cs)"
    using count_in_box [OF assms(1)] by simp_all
  have "grid ! j ! i = (if truncated mp \<le> int (count_in cl_obstacle (gr_origin r) res (gr_width r) (gr_height r) cs j i) then 100
      else if 0 < count_in cl_ground (gr_origin r) res (gr_width r) (gr_height r) cs j i then 0 else 255)"
    by (subst build_grid_cases(5) [OF assms(1)]) (use assms(2, 3) in \<open>simp add: fill_grid_def\<close>)
  moreover have "in_grid (gr_origin r) res (gr_width r) (gr_height r) (cl_point c)" if "c \<in> set cs" "cl_ground c \<or> cl_obstacle c" for c
    using points_in_grid [of res "cl_point c" "selected cs"] build_grid_cases [OF assms(1)] that by (auto simp: selected_def)
  ultimately show ?thesis unfolding o' g' by (auto simp: filter_empty_conv)
qed


definition example_points :: "classified list" where
  "example_points =
     [\<lparr>cl_point = (0, 0, 0), cl_height = Some 0, cl_ground = True, cl_obstacle = False\<rparr>,
      \<lparr>cl_point = (1, 0, 1), cl_height = Some 1, cl_ground = False, cl_obstacle = True\<rparr>]"

definition example_bands :: bands where
  "example_bands = \<lparr>ground_band_max = 1/5, obstacle_band_min = 1/2, obstacle_band_max = 2\<rparr>"

lemma grid_counts_the_points_witness:
  "case build_grid example_points 1 1 example_bands of
     Inr (grid, r) \<Rightarrow> grid ! 0 ! 1 = (if truncated 1 \<le> int (length (filter (\<lambda>c. cl_obstacle c \<and> in_box (gr_origin r) 1 0 1 (cl_point c)) example_points)) then 100
       else if (\<exists>c \<in> set example_points. cl_ground c \<and> in_box (gr_origin r) 1 0 1 (cl_point c)) then 0 else 255)
   | Inl e \<Rightarrow> False"
proof -
  have "case build_grid example_points 1 1 example_bands of Inr (grid, r) \<Rightarrow> gr_width r = 2 \<and> gr_height r = 1 | Inl e \<Rightarrow> False"
    by (simp add: build_grid_def grid_report_def Let_def example_points_def selected_def lower_corner_def cells_x_def cells_y_def MAX_CELLS_def)
  then obtain grid r where g: "build_grid example_points 1 1 example_bands = Inr (grid, r)" and d: "gr_width r = 2" "gr_height r = 1"
    by (auto split: sum.split_asm)
  show ?thesis using grid_counts_the_points [OF g, of 0 1] d by (simp add: g)
qed

section \<open>The ground under the points\<close>

lemma lower_of_le: "lower_of (Some a) x = Some c \<Longrightarrow> c \<le> a"
  by (cases x) auto

lemma lower_of_Some: "\<exists>c \<le> a. lower_of (Some a) x = Some c"
  by (cases x) auto

lemma lower_of_cases: "lower_of x y = Some c \<Longrightarrow> x = Some c \<or> y = Some c"
  by (cases x; cases y) (auto simp: min_def split: if_split_asm)

lemma fold_lower_le:
  "\<exists>c \<le> a. foldl (\<lambda>v d. lower_of v (f d)) (Some a) ds = Some c"
proof (induction ds arbitrary: a)
  case (Cons d ds)
  obtain c where c: "c \<le> a" "lower_of (Some a) (f d) = Some c" using lower_of_Some by blast
  then show ?case using Cons.IH [of c] by fastforce
qed auto

lemma fold_lower_cases:
  "foldl (\<lambda>v d. lower_of v (f d)) x ds = Some c \<Longrightarrow> x = Some c \<or> (\<exists>d \<in> set ds. f d = Some c)"
proof (induction ds arbitrary: x)
  case (Cons d ds)
  then have "lower_of x (f d) = Some c \<or> (\<exists>d \<in> set ds. f d = Some c)" by simp
  then show ?case using lower_of_cases by fastforce
qed simp

lemma fold_lower_bound:
  assumes "d \<in> set ds" "f d = Some a"
  shows "\<exists>c \<le> a. foldl (\<lambda>v d. lower_of v (f d)) x ds = Some c"
  using assms
proof (induction ds arbitrary: x)
  case (Cons e es)
  show ?case
  proof (cases "d = e")
    case True
    then obtain c where "c \<le> a" "lower_of x (f e) = Some c" using Cons.prems by (cases x) (auto intro: min.cobounded2)
    then show ?thesis using fold_lower_le [of c f es] by fastforce
  qed (use Cons in simp)
qed simp

lemma sweeps_invariant:
  "P a \<Longrightarrow> (\<And>a. P a \<Longrightarrow> P (f a)) \<Longrightarrow> P (sweeps n f a)"
  by (induction n arbitrary: a) (simp_all add: Let_def)

text \<open>What every array of the relaxation satisfies: a cell with points has a height not above its lowest point, and a height
  is at least that of some lowest point.\<close>

definition envelope_ok :: "nat \<Rightarrow> nat \<Rightarrow> real option array \<Rightarrow> real option array \<Rightarrow> bool" where
  "envelope_ok h w zmin g \<longleftrightarrow> (\<forall>j < h. \<forall>i < w.
     (\<forall>z. zmin ! j ! i = Some z \<longrightarrow> (\<exists>e \<le> z. g ! j ! i = Some e))
     \<and> (\<forall>e. g ! j ! i = Some e \<longrightarrow> (\<exists>y < h. \<exists>x < w. \<exists>z \<le> e. zmin ! y ! x = Some z)))"

lemma hypot_nonneg: "0 \<le> hypot d"
  by (simp add: hypot_def)

lemma candidate_from:
  assumes "candidate h w rise g j i d = Some e" "0 \<le> rise"
  obtains y x v where "y < h" "x < w" "g ! y ! x = Some v" "v \<le> e"
proof -
  let ?y = "nat (int j + fst d)" and ?x = "nat (int i + snd d)"
  have v: "?y < h \<and> ?x < w \<and> (\<exists>v. g ! ?y ! ?x = Some v \<and> e = v + rise * hypot d)"
    using assms(1) by (auto simp: candidate_def shifted_def Let_def split: if_split_asm)
  have "0 \<le> rise * hypot d" using assms(2) hypot_nonneg by simp
  with v show ?thesis using that by auto
qed

lemma envelope_ok_sweep:
  assumes "envelope_ok h w zmin g" "0 \<le> rise" "\<And>j i. j < h \<Longrightarrow> i < w \<Longrightarrow> zmin ! j ! i \<noteq> None \<Longrightarrow> allowed j i"
  shows "envelope_ok h w zmin (sweep h w rise allowed g)"
  unfolding envelope_ok_def
proof (intro allI impI conjI)
  fix j i z assume "j < h" "i < w" "zmin ! j ! i = Some z"
  moreover from this obtain e where "e \<le> z" "g ! j ! i = Some e" using assms(1) unfolding envelope_ok_def by blast
  ultimately show "\<exists>e \<le> z. sweep h w rise allowed g ! j ! i = Some e"
    using assms(3) fold_lower_le [of e "candidate h w rise g j i" NEIGHBOURS] by (fastforce simp: sweep_def)
next
  fix j i e assume ji: "j < h" "i < w" and s: "sweep h w rise allowed g ! j ! i = Some e"
  then have "foldl (\<lambda>v d. lower_of v (candidate h w rise g j i d)) (g ! j ! i) NEIGHBOURS = Some e"
    by (simp add: sweep_def split: if_split_asm)
  then have "g ! j ! i = Some e \<or> (\<exists>d. candidate h w rise g j i d = Some e)" using fold_lower_cases by blast
  then obtain y x v where "y < h" "x < w" "g ! y ! x = Some v" "v \<le> e"
    using ji candidate_from [OF _ assms(2)] by (metis order_refl)
  then show "\<exists>y < h. \<exists>x < w. \<exists>z \<le> e. zmin ! y ! x = Some z"
    using assms(1) unfolding envelope_ok_def by (meson order_trans)
qed

lemma tan_rise:
  "0 < a \<Longrightarrow> a < pi / 2 \<Longrightarrow> 0 < c \<Longrightarrow> 0 \<le> tan a * c"
  using tan_gt_zero [of a] by simp

lemma envelope_ok_self: "envelope_ok h w z z"
  by (auto simp: envelope_ok_def)

lemma ground_envelope:
  assumes "estimate_ground pts cell slope fill = Inr g"
  shows "envelope_ok (gd_height g) (gd_width g) (gd_lowest g) (gd_ground g)"
proof -
  let ?a = "slope * pi / 180"
  have r: "0 \<le> tan ?a * cell" and eq: "gd_ground g = envelope (gd_height g) (gd_width g) cell ?a fill (gd_lowest g)"
    using assms tan_rise [of ?a cell] by (auto simp: estimate_ground_def Let_def split: if_split_asm)
  show ?thesis unfolding eq envelope_def
    by (rule sweeps_invariant) (auto intro!: envelope_ok_self envelope_ok_sweep [OF _ r] simp: allowed_cell_def)
qed


section \<open>Thinning keeps one point of each voxel\<close>

lemma first_per_subseq: "subseq (first_per f seen ps) ps"
  by (induction f seen ps rule: first_per.induct) auto

lemma first_per_keys:
  "distinct (map f (first_per f seen ps)) \<and> f ` set (first_per f seen ps) = f ` set ps - set seen"
  by (induction f seen ps rule: first_per.induct) auto

lemma first_per_first:
  assumes "p \<in> set (first_per f seen ps)"
  obtains us vs where "ps = us @ p # vs" "f p \<notin> f ` set us" "f p \<notin> set seen"
  using assms
proof (induction ps arbitrary: seen thesis)
  case (Cons q ps)
  show ?case
  proof (cases "f q \<notin> set seen \<and> p = q")
    case True
    then show ?thesis using Cons.prems(1) [of "[]" ps] by simp
  next
    case False
    let ?seen = "if f q \<in> set seen then seen else f q # seen"
    have "p \<in> set (first_per f ?seen ps)" using False Cons.prems(2) by (auto split: if_split_asm)
    then obtain us vs where "ps = us @ p # vs" "f p \<notin> f ` set us" "f p \<notin> set ?seen" by (rule Cons.IH [rotated])
    moreover from this have "f p \<noteq> f q" by (cases "f q \<in> set seen") auto
    ultimately show ?thesis using Cons.prems(1) [of "q # us" vs] by (auto split: if_split_asm)
  qed
qed simp

text \<open>Each point stays once in the tile of its voxel; nothing is invented.\<close>

lemma voxel_thin_keeps_one_per_voxel:
  assumes "voxel_thin pts v = Inr thin"
  shows "distinct (map (voxel_of v) thin)" "voxel_of v ` set thin = voxel_of v ` set pts" "subseq thin pts"
  using assms first_per_keys [of "voxel_of v" "[]" pts] first_per_subseq [of "voxel_of v" "[]" pts]
  by (auto simp: voxel_thin_def split: if_split_asm)

section \<open>The tiles hold the points\<close>

lemma filter_keys_mset:
  assumes "distinct ks" "f ` set ps \<subseteq> set ks"
  shows "mset (concat (map (\<lambda>k. filter (\<lambda>p. f p = k) ps) ks)) = mset ps"
  using assms(2)
proof (induction ps)
  case (Cons p ps)
  then obtain us vs where ks: "ks = us @ f p # vs" by (auto dest: split_list)
  then have ne: "f p \<notin> set us" "f p \<notin> set vs" using assms(1) by auto
  define F where "F = (\<lambda>ps k. filter (\<lambda>q. f q = k) ps)"
  have F: "F (p # ps) k = (if f p = k then p # F ps k else F ps k)" for k by (simp add: F_def)
  have eq: "map (F (p # ps)) us = map (F ps) us" "map (F (p # ps)) vs = map (F ps) vs" using ne F by (auto intro!: map_cong)
  have "mset (concat (map (F (p # ps)) ks)) = add_mset p (mset (concat (map (F ps) ks)))"
    unfolding ks map_append list.map concat_append concat.simps eq F [of "f p"] by simp
  then show ?case using Cons by (simp add: F_def)
qed simp

lemma floor_tile:
  assumes "0 < t"
  shows "of_int (\<lfloor>x / t\<rfloor>) * t \<le> x \<and> x < (of_int \<lfloor>x / t\<rfloor> + 1) * t"
proof -
  have "of_int \<lfloor>x / t\<rfloor> \<le> x / t" "x / t < of_int \<lfloor>x / t\<rfloor> + 1" by linarith+
  then show ?thesis using assms by (simp only: pos_le_divide_eq pos_divide_less_eq)
qed

definition in_tile :: "real \<Rightarrow> tile \<Rightarrow> vec \<Rightarrow> bool" where
  "in_tile sz t p \<longleftrightarrow>
     of_int (fst (tl_corner t)) \<le> fst p \<and> fst p < of_int (fst (tl_corner t)) + sz
     \<and> of_int (snd (tl_corner t)) \<le> fst (snd p) \<and> fst (snd p) < of_int (snd (tl_corner t)) + sz"

text \<open>C19. Map conversion: the tiles of the point map hold every point exactly once.  Each point lies in the square that
  the metadata gives for the corner of its tile, which are whole numbers, and no tile is empty or written twice.\<close>
theorem tiles_hold_the_points:
  assumes "write_tiles pts sz = Inr ts"
  shows "mset (concat (map tl_points ts)) = mset pts \<and> distinct (map tl_index ts)
    \<and> (\<forall>t \<in> set ts. tl_points t \<noteq> [] \<and> (\<forall>p \<in> set (tl_points t). in_tile sz t p))"
proof -
  let ?ks = "sorted_list_of_set (set (map (tile_of sz) pts))"
  let ?t = "\<lambda>k. \<lparr>tl_index = k, tl_corner = (fst k * truncated sz, snd k * truncated sz), tl_points = filter (\<lambda>p. tile_of sz p = k) pts\<rparr>"
  have sz: "0 < sz" "sz = of_int (truncated sz)" and ts: "ts = map ?t ?ks"
    using assms by (auto simp: write_tiles_def Let_def case_prod_beta split: if_split_asm)
  have "mset (concat (map tl_points ts)) = mset pts"
    using filter_keys_mset [of ?ks "tile_of sz" pts] by (simp add: ts comp_def)
  moreover have "distinct (map tl_index ts)" by (simp add: ts comp_def)
  moreover have "tl_points t \<noteq> []" if "t \<in> set ts" for t using that by (auto simp: ts filter_empty_conv)
  moreover have "in_tile sz t p" if t: "t \<in> set ts" and p: "p \<in> set (tl_points t)" for t p
  proof -
    have "tl_corner t = (\<lfloor>fst p / sz\<rfloor> * truncated sz, \<lfloor>fst (snd p) / sz\<rfloor> * truncated sz)"
      using t p by (auto simp: ts tile_of_def)
    then have "of_int (fst (tl_corner t)) = of_int \<lfloor>fst p / sz\<rfloor> * sz" "of_int (snd (tl_corner t)) = of_int \<lfloor>fst (snd p) / sz\<rfloor> * sz"
      using sz(2) by (metis fst_conv of_int_mult, metis snd_conv of_int_mult)
    then show ?thesis using floor_tile [OF sz(1), of "fst p"] floor_tile [OF sz(1), of "fst (snd p)"]
      by (simp add: in_tile_def distrib_right)
  qed
  ultimately show ?thesis by blast
qed

lemma tiles_hold_the_points_witness:
  "\<exists>ts. write_tiles [(1, 1, 0), (25, - 3, 1)] 20 = Inr ts \<and> mset (concat (map tl_points ts)) = {#(1, 1, 0), (25, - 3, 1)#}"
proof -
  obtain ts where t: "write_tiles [(1, 1, 0), (25, - 3, 1)] 20 = Inr ts"
    by (simp add: write_tiles_def truncated_def)
  with tiles_hold_the_points [OF t] show ?thesis by simp
qed

end
