(* ===== verification/Map_Convert.thy ===== *)
theory Map_Convert
  imports Map_Points
begin

text \<open>
  The files of \<^verbatim>\<open>gouda_core/map_convert.py\<close> (ND-05): the map written for Nav2 and how its check reads it back,
  the dump of the mapping run, and the conversion as a whole.  \<open>fl\<close> is the number a text spells (\<^verbatim>\<open>float\<close>; infinity and
  NaN are not modelled), \<open>pint\<close> the integer, \<open>show_num\<close> the text of a float, \<open>f32\<close> the float of four bytes.
  The pictures for the display are not kept.
\<close>

section \<open>The files of a map\<close>

definition pixel_of :: "nat \<Rightarrow> byte" where
  "pixel_of v = (if v = 0 then 254 else if v = 100 then 0 else 205)"

definition map_pgm :: "nat array \<Rightarrow> grid_result \<Rightarrow> bytes" where
  "map_pgm grid r = pgm_header (gr_width r) (gr_height r) @ concat (map (map pixel_of) (rev grid))"

definition unlines :: "string list \<Rightarrow> string" where
  "unlines ls = concat (map (\<lambda>l. l @ [CHR 0x0A]) ls)"

definition map_yaml :: "(real \<Rightarrow> string) \<Rightarrow> grid_result \<Rightarrow> string \<Rightarrow> string" where
  "map_yaml show_num r name = unlines
     [''image: '' @ name @ ''.pgm'', ''mode: trinary'', ''resolution: '' @ show_num (gr_resolution r),
      ''origin: ['' @ show_num (fst (gr_origin r)) @ '', '' @ show_num (snd (gr_origin r)) @ '', 0.0]'',
      ''negate: 0'', ''occupied_thresh: 0.65'', ''free_thresh: 0.196'']"

text \<open>\<^verbatim>\<open>outside_free\<close>: the lines with a colon as a dictionary.\<close>

definition entry_of :: "string \<Rightarrow> (string \<times> string) option" where
  "entry_of line = (if CHR '':'' \<in> set line
     then Some (strip (takeWhile (\<lambda>c. c \<noteq> CHR '':'') line), strip (tl (dropWhile (\<lambda>c. c \<noteq> CHR '':'') line))) else None)"

definition meta_of :: "string \<Rightarrow> (string \<times> string) list" where
  "meta_of yaml = rev (List.map_filter entry_of (splitlines yaml))"

definition strip_chars :: "char set \<Rightarrow> string \<Rightarrow> string" where
  "strip_chars cs s = rev (dropWhile (\<lambda>c. c \<in> cs) (rev (dropWhile (\<lambda>c. c \<in> cs) s)))"

definition float_of :: "(string \<Rightarrow> real option) \<Rightarrow> string \<Rightarrow> real result" where
  "float_of fl s = (case fl (strip s) of None \<Rightarrow> Inl ValueError | Some x \<Rightarrow> Inr x)"

definition meta_item :: "(string \<times> string) list \<Rightarrow> string \<Rightarrow> string result" where
  "meta_item meta k = (case map_of meta k of None \<Rightarrow> Inl KeyError | Some v \<Rightarrow> Inr v)"

text \<open>\<^verbatim>\<open>raw.split(b'\n', 3)\<close>, and \<^verbatim>\<open>split()\<close> of bytes.\<close>

fun split_lines :: "nat \<Rightarrow> bytes \<Rightarrow> bytes list" where
  "split_lines 0 b = [b]"
| "split_lines (Suc n) b = (if 0x0A \<in> set b
     then takeWhile (\<lambda>c. c \<noteq> 0x0A) b # split_lines n (tl (dropWhile (\<lambda>c. c \<noteq> 0x0A) b)) else [b])"

fun byte_words :: "bytes \<Rightarrow> bytes list" where
  "byte_words [] = []"
| "byte_words (c # b) =
     (if is_space c then byte_words b
      else if b = [] \<or> is_space (hd b) then [c] # byte_words b
      else (case byte_words b of [] \<Rightarrow> [[c]] | w # ws \<Rightarrow> (c # w) # ws))"

definition read_size :: "(bytes \<Rightarrow> int option) \<Rightarrow> bytes list \<Rightarrow> (int \<times> int) result" where
  "read_size other head =
     (if length head < 2 then Inl IndexError
      else case map (parse_int other) (byte_words (head ! 1)) of
        [Some w, Some h] \<Rightarrow> Inr (w, h) | _ \<Rightarrow> Inl ValueError)"

text \<open>The image from its lowest row up; a size that does not fit raises.\<close>

definition read_image :: "int \<times> int \<Rightarrow> bytes list \<Rightarrow> byte array result" where
  "read_image wh head =
     (if length head < 4 then Inl IndexError
      else if fst wh < 0 \<or> snd wh < 0 \<or> int (length (head ! 3)) \<noteq> fst wh * snd wh then Inl ValueError
      else Inr (rev (map (\<lambda>j. take (nat (fst wh)) (drop (j * nat (fst wh)) (head ! 3))) [0 ..< nat (snd wh)])))"

definition off_free :: "real \<Rightarrow> real \<Rightarrow> real \<Rightarrow> int \<times> int \<Rightarrow> byte array \<Rightarrow> xy \<Rightarrow> bool" where
  "off_free res ox oy' wh img p =
     (let ix = \<lfloor>(fst p - ox) / res\<rfloor>; iy = \<lfloor>(snd p - oy') / res\<rfloor> in
      \<not> (0 \<le> ix \<and> ix < fst wh \<and> 0 \<le> iy \<and> iy < snd wh) \<or> img ! nat iy ! nat ix \<noteq> 254)"

definition outside_free ::
  "(string \<Rightarrow> real option) \<Rightarrow> (bytes \<Rightarrow> int option) \<Rightarrow> (string \<Rightarrow> bytes option) \<Rightarrow> string \<Rightarrow> xy list \<Rightarrow> (nat \<times> xy) list result" where
  "outside_free fl other files yaml points =
     (let meta = meta_of yaml in
      res_bind (meta_item meta ''resolution'') (\<lambda>rt. res_bind (float_of fl rt) (\<lambda>res.
      res_bind (meta_item meta ''origin'') (\<lambda>ot. res_bind (res_map (float_of fl) (take 2 (split_on CHR '','' (strip_chars {CHR ''['', CHR '']''} ot)))) (\<lambda>o'.
        if length o' \<noteq> 2 then Inl ValueError
        else case files (case map_of meta ''image'' of None \<Rightarrow> ''map.pgm'' | Some f \<Rightarrow> f) of
          None \<Rightarrow> Inl OSError
        | Some raw \<Rightarrow> (let head = split_lines 3 raw in
            res_bind (read_size other head) (\<lambda>wh. res_bind (read_image wh head) (\<lambda>img.
              if res = 0 \<and> points \<noteq> [] then Inl ZeroDivisionError
              else Inr (filter (\<lambda>(i, p). off_free res (o' ! 0) (o' ! 1) wh img p) (enumerate 0 points)))))))))) "

section \<open>The dump of the mapping run\<close>

record submap =
  sm_id :: int
  sm_matrix :: "real list list"
  sm_points :: "vec list"

record submap_files =
  sf_data :: string
  sf_points :: "bytes option"

fun parse_rows :: "(string \<Rightarrow> real option) \<Rightarrow> nat \<Rightarrow> string list \<Rightarrow> real list list result" where
  "parse_rows fl 0 ls = Inr []"
| "parse_rows fl (Suc n) [] = Inl IndexError"
| "parse_rows fl (Suc n) (l # ls) = (case those (map fl (split_ws l)) of
     None \<Rightarrow> Inl ValueError
   | Some row \<Rightarrow> res_bind (parse_rows fl n ls) (\<lambda>rows. Inr (row # rows)))"

definition parse_matrix :: "(string \<Rightarrow> real option) \<Rightarrow> string list \<Rightarrow> real list list result" where
  "parse_matrix fl ls = res_bind (parse_rows fl 4 ls) (\<lambda>rows.
     if list_all (\<lambda>r. length r = length (hd rows)) rows then Inr rows else Inl ValueError)"

fun scan_data :: "(string \<Rightarrow> real option) \<Rightarrow> (string \<Rightarrow> int option) \<Rightarrow> int option \<Rightarrow> real list list option \<Rightarrow> string list
    \<Rightarrow> (int option \<times> real list list option) result" where
  "scan_data fl pint sid t [] = Inr (sid, t)"
| "scan_data fl pint sid t (l # ls) =
     res_bind (if startswith l ''id:'' \<and> sid = None
               then (case pint (strip (tl (dropWhile (\<lambda>c. c \<noteq> CHR '':'') l))) of None \<Rightarrow> Inl ValueError | Some i \<Rightarrow> Inr (Some i)) else Inr sid)
       (\<lambda>sid. res_bind (if startswith l ''T_world_origin:'' then res_bind (parse_matrix fl ls) (\<lambda>m. Inr (Some m)) else Inr t)
       (\<lambda>t. scan_data fl pint sid t ls))"

fun decode_points :: "(bytes \<Rightarrow> xfloat) \<Rightarrow> nat \<Rightarrow> bytes \<Rightarrow> vec option list" where
  "decode_points f32 0 b = []"
| "decode_points f32 (Suc n) b = (case (f32 (take 4 b), f32 (take 4 (drop 4 b)), f32 (take 4 (drop 8 b))) of
     (Fin x, Fin y, Fin z) \<Rightarrow> Some (x, y, z) | _ \<Rightarrow> None) # decode_points f32 n (drop 12 b)"

definition read_submap :: "(string \<Rightarrow> real option) \<Rightarrow> (string \<Rightarrow> int option) \<Rightarrow> (bytes \<Rightarrow> xfloat) \<Rightarrow> submap_files \<Rightarrow> submap result" where
  "read_submap fl pint f32 fs = res_bind (scan_data fl pint None None (splitlines (sf_data fs))) (\<lambda>(sid, t).
     case (sid, t, sf_points fs) of
       (Some i, Some m, Some raw) \<Rightarrow>
         if length raw mod 12 \<noteq> 0 then Inl ValueError
         else (case those (decode_points f32 (length raw div 12) raw) of
             None \<Rightarrow> Inl ValueError | Some pts \<Rightarrow> Inr \<lparr>sm_id = i, sm_matrix = m, sm_points = pts\<rparr>)
     | _ \<Rightarrow> Inl ValueError)"

definition submap_dir :: "string \<Rightarrow> bool" where
  "submap_dir s \<longleftrightarrow> length s = 6 \<and> list_all (\<lambda>c. c \<in> set ''0123456789'') s"

text \<open>A dump: its directories in the order of their names, and the trajectory when it is there.\<close>

record dump =
  dp_dirs :: "(string \<times> submap_files) list"
  dp_trajectory :: "string option"

definition read_dump :: "(string \<Rightarrow> real option) \<Rightarrow> (string \<Rightarrow> int option) \<Rightarrow> (bytes \<Rightarrow> xfloat) \<Rightarrow> dump \<Rightarrow> submap list result" where
  "read_dump fl pint f32 d =
     (let subs = filter (\<lambda>x. submap_dir (fst x)) (dp_dirs d) in
      if subs = [] then Inl ValueError else res_map (\<lambda>x. read_submap fl pint f32 (snd x)) subs)"

definition row_point :: "vec \<Rightarrow> real list \<Rightarrow> real" where
  "row_point p r = fst p * r ! 0 + fst (snd p) * r ! 1 + snd (snd p) * r ! 2 + r ! 3"

definition map_points :: "submap \<Rightarrow> vec list result" where
  "map_points s =
     (let m = sm_matrix s; n = length (hd m) in
      if n < 3 then Inl ValueError else if n = 3 then Inl IndexError
      else Inr (map (\<lambda>p. (row_point p (m ! 0), row_point p (m ! 1), row_point p (m ! 2))) (sm_points s)))"

definition world_points :: "submap list \<Rightarrow> vec list result" where
  "world_points ss = res_bind (res_map map_points (filter (\<lambda>s. sm_points s \<noteq> []) ss)) (\<lambda>ps.
     if ps = [] then Inl ValueError else Inr (concat ps))"

section \<open>The conversion\<close>

type_synonym conv_settings = "string \<Rightarrow> real option"

definition SETTING_KEYS :: "string list" where
  "SETTING_KEYS = [''map_resolution_m'', ''ground_band_max_m'', ''obstacle_band_min_m'', ''obstacle_band_max_m'', ''occupied_min_points'',
     ''ground_cell_m'', ''ground_max_slope_deg'', ''ground_fill_radius_m'']"

definition required :: "conv_settings \<Rightarrow> (string \<Rightarrow> real) result" where
  "required s = (if list_ex (\<lambda>k. s k = None) SETTING_KEYS then Inl ValueError else Inr (\<lambda>k. the (s k)))"

datatype corridor = Not_made | Made "nat array" grid_result "(nat \<times> nat) list" "(nat \<times> real) list"

definition swept_corridor :: "(string \<Rightarrow> real option) \<Rightarrow> dump \<Rightarrow> conv_settings \<Rightarrow> real \<Rightarrow> config option \<Rightarrow> corridor result" where
  "swept_corridor fl d s res mount = (case (s ''corridor_half_width_m'', s ''corridor_gap_m'') of
     (Some half, Some gap) \<Rightarrow>
       (let traj = (case dp_trajectory d of None \<Rightarrow> [] | Some text \<Rightarrow> read_trajectory fl text) in
        if traj = [] then Inr Not_made
        else case mount of
          None \<Rightarrow> Inr Not_made
        | Some values \<Rightarrow>
            (let (r, t, _, _) = sensor_pose values ''imu''; ps = base_path traj r t in
             res_bind (split_at_gaps ps gap) (\<lambda>(pieces, gaps). res_bind (corridor_grid ps pieces half res) (\<lambda>(grid, g).
               Inr (Made grid g pieces gaps)))))
   | _ \<Rightarrow> Inr Not_made)"

text \<open>Where the vehicle stood when the mapping stopped, from a converted revision; nothing without a trajectory or a mounting.\<close>

definition mapping_end_pose_of ::
  "(real \<Rightarrow> real \<Rightarrow> real) \<Rightarrow> (string \<Rightarrow> real option) \<Rightarrow> string option \<Rightarrow> config option \<Rightarrow> (end_pose \<times> string list \<times> axes_problem list) option" where
  "mapping_end_pose_of atan2 fl trajectory mount =
     (let traj = (case trajectory of None \<Rightarrow> [] | Some tr \<Rightarrow> read_trajectory fl tr) in
      case mount of
        None \<Rightarrow> None
      | Some m \<Rightarrow> (let (r, t, defaulted, problems) = sensor_pose m ''imu'' in
          map_option (\<lambda>p. (p, defaulted, problems)) (mapping_end_pose atan2 traj r t)))"

record conversion =
  cv_pgm :: bytes
  cv_yaml :: string
  cv_band_pgm :: bytes
  cv_band_yaml :: string
  cv_points :: "vec list"
  cv_terrain :: terrain_views
  cv_tiles :: "tile list option"
  cv_trajectory :: "string option"
  cv_corridor :: grid_result
  cv_band :: grid_result
  cv_submaps :: nat
  cv_pieces :: nat
  cv_not_joined :: nat

definition tiles_of :: "conv_settings \<Rightarrow> vec list \<Rightarrow> tile list option result" where
  "tiles_of s pts = (case (s ''pointmap_voxel_m'', s ''pointmap_tile_m'') of
     (Some v, Some t) \<Rightarrow> res_bind (voxel_thin pts v) (\<lambda>thin. res_bind (write_tiles thin t) (\<lambda>ts. Inr (Some ts)))
   | _ \<Rightarrow> Inr None)"

text \<open>What is made once the corridor is there.\<close>

definition products ::
  "(real \<Rightarrow> string) \<Rightarrow> dump \<Rightarrow> conv_settings \<Rightarrow> (string \<Rightarrow> real) \<Rightarrow> submap list \<Rightarrow> vec list \<Rightarrow> nat array \<Rightarrow> grid_result
    \<Rightarrow> (nat \<times> nat) list \<Rightarrow> (nat \<times> real) list \<Rightarrow> conversion result" where
  "products show_num d settings s subs pts grid g pieces gaps =
     (let b = \<lparr>ground_band_max = s ''ground_band_max_m'', obstacle_band_min = s ''obstacle_band_min_m'',
               obstacle_band_max = s ''obstacle_band_max_m''\<rparr> in
      res_bind (estimate_ground pts (s ''ground_cell_m'') (s ''ground_max_slope_deg'') (s ''ground_fill_radius_m'')) (\<lambda>gd.
      res_bind (build_grid (classify gd b pts) (s ''map_resolution_m'') (s ''occupied_min_points'') b) (\<lambda>(band, bg).
      res_bind (tiles_of settings pts) (\<lambda>tiles.
        Inr \<lparr>cv_pgm = map_pgm grid g, cv_yaml = map_yaml show_num g ''map'', cv_band_pgm = map_pgm band bg,
             cv_band_yaml = map_yaml show_num bg ''map_ground_band'', cv_points = pts, cv_terrain = terrain gd b, cv_tiles = tiles,
             cv_trajectory = (case dp_trajectory d of Some t \<Rightarrow> if t = [] then None else Some t | None \<Rightarrow> None),
             cv_corridor = g, cv_band = bg, cv_submaps = length subs, cv_pieces = length pieces, cv_not_joined = length gaps\<rparr>))))"

definition convert ::
  "(string \<Rightarrow> real option) \<Rightarrow> (string \<Rightarrow> int option) \<Rightarrow> (bytes \<Rightarrow> xfloat) \<Rightarrow> (real \<Rightarrow> string) \<Rightarrow> dump \<Rightarrow> conv_settings \<Rightarrow> config option
    \<Rightarrow> conversion result" where
  "convert fl pint f32 show_num d settings mount =
     res_bind (required settings) (\<lambda>s. res_bind (read_dump fl pint f32 d) (\<lambda>subs. res_bind (world_points subs) (\<lambda>pts.
     res_bind (swept_corridor fl d settings (s ''map_resolution_m'') mount) (\<lambda>c. case c of
       Not_made \<Rightarrow> Inl ValueError
     | Made grid g pieces gaps \<Rightarrow> products show_num d settings s subs pts grid g pieces gaps))))"

section \<open>Text\<close>

lemma splitlines_line: "\<forall>c \<in> set l. \<not> line_end c \<Longrightarrow> splitlines (l @ CHR 0x0A # s) = l # splitlines s"
  by (induction l) (simp_all add: line_end_def)

lemma splitlines_unlines: "\<forall>l \<in> set ls. \<forall>c \<in> set l. \<not> line_end c \<Longrightarrow> splitlines (unlines ls) = ls"
  by (induction ls) (simp_all add: unlines_def splitlines_line)

lemma strip_id: "s \<noteq> [] \<Longrightarrow> \<not> white (hd s) \<Longrightarrow> \<not> white (last s) \<Longrightarrow> strip s = s"
proof -
  assume s: "s \<noteq> []" "\<not> white (hd s)" "\<not> white (last s)"
  then have "lstrip s = s" by (cases s) (simp_all add: lstrip_def)
  moreover have "lstrip (rev s) = rev s" using s by (cases s rule: rev_cases) (simp_all add: lstrip_def)
  ultimately show ?thesis by (simp add: strip_def)
qed

lemma strip_space: "strip (CHR '' '' # s) = strip s"
  by (simp add: strip_def lstrip_def white_def)

lemma strip_chars_ends:
  assumes "c \<in> cs" "d \<in> cs" "s \<noteq> []" "hd s \<notin> cs" "last s \<notin> cs"
  shows "strip_chars cs (c # s @ [d]) = s"
proof -
  have "dropWhile (\<lambda>c. c \<in> cs) (c # s @ [d]) = s @ [d]" using assms by (cases s) simp_all
  moreover have "dropWhile (\<lambda>c. c \<in> cs) (rev (s @ [d])) = rev s" using assms by (cases s rule: rev_cases) simp_all
  ultimately show ?thesis by (simp only: strip_chars_def rev_rev_ident)
qed

lemma split_on_append: "d \<notin> set a \<Longrightarrow> split_on d (a @ d # s) = a # split_on d s"
  by (induction a) auto

lemma split_on_single: "d \<notin> set a \<Longrightarrow> split_on d a = [a]"
  by (induction a) auto

text \<open>A float whose text is its digits, sign, point and exponent, and reads back as it was.\<close>

definition number_text :: "(real \<Rightarrow> string) \<Rightarrow> (string \<Rightarrow> real option) \<Rightarrow> real \<Rightarrow> bool" where
  "number_text show_num fl x \<longleftrightarrow> show_num x \<noteq> [] \<and> set (show_num x) \<subseteq> set ''0123456789.e+-'' \<and> fl (show_num x) = Some x"

lemma number_chars:
  assumes "number_text show_num fl x" "c \<in> set (show_num x)"
  shows "\<not> line_end c" "\<not> white c" "c \<noteq> CHR '':''" "c \<noteq> CHR '',''" "c \<noteq> CHR ''[''" "c \<noteq> CHR '']''"
proof -
  have "list_all (\<lambda>c. \<not> line_end c \<and> \<not> white c \<and> c \<noteq> CHR '':'' \<and> c \<noteq> CHR '','' \<and> c \<noteq> CHR ''['' \<and> c \<noteq> CHR '']'') ''0123456789.e+-''"
    by code_simp
  moreover have "c \<in> set ''0123456789.e+-''" using assms unfolding number_text_def by blast
  ultimately show "\<not> line_end c" "\<not> white c" "c \<noteq> CHR '':''" "c \<noteq> CHR '',''" "c \<noteq> CHR ''[''" "c \<noteq> CHR '']''"
    unfolding list_all_iff by blast+
qed

lemma number_strip:
  assumes "number_text show_num fl x"
  shows "strip (show_num x) = show_num x" "float_of fl (show_num x) = Inr x" "float_of fl (CHR '' '' # show_num x) = Inr x"
proof -
  have ne: "show_num x \<noteq> []" using assms by (simp add: number_text_def)
  show s: "strip (show_num x) = show_num x"
    using number_chars(2) [OF assms] hd_in_set [OF ne] last_in_set [OF ne] by (intro strip_id ne) blast+
  show "float_of fl (show_num x) = Inr x" "float_of fl (CHR '' '' # show_num x) = Inr x"
    using assms by (simp_all add: float_of_def strip_space s number_text_def)
qed

definition numbers_ok :: "(real \<Rightarrow> string) \<Rightarrow> (string \<Rightarrow> real option) \<Rightarrow> grid_result \<Rightarrow> bool" where
  "numbers_ok show_num fl r \<longleftrightarrow> number_text show_num fl (gr_resolution r)
     \<and> number_text show_num fl (fst (gr_origin r)) \<and> number_text show_num fl (snd (gr_origin r))"

definition origin_text :: "(real \<Rightarrow> string) \<Rightarrow> grid_result \<Rightarrow> string" where
  "origin_text show_num r = show_num (fst (gr_origin r)) @ '', '' @ show_num (snd (gr_origin r)) @ '', 0.0''"

lemma map_yaml_lines:
  assumes "numbers_ok show_num fl r"
  shows "splitlines (map_yaml show_num r ''map'') =
    [''image: map.pgm'', ''mode: trinary'', ''resolution: '' @ show_num (gr_resolution r), ''origin: ['' @ origin_text show_num r @ '']'',
     ''negate: 0'', ''occupied_thresh: 0.65'', ''free_thresh: 0.196'']"
  unfolding map_yaml_def
  by (subst splitlines_unlines)
     (use assms number_chars(1) in \<open>auto simp: numbers_ok_def origin_text_def line_end_def\<close>)

lemma map_yaml_meta:
  assumes "numbers_ok show_num fl r"
  shows "map_of (meta_of (map_yaml show_num r ''map'')) ''resolution'' = Some (show_num (gr_resolution r))"
    "map_of (meta_of (map_yaml show_num r ''map'')) ''origin'' = Some (''['' @ origin_text show_num r @ '']'')"
    "map_of (meta_of (map_yaml show_num r ''map'')) ''image'' = Some ''map.pgm''"
proof -
  have s: "strip (show_num (gr_resolution r)) = show_num (gr_resolution r)"
    using assms number_strip(1) [of show_num fl "gr_resolution r"] by (simp add: numbers_ok_def)
  have o': "strip (''['' @ origin_text show_num r @ '']'') = ''['' @ origin_text show_num r @ '']''"
    by (rule strip_id) (simp_all add: white_def)
  show "map_of (meta_of (map_yaml show_num r ''map'')) ''resolution'' = Some (show_num (gr_resolution r))"
    "map_of (meta_of (map_yaml show_num r ''map'')) ''origin'' = Some (''['' @ origin_text show_num r @ '']'')"
    "map_of (meta_of (map_yaml show_num r ''map'')) ''image'' = Some ''map.pgm''"
    using o' by (simp_all add: meta_of_def map_yaml_lines [OF assms] map_filter_simps entry_of_def strip_space s,
      simp_all add: strip_def lstrip_def white_def)
qed


section \<open>Bytes\<close>

lemma split_lines_line: "0x0A \<notin> set a \<Longrightarrow> split_lines (Suc n) (a @ 0x0A # r) = a # split_lines n r"
proof -
  assume "0x0A \<notin> set a"
  then have "takeWhile (\<lambda>c. c \<noteq> 0x0A) (a @ 0x0A # r) = a" "dropWhile (\<lambda>c. c \<noteq> 0x0A) (a @ 0x0A # r) = 0x0A # r"
    by (induction a) auto
  then show ?thesis by simp
qed

lemma decimal_plain: "c \<in> set (decimal n) \<Longrightarrow> \<not> is_space c"
  using decimal_digits [of n] by (auto simp: list_all_iff digit_not_space)

lemma decimal_no_newline: "0x0A \<notin> set (decimal n)"
  using decimal_plain [of "0x0A" n] by (auto simp: is_space_def)

lemma byte_words_word:
  "a \<noteq> [] \<Longrightarrow> \<forall>c \<in> set a. \<not> is_space c \<Longrightarrow> is_space s \<Longrightarrow> byte_words (a @ s # r) = a # byte_words r"
proof (induction a)
  case (Cons c a)
  then show ?case by (cases a) simp_all
qed simp

lemma byte_words_last: "a \<noteq> [] \<Longrightarrow> \<forall>c \<in> set a. \<not> is_space c \<Longrightarrow> byte_words a = [a]"
proof (induction a)
  case (Cons c a)
  then show ?case by (cases a) simp_all
qed simp

lemma pgm_header_lines:
  "split_lines 3 (pgm_header w h @ data) = [[0x50, 0x35], decimal w @ [0x20] @ decimal h, decimal 255, data]"
proof -
  have eq: "pgm_header w h @ data = [0x50, 0x35] @ 0x0A # (decimal w @ [0x20] @ decimal h) @ 0x0A # decimal 255 @ 0x0A # data"
    by (simp add: pgm_header_def)
  have plain: "0x0A \<notin> set ([0x50, 0x35] :: bytes)" "0x0A \<notin> set (decimal w @ [0x20] @ decimal h)" "0x0A \<notin> set (decimal 255)"
    using decimal_no_newline by auto
  show ?thesis
    unfolding eq numeral_3_eq_3 plain [THEN split_lines_line] split_lines.simps(1) by (rule refl)
qed

lemma header_size: "read_size other (split_lines 3 (pgm_header w h @ data)) = Inr (int w, int h)"
proof -
  have "byte_words (decimal w @ 0x20 # decimal h) = [decimal w, decimal h]"
    using byte_words_word [of "decimal w" "0x20" "decimal h"] byte_words_last [of "decimal h"] decimal_plain
    by (simp add: is_space_def)
  then show ?thesis unfolding pgm_header_lines by (simp add: read_size_def parse_decimal)
qed

lemma sliced_rows_of_concat:
  "\<forall>r \<in> set rows. length r = w \<Longrightarrow> map (\<lambda>j. take w (drop (j * w) (concat rows))) [0 ..< length rows] = rows"
proof (induction rows)
  case (Cons r rows)
  have "map (\<lambda>j. take w (drop (j * w) (concat (r # rows)))) [0 ..< length (r # rows)]
      = take w (concat (r # rows)) # map (\<lambda>j. take w (drop (Suc j * w) (concat (r # rows)))) [0 ..< length rows]"
    by (simp add: upt_conv_Cons map_Suc_upt [symmetric] comp_def del: upt_Suc)
  also have "take w (concat (r # rows)) = r" using Cons.prems by simp
  also have "map (\<lambda>j. take w (drop (Suc j * w) (concat (r # rows)))) [0 ..< length rows]
      = map (\<lambda>j. take w (drop (j * w) (concat rows))) [0 ..< length rows]"
    using Cons.prems by (intro map_cong refl) (simp add: add.commute)
  also have "\<dots> = rows" using Cons by simp
  finally show ?case .
qed simp

lemma length_concat_rows: "\<forall>r \<in> set rows. length r = w \<Longrightarrow> length (concat rows) = length rows * w"
  by (induction rows) auto

definition grid_shape :: "nat array \<Rightarrow> grid_result \<Rightarrow> bool" where
  "grid_shape grid r \<longleftrightarrow> length grid = gr_height r \<and> (\<forall>row \<in> set grid. length row = gr_width r)"

lemma map_image:
  assumes "grid_shape grid r"
  shows "read_image (int (gr_width r), int (gr_height r)) (split_lines 3 (map_pgm grid r)) = Inr (map (map pixel_of) grid)"
proof -
  let ?rows = "map (map pixel_of) (rev grid)"
  have rows: "\<forall>x \<in> set ?rows. length x = gr_width r" "length ?rows = gr_height r" using assms by (auto simp: grid_shape_def)
  have "length (concat ?rows) = gr_height r * gr_width r" using length_concat_rows [OF rows(1)] rows(2) by simp
  then show ?thesis
    using sliced_rows_of_concat [OF rows(1)] rows(2)
    unfolding map_pgm_def pgm_header_lines by (simp add: read_image_def mult.commute rev_map)
qed

section \<open>The check of a written map\<close>

text \<open>A point lies on a free cell of a grid.\<close>

definition on_free :: "nat array \<Rightarrow> grid_result \<Rightarrow> xy \<Rightarrow> bool" where
  "on_free grid r p \<longleftrightarrow> (\<exists>j < gr_height r. \<exists>i < gr_width r. grid ! j ! i = 0
     \<and> fst (gr_origin r) + real i * gr_resolution r \<le> fst p \<and> fst p < fst (gr_origin r) + (real i + 1) * gr_resolution r
     \<and> snd (gr_origin r) + real j * gr_resolution r \<le> snd p \<and> snd p < snd (gr_origin r) + (real j + 1) * gr_resolution r)"

lemma floor_index:
  assumes "0 < sz"
  shows "\<lfloor>(x - lo) / sz\<rfloor> = int i \<longleftrightarrow> lo + real i * sz \<le> x \<and> x < lo + (real i + 1) * sz"
proof -
  have "\<lfloor>(x - lo) / sz\<rfloor> = int i \<longleftrightarrow> real i \<le> (x - lo) / sz \<and> (x - lo) / sz < real i + 1" by (simp add: floor_eq_iff)
  then show ?thesis using assms by (simp add: field_simps)
qed

lemma pixel_free [simp]: "pixel_of v = 254 \<longleftrightarrow> v = 0"
  by (simp add: pixel_of_def)

lemma nat_pair_iff:
  "(\<exists>j < h. \<exists>i < w. P j i \<and> x = int i \<and> y = int j) \<longleftrightarrow> 0 \<le> x \<and> x < int w \<and> 0 \<le> y \<and> y < int h \<and> P (nat y) (nat x)"
proof
  assume "0 \<le> x \<and> x < int w \<and> 0 \<le> y \<and> y < int h \<and> P (nat y) (nat x)"
  then show "\<exists>j < h. \<exists>i < w. P j i \<and> x = int i \<and> y = int j"
    by (intro exI [of _ "nat y"] conjI exI [of _ "nat x"]) auto
qed auto

lemma off_free_iff:
  assumes "grid_shape grid r" "0 < gr_resolution r"
  shows "off_free (gr_resolution r) (fst (gr_origin r)) (snd (gr_origin r)) (int (gr_width r), int (gr_height r)) (map (map pixel_of) grid) p
    \<longleftrightarrow> \<not> on_free grid r p"
proof -
  let ?ix = "\<lfloor>(fst p - fst (gr_origin r)) / gr_resolution r\<rfloor>" and ?iy = "\<lfloor>(snd p - snd (gr_origin r)) / gr_resolution r\<rfloor>"
  have img: "map (map pixel_of) grid ! j ! i = pixel_of (grid ! j ! i)" if "j < gr_height r" "i < gr_width r" for j i
    using that assms(1) by (simp add: grid_shape_def)
  have "on_free grid r p \<longleftrightarrow> (\<exists>j < gr_height r. \<exists>i < gr_width r. grid ! j ! i = 0 \<and> ?ix = int i \<and> ?iy = int j)"
    unfolding on_free_def floor_index [OF assms(2)] by blast
  also have "\<dots> \<longleftrightarrow> 0 \<le> ?ix \<and> ?ix < int (gr_width r) \<and> 0 \<le> ?iy \<and> ?iy < int (gr_height r) \<and> grid ! nat ?iy ! nat ?ix = 0"
    by (rule nat_pair_iff)
  finally show ?thesis using img [of "nat ?iy" "nat ?ix"] by (auto simp: off_free_def Let_def nat_less_iff)
qed

definition map_files :: "bytes \<Rightarrow> string \<Rightarrow> bytes option" where
  "map_files pgm f = (if f = ''map.pgm'' then Some pgm else None)"

lemma origin_items:
  assumes "numbers_ok show_num fl r"
  shows "res_map (float_of fl) (take 2 (split_on CHR '','' (strip_chars {CHR ''['', CHR '']''} (''['' @ origin_text show_num r @ '']''))))
    = Inr [fst (gr_origin r), snd (gr_origin r)]"
proof -
  let ?a = "show_num (fst (gr_origin r))" and ?b = "show_num (snd (gr_origin r))"
  have a: "number_text show_num fl (fst (gr_origin r))" and b: "number_text show_num fl (snd (gr_origin r))"
    using assms by (simp_all add: numbers_ok_def)
  have ne: "?a \<noteq> []" using a by (simp add: number_text_def)
  have "hd ?a \<notin> {CHR ''['', CHR '']''}" using number_chars(5, 6) [OF a hd_in_set [OF ne]] by blast
  then have "strip_chars {CHR ''['', CHR '']''} (CHR ''['' # origin_text show_num r @ [CHR '']'']) = origin_text show_num r"
    using ne by (intro strip_chars_ends) (simp_all add: origin_text_def)
  moreover have "split_on CHR '','' (origin_text show_num r) = [?a, CHR '' '' # ?b, '' 0.0'']"
  proof -
    have plain: "CHR '','' \<notin> set ?a" "CHR '','' \<notin> set (CHR '' '' # ?b)" "CHR '','' \<notin> set '' 0.0''"
      using number_chars(4) [OF a] number_chars(4) [OF b] by auto
    have eq: "origin_text show_num r = ?a @ CHR '','' # (CHR '' '' # ?b) @ CHR '','' # '' 0.0''" by (simp add: origin_text_def)
    show ?thesis unfolding eq plain(1, 2) [THEN split_on_append] split_on_single [OF plain(3)] by (rule refl)
  qed
  ultimately show ?thesis using number_strip(2) [OF a] number_strip(3) [OF b] by simp
qed

theorem outside_free_reads_the_map:
  assumes "grid_shape grid r" "0 < gr_resolution r" "numbers_ok show_num fl r"
  shows "outside_free fl other (map_files (map_pgm grid r)) (map_yaml show_num r ''map'') points
    = Inr (filter (\<lambda>(i, p). \<not> on_free grid r p) (enumerate 0 points))"
proof -
  have res: "float_of fl (show_num (gr_resolution r)) = Inr (gr_resolution r)"
    using assms(3) number_strip(2) [of show_num fl "gr_resolution r"] by (simp add: numbers_ok_def)
  have size': "read_size other (split_lines 3 (map_pgm grid r)) = Inr (int (gr_width r), int (gr_height r))"
    unfolding map_pgm_def by (rule header_size)
  have f: "map_files (map_pgm grid r) ''map.pgm'' = Some (map_pgm grid r)" by (simp add: map_files_def)
  have "gr_resolution r \<noteq> 0" using assms(2) by simp
  then show ?thesis
    unfolding outside_free_def meta_item_def map_yaml_meta [OF assms(3)] option.case res_bind.simps Let_def res origin_items [OF assms(3)]
      f size' map_image [OF assms(1)]
    using ext [of "off_free _ _ _ _ _" "\<lambda>p. \<not> on_free grid r p", OF off_free_iff [OF assms(1, 2)]] by simp
qed


section \<open>The converted map\<close>

definition shaped :: "nat \<Rightarrow> nat \<Rightarrow> 'a array \<Rightarrow> bool" where
  "shaped h w a \<longleftrightarrow> length a = h \<and> (\<forall>row \<in> set a. length row = w)"

lemma tabulate_shape: "shaped h w (tabulate h w f)"
  by (auto simp: tabulate_def shaped_def)

lemma marks_shape: "shaped h w grid \<Longrightarrow> shaped h w (foldl (mark hw lo res w h) grid segs)"
  by (induction segs arbitrary: grid) (simp_all add: mark_def tabulate_shape)

lemma corridor_shape:
  assumes "corridor_grid ps pieces hw res = Inr (grid, r)"
  shows "grid_shape grid r" "gr_resolution r = res" "0 < res"
proof -
  have "shaped (gr_height r) (gr_width r) grid"
    using assms marks_shape [OF tabulate_shape] by (auto simp: corridor_grid_def Let_def split: if_split_asm)
  then show "grid_shape grid r" by (simp add: grid_shape_def shaped_def)
  show "gr_resolution r = res" "0 < res" using assms by (auto simp: corridor_grid_def Let_def split: if_split_asm)
qed

definition on_swept_cell :: "xy list \<Rightarrow> real \<Rightarrow> real \<Rightarrow> grid_result \<Rightarrow> xy \<Rightarrow> bool" where
  "on_swept_cell ps gap hw r p \<longleftrightarrow> (\<exists>j < gr_height r. \<exists>i < gr_width r. swept ps gap hw (cell_centre (gr_origin r) (gr_resolution r) j i)
     \<and> fst (gr_origin r) + real i * gr_resolution r \<le> fst p \<and> fst p < fst (gr_origin r) + (real i + 1) * gr_resolution r
     \<and> snd (gr_origin r) + real j * gr_resolution r \<le> snd p \<and> snd p < snd (gr_origin r) + (real j + 1) * gr_resolution r)"

lemma on_free_swept:
  assumes "split_at_gaps ps gap = Inr (pieces, gaps)" "corridor_grid ps pieces hw res = Inr (grid, r)"
  shows "on_free grid r p \<longleftrightarrow> on_swept_cell ps gap hw r p"
proof -
  have "grid ! j ! i = 0 \<longleftrightarrow> swept ps gap hw (cell_centre (gr_origin r) (gr_resolution r) j i)" if "j < gr_height r" "i < gr_width r" for j i
    using corridor_swept [OF assms that] corridor_shape(2) [OF assms(2)] by simp
  then show ?thesis unfolding on_free_def on_swept_cell_def by blast
qed

lemma swept_corridor_cases:
  assumes "swept_corridor fl d s res mount = Inr (Made grid r pieces gaps)"
  obtains vs tr half gap ps where "mount = Some vs" "dp_trajectory d = Some tr"
    "s ''corridor_half_width_m'' = Some half" "s ''corridor_gap_m'' = Some gap"
    "ps = base_path (read_trajectory fl tr) (fst (sensor_pose vs ''imu'')) (fst (snd (sensor_pose vs ''imu'')))"
    "split_at_gaps ps gap = Inr (pieces, gaps)" "corridor_grid ps pieces half res = Inr (grid, r)"
  using assms by (auto simp: swept_corridor_def Let_def case_prod_beta split: option.split_asm if_split_asm)

lemma convert_cases:
  assumes "convert fl pint f32 show_num d settings mount = Inr c"
  obtains grid pieces gaps res where "swept_corridor fl d settings res mount = Inr (Made grid (cv_corridor c) pieces gaps)"
    "cv_pgm c = map_pgm grid (cv_corridor c)" "cv_yaml c = map_yaml show_num (cv_corridor c) ''map''"
proof -
  from assms obtain s subs pts k where k: "swept_corridor fl d settings (s ''map_resolution_m'') mount = Inr k"
    and rest: "(case k of Not_made \<Rightarrow> Inl ValueError | Made grid g pieces gaps \<Rightarrow> products show_num d settings s subs pts grid g pieces gaps) = Inr c"
    unfolding convert_def by auto
  show ?thesis
  proof (cases k)
    case (Made grid g pieces gaps)
    then have "cv_corridor c = g \<and> cv_pgm c = map_pgm grid g \<and> cv_yaml c = map_yaml show_num g ''map''"
      using rest by (auto simp: products_def Let_def case_prod_beta)
    with k Made show ?thesis by (intro that) simp_all
  qed (use rest in simp)
qed

text \<open>C16. Map conversion: what the check of the waypoints reads back from the files of a converted map is the path of the mapping run.
  The points it reports are exactly those that lie on no cell whose centre the base has swept within the half width, with
  the mounting of the IMU of that run; a map without a trajectory or a mounting is never made.\<close>
theorem converted_map_is_swept:
  assumes "convert fl pint f32 show_num d settings mount = Inr c" "numbers_ok show_num fl (cv_corridor c)"
  shows "\<exists>vs tr half gap. mount = Some vs \<and> dp_trajectory d = Some tr
    \<and> settings ''corridor_half_width_m'' = Some half \<and> settings ''corridor_gap_m'' = Some gap
    \<and> outside_free fl other (map_files (cv_pgm c)) (cv_yaml c) points
      = Inr (filter (\<lambda>(i, p). \<not> on_swept_cell
          (base_path (read_trajectory fl tr) (fst (sensor_pose vs ''imu'')) (fst (snd (sensor_pose vs ''imu'')))) gap half (cv_corridor c) p)
          (enumerate 0 points))"
proof -
  obtain grid pieces gaps res where c: "swept_corridor fl d settings res mount = Inr (Made grid (cv_corridor c) pieces gaps)"
    "cv_pgm c = map_pgm grid (cv_corridor c)" "cv_yaml c = map_yaml show_num (cv_corridor c) ''map''"
    by (rule convert_cases [OF assms(1)])
  obtain vs tr half gap ps where k: "mount = Some vs" "dp_trajectory d = Some tr"
    "settings ''corridor_half_width_m'' = Some half" "settings ''corridor_gap_m'' = Some gap"
    "ps = base_path (read_trajectory fl tr) (fst (sensor_pose vs ''imu'')) (fst (snd (sensor_pose vs ''imu'')))"
    "split_at_gaps ps gap = Inr (pieces, gaps)" "corridor_grid ps pieces half res = Inr (grid, cv_corridor c)"
    by (rule swept_corridor_cases [OF c(1)])
  have "on_free grid (cv_corridor c) = on_swept_cell ps gap half (cv_corridor c)"
    by (intro ext on_free_swept [OF k(6, 7)])
  then have "outside_free fl other (map_files (cv_pgm c)) (cv_yaml c) points
      = Inr (filter (\<lambda>(i, p). \<not> on_swept_cell ps gap half (cv_corridor c) p) (enumerate 0 points))"
    using outside_free_reads_the_map [OF corridor_shape(1) [OF k(7)] _ assms(2), of other points] corridor_shape(2, 3) [OF k(7)] c(2, 3) by simp
  then show ?thesis using k(1-4) unfolding k(5) by blast
qed


definition example_float :: "string \<Rightarrow> real option" where
  "example_float s = (if s = ''0'' then Some 0 else if s = ''1'' then Some 1 else if s = ''-2'' then Some (- 2) else None)"

definition example_text :: "real \<Rightarrow> string" where
  "example_text x = (if x = 1 then ''1'' else if x = - 2 then ''-2'' else ''0'')"

definition example_dump :: dump where
  "example_dump = \<lparr>dp_dirs = [(''000000'', \<lparr>sf_data = unlines [''id: 0'', ''T_world_origin:'', ''1 0 0 0'', ''0 1 0 0'', ''0 0 1 0'', ''0 0 0 1''],
     sf_points = Some (replicate 12 0)\<rparr>)], dp_trajectory = Some ''0 0 0 0 0 0 0 1''\<rparr>"

lemma example_world:
  "read_dump example_float (\<lambda>s. Some 0) (\<lambda>b. Fin 0) example_dump = Inr [\<lparr>sm_id = 0, sm_matrix = [[1, 0, 0, 0], [0, 1, 0, 0], [0, 0, 1, 0], [0, 0, 0, 1]], sm_points = [(0, 0, 0)]\<rparr>]"
  by code_simp

lemma example_trajectory: "read_trajectory example_float ''0 0 0 0 0 0 0 1'' = [(0, (0, 0, 0), (0, 0, 0, 1))]"
  by code_simp

lemma example_mounting: "fst (sensor_pose [] ''imu'') = IDENTITY" "fst (snd (sensor_pose [] ''imu'')) = (0, 0, 0)"
  by (simp_all add: sensor_pose_def position_def num_def axes_of_def rpy_matrix_def IDENTITY_def Let_def)

lemma example_corridor:
  "\<exists>grid g. swept_corridor example_float example_dump (\<lambda>k. Some 1) 1 (Some []) = Inr (Made grid g [(0, 1)] [])
     \<and> gr_resolution g = 1 \<and> gr_origin g = (- 2, - 2)"
  by (simp add: swept_corridor_def example_dump_def example_trajectory example_mounting base_path_def base_matrix_def IDENTITY_def
      split_at_gaps_def corridor_grid_def MAX_CELLS_def Let_def case_prod_beta)

lemma example_lowest: "lowest_points (0, 0) 1 1 1 [(0, 0, 0)] = [[Some 0]]"
  by (simp add: lowest_points_def tabulate_def lowest_def cell_of_def clip_index_def truncated_def)

lemma sweeps_fixed: "f a = a \<Longrightarrow> sweeps n f a = a"
  by (cases n) simp_all

lemma sweep_single: "al 0 0 \<Longrightarrow> sweep 1 1 rise al [[Some 0]] = [[Some 0]]"
  by (simp add: sweep_def tabulate_def NEIGHBOURS_def candidate_def shifted_def)

lemma example_envelope: "envelope 1 1 1 slope 1 [[Some 0]] = [[Some 0]]"
  unfolding envelope_def by (rule sweeps_fixed, rule sweep_single) (simp add: allowed_cell_def)

lemma example_ground:
  "\<exists>g. estimate_ground [(0, 0, 0)] 1 1 1 = Inr g \<and> ground_at g 0 0 = Some 0"
proof -
  have "estimate_ground [(0, 0, 0)] 1 1 1 = Inr \<lparr>gd_cell = 1, gd_origin = (0, 0), gd_width = 1, gd_height = 1,
      gd_lowest = [[Some 0]], gd_ground = [[Some 0]], gd_filled = 0\<rparr>"
    using example_lowest example_envelope pi_gt_zero
    by (simp add: estimate_ground_def lower_corner_def cells_x_def cells_y_def MAX_GROUND_CELLS_def Let_def)
  moreover have "ground_at \<lparr>gd_cell = 1, gd_origin = (0, 0), gd_width = 1, gd_height = 1,
      gd_lowest = [[Some 0]], gd_ground = [[Some 0]], gd_filled = 0\<rparr> 0 0 = Some 0"
    by (simp add: ground_at_def corner_def Let_def)
  ultimately show ?thesis by blast
qed

lemma example_band:
  assumes "ground_at g 0 0 = Some 0"
  shows "\<exists>grid r. build_grid (classify g \<lparr>ground_band_max = 1, obstacle_band_min = 1, obstacle_band_max = 1\<rparr> [(0, 0, 0)]) 1 1
      \<lparr>ground_band_max = 1, obstacle_band_min = 1, obstacle_band_max = 1\<rparr> = Inr (grid, r)"
  using assms by (simp add: classify_def build_grid_def selected_def lower_corner_def cells_x_def cells_y_def MAX_CELLS_def Let_def)

lemma example_converts:
  "\<exists>c. convert example_float (\<lambda>s. Some 0) (\<lambda>b. Fin 0) example_text example_dump (\<lambda>k. Some 1) (Some []) = Inr c
     \<and> numbers_ok example_text example_float (cv_corridor c)"
proof -
  obtain grid g where c: "swept_corridor example_float example_dump (\<lambda>k. Some 1) 1 (Some []) = Inr (Made grid g [(0, 1)] [])"
    "gr_resolution g = 1" "gr_origin g = (- 2, - 2)" using example_corridor by blast
  obtain gd where gd: "estimate_ground [(0, 0, 0)] 1 1 1 = Inr gd" "ground_at gd 0 0 = Some 0" using example_ground by blast
  obtain band r where b: "build_grid (classify gd \<lparr>ground_band_max = 1, obstacle_band_min = 1, obstacle_band_max = 1\<rparr> [(0, 0, 0)]) 1 1
      \<lparr>ground_band_max = 1, obstacle_band_min = 1, obstacle_band_max = 1\<rparr> = Inr (band, r)" using example_band [OF gd(2)] by blast
  have w: "world_points [\<lparr>sm_id = 0, sm_matrix = [[1, 0, 0, 0], [0, 1, 0, 0], [0, 0, 1, 0], [0, 0, 0, 1]], sm_points = [(0, 0, 0)]\<rparr>] = Inr [(0, 0, 0)]"
    by (simp add: world_points_def map_points_def row_point_def)
  have t: "tiles_of (\<lambda>k. Some 1) [(0, 0, 0)] = Inr (Some [\<lparr>tl_index = (0, 0), tl_corner = (0, 0), tl_points = [(0, 0, 0)]\<rparr>])"
    by (simp add: tiles_of_def voxel_thin_def write_tiles_def truncated_def tile_of_def)
  have "numbers_ok example_text example_float g"
    using c(2, 3) by (simp add: numbers_ok_def number_text_def example_text_def example_float_def)
  then show ?thesis
    by (simp add: convert_def required_def SETTING_KEYS_def example_world w c(1) products_def gd(1) b t Let_def)
qed

lemma converted_map_is_swept_witness:
  "\<exists>(c :: conversion) ps. outside_free example_float (\<lambda>b. None) (map_files (cv_pgm c)) (cv_yaml c) [(0, 0), (9, 9)]
    = Inr (filter (\<lambda>(i, p). \<not> on_swept_cell ps 1 1 (cv_corridor c) p) (enumerate 0 [(0, 0), (9, 9)]))"
proof -
  obtain c where "convert example_float (\<lambda>s. Some 0) (\<lambda>b. Fin 0) example_text example_dump (\<lambda>k. Some 1) (Some []) = Inr c"
    "numbers_ok example_text example_float (cv_corridor c)" using example_converts by blast
  from converted_map_is_swept [OF this, of "\<lambda>b. None" "[(0, 0), (9, 9)]"]
  obtain ps half gap where h: "Some (1 :: real) = Some half" "Some (1 :: real) = Some gap"
    and out: "outside_free example_float (\<lambda>b. None) (map_files (cv_pgm c)) (cv_yaml c) [(0, 0), (9, 9)]
      = Inr (filter (\<lambda>(i, p). \<not> on_swept_cell ps gap half (cv_corridor c) p) (enumerate 0 [(0, 0), (9, 9)]))" by blast
  have "half = 1" "gap = 1" using h by simp_all
  then show ?thesis by (intro exI [of _ c] exI [of _ ps]) (use out in \<open>simp only:\<close>)
qed

end
