(* ===== verification/Recorder_Node.thy ===== *)
theory Recorder_Node
  imports Recorder_Properties
begin

text \<open>
  \<^verbatim>\<open>gouda_core/recorder_node.py\<close> (ND-04): the node around the recorder.  Every service runs one operation of
  the core and publishes the status; the two messages are written to the log; \<^verbatim>\<open>ros2 bag record\<close> runs as a
  child whose end a watcher thread reports.

  A child has a number: its place in \<open>n_children\<close>.  \<open>Running\<close> means that the wait of its watcher has not
  returned (\<^verbatim>\<open>poll()\<close> gives None), \<open>Ended\<close> that it has, and \<open>Reported\<close> that the watcher is through.  The
  watcher takes the lock some time after the end of the child: the two are events of their own, so that services
  come between them.  \<open>k p\<close> says that a signal to the child \<open>p\<close> raises nothing but ProcessLookupError.  The
  payloads of the two messages are arguments.
\<close>

section \<open>State\<close>

datatype child = Running | Ended int | Reported

datatype phase = Up | Waiting nat | Down

record recorder_node =
  n_core :: recorder
  n_bag :: "nat option"
  n_stopping :: bool
  n_children :: "child list"
  n_last_rev :: int
  n_published :: "recorder_status list" \<comment> \<open>newest first\<close>
  n_phase :: phase

definition publish_record_status :: "recorder_node \<Rightarrow> recorder_node" where
  "publish_record_status n = n\<lparr>n_last_rev := t_revision (status (n_core n)), n_published := status (n_core n) # n_published n\<rparr>"

definition publish_if_changed :: "recorder_node \<Rightarrow> recorder_node" where
  "publish_if_changed n = (if r_revision (n_core n) \<noteq> n_last_rev n then publish_record_status n else n)"

definition new_recorder_node :: "string \<Rightarrow> recorder_node result" where
  "new_recorder_node record_root = (if record_root = '''' then Inl RuntimeError
     else Inr (publish_record_status \<lparr>n_core = new_recorder, n_bag = None, n_stopping = False, n_children = [], n_last_rev = -1,
       n_published = [], n_phase = Up\<rparr>))"

section \<open>The child process\<close>

definition running :: "recorder_node \<Rightarrow> nat \<Rightarrow> bool" where
  "running n p \<longleftrightarrow> p < length (n_children n) \<and> n_children n ! p = Running"

definition bag_alive :: "recorder_node \<Rightarrow> bool" where
  "bag_alive n \<longleftrightarrow> (case n_bag n of None \<Rightarrow> False | Some p \<Rightarrow> running n p)"

text \<open>\<open>spawn\<close>: the log file is opened and the process is started.  The flag says that nothing was raised.\<close>

definition bag_start :: "bool \<Rightarrow> recorder_node \<Rightarrow> recorder_node \<times> bool" where
  "bag_start spawn n =
     (if bag_alive n then (n, True)
      else if \<not> spawn then (n, False)
      else (n\<lparr>n_bag := Some (length (n_children n)), n_stopping := False, n_children := n_children n @ [Running]\<rparr>, True))"

text \<open>The answer: whether the child still saves; None when the signal raised.\<close>

definition bag_stop :: "(nat \<Rightarrow> bool) \<Rightarrow> recorder_node \<Rightarrow> recorder_node \<times> bool option" where
  "bag_stop k n =
     (if bag_alive n then (n\<lparr>n_stopping := True\<rparr>, if k (the (n_bag n)) then Some True else None)
      else (n\<lparr>n_bag := None\<rparr>, Some False))"

definition watch_bag :: "world \<Rightarrow> nat \<Rightarrow> recorder_node \<Rightarrow> recorder_node" where
  "watch_bag w p n = (case n_children n ! p of
     Ended code \<Rightarrow>
       let n = n\<lparr>n_children := (n_children n)[p := Reported]\<rparr> in
       if n_bag n \<noteq> Some p then n
       else let n = n\<lparr>n_bag := None\<rparr> in
         publish_record_status
           (if n_stopping n then n\<lparr>n_stopping := False, n_core := fst (rosbag_finalized w code (n_core n))\<rparr>
            else n\<lparr>n_core := fst (rosbag_exited w code (n_core n))\<rparr>)
   | _ \<Rightarrow> n)"

section \<open>Services, messages and the end of the node\<close>

definition bag_active :: "recorder_node \<Rightarrow> bool" where
  "bag_active n \<longleftrightarrow> (case r_session (n_core n) of None \<Rightarrow> False | Some s \<Rightarrow> rosbag_active s)"

text \<open>\<^verbatim>\<open>destroy_node\<close>: it waits for the child, unless the signal raises.\<close>

definition stop_core_bag :: "world \<Rightarrow> (nat \<Rightarrow> bool) \<Rightarrow> recorder_node \<Rightarrow> recorder_node" where
  "stop_core_bag w k n =
     (if bag_active n then case bag_stop k n of (n', saving) \<Rightarrow> n'\<lparr>n_core := fst (stop_rosbag w saving (n_core n))\<rparr> else n)"

definition wait_for_bag :: "recorder_node \<Rightarrow> recorder_node" where
  "wait_for_bag n = n\<lparr>n_phase := (case n_bag n of None \<Rightarrow> Down | Some p \<Rightarrow> Waiting p)\<rparr>"

definition destroy_recorder :: "world \<Rightarrow> (nat \<Rightarrow> bool) \<Rightarrow> recorder_node \<Rightarrow> recorder_node" where
  "destroy_recorder w k n =
     (if bag_active n then wait_for_bag (stop_core_bag w k n)
      else (case bag_stop k n of
          (n, None) \<Rightarrow> n\<lparr>n_phase := Down\<rparr>
        | (n, Some _) \<Rightarrow> wait_for_bag n))"

text \<open>\<^verbatim>\<open>_svc\<close>: an exception leaves the callback and the spinning, and \<^verbatim>\<open>main\<close> destroys the node.\<close>

definition answer_service :: "world \<Rightarrow> (nat \<Rightarrow> bool) \<Rightarrow> recorder \<times> reply_of \<Rightarrow> recorder_node \<Rightarrow> recorder_node" where
  "answer_service w k x n = (case x of
     (core, Inr _) \<Rightarrow> publish_record_status (n\<lparr>n_core := core\<rparr>)
   | (core, Inl _) \<Rightarrow> destroy_recorder w k (n\<lparr>n_core := core\<rparr>))"

fun callback_ran :: "reply_of \<Rightarrow> bool" where
  "callback_ran (Inr (_, Rosbag_started _)) = True"
| "callback_ran (Inr (_, Rosbag_start_failed)) = True"
| "callback_ran _ = False"

definition svc_start_rosbag :: "world \<Rightarrow> (nat \<Rightarrow> bool) \<Rightarrow> string \<Rightarrow> bool \<Rightarrow> nat list \<Rightarrow> bool \<Rightarrow> recorder_node \<Rightarrow> recorder_node" where
  "svc_start_rosbag w k sid mk existing spawn n =
     (let x = start_rosbag w TRIGGER_HUMAN sid mk existing (snd (bag_start spawn n)) (n_core n)
      in answer_service w k x (if callback_ran (snd x) then fst (bag_start spawn n) else n))"

definition svc_stop_rosbag :: "world \<Rightarrow> (nat \<Rightarrow> bool) \<Rightarrow> recorder_node \<Rightarrow> recorder_node" where
  "svc_stop_rosbag w k n = publish_record_status (stop_core_bag w k n)"

definition on_recorded :: "world \<Rightarrow> string \<Rightarrow> string \<Rightarrow> real \<Rightarrow> pyval \<Rightarrow> recorder_node \<Rightarrow> recorder_node" where
  "on_recorded w kind topic t payload n = publish_if_changed (n\<lparr>n_core := fst (record_message w kind topic t payload (n_core n))\<rparr>)"

datatype node_event =
    Svc_log_start string bool
  | Svc_log_stop
  | Svc_log_autodrive string bool
  | Svc_log_pre_mapping string bool
  | Svc_log_stop_auto
  | Svc_rosbag_start string bool "nat list" bool
  | Svc_rosbag_stop
  | Mode_message real pyval
  | Decision_message real pyval
  | Interrupted
  | Child_ends nat int
  | Watcher nat
  | Wait_returns

fun callback :: "world \<Rightarrow> (nat \<Rightarrow> bool) \<Rightarrow> node_event \<Rightarrow> recorder_node \<Rightarrow> recorder_node" where
  "callback w k (Svc_log_start sid mk) n = answer_service w k (start_log w TRIGGER_HUMAN sid mk (n_core n)) n"
| "callback w k Svc_log_stop n = answer_service w k (stop_log w TRIGGER_HUMAN (n_core n)) n"
| "callback w k (Svc_log_autodrive sid mk) n = answer_service w k (start_log w TRIGGER_AUTO_AUTONOMY_START sid mk (n_core n)) n"
| "callback w k (Svc_log_pre_mapping sid mk) n = answer_service w k (start_log w TRIGGER_AUTO_MAP_START sid mk (n_core n)) n"
| "callback w k Svc_log_stop_auto n = answer_service w k (stop_auto w (n_core n)) n"
| "callback w k (Svc_rosbag_start sid mk existing spawn) n = svc_start_rosbag w k sid mk existing spawn n"
| "callback w k Svc_rosbag_stop n = svc_stop_rosbag w k n"
| "callback w k (Mode_message t payload) n = on_recorded w ''input'' ''mode/state'' t payload n"
| "callback w k (Decision_message t payload) n = on_recorded w ''decision'' ''log/decision'' t payload n"
| "callback w k Interrupted n = destroy_recorder w k n"
| "callback w k _ n = n"

text \<open>Callbacks run while the node spins.  A watcher is a daemon thread: it runs until the process ends.\<close>

fun node_step :: "world \<Rightarrow> (nat \<Rightarrow> bool) \<Rightarrow> recorder_node \<Rightarrow> node_event \<Rightarrow> recorder_node" where
  "node_step w k n (Child_ends p code) = (if running n p then n\<lparr>n_children := (n_children n)[p := Ended code]\<rparr> else n)"
| "node_step w k n (Watcher p) = (if n_phase n \<noteq> Down \<and> p < length (n_children n) then watch_bag w p n else n)"
| "node_step w k n Wait_returns = (case n_phase n of
     Waiting p \<Rightarrow> if running n p then n else n\<lparr>n_phase := Down\<rparr> | _ \<Rightarrow> n)"
| "node_step w k n e = (if n_phase n = Up then callback w k e n else n)"

section \<open>What the operations do to the bag\<close>

definition bag_flags :: "recorder \<Rightarrow> bool \<times> bool" where
  "bag_flags r = (case r_session r of None \<Rightarrow> (False, False) | Some s \<Rightarrow> (rosbag_active s, rosbag_finalizing s \<noteq> None))"

lemma bag_flags_flags: "bag_flags r = (case flags r of None \<Rightarrow> (False, False) | Some (_, _, ra, _, fin) \<Rightarrow> (ra, fin \<noteq> None))"
  by (simp add: bag_flags_def flags_def split: option.split)

lemma bag_active_flags: "bag_active n = fst (bag_flags (n_core n))"
  by (simp add: bag_active_def bag_flags_def split: option.split)

lemma flags_ensured:
  "ensure_session w sid mk r = (r', x) \<Longrightarrow> bag_flags r' = bag_flags r"
  using ensure_recordings [of w sid mk r r' x]
  by (auto simp: bag_flags_flags recordings_def split: option.split_asm)

lemma log_keeps_bag:
  "bag_flags (fst (start_log w t sid mk r)) = bag_flags r"
  "bag_flags (fst (stop_log w t r)) = bag_flags r"
  "bag_flags (fst (stop_auto w r)) = bag_flags r"
  "bag_flags (fst (record_message w kind topic rx p r)) = bag_flags r"
proof -
  obtain r' x where e: "ensure_session w sid mk r = (r', x)" by fastforce
  show "bag_flags (fst (start_log w t sid mk r)) = bag_flags r"
    using flags_ensured [OF e]
    by (cases x; cases "r_session r'") (auto simp: start_log_def e bag_flags_flags split: option.split)
  show stop: "bag_flags (fst (stop_log w t r)) = bag_flags r" for t
    by (cases "r_session r") (auto simp: stop_log_def bag_flags_flags split: option.split)
  show "bag_flags (fst (stop_auto w r)) = bag_flags r" by (simp add: stop_auto_def stop)
  show "bag_flags (fst (record_message w kind topic rx p r)) = bag_flags r"
    by (cases "r_session r") (auto simp: record_message_def bag_flags_flags Let_def)
qed

lemma start_rosbag_reply:
  assumes "start_rosbag w TRIGGER_HUMAN sid mk ex started r = (r', reply)"
  shows "callback_ran reply \<Longrightarrow> bag_flags r = (False, False) \<and> bag_flags r' = (started, False)"
    and "\<not> callback_ran reply \<Longrightarrow> bag_flags r' = bag_flags r"
proof -
  obtain q x where e: "ensure_session w sid mk r = (q, x)" by fastforce
  have keep: "bag_flags q = bag_flags r" using flags_ensured [OF e] .
  have "(callback_ran reply \<longrightarrow> bag_flags q = (False, False) \<and> bag_flags r' = (started, False))
     \<and> (\<not> callback_ran reply \<longrightarrow> bag_flags r' = bag_flags q)"
  proof (cases "\<exists>s u. r_session q = Some s \<and> x = Inr u")
    case True
    then obtain s u where s: "r_session q = Some s" "x = Inr u" by blast
    note fl = recordings_Some [OF s(1)]
    show ?thesis
      using assms fl
      by (cases "rosbag_active s"; cases "rosbag_finalizing s"; cases started)
        (auto simp: start_rosbag_def e s Let_def bag_flags_flags)
  next
    case False
    then show ?thesis
      using assms by (cases x; cases "r_session q") (auto simp: start_rosbag_def e)
  qed
  with keep show "callback_ran reply \<Longrightarrow> bag_flags r = (False, False) \<and> bag_flags r' = (started, False)"
    and "\<not> callback_ran reply \<Longrightarrow> bag_flags r' = bag_flags r" by simp_all
qed

lemma bag_of_stop:
  assumes "fst (bag_flags r)"
  shows "bag_flags (fst (stop_rosbag w saving r)) = (False, saving = Some True \<or> snd (bag_flags r))"
proof -
  obtain s where s: "r_session r = Some s" "rosbag_active s"
    using assms by (auto simp: bag_flags_def split: option.split_asm)
  note fl = recordings_Some [OF s(1)]
  consider "saving = None" | "saving = Some True" | "saving = Some False" by (metis (full_types) option.exhaust)
  then show ?thesis
    by cases (simp_all add: stop_rosbag_def s bag_flags_flags fl Let_def case_prod_beta)
qed

lemma bag_of_end:
  "bag_flags (fst (rosbag_finalized w code r)) = (fst (bag_flags r), False)"
  "bag_flags (fst (rosbag_exited w code r)) = (False, snd (bag_flags r))"
proof -
  show "bag_flags (fst (rosbag_finalized w code r)) = (fst (bag_flags r), False)"
  proof (cases "\<exists>s out since. r_session r = Some s \<and> rosbag_finalizing s = Some (out, since)")
    case True
    then obtain s out since where s: "r_session r = Some s" "rosbag_finalizing s = Some (out, since)" by blast
    show ?thesis
      by (cases "out \<in> o_output ` set (rosbag_outputs s)"; cases "code = 0")
        (simp_all add: rosbag_finalized_def s bag_flags_flags recordings_Some [OF s(1)] Let_def case_prod_beta)
  next
    case False
    then show ?thesis by (auto simp: rosbag_finalized_def bag_flags_def split: option.split)
  qed
  show "bag_flags (fst (rosbag_exited w code r)) = (False, snd (bag_flags r))"
  proof (cases "\<exists>s. r_session r = Some s \<and> rosbag_active s")
    case True
    then obtain s where s: "r_session r = Some s" "rosbag_active s" by blast
    show ?thesis
      by (simp add: rosbag_exited_def s bag_flags_flags recordings_Some [OF s(1)] Let_def case_prod_beta)
  next
    case False
    then show ?thesis by (auto simp: rosbag_exited_def bag_flags_def split: option.split)
  qed
qed

section \<open>One child at most, and the status tells of it\<close>

text \<open>What the bag rests on: the children, \<^verbatim>\<open>_bag_proc\<close>, \<^verbatim>\<open>_bag_stopping\<close>, whether the node
  spins, and the flags of the core.\<close>

type_synonym bag_view = "child list \<times> nat option \<times> bool \<times> phase \<times> bool \<times> bool"

definition bag_view :: "recorder_node \<Rightarrow> bag_view" where
  "bag_view n = (n_children n, n_bag n, n_stopping n, n_phase n, bag_flags (n_core n))"

definition child_ok :: "child list \<Rightarrow> nat option \<Rightarrow> bool" where
  "child_ok cs bag \<longleftrightarrow>
     (\<forall>p < length cs. cs ! p = Running \<longrightarrow> bag = Some p)
     \<and> (case bag of None \<Rightarrow> True | Some p \<Rightarrow> p < length cs \<and> cs ! p \<noteq> Reported)"

fun bag_ok :: "bag_view \<Rightarrow> bool" where
  "bag_ok (cs, bag, stopping, ph, active, saving) \<longleftrightarrow>
     child_ok cs bag
     \<and> (case ph of
          Up \<Rightarrow> active = (bag \<noteq> None \<and> \<not> stopping) \<and> saving = (bag \<noteq> None \<and> stopping)
        | Waiting p \<Rightarrow> bag = Some p \<or> bag = None
        | Down \<Rightarrow> \<forall>p < length cs. cs ! p \<noteq> Running)"

lemma child_ok_stopped: "child_ok cs (Some p) \<Longrightarrow> cs ! p \<noteq> Running \<Longrightarrow> child_ok cs None"
  by (auto simp: child_ok_def)

lemma child_ok_none: "child_ok cs None \<Longrightarrow> p < length cs \<Longrightarrow> cs ! p \<noteq> Running"
  by (auto simp: child_ok_def)

lemma bag_view_published [simp]:
  "bag_view (publish_record_status n) = bag_view n" "bag_view (publish_if_changed n) = bag_view n"
  by (simp_all add: bag_view_def publish_if_changed_def publish_record_status_def)

lemma running_view: "bag_view n = (cs, v) \<Longrightarrow> running n p \<longleftrightarrow> p < length cs \<and> cs ! p = Running"
  by (auto simp: bag_view_def running_def)

lemma child_ok_alive: "child_ok (n_children n) (n_bag n) \<Longrightarrow> \<not> bag_alive n \<Longrightarrow> child_ok (n_children n) None"
  by (cases "n_bag n") (auto simp: bag_alive_def running_def child_ok_def)

lemma child_ok_bag_stop:
  assumes "child_ok (n_children n) (n_bag n)" "\<And>p. k p" "bag_stop k n = (n', x)"
  shows "child_ok (n_children n') (n_bag n')" "x = Some (bag_alive n)" "n_phase n' = n_phase n" "n_core n' = n_core n"
    "n_bag n' = (if bag_alive n then n_bag n else None)" "n_stopping n' = (bag_alive n \<or> n_stopping n)"
  using assms child_ok_alive [OF assms(1)] by (auto simp: bag_stop_def split: if_split_asm)

lemma bag_view_stop:
  assumes "bag_ok (bag_view n)" "n_phase n = Up" "\<And>p. k p"
  shows "bag_ok (bag_view (stop_core_bag w k n))" and "n_phase (stop_core_bag w k n) = Up"
proof -
  obtain n' x where st: "bag_stop k n = (n', x)" by fastforce
  obtain active saving where bf: "bag_flags (n_core n) = (active, saving)" by fastforce
  have c: "child_ok (n_children n) (n_bag n)" using assms bf by (simp add: bag_view_def)
  note sp = child_ok_bag_stop [OF c assms(3) st]
  show "bag_ok (bag_view (stop_core_bag w k n))"
  proof (cases "bag_active n")
    case True
    then have fl: "fst (bag_flags (n_core n))" by (simp add: bag_active_flags)
    with assms bf have p: "n_bag n \<noteq> None" "\<not> saving" by (auto simp: bag_view_def)
    show ?thesis using True assms(2) fl bf p sp
      by (simp add: stop_core_bag_def st bag_view_def bag_of_stop)
  next
    case False
    then show ?thesis using assms by (simp add: stop_core_bag_def)
  qed
  show "n_phase (stop_core_bag w k n) = Up"
    using assms sp by (simp add: stop_core_bag_def st)
qed

lemma bag_view_wait:
  assumes "child_ok (n_children n) (n_bag n)"
  shows "bag_ok (bag_view (wait_for_bag n))"
  using assms child_ok_none
  by (cases "bag_flags (n_core n)"; cases "n_bag n") (auto simp: bag_view_def wait_for_bag_def)

lemma bag_view_destroy:
  assumes "bag_ok (bag_view n)" "n_phase n = Up" "\<And>p. k p"
  shows "bag_ok (bag_view (destroy_recorder w k n))"
proof -
  have c: "child_ok (n_children m) (n_bag m)" if "bag_ok (bag_view m)" for m
    using that by (cases "bag_flags (n_core m)") (simp add: bag_view_def)
  obtain n' x where st: "bag_stop k n = (n', x)" by fastforce
  note sp = child_ok_bag_stop [OF c [OF assms(1)] assms(3) st]
  show ?thesis
    using bag_view_wait [OF c [OF bag_view_stop(1) [OF assms]]] bag_view_wait [OF sp(1)] sp(2)
    by (simp add: destroy_recorder_def st)
qed

lemma bag_view_core: "bag_flags c = bag_flags (n_core n) \<Longrightarrow> bag_view (n\<lparr>n_core := c\<rparr>) = bag_view n"
  by (simp add: bag_view_def)

lemma bag_view_answer:
  assumes "bag_ok (bag_view n)" "n_phase n = Up" "\<And>p. k p" "bag_flags (fst x) = bag_flags (n_core n)"
  shows "bag_ok (bag_view (answer_service w k x n))"
  using assms bag_view_destroy [of "n\<lparr>n_core := fst x\<rparr>" k w]
  by (auto simp: answer_service_def bag_view_core split: prod.split sum.split)

lemma bag_view_begin:
  assumes "bag_ok (bag_view n)" "n_phase n = Up" "\<And>p. k p"
  shows "bag_ok (bag_view (svc_start_rosbag w k sid mk ex spawn n))"
proof -
  obtain m ok where st: "bag_start spawn n = (m, ok)" by fastforce
  obtain c rep where x: "start_rosbag w TRIGGER_HUMAN sid mk ex ok (n_core n) = (c, rep)" by fastforce
  note reply = start_rosbag_reply [OF x]
  show ?thesis
  proof (cases "callback_ran rep")
    case True
    from reply(1) [OF True] assms(1,2) have none: "n_bag n = None" and c: "child_ok (n_children n) None"
      by (auto simp: bag_view_def)
    obtain a where rep: "rep = Inr a" using True by (cases rep) auto
    have "child_ok (n_children n @ [Running]) (Some (length (n_children n)))"
      using c by (auto simp: child_ok_def nth_append less_Suc_eq)
    then have "bag_ok (bag_view (m\<lparr>n_core := c\<rparr>))"
      using st none c reply(1) [OF True] assms(2)
      by (auto simp: bag_start_def bag_alive_def bag_view_def split: if_split_asm)
    then show ?thesis
      using True by (simp add: svc_start_rosbag_def st x rep answer_service_def)
  next
    case False
    then show ?thesis
      using bag_view_answer [OF assms(1,2,3), of "(c, rep)" w] reply(2)
      by (simp add: svc_start_rosbag_def st x)
  qed
qed

lemma bag_view_watch:
  assumes "bag_ok (bag_view n)" "p < length (n_children n)" "n_phase n \<noteq> Down"
  shows "bag_ok (bag_view (watch_bag w p n))"
proof (cases "n_children n ! p")
  case (Ended code)
  obtain active saving where bf: "bag_flags (n_core n) = (active, saving)" by fastforce
  have c: "child_ok (n_children n) (n_bag n)" using assms(1) bf by (simp add: bag_view_def)
  show ?thesis
  proof (cases "n_bag n = Some p")
    case True
    have "child_ok ((n_children n)[p := Reported]) None"
      using c True Ended by (auto simp: child_ok_def nth_list_update)
    then show ?thesis
      using assms True Ended bf
      by (cases "n_phase n") (auto simp: watch_bag_def Let_def bag_view_def bag_of_end publish_record_status_def)
  next
    case False
    have "child_ok ((n_children n)[p := Reported]) (n_bag n)"
      using c False assms(2) by (auto simp: child_ok_def nth_list_update split: option.splits if_split_asm)
    then show ?thesis
      using assms False Ended bf by (cases "n_phase n") (simp_all add: watch_bag_def Let_def bag_view_def)
  qed
qed (simp_all add: watch_bag_def assms)

lemma bag_view_ends:
  assumes "bag_ok (bag_view n)" "running n p"
  shows "bag_ok (bag_view (n\<lparr>n_children := (n_children n)[p := Ended code]\<rparr>))"
proof -
  obtain active saving where bf: "bag_flags (n_core n) = (active, saving)" by fastforce
  have "child_ok ((n_children n)[p := Ended code]) (n_bag n)"
    using assms bf by (auto simp: child_ok_def bag_view_def running_def nth_list_update split: option.splits)
  moreover have "n_phase n \<noteq> Down" using assms bf by (auto simp: bag_view_def running_def)
  ultimately show ?thesis
    using assms bf by (cases "n_phase n") (simp_all add: bag_view_def)
qed

lemma bag_view_callback:
  assumes "bag_ok (bag_view n)" "n_phase n = Up" "\<And>p. k p"
  shows "bag_ok (bag_view (callback w k e n))"
  using assms
  by (cases e) (simp_all add: bag_view_answer log_keeps_bag bag_view_begin svc_stop_rosbag_def bag_view_stop on_recorded_def
      bag_view_core bag_view_destroy)

lemma bag_view_returns:
  assumes "bag_ok (bag_view n)" "n_phase n = Waiting p" "\<not> running n p"
  shows "bag_ok (bag_view (n\<lparr>n_phase := Down\<rparr>))"
proof -
  obtain active saving where bf: "bag_flags (n_core n) = (active, saving)" by fastforce
  show ?thesis
    using assms bf by (auto simp: bag_view_def child_ok_def running_def)
qed

lemma bag_view_step:
  assumes k: "\<And>p. k p" and ok: "bag_ok (bag_view n)"
  shows "bag_ok (bag_view (node_step w k n e))"
proof (cases e)
  case (Child_ends p code)
  then show ?thesis using ok bag_view_ends by simp
next
  case (Watcher p)
  then show ?thesis using ok bag_view_watch by simp
next
  case Wait_returns
  then show ?thesis using ok bag_view_returns [OF ok] by (simp split: phase.split)
qed (use ok k bag_view_callback [of n k w e] in \<open>simp_all del: callback.simps\<close>)

lemma bag_view_new: "new_recorder_node record_root = Inr n \<Longrightarrow> bag_ok (bag_view n)"
  by (auto simp: new_recorder_node_def bag_view_def child_ok_def bag_flags_def publish_record_status_def new_recorder_def split: if_split_asm)

section \<open>What is published\<close>

text \<open>The status but for the last gap.\<close>

definition shown :: "recorder \<Rightarrow> recorder_status" where
  "shown r = (status r)\<lparr>t_last_gap := None\<rparr>"

definition steady :: "recorder \<Rightarrow> recorder \<Rightarrow> bool" where
  "steady r r' \<longleftrightarrow> r_revision r \<le> r_revision r' \<and> (r_revision r' = r_revision r \<longrightarrow> shown r' = shown r)"

lemma steady_trans: "steady a b \<Longrightarrow> steady b c \<Longrightarrow> steady a c"
  by (auto simp: steady_def)

lemma steady_refl: "steady a a"
  by (simp add: steady_def)

lemma revision_parts [simp]:
  "r_revision (snd (tick w r)) = r_revision r" "r_revision (on_session f r) = r_revision r"
  "r_revision (add_failure w what out r) = r_revision r" "r_revision (bump r) = r_revision r + 1"
  by (simp_all add: tick_def on_session_def add_failure_def bump_def)

lemma revision_open_gap [simp]: "r_revision (set_open_gap w kind r) = r_revision r"
  by (simp add: set_open_gap_def Let_def case_prod_beta split: option.split)

lemma steady_write: "steady r (fst (write_line w l name r))"
  by (auto simp: steady_def write_line_def Let_def shown_def status_def split: option.split)

lemma steady_close: "steady r (close_gap w r)"
proof -
  have "steady r (on_session (\<lambda>s. s\<lparr>gaps := g' s, open_gap := None\<rparr>) ((snd (tick w r))\<lparr>r_last_gap := g\<rparr>))" for g g'
    by (auto simp: steady_def shown_def status_def on_session_def tick_def last_output_def split: option.split)
  then show ?thesis
    by (auto simp: close_gap_def Let_def case_prod_beta split: option.split intro: steady_trans [OF _ steady_write] steady_refl)
qed

lemma steady_append: "steady r (fst (append_event w l r))"
proof -
  obtain r' ok where wl: "write_line w l ''events.jsonl'' r = (r', ok)" by fastforce
  with steady_write [of r w l "''events.jsonl''"] have "steady r r'" by simp
  then show ?thesis
    using steady_trans [OF _ steady_close] by (simp add: append_event_def wl)
qed

lemma steady_record: "steady r (fst (record_message w kind topic t p r))"
proof -
  have "steady r (r\<lparr>r_last_received := d\<rparr>)" for d
    by (simp add: steady_def shown_def status_def split: option.split)
  then show ?thesis
    using steady_trans [OF _ steady_append] by (auto simp: record_message_def Let_def split: option.split)
qed

definition published_ok :: "recorder_node \<Rightarrow> bool" where
  "published_ok n \<longleftrightarrow> n_published n \<noteq> [] \<and> n_last_rev n = r_revision (n_core n)
     \<and> (hd (n_published n))\<lparr>t_last_gap := None\<rparr> = shown (n_core n)"

lemma status_revision [simp]: "t_revision (status r) = r_revision r"
  by (simp add: status_def split: option.split)

lemma published_now: "published_ok (publish_record_status n)"
  by (simp add: published_ok_def publish_record_status_def shown_def)

lemma published_if_changed:
  assumes "published_ok n" "steady (n_core n) c"
  shows "published_ok (publish_if_changed (n\<lparr>n_core := c\<rparr>))"
  using assms published_now by (auto simp: publish_if_changed_def published_ok_def steady_def)

lemma leaving_down: "n_phase (destroy_recorder w k n) \<noteq> Up"
  by (auto simp: destroy_recorder_def wait_for_bag_def split: prod.split option.split)

lemma published_answer: "n_phase (answer_service w k x n) = Up \<Longrightarrow> published_ok (answer_service w k x n)"
  using leaving_down by (auto simp: answer_service_def published_now split: prod.splits sum.splits)

lemma published_callback:
  assumes "published_ok n" "n_phase (callback w k e n) = Up"
  shows "published_ok (callback w k e n)"
  using assms
  by (cases e) (auto simp: published_answer svc_start_rosbag_def Let_def svc_stop_rosbag_def published_now on_recorded_def
      published_if_changed steady_record leaving_down)

lemma published_watch: "published_ok n \<Longrightarrow> published_ok (watch_bag w p n)"
  by (cases "n_children n ! p") (auto simp: watch_bag_def Let_def published_now published_ok_def shown_def publish_record_status_def)

definition published_inv :: "recorder_node \<Rightarrow> bool" where
  "published_inv n \<longleftrightarrow> (n_phase n = Up \<longrightarrow> published_ok n)"

lemma watch_phase [simp]: "n_phase (watch_bag w p n) = n_phase n"
  by (cases "n_children n ! p") (auto simp: watch_bag_def Let_def publish_record_status_def)

lemma published_step: "published_inv n \<Longrightarrow> published_inv (node_step w k n e)"
proof (cases e)
  case (Child_ends p code)
  then show "published_inv n \<Longrightarrow> published_inv (node_step w k n e)"
    by (simp add: published_inv_def published_ok_def)
next
  case (Watcher p)
  then show "published_inv n \<Longrightarrow> published_inv (node_step w k n e)"
    using published_watch by (auto simp: published_inv_def)
next
  case Wait_returns
  then show "published_inv n \<Longrightarrow> published_inv (node_step w k n e)"
    by (auto simp: published_inv_def split: phase.split)
qed (use published_callback [of n w k e] in \<open>simp_all add: published_inv_def del: callback.simps\<close>)

lemma published_new: "new_recorder_node record_root = Inr n \<Longrightarrow> published_inv n"
  using published_now by (auto simp: new_recorder_node_def published_inv_def split: if_split_asm)

interpretation rec_node: event_system "\<lambda>n. new_recorder_node record_root = Inr n" "node_step w (\<lambda>_. True)"
    "\<lambda>n. bag_ok (bag_view n) \<and> published_inv n" for record_root w
  by unfold_locales (simp_all add: bag_view_new published_new bag_view_step published_step)

text \<open>C34. Whatever requests, messages, ends of children and watchers come in whatever order: at most one
  \<^verbatim>\<open>ros2 bag record\<close> of the node runs, while one runs the status published last says that a rosbag is
  active or being saved, and when the node has ended none runs.  (A signal to the child raises nothing but
  ProcessLookupError.)\<close>

theorem bag_child_is_shown:
  assumes start: "new_recorder_node record_root = Inr n0"
    and n: "n = run (node_step w (\<lambda>_. True)) n0 es"
  shows "(\<forall>p q. running n p \<and> running n q \<longrightarrow> p = q)
    \<and> (n_phase n = Down \<longrightarrow> (\<forall>p. \<not> running n p))
    \<and> (n_phase n = Up \<and> (\<exists>p. running n p) \<longrightarrow>
         t_rosbag_active (hd (n_published n)) \<or> t_saving (hd (n_published n)) \<noteq> None)"
proof -
  from rec_node.inv_reachable [OF start, of w es] n
  have ok: "bag_ok (bag_view n)" and pub: "published_inv n" by simp_all
  obtain active saving where bf: "bag_flags (n_core n) = (active, saving)" by fastforce
  have c: "child_ok (n_children n) (n_bag n)" using ok bf by (simp add: bag_view_def)
  have one: "n_bag n = Some p" if "running n p" for p
    using that c by (simp add: running_def child_ok_def)
  have down: "\<not> running n p" if "n_phase n = Down" for p
    using that ok bf by (auto simp: bag_view_def running_def)
  have told: "t_rosbag_active (hd (n_published n)) \<or> t_saving (hd (n_published n)) \<noteq> None"
    if up: "n_phase n = Up" and "running n p" for p
  proof -
    have "active \<or> saving" using ok bf up one [OF that(2)] by (auto simp: bag_view_def)
    then have "t_rosbag_active (shown (n_core n)) \<or> t_saving (shown (n_core n)) \<noteq> None"
      using bf by (auto simp: shown_def status_def bag_flags_def split: option.split_asm)
    moreover have "(hd (n_published n))\<lparr>t_last_gap := None\<rparr> = shown (n_core n)"
      using pub up by (simp add: published_inv_def published_ok_def)
    ultimately show ?thesis
      by (cases "hd (n_published n)") (auto dest: sym)
  qed
  show ?thesis using one down told by (metis option.inject)
qed

definition started_bag :: "node_event list" where
  "started_bag = [Svc_rosbag_start ''s1'' True [] True]"

definition fresh_node :: recorder_node where
  "fresh_node = publish_record_status \<lparr>n_core = new_recorder, n_bag = None, n_stopping = False, n_children = [], n_last_rev = -1,
     n_published = [], n_phase = Up\<rparr>"

theorem bag_child_is_shown_witness:
  "running (run (node_step sample_world (\<lambda>_. True)) fresh_node (started_bag @ [Svc_rosbag_stop])) 0
   \<and> (t_rosbag_active (hd (n_published (run (node_step sample_world (\<lambda>_. True)) fresh_node (started_bag @ [Svc_rosbag_stop]))))
     \<or> (\<exists>v. t_saving (hd (n_published (run (node_step sample_world (\<lambda>_. True)) fresh_node (started_bag @ [Svc_rosbag_stop])))) = Some v))"
proof -
  have start: "new_recorder_node ''data'' = Inr fresh_node" by (simp add: new_recorder_node_def fresh_node_def)
  have r: "running (run (node_step sample_world (\<lambda>_. True)) fresh_node (started_bag @ [Svc_rosbag_stop])) 0
     \<and> n_phase (run (node_step sample_world (\<lambda>_. True)) fresh_node (started_bag @ [Svc_rosbag_stop])) = Up"
    by code_simp
  then show ?thesis using bag_child_is_shown [OF start refl, of sample_world "started_bag @ [Svc_rosbag_stop]"]
    unfolding not_None_eq by blast
qed

section \<open>What the node does not tell\<close>

text \<open>The first write after a failure closes the gap but counts no revision: the status that stays published shows
  the gap as open.\<close>

lemma recovery_is_not_published:
  "let n = run (node_step sample_world (\<lambda>_. True)) fresh_node
       [Svc_log_start ''s1'' True, Mode_message 1 PNone, Mode_message 2 PNone]
   in map_option g_end (t_last_gap (hd (n_published n))) = Some None
     \<and> map_option g_end (t_last_gap (status (n_core n))) \<noteq> Some None"
  by code_simp

text \<open>A bag that died is stopped before its watcher gets the lock: its exit code and the failure are lost.\<close>

lemma death_before_stop_is_lost:
  "let n = run (node_step sample_world (\<lambda>_. True)) fresh_node (started_bag @ [Child_ends 0 1, Svc_rosbag_stop, Watcher 0])
   in map_option (\<lambda>s. (map (\<lambda>b. (o_result b, o_exit_code b)) (rosbag_outputs s), length (failures s))) (r_session (n_core n))
      = Some ([(''stopped'', None)], 0)"
  by code_simp

text \<open>After a stop whose signal raised, a start finds the old child alive and starts nothing, yet the core takes it as
  started; the end of the old child then counts as the end of a save, and the rosbag stays active without a child.\<close>

lemma start_after_failed_stop:
  "let n = run (node_step sample_world (\<lambda>_. False)) fresh_node
       (started_bag @ [Svc_rosbag_stop, Svc_rosbag_start ''s1'' True [1] True, Child_ends 0 0, Watcher 0])
   in t_rosbag_active (hd (n_published n)) \<and> n_children n = [Reported]"
  by code_simp

text \<open>At the end of the node the main thread may be through before the watcher has the lock: the session then keeps
  a save that is over as going on.\<close>

lemma end_may_leave_saving:
  "let n = run (node_step sample_world (\<lambda>_. True)) fresh_node (started_bag @ [Interrupted, Child_ends 0 0, Wait_returns, Watcher 0])
   in n_phase n = Down
     \<and> map_option (\<lambda>s. (map o_result (rosbag_outputs s), rosbag_finalizing s \<noteq> None)) (r_session (n_core n)) = Some ([''saving''], True)"
  by code_simp

end
