(* ===== verification/Ntrip_Relay.thy ===== *)
theory Ntrip_Relay
  imports Gnss_Config Disk Contracts
begin

text \<open>
  \<^verbatim>\<open>gouda_core/ntrip_relay.py\<close> and \<^verbatim>\<open>ntrip_relay_runner.py\<close> (DEC-139, DEC-156, DEC-361): the relay of the
  RTK corrections.  stunnel4 carries the connection to the caster over TLS, str2str relays through it; of
  what both write only states and categories are kept.

  \<open>fmt\<close> is Python's \<^verbatim>\<open>str(value)\<close> for a value that is no text.  The input of the runner is a record: the
  JSON text in between is not modelled.  The free port, the lines and ends of the children and the signals
  are inputs.
\<close>

section \<open>Commands\<close>

definition LOOPBACK :: string where "LOOPBACK = ''127.0.0.1''"
definition CA_FILE :: string where "CA_FILE = ''/etc/ssl/certs/ca-certificates.crt''"
definition STUNNEL_BOUND :: string where "STUNNEL_BOUND = ''Service [ntrip] (FD=''"
definition STUNNEL_BOUND_WORDS :: string where "STUNNEL_BOUND_WORDS = '') bound to ''"
definition TLS_PREFIX :: string where "TLS_PREFIX = ''[TLS] ''"
definition STUNNEL_EXITED :: string where "STUNNEL_EXITED = ''stunnel_exited''"

definition TLS_EVENTS :: "(string \<times> string list) list" where
  "TLS_EVENTS =
     [(''certificate_rejected'', [''Rejected by CERT'', ''certificate verify failed'', ''Certificate check failed'']),
      (''connected'', [''connected remote server'']),
      (''connect_failed'', [''s_connect: connect '', ''No remote host resolved'', ''Error resolving'', ''getaddrinfo'']),
      (''tls_failed'', [''SSL_connect'', ''TLS fatal alert'', ''handshake failure'']),
      (''closed'', [''Connection closed'', ''Connection reset''])]"

definition TLS_CATEGORIES :: "string list" where
  "TLS_CATEGORIES = map fst TLS_EVENTS @ [STUNNEL_EXITED]"

text \<open>\<^verbatim>\<open>needle in line\<close>.\<close>

fun contains :: "string \<Rightarrow> string \<Rightarrow> bool" where
  "contains needle [] \<longleftrightarrow> needle = []"
| "contains needle (c # s) \<longleftrightarrow> startswith (c # s) needle \<or> contains needle s"

fun serial_path :: "pyval \<Rightarrow> string option" where
  "serial_path (PStr s) = (if startswith s (''serial:'' @ BY_ID_DIR) then Some (drop (length ''serial:/dev/'') s) else None)"
| "serial_path _ = None"

text \<open>The command that is started and the one that is recorded.  A missing path prints as None.\<close>

definition relay_commands :: "(pyval \<Rightarrow> string) \<Rightarrow> string \<Rightarrow> ntrip \<Rightarrow> pyval \<Rightarrow> pyval \<Rightarrow> nat \<Rightarrow> string list \<times> string list" where
  "relay_commands fmt exe nt device baud local_port =
     (let path = (case serial_path device of None \<Rightarrow> ''None'' | Some p \<Rightarrow> p);
          url = ''ntrip://'' @ nt_user nt @ '':'' @ nt_password nt @ ''@'' @ LOOPBACK @ '':'' @ nat_str local_port @ ''/'' @ nt_mountpoint nt;
          out = ''serial://'' @ path @ '':'' @ py_str fmt baud
      in ([exe, ''-in'', url, ''-out'', out, ''-b'', ''1''], [exe, ''-in'', ''ntrip://'' @ REDACTED, ''-out'', out, ''-b'', ''1'']))"

definition newline :: char where "newline = CHR 0x0A"

fun join_lines :: "string list \<Rightarrow> string" where
  "join_lines [] = []"
| "join_lines [l] = l"
| "join_lines (l # ls) = l @ newline # join_lines ls"

definition stunnel_lines :: "ntrip \<Rightarrow> nat \<Rightarrow> string list" where
  "stunnel_lines nt local_port =
     [''foreground = yes'', ''pid ='', ''debug = 6'', ''[ntrip]'', ''client = yes'',
      ''accept = '' @ LOOPBACK @ '':'' @ nat_str local_port,
      ''connect = '' @ nt_caster nt @ '':'' @ nat_str (nat (nt_port nt)), ''sni = '' @ nt_caster nt, ''verifyChain = yes'',
      ''CAfile = '' @ CA_FILE, ''checkHost = '' @ nt_caster nt, ''delay = yes'', '''']"

definition stunnel_config :: "ntrip \<Rightarrow> nat \<Rightarrow> string" where
  "stunnel_config nt local_port = join_lines (stunnel_lines nt local_port)"

section \<open>Reading what the children write\<close>

definition stunnel_bound :: "string \<Rightarrow> bool" where
  "stunnel_bound line \<longleftrightarrow> contains STUNNEL_BOUND line \<and> contains STUNNEL_BOUND_WORDS line"

definition tls_event :: "string \<Rightarrow> string option" where
  "tls_event line = map_option fst (find (\<lambda>(category, needles). list_ex (\<lambda>n. contains n line) needles) TLS_EVENTS)"

definition parse_tls :: "string \<Rightarrow> string option" where
  "parse_tls line =
     (if \<not> startswith line TLS_PREFIX then None
      else let category = strip (drop (length TLS_PREFIX) line) in
        if category \<in> set TLS_CATEGORIES then Some category else None)"

text \<open>\<open>STATUS\<close>: a bracket of state characters, the bytes and the rate.  Every repetition is followed by a character it
  does not take, so that the longest one is the only one.\<close>

definition state_char :: "char \<Rightarrow> bool" where
  "state_char c \<longleftrightarrow> c \<in> set ''EWCA-''"

fun state_name :: "char \<Rightarrow> string" where
  "state_name c = (if c = CHR ''E'' then ''error'' else if c = CHR ''-'' then ''closed'' else if c = CHR ''W'' then ''waiting''
     else if c = CHR ''C'' then ''connected'' else ''active'')"

definition many :: "(char \<Rightarrow> bool) \<Rightarrow> string \<Rightarrow> (string \<times> string) option" where
  "many P s = (let t = takeWhile P s in if t = [] then None else Some (t, drop (length t) s))"

definition literal :: "string \<Rightarrow> string \<Rightarrow> string option" where
  "literal t s = (if startswith s t then Some (drop (length t) s) else None)"

definition status_at :: "string \<Rightarrow> (string \<times> string \<times> string) option" where
  "status_at s =
     Option.bind (literal ''['' s) (\<lambda>s. Option.bind (many state_char s) (\<lambda>(chars, s).
     Option.bind (literal '']'' s) (\<lambda>s. Option.bind (many white s) (\<lambda>(_, s). Option.bind (many is_decimal s) (\<lambda>(n, s).
     Option.bind (many white s) (\<lambda>(_, s). Option.bind (literal ''B'' s) (\<lambda>s. Option.bind (many white s) (\<lambda>(_, s).
     Option.bind (many is_decimal s) (\<lambda>(bps, s). Option.bind (many white s) (\<lambda>(_, s). Option.bind (literal ''bps'' s) (\<lambda>_.
     Some (chars, n, bps))))))))))))"

fun status_search :: "string \<Rightarrow> (string \<times> string \<times> string) option" where
  "status_search [] = None"
| "status_search (c # s) = (case status_at (c # s) of None \<Rightarrow> status_search s | Some m \<Rightarrow> Some m)"

record relay_status =
  rs_input :: string
  rs_outputs :: "string list"
  rs_bytes :: nat
  rs_bps :: nat

text \<open>\<^verbatim>\<open>int()\<close> of a text of digits: more than 4300 of them raise ValueError.\<close>

definition int_of_digits :: "string \<Rightarrow> nat result" where
  "int_of_digits ds = (if length ds > 4300 then Inl ValueError else Inr (dec_value ds))"

definition parse_status :: "string \<Rightarrow> relay_status option result" where
  "parse_status line = (case status_search line of
     None \<Rightarrow> Inr None
   | Some (chars, n, bps) \<Rightarrow>
       res_bind (int_of_digits n) (\<lambda>n. res_bind (int_of_digits bps) (\<lambda>bps.
         Inr (Some \<lparr>rs_input = state_name (hd chars), rs_outputs = map state_name (tl chars), rs_bytes = n, rs_bps = bps\<rparr>))))"

record tracker =
  tr_last :: "relay_status option"
  tr_unparsed :: nat
  tr_errors :: nat \<comment> \<open>\<^verbatim>\<open>callback_errors\<close>\<close>
  tr_tls :: "string option"
  tr_changed_at :: "real option"

definition new_tracker :: tracker where
  "new_tracker = \<lparr>tr_last = None, tr_unparsed = 0, tr_errors = 0, tr_tls = None, tr_changed_at = None\<rparr>"

text \<open>\<open>now\<close>: what the clock gives.\<close>

definition tracker_feed :: "real \<Rightarrow> string \<Rightarrow> tracker \<Rightarrow> (tracker \<times> relay_status option) result" where
  "tracker_feed now line t = res_bind (parse_status line) (\<lambda>st. case st of
     None \<Rightarrow> Inr (if strip line \<noteq> [] then t\<lparr>tr_unparsed := tr_unparsed t + 1\<rparr> else t, None)
   | Some st \<Rightarrow>
       let prev = tr_last t; t = t\<lparr>tr_last := Some st\<rparr>;
           t = (if (case prev of None \<Rightarrow> True | Some p \<Rightarrow> rs_bytes p < rs_bytes st) then t\<lparr>tr_changed_at := Some now\<rparr> else t)
       in Inr (t, if (case prev of None \<Rightarrow> True | Some p \<Rightarrow> (rs_input p, rs_outputs p) \<noteq> (rs_input st, rs_outputs st))
         then Some st else None))"

datatype relay_note = State_changed relay_status | Tls_changed string

text \<open>One line: with the time of the clock and whether the callback returns (\<open>ok\<close>); the note is what it is called with.\<close>

definition read_line :: "bool \<Rightarrow> real \<times> bool \<times> string \<Rightarrow> tracker \<Rightarrow> tracker \<times> relay_note option" where
  "read_line wants_tls x t = (case x of (now, ok, line) \<Rightarrow>
     (let failed = \<lambda>t. if ok then t else t\<lparr>tr_errors := tr_errors t + 1\<rparr> in
      case parse_tls line of
        Some category \<Rightarrow>
          if Some category = tr_tls t then (t, None)
          else let t = t\<lparr>tr_tls := Some category\<rparr> in if wants_tls then (failed t, Some (Tls_changed category)) else (t, None)
      | None \<Rightarrow> (case tracker_feed now line t of
            Inl e \<Rightarrow> (t\<lparr>tr_errors := tr_errors t + 1\<rparr>, None)
          | Inr (t, None) \<Rightarrow> (t, None)
          | Inr (t, Some st) \<Rightarrow> (failed t, Some (State_changed st)))))"

fun read_status :: "bool \<Rightarrow> (real \<times> bool \<times> string) list \<Rightarrow> tracker \<Rightarrow> tracker \<times> relay_note list" where
  "read_status wants_tls [] t = (t, [])"
| "read_status wants_tls (x # xs) t =
     (case read_line wants_tls x t of (t, note) \<Rightarrow> (case read_status wants_tls xs t of (t, notes) \<Rightarrow>
        (t, (case note of None \<Rightarrow> notes | Some n \<Rightarrow> n # notes))))"

section \<open>Whether there is a relay\<close>

datatype relay_reason =
    Driver_not_started
  | No_corrections
  | Device_unresolved
  | Str2str_missing
  | Stunnel_missing
  | Baud_missing

record runner_input =
  ri_str2str :: string
  ri_stunnel :: string
  ri_ntrip :: ntrip
  ri_device :: pyval
  ri_baud :: pyval

record relay_plan =
  rp_launch :: "string list option"
  rp_launch_input :: "runner_input option"
  rp_public :: "string list option"
  rp_serial_path :: "string option"
  rp_reason :: "relay_reason option"

fun or_empty :: "pyval \<Rightarrow> pyval" where
  "or_empty v = (if truthy v then v else PStr [])"

definition build_relay ::
  "(pyval \<Rightarrow> string) \<Rightarrow> string \<Rightarrow> string option \<Rightarrow> ntrip option \<Rightarrow> pyval \<Rightarrow> pyval \<Rightarrow> bool \<Rightarrow> string option \<Rightarrow> relay_plan" where
  "build_relay fmt python exe nt device baud driver_started stunnel =
     (let path = serial_path (or_empty device);
          watched = (case (path, device) of (Some _, PStr s) \<Rightarrow> Some (drop (length ''serial:'') s) | _ \<Rightarrow> None);
          refused = \<lambda>r. \<lparr>rp_launch = None, rp_launch_input = None, rp_public = None, rp_serial_path = watched, rp_reason = Some r\<rparr> in
      if \<not> driver_started then refused Driver_not_started
      else (case nt of None \<Rightarrow> refused No_corrections | Some nt \<Rightarrow>
        if path = None then refused Device_unresolved
        else (case exe of None \<Rightarrow> refused Str2str_missing | Some exe \<Rightarrow> (case stunnel of None \<Rightarrow> refused Stunnel_missing | Some stunnel \<Rightarrow>
          if baud = PNone then refused Baud_missing
          else \<lparr>rp_launch = Some [python, ''-m'', ''gouda_core.ntrip_relay_runner''],
            rp_launch_input = Some \<lparr>ri_str2str = exe, ri_stunnel = stunnel, ri_ntrip = nt, ri_device = device, ri_baud = baud\<rparr>,
            rp_public = Some ([''gouda_core.ntrip_relay_runner:'', stunnel, ''-fd'', ''0'', ''(TLS to the caster)'', ''+'']
              @ snd (relay_commands fmt exe nt device baud 0)),
            rp_serial_path = watched, rp_reason = None\<rparr>))))"

section \<open>The runner\<close>

text \<open>A child: it runs or has ended with a return code.  The phases of the main thread are its waits: for
  \<^verbatim>\<open>bound\<close>; with str2str about to be started; for \<^verbatim>\<open>ended\<close>; for the end of str2str; for the end of stunnel with
  the return code of str2str, or with its own; \<open>Finished\<close> with the exit code or an exception.\<close>

datatype process_state = Alive | Gone int

datatype runner_phase =
    Wait_bound
  | Start_relay
  | Wait_ended
  | Wait_relay
  | Wait_stunnel "int option"
  | Finished "int result"

record runner =
  ru_input :: runner_input
  ru_port :: nat
  ru_config :: string \<comment> \<open>what is written to the stdin of stunnel\<close>
  ru_phase :: runner_phase
  ru_stunnel :: process_state
  ru_relay :: "process_state option"
  ru_launched :: "string list option" \<comment> \<open>the command of str2str\<close>
  ru_bound :: bool
  ru_listening :: bool
  ru_ended :: bool
  ru_stopping :: bool
  ru_term_stunnel :: bool \<comment> \<open>SIGTERM was sent\<close>
  ru_term_relay :: bool
  ru_err :: "string list" \<comment> \<open>lines written to stderr, newest first\<close>

definition exit_code :: "int \<Rightarrow> int" where
  "exit_code code = (if 0 \<le> code then code else 128 - code)"

definition emit :: "string \<Rightarrow> runner \<Rightarrow> runner" where
  "emit line r = r\<lparr>ru_err := (line @ [newline]) # ru_err r\<rparr>"

definition new_runner :: "runner_input \<Rightarrow> nat \<Rightarrow> runner" where
  "new_runner i port = \<lparr>ru_input = i, ru_port = port, ru_config = stunnel_config (ri_ntrip i) port, ru_phase = Wait_bound, ru_stunnel = Alive,
     ru_relay = None, ru_launched = None, ru_bound = False, ru_listening = False, ru_ended = False, ru_stopping = False,
     ru_term_stunnel = False, ru_term_relay = False, ru_err = []\<rparr>"

definition read_stunnel :: "string \<Rightarrow> runner \<Rightarrow> runner" where
  "read_stunnel line r =
     (let r = (if stunnel_bound line then r\<lparr>ru_listening := True, ru_bound := True\<rparr> else r) in
      case tls_event line of None \<Rightarrow> r | Some category \<Rightarrow> emit (TLS_PREFIX @ category) r)"

definition rstrip_newline :: "string \<Rightarrow> string" where
  "rstrip_newline s = rev (dropWhile (\<lambda>c. c = newline) (rev s))"

definition stop_runner :: "runner \<Rightarrow> runner" where
  "stop_runner r = r\<lparr>ru_stopping := True, ru_ended := True,
     ru_term_relay := ru_term_relay r \<or> ru_relay r = Some Alive, ru_term_stunnel := ru_term_stunnel r \<or> ru_stunnel r = Alive\<rparr>"

text \<open>The main thread goes on from where it waits, if it can; \<open>spawn\<close>: str2str can be started.\<close>

definition main_step :: "(pyval \<Rightarrow> string) \<Rightarrow> bool \<Rightarrow> runner \<Rightarrow> runner" where
  "main_step fmt spawn r = (case ru_phase r of
     Wait_bound \<Rightarrow>
       if \<not> ru_bound r then r
       else if \<not> ru_listening r then
         (let r = (if ru_stopping r then r else emit (TLS_PREFIX @ STUNNEL_EXITED) r) in r\<lparr>ru_phase := Wait_stunnel None\<rparr>)
       else if ru_stopping r then (stop_runner r)\<lparr>ru_phase := Wait_stunnel None\<rparr>
       else r\<lparr>ru_phase := Start_relay\<rparr>
   | Start_relay \<Rightarrow>
       if \<not> spawn then r\<lparr>ru_phase := Finished (Inl OSError)\<rparr>
       else let i = ru_input r in
         r\<lparr>ru_relay := Some Alive, ru_phase := Wait_ended,
           ru_launched := Some (fst (relay_commands fmt (ri_str2str i) (ri_ntrip i) (ri_device i) (ri_baud i) (ru_port r)))\<rparr>
   | Wait_ended \<Rightarrow> if ru_ended r then (stop_runner r)\<lparr>ru_phase := Wait_relay\<rparr> else r
   | Wait_relay \<Rightarrow> (case ru_relay r of Some (Gone code) \<Rightarrow> r\<lparr>ru_phase := Wait_stunnel (Some code)\<rparr> | _ \<Rightarrow> r)
   | Wait_stunnel code \<Rightarrow> (case ru_stunnel r of
         Alive \<Rightarrow> r
       | Gone c \<Rightarrow> r\<lparr>ru_phase := Finished (Inr (exit_code (case code of None \<Rightarrow> c | Some code \<Rightarrow> code)))\<rparr>)
   | Finished x \<Rightarrow> r)"

datatype runner_event =
    Stunnel_line string
  | Stunnel_output_ends
  | Stunnel_ends int
  | Relay_line string
  | Relay_ends int
  | Signalled
  | Main bool

definition is_finished :: "runner \<Rightarrow> bool" where
  "is_finished r \<longleftrightarrow> (case ru_phase r of Finished x \<Rightarrow> True | _ \<Rightarrow> False)"

text \<open>The readers and watchers are threads of the runner: once it has finished nothing is read any more.  A child
  that is left can still end.\<close>

fun runner_step :: "(pyval \<Rightarrow> string) \<Rightarrow> runner \<Rightarrow> runner_event \<Rightarrow> runner" where
  "runner_step fmt r (Stunnel_line line) = (if is_finished r then r else read_stunnel line r)"
| "runner_step fmt r Stunnel_output_ends = (if is_finished r then r else r\<lparr>ru_bound := True\<rparr>)"
| "runner_step fmt r (Stunnel_ends code) = (if ru_stunnel r = Alive then r\<lparr>ru_stunnel := Gone code, ru_ended := True\<rparr> else r)"
| "runner_step fmt r (Relay_line line) =
     (if is_finished r \<or> ru_relay r = None then r else emit (rstrip_newline line) r)"
| "runner_step fmt r (Relay_ends code) = (if ru_relay r = Some Alive then r\<lparr>ru_relay := Some (Gone code), ru_ended := True\<rparr> else r)"
| "runner_step fmt r Signalled = (if is_finished r then r else stop_runner r)"
| "runner_step fmt r (Main spawn) = main_step fmt spawn r"

section \<open>The configuration of stunnel is the one that is meant\<close>

lemma split_join: "ls \<noteq> [] \<Longrightarrow> (\<And>l. l \<in> set ls \<Longrightarrow> newline \<notin> set l) \<Longrightarrow> split_on newline (join_lines ls) = ls"
proof (induction ls rule: join_lines.induct)
  case (2 l)
  then show ?case by (induction l) (auto split: list.split)
next
  case (3 l k ls)
  have "split_on newline (l @ newline # s) = l # split_on newline s" if "newline \<notin> set l" for l s
    using that by (induction l) (auto split: list.split)
  with 3 show ?case by simp
qed simp

lemma newline_white: "white newline"
  by (simp add: white_def newline_def)

lemma nat_str_no_newline: "newline \<notin> set (nat_str n)"
proof -
  have "digit_val newline = None" by (simp add: newline_def digit_val_def)
  then show ?thesis using nat_str_digits [of n] by (auto simp: list_all_iff)
qed

text \<open>No value of the private file can take a line of the configuration of stunnel away or put one in: read by lines it
  is the thirteen lines that are meant, with the check of the certificate chain and of the name of the very
  caster that is connected, and the relay listens on the loopback only.\<close>

theorem stunnel_config_cannot_be_changed:
  assumes "ntrip_problems section = []"
  shows "split_on newline (stunnel_config (ntrip_of section) port) = stunnel_lines (ntrip_of section) port"
proof -
  from assms obtain kvs c n where v: "section = PDict kvs" "map_of kvs ''caster'' = Some (PStr c)" "map_of kvs ''port'' = Some (PInt n)"
    and c: "\<not> list_ex white c"
    by (elim validated) auto
  have "newline \<notin> set c" using c newline_white by (auto simp: list_ex_iff)
  then have "newline \<notin> set l" if "l \<in> set (stunnel_lines (ntrip_of section) port)" for l
    using that nat_str_no_newline
    by (auto simp: stunnel_lines_def v LOOPBACK_def CA_FILE_def newline_def)
  then show ?thesis
    unfolding stunnel_config_def by (intro split_join) (auto simp: stunnel_lines_def)
qed

definition sample_section :: pyval where
  "sample_section = PDict [(''caster'', PStr ''caster.example''), (''port'', PInt 2101), (''mountpoint'', PStr ''M1''), (''user'', PStr ''u''),
     (''password'', PStr ''p'')]"

theorem stunnel_config_cannot_be_changed_witness:
  "ntrip_problems sample_section = [] \<and> length (split_on newline (stunnel_config (ntrip_of sample_section) 5000)) = 13"
proof -
  have ok: "ntrip_problems sample_section = []" by code_simp
  then show ?thesis using stunnel_config_cannot_be_changed [OF ok, of 5000] by (simp add: stunnel_lines_def)
qed

section \<open>What is read back\<close>

lemma strip_solid: "s \<noteq> [] \<Longrightarrow> \<not> white (hd s) \<Longrightarrow> \<not> white (last s) \<Longrightarrow> list_all white t \<Longrightarrow> strip (s @ t) = s"
proof -
  assume s: "s \<noteq> []" "\<not> white (hd s)" "\<not> white (last s)" and t: "list_all white t"
  have "lstrip (s @ t) = s @ t" using s by (cases s) (simp_all add: lstrip_def)
  moreover have "lstrip (rev t @ rev s) = rev s"
    using s t by (cases s rule: rev_cases) (simp_all add: lstrip_def dropWhile_append list_all_iff)
  ultimately show ?thesis by (simp add: strip_def)
qed

lemma startswith_prefix [simp]: "startswith (p @ s) p"
  by (simp add: startswith_def)

lemma tls_line_read: "category \<in> set TLS_CATEGORIES \<Longrightarrow> parse_tls (TLS_PREFIX @ category @ [newline]) = Some category"
proof -
  assume c: "category \<in> set TLS_CATEGORIES"
  then have "category \<noteq> [] \<and> \<not> white (hd category) \<and> \<not> white (last category)"
    by (auto simp: TLS_CATEGORIES_def TLS_EVENTS_def STUNNEL_EXITED_def white_def)
  then have "strip (category @ [newline]) = category" by (intro strip_solid) (simp_all add: newline_white)
  with c show ?thesis by (simp add: parse_tls_def)
qed

lemma tls_event_category: "tls_event line = Some category \<Longrightarrow> category \<in> set TLS_CATEGORIES"
  by (force simp: tls_event_def TLS_CATEGORIES_def find_Some_iff dest: nth_mem)

lemma many_run: "t \<noteq> [] \<Longrightarrow> list_all P t \<Longrightarrow> (s = [] \<or> \<not> P (hd s)) \<Longrightarrow> many P (t @ s) = Some (t, s)"
proof -
  assume t: "t \<noteq> []" "list_all P t" and s: "s = [] \<or> \<not> P (hd s)"
  have "takeWhile P (t @ s) = t" using t s by (cases s) (simp_all add: list_all_iff takeWhile_append takeWhile_eq_all_conv [THEN iffD2])
  with t show ?thesis by (simp add: many_def)
qed

lemma decimal_not_white: "is_decimal c \<Longrightarrow> \<not> white c"
  by (auto simp: is_decimal_def white_def less_eq_char_def)

lemma bracket_not_state: "\<not> state_char CHR '']''"
  by (simp add: state_char_def)

lemma status_at_line:
  assumes "chars \<noteq> []" "list_all state_char chars"
    and "ds \<noteq> []" "list_all is_decimal ds" "es \<noteq> []" "list_all is_decimal es"
    and "\<forall>w \<in> {w1, w2, w3, w4}. w \<noteq> [] \<and> list_all white w"
  shows "status_at (''['' @ chars @ '']'' @ w1 @ ds @ w2 @ ''B'' @ w3 @ es @ w4 @ ''bps'' @ message) = Some (chars, ds, es)"
proof -
  have d: "\<not> white (hd ds)" "\<not> white (hd es)"
    using assms(3-6) decimal_not_white by (auto simp: list_all_iff)
  have w: "\<not> is_decimal (hd w)" if "w \<in> {w1, w2, w3, w4}" for w
    using that assms(7) decimal_not_white by (fastforce simp: list_all_iff)
  have m1: "many state_char (chars @ CHR '']'' # s) = Some (chars, CHR '']'' # s)" for s
    using assms(1,2) bracket_not_state by (intro many_run) simp_all
  have mw: "many white (w @ s) = Some (w, s)" if "w \<in> {w1, w2, w3, w4}" "s \<noteq> []" "\<not> white (hd s)" for w s
    using assms(7) that by (intro many_run) auto
  have md: "many is_decimal (n @ w @ s) = Some (n, w @ s)" if "n \<in> {ds, es}" "w \<in> {w1, w2, w3, w4}" for n w s
    using assms(3-7) w [OF that(2)] that by (intro many_run) (auto simp: hd_append)
  have nw: "\<not> white CHR ''B''" "\<not> white CHR ''b''" by (simp_all add: white_def)
  show ?thesis
    using assms(3,5) d nw
    by (simp add: status_at_def literal_def startswith_def m1 mw md hd_append)
qed

lemma status_search_skips: "CHR ''['' \<notin> set pre \<Longrightarrow> status_search (pre @ s) = status_search s"
  by (induction pre) (auto simp: status_at_def literal_def startswith_def)

text \<open>A status line of str2str is read as its states, its bytes and its rate, whatever stands before it and in its message.\<close>

lemma status_line_read:
  assumes "chars \<noteq> []" "list_all state_char chars"
    and "ds \<noteq> []" "list_all is_decimal ds" "length ds \<le> 4300" "es \<noteq> []" "list_all is_decimal es" "length es \<le> 4300"
    and "\<forall>w \<in> {w1, w2, w3, w4}. w \<noteq> [] \<and> list_all white w" and "CHR ''['' \<notin> set date"
  shows "parse_status (date @ ''['' @ chars @ '']'' @ w1 @ ds @ w2 @ ''B'' @ w3 @ es @ w4 @ ''bps'' @ message)
     = Inr (Some \<lparr>rs_input = state_name (hd chars), rs_outputs = map state_name (tl chars), rs_bytes = dec_value ds, rs_bps = dec_value es\<rparr>)"
proof -
  have "status_search (''['' @ s) = status_at (''['' @ s)" if "status_at (''['' @ s) \<noteq> None" for s
    using that by (auto split: option.split)
  then show ?thesis
    using status_at_line [OF assms(1-4,6,7,9), of message] assms
    by (simp add: parse_status_def status_search_skips int_of_digits_def)
qed

section \<open>str2str runs behind stunnel only\<close>

definition phase_ok :: "runner \<Rightarrow> bool" where
  "phase_ok r \<longleftrightarrow> (case ru_phase r of
          Wait_bound \<Rightarrow> ru_relay r = None
        | Start_relay \<Rightarrow> ru_relay r = None \<and> ru_listening r
        | Wait_ended \<Rightarrow> ru_relay r \<noteq> None
        | Wait_relay \<Rightarrow> ru_relay r \<noteq> None \<and> ru_stopping r
            \<and> (ru_relay r = Some Alive \<longrightarrow> ru_term_relay r) \<and> (ru_stunnel r = Alive \<longrightarrow> ru_term_stunnel r)
        | Wait_stunnel None \<Rightarrow> ru_relay r = None
        | Wait_stunnel (Some code) \<Rightarrow> ru_relay r = Some (Gone code) \<and> (ru_stunnel r = Alive \<longrightarrow> ru_term_stunnel r)
        | Finished (Inr code) \<Rightarrow> ru_relay r \<noteq> Some Alive \<and> ru_stunnel r \<noteq> Alive
        | Finished (Inl e) \<Rightarrow> ru_relay r = None)"

definition runner_inv :: "(pyval \<Rightarrow> string) \<Rightarrow> runner_input \<Rightarrow> nat \<Rightarrow> runner \<Rightarrow> bool" where
  "runner_inv fmt i port r \<longleftrightarrow>
     ru_input r = i \<and> ru_port r = port
     \<and> (ru_relay r = None \<longleftrightarrow> ru_launched r = None)
     \<and> (\<forall>cmd. ru_launched r = Some cmd \<longrightarrow> ru_listening r
          \<and> cmd = fst (relay_commands fmt (ri_str2str i) (ri_ntrip i) (ri_device i) (ri_baud i) port))
     \<and> phase_ok r"

lemma runner_inv_frame [simp]:
  "runner_inv fmt i port (emit l r) = runner_inv fmt i port r"
  "runner_inv fmt i port (r\<lparr>ru_bound := b\<rparr>) = runner_inv fmt i port r"
  by (simp_all add: runner_inv_def phase_ok_def emit_def split: runner_phase.split option.split sum.split)

lemma runner_inv_listening: "runner_inv fmt i port r \<Longrightarrow> runner_inv fmt i port (r\<lparr>ru_listening := True\<rparr>)"
  by (auto simp: runner_inv_def phase_ok_def split: runner_phase.splits option.splits sum.splits)

lemma runner_inv_stop: "runner_inv fmt i port r \<Longrightarrow> runner_inv fmt i port (stop_runner r)"
  by (auto simp: runner_inv_def phase_ok_def stop_runner_def split: runner_phase.splits option.splits sum.splits)

lemma runner_inv_ends:
  "runner_inv fmt i port r \<Longrightarrow> runner_inv fmt i port (r\<lparr>ru_stunnel := Gone code, ru_ended := True\<rparr>)"
  "runner_inv fmt i port r \<Longrightarrow> ru_relay r = Some Alive \<Longrightarrow> runner_inv fmt i port (r\<lparr>ru_relay := Some (Gone code), ru_ended := True\<rparr>)"
  by (auto simp: runner_inv_def phase_ok_def split: runner_phase.splits option.splits sum.splits)

lemma phase_main: "phase_ok r \<Longrightarrow> phase_ok (main_step fmt spawn r)"
  by (cases "ru_phase r")
    (auto simp: main_step_def phase_ok_def stop_runner_def emit_def Let_def split: option.splits process_state.splits)

lemma runner_inv_main: "runner_inv fmt i port r \<Longrightarrow> runner_inv fmt i port (main_step fmt spawn r)"
proof -
  assume inv: "runner_inv fmt i port r"
  then have "phase_ok (main_step fmt spawn r)" by (simp add: runner_inv_def phase_main)
  with inv show ?thesis
    by (cases "ru_phase r")
      (auto simp: main_step_def runner_inv_def stop_runner_def emit_def Let_def phase_ok_def [of r] split: option.split process_state.split)
qed

lemma runner_inv_step: "runner_inv fmt i port r \<Longrightarrow> runner_inv fmt i port (runner_step fmt r e)"
  by (cases e) (auto simp: read_stunnel_def Let_def runner_inv_listening runner_inv_stop runner_inv_ends runner_inv_main split: option.split)

lemma runner_inv_new: "runner_inv fmt i port (new_runner i port)"
  by (simp add: runner_inv_def phase_ok_def new_runner_def)

interpretation runner: event_system "\<lambda>r. r = new_runner i port" "runner_step fmt" "runner_inv fmt i port" for fmt i port
  by unfold_locales (simp_all add: runner_inv_new runner_inv_step)

text \<open>What is on stderr: categories, and what str2str wrote.\<close>

definition told :: "runner_event list \<Rightarrow> string \<Rightarrow> bool" where
  "told es l \<longleftrightarrow> (\<exists>category \<in> set TLS_CATEGORIES. l = TLS_PREFIX @ category @ [newline])
     \<or> (\<exists>x. Relay_line x \<in> set es \<and> l = rstrip_newline x @ [newline])"

lemma err_parts [simp]: "ru_err (stop_runner r) = ru_err r" "ru_err (emit l r) = (l @ [newline]) # ru_err r"
  by (simp_all add: stop_runner_def emit_def)

lemma err_step:
  "l \<in> set (ru_err (runner_step fmt r e)) \<Longrightarrow> l \<in> set (ru_err r) \<or> told [e] l"
proof (cases e)
  case (Stunnel_line line)
  then show "l \<in> set (ru_err (runner_step fmt r e)) \<Longrightarrow> l \<in> set (ru_err r) \<or> told [e] l"
    using tls_event_category by (auto simp: told_def read_stunnel_def Let_def split: option.split_asm if_split_asm)
next
  case (Main spawn)
  have "STUNNEL_EXITED \<in> set TLS_CATEGORIES" by (simp add: TLS_CATEGORIES_def)
  with Main show "l \<in> set (ru_err (runner_step fmt r e)) \<Longrightarrow> l \<in> set (ru_err r) \<or> told [e] l"
    by (auto simp: told_def main_step_def Let_def split: runner_phase.split_asm option.split_asm process_state.split_asm if_split_asm)
qed (auto simp: told_def split: if_split_asm)

lemma told_Cons: "told [e] l \<Longrightarrow> told (e # es) l" "told es l \<Longrightarrow> told (e # es) l"
  by (auto simp: told_def)

lemma err_run: "l \<in> set (ru_err (run (runner_step fmt) r es)) \<Longrightarrow> l \<in> set (ru_err r) \<or> told es l"
proof (induction es arbitrary: r)
  case (Cons e es)
  from Cons.IH [of "runner_step fmt r e"] Cons.prems
  show ?case using err_step [of l fmt r e] told_Cons [of _ l] by (auto simp only: run.simps)
qed simp

lemma listening_step: "ru_listening (runner_step fmt r e) \<Longrightarrow> ru_listening r \<or> (\<exists>line. e = Stunnel_line line \<and> stunnel_bound line)"
  by (cases e) (auto simp: read_stunnel_def Let_def main_step_def stop_runner_def emit_def
      split: option.split_asm runner_phase.split_asm process_state.split_asm if_split_asm)

lemma listening_run: "ru_listening (run (runner_step fmt) r es) \<Longrightarrow> ru_listening r \<or> (\<exists>line. Stunnel_line line \<in> set es \<and> stunnel_bound line)"
proof (induction es arbitrary: r)
  case (Cons e es)
  from Cons.IH [of "runner_step fmt r e"] Cons.prems
  have "ru_listening (runner_step fmt r e) \<or> (\<exists>line. Stunnel_line line \<in> set es \<and> stunnel_bound line)"
    by (auto simp only: run.simps)
  then show ?case using listening_step [of fmt r e] by (auto simp del: runner_step.simps)
qed simp

lemma relay_url: "fst (relay_commands fmt exe nt device baud port) ! 2
    = ''ntrip://'' @ nt_user nt @ '':'' @ nt_password nt @ ''@127.0.0.1:'' @ nat_str port @ ''/'' @ nt_mountpoint nt"
  by (simp add: relay_commands_def Let_def LOOPBACK_def)

lemma phase_finished: "phase_ok r \<Longrightarrow> ru_phase r = Finished (Inr code) \<Longrightarrow> ru_relay r \<noteq> Some Alive \<and> ru_stunnel r \<noteq> Alive"
  by (simp add: phase_ok_def)

text \<open>C7. In every run of the relay (lines, ends of the children and signals in any order): str2str is started only
  after stunnel has said that the loopback service listens, and connects to that port of the loopback; when
  the runner returns neither child runs; and on its stderr, which is what is recorded from, there is of what
  stunnel wrote nothing but the categories.\<close>

theorem relay_runs_behind_stunnel:
  assumes "r = run (runner_step fmt) (new_runner i port) es"
  shows "(\<forall>cmd. ru_launched r = Some cmd \<longrightarrow>
        (\<exists>line. Stunnel_line line \<in> set es \<and> stunnel_bound line)
        \<and> cmd ! 2 = ''ntrip://'' @ nt_user (ri_ntrip i) @ '':'' @ nt_password (ri_ntrip i) @ ''@127.0.0.1:'' @ nat_str port @ ''/''
            @ nt_mountpoint (ri_ntrip i))
    \<and> (\<forall>code. ru_phase r = Finished (Inr code) \<longrightarrow> ru_relay r \<noteq> Some Alive \<and> ru_stunnel r \<noteq> Alive)
    \<and> (\<forall>l \<in> set (ru_err r). (\<exists>category \<in> set TLS_CATEGORIES. l = TLS_PREFIX @ category @ [newline])
         \<or> (\<exists>x. Relay_line x \<in> set es \<and> l = rstrip_newline x @ [newline]))"
proof -
  have inv: "runner_inv fmt i port r" unfolding assms by (rule runner.inv_reachable) simp
  have "\<exists>line. Stunnel_line line \<in> set es \<and> stunnel_bound line" if "ru_listening r"
    using that listening_run [of fmt "new_runner i port" es] by (simp add: assms new_runner_def)
  moreover have "ru_listening r \<and> cmd = fst (relay_commands fmt (ri_str2str i) (ri_ntrip i) (ri_device i) (ri_baud i) port)"
    if "ru_launched r = Some cmd" for cmd
    using that inv unfolding runner_inv_def by blast
  moreover have "told es l" if "l \<in> set (ru_err r)" for l
    using that err_run [of l fmt "new_runner i port" es] by (auto simp: assms new_runner_def simp del: runner_step.simps)
  moreover have "phase_ok r" using inv by (simp add: runner_inv_def)
  ultimately show ?thesis
    using phase_finished relay_url unfolding told_def by blast
qed

definition sample_input :: runner_input where
  "sample_input = \<lparr>ri_str2str = ''str2str'', ri_stunnel = ''stunnel4'', ri_ntrip = ntrip_of sample_section,
     ri_device = PStr ''serial:/dev/serial/by-id/g'', ri_baud = PStr ''115200''\<rparr>"

definition bound_line :: string where "bound_line = ''Service [ntrip] (FD=9) bound to x''"
definition connected_line :: string where "connected_line = ''connected remote server x''"

lemma startswith_rec: "startswith s []" "\<not> startswith [] (c # p)" "startswith (c # s) (d # p) \<longleftrightarrow> c = d \<and> startswith s p"
  by (auto simp: startswith_def)

lemma sample_lines [simp]:
  "stunnel_bound bound_line" "tls_event bound_line = None" "\<not> stunnel_bound connected_line" "tls_event connected_line = Some ''connected''"
  by (simp_all add: stunnel_bound_def tls_event_def TLS_EVENTS_def STUNNEL_BOUND_def STUNNEL_BOUND_WORDS_def bound_line_def
      connected_line_def startswith_rec)

definition sample_relay_run :: "runner_event list" where
  "sample_relay_run = [Stunnel_line bound_line, Main True, Main True, Stunnel_line connected_line]"

theorem relay_runs_behind_stunnel_witness:
  "\<exists>cmd. ru_launched (run (runner_step (\<lambda>_. [])) (new_runner sample_input 7) sample_relay_run) = Some cmd
     \<and> cmd ! 2 = ''ntrip://u:p@127.0.0.1:7/M1''
     \<and> ru_err (run (runner_step (\<lambda>_. [])) (new_runner sample_input 7) sample_relay_run) = [TLS_PREFIX @ ''connected'' @ [newline]]"
proof -
  define r where "r = run (runner_step (\<lambda>_. [])) (new_runner sample_input 7) sample_relay_run"
  have err: "ru_err r = [TLS_PREFIX @ ''connected'' @ [newline]]" and l: "ru_launched r \<noteq> None"
    by (simp_all add: r_def sample_relay_run_def new_runner_def read_stunnel_def main_step_def is_finished_def emit_def Let_def)
  have url: "''ntrip://'' @ nt_user (ri_ntrip sample_input) @ '':'' @ nt_password (ri_ntrip sample_input) @ ''@127.0.0.1:'' @ nat_str 7 @ ''/''
            @ nt_mountpoint (ri_ntrip sample_input) = ''ntrip://u:p@127.0.0.1:7/M1''"
    by code_simp
  from l obtain cmd where cmd: "ru_launched r = Some cmd" by blast
  from relay_runs_behind_stunnel [OF r_def] cmd have "cmd ! 2 = ''ntrip://u:p@127.0.0.1:7/M1''"
    unfolding url by blast
  with cmd err show ?thesis unfolding r_def [symmetric] by blast
qed

section \<open>A stop request ends the runner\<close>

definition stop_and_end :: "int \<Rightarrow> int \<Rightarrow> runner_event list" where
  "stop_and_end c d = [Signalled, Stunnel_ends c, Stunnel_output_ends, Main True, Main True, Relay_ends d, Main True, Main True, Main True]"

lemma stop_request_ends_runner:
  assumes "phase_ok r" and "\<not> is_finished r"
  shows "\<exists>code. ru_phase (run (runner_step fmt) r (stop_and_end c d)) = Finished (Inr code)"
proof -
  obtain c' where c': "ru_stunnel (runner_step fmt (stop_runner r) (Stunnel_ends c)) = Gone c'"
    by (cases "ru_stunnel r") (simp_all add: stop_runner_def)
  define q where "q = runner_step fmt (runner_step fmt (stop_runner r) (Stunnel_ends c)) Stunnel_output_ends"
  have q: "ru_phase q = ru_phase r" "ru_bound q" "ru_stopping q" "ru_ended q" "ru_relay q = ru_relay r" "ru_stunnel q = Gone c'"
    "ru_listening q = ru_listening r"
    using c' assms(2) by (auto simp: q_def stop_runner_def is_finished_def)
  have r: "run (runner_step fmt) r (stop_and_end c d)
      = run (runner_step fmt) q [Main True, Main True, Relay_ends d, Main True, Main True, Main True]"
    using assms(2) by (simp add: stop_and_end_def q_def)
  have finish: "ru_phase (run (runner_step fmt) x [Main True]) = Finished (Inr (exit_code (case code of None \<Rightarrow> c' | Some k \<Rightarrow> k)))"
    if "ru_phase x = Wait_stunnel code" "ru_stunnel x = Gone c'" for x code
    using that by (simp add: main_step_def)
  show ?thesis
  proof (cases "ru_phase r")
    case Wait_bound
    define x where "x = run (runner_step fmt) q [Main True]"
    have x: "ru_phase x = Wait_stunnel None" "ru_stunnel x = Gone c'" "ru_relay x = None"
      using q assms Wait_bound by (auto simp: x_def main_step_def stop_runner_def emit_def phase_ok_def Let_def)
    then show ?thesis unfolding r
      using finish [OF x(1,2)] by (simp add: x_def [simplified] main_step_def)
  next
    case Start_relay
    then show ?thesis unfolding r
      using q assms by (simp add: main_step_def stop_runner_def Let_def)
  next
    case Wait_ended
    then show ?thesis unfolding r
      using q assms by (cases "ru_relay r"; cases "the (ru_relay r)") (simp_all add: main_step_def stop_runner_def phase_ok_def)
  next
    case Wait_relay
    then show ?thesis unfolding r
      using q assms by (cases "ru_relay r"; cases "the (ru_relay r)") (simp_all add: main_step_def stop_runner_def phase_ok_def)
  next
    case (Wait_stunnel code)
    then show ?thesis unfolding r
      using q assms by (cases code) (simp_all add: main_step_def phase_ok_def)
  next
    case (Finished x)
    with assms(2) show ?thesis by (simp add: is_finished_def)
  qed
qed

text \<open>A str2str that cannot be started raises out of the runner, and nothing stops stunnel.\<close>

lemma failed_start_leaves_stunnel:
  "let r = run (runner_step (\<lambda>_. [])) (new_runner sample_input 5000)
       [Stunnel_line bound_line, Main True, Main False]
   in ru_phase r = Finished (Inl OSError) \<and> ru_stunnel r = Alive \<and> \<not> ru_term_stunnel r"
  by (simp add: new_runner_def read_stunnel_def main_step_def is_finished_def)

text \<open>A device that leaves the folder of the by-id names is taken.\<close>

lemma relay_leaves_by_id_folder: "serial_path (PStr ''serial:/dev/serial/by-id/../../ttyACM0'') = Some ''serial/by-id/../../ttyACM0''"
  by code_simp

end
