(* ===== verification/Sensor_Drivers.thy ===== *)
theory Sensor_Drivers
  imports Sensor_Supervisor Ntrip_Relay
begin

text \<open>
  \<^verbatim>\<open>gouda_core/sensor_config.py\<close> (the settings of the LiDAR and of the IMU driver) and the part of
  \<^verbatim>\<open>sensor_supervisor_node.py\<close> that puts the drivers together (\<^verbatim>\<open>_build_drivers\<close>), records them and reads
  the relay: what of it depends on the NTRIP data.

  Files are parsed documents or the exception of reading them, what is installed and where is an argument
  (\<open>installation\<close>).  The texts of the reasons are constructors.
\<close>

section \<open>Settings of LiDAR and IMU\<close>

definition HESAI_KEYS :: "string list" where
  "HESAI_KEYS = [''device_ip_address'', ''host_ip_address'', ''udp_port'', ''ptc_port'', ''use_timestamp_type'', ''spin_rate_rpm'']"

definition IMU_KEYS :: "string list" where
  "IMU_KEYS = [''device'', ''rate'']"

text \<open>The parameters of a node: of its file and, in a trial, of the trial file after it; a file that is not there is
  passed over.\<close>

definition node_section :: "string \<Rightarrow> pyval \<Rightarrow> dict result" where
  "node_section node doc =
     res_bind (mapping_of AttributeError doc) (\<lambda>doc.
     res_bind (mapping_of AttributeError (dict_get doc node PNone)) (\<lambda>n.
     mapping_of TypeError (dict_get n ''ros__parameters'' PNone)))"

fun read_node_params :: "string \<Rightarrow> pyval result option list \<Rightarrow> dict \<Rightarrow> dict result" where
  "read_node_params node [] out = Inr out"
| "read_node_params node (None # fs) out = read_node_params node fs out"
| "read_node_params node (Some f # fs) out =
     res_bind f (\<lambda>doc. res_bind (node_section node doc) (\<lambda>ps. read_node_params node fs (updated ps out)))"

fun first_item :: "pyval \<Rightarrow> pyval result" where
  "first_item (PList []) = Inl IndexError"
| "first_item (PList (x # xs)) = Inr x"
| "first_item (PDict kvs) = Inl KeyError"
| "first_item (PStr s) = (if s = [] then Inl IndexError else Inr (PStr [hd s]))"
| "first_item _ = Inl TypeError"

fun item_mapping :: "pyval \<Rightarrow> string \<Rightarrow> dict result" where
  "item_mapping v k = res_bind (py_item v k) (\<lambda>x. case x of PDict kvs \<Rightarrow> Inr kvs | _ \<Rightarrow> Inl TypeError)"

definition missing_keys :: "string list \<Rightarrow> dict \<Rightarrow> string list" where
  "missing_keys ks params = filter (\<lambda>k. dict_get params k PNone = PNone) ks"

definition given_settings :: "string list \<Rightarrow> dict \<Rightarrow> dict \<Rightarrow> dict" where
  "given_settings ks params d = foldl (\<lambda>d k. with_given k (dict_get params k PNone) d) d ks"

text \<open>\<^verbatim>\<open>float(v) / 60\<close>.\<close>

fun per_second :: "xfloat \<Rightarrow> xfloat" where
  "per_second (Fin r) = Fin (r / 60)"
| "per_second x = x"

definition with_spin_rate ::
  "(string \<Rightarrow> int option) \<Rightarrow> (string \<Rightarrow> xfloat option) \<Rightarrow> pyval \<Rightarrow> dict \<Rightarrow> dict \<Rightarrow> (dict \<times> dict) result" where
  "with_spin_rate pint pfloat rate udp drv =
     (if rate = PNone then Inr (udp, drv)
      else res_bind (py_int pint rate) (\<lambda>i. res_bind (py_float pfloat rate) (\<lambda>x.
        Inr (AList.update ''speed'' (PInt i) udp, AList.update ''default_frame_frequency'' (PFloat (per_second x)) drv))))"

text \<open>The document with the first LiDAR's driver, its connection and its topics changed in place.\<close>

definition hesai_config ::
  "(string \<Rightarrow> int option) \<Rightarrow> (string \<Rightarrow> xfloat option) \<Rightarrow> pyval \<Rightarrow> dict \<Rightarrow> (pyval \<times> string list) result" where
  "hesai_config pint pfloat template params =
     res_bind (py_item template ''lidar'') (\<lambda>lidars. res_bind (first_item lidars) (\<lambda>lidar.
     res_bind (item_mapping lidar ''driver'') (\<lambda>drv. res_bind (item_mapping (PDict drv) ''lidar_udp_type'') (\<lambda>udp.
     res_bind (item_mapping lidar ''ros'') (\<lambda>ros.
       let drv = AList.update ''source_type'' (PInt 1) drv;
           udp = given_settings [''device_ip_address'', ''host_ip_address'', ''udp_port'', ''ptc_port''] params udp;
           udp = AList.update ''multicast_ip_address'' (PStr []) udp;
           stamp = dict_get params ''use_timestamp_type'' PNone in
     res_bind (if stamp = PNone then Inr drv
         else res_bind (py_int pint stamp) (\<lambda>i. Inr (AList.update ''use_timestamp_type'' (PInt i) drv))) (\<lambda>drv.
     res_bind (with_spin_rate pint pfloat (dict_get params ''spin_rate_rpm'' PNone) udp drv) (\<lambda>(udp, drv).
       let drv = AList.update ''lidar_udp_type'' (PDict udp) drv;
           ros = updated [(''ros_frame_id'', PStr ''xt32_link''), (''ros_send_point_cloud_topic'', PStr ''sensors/xt32/points''),
             (''ros_send_packet_loss_topic'', PStr ''sensors/xt32/packet_loss'')] ros in
       case (template, lidars, lidar) of
         (PDict t, PList ls, PDict l) \<Rightarrow>
           Inr (PDict (AList.update ''lidar'' (PList (ls[0 := PDict (AList.update ''ros'' (PDict ros) (AList.update ''driver'' (PDict drv) l))])) t),
             missing_keys HESAI_KEYS params)
       | _ \<Rightarrow> Inl TypeError)))))))"

text \<open>The missing keys, and the file that is written.\<close>

definition write_hesai_config ::
  "(string \<Rightarrow> int option) \<Rightarrow> (string \<Rightarrow> xfloat option) \<Rightarrow> pyval result \<Rightarrow> dict \<Rightarrow> bool \<Rightarrow> (string list \<times> pyval option) result" where
  "write_hesai_config pint pfloat template params disk =
     res_bind template (\<lambda>t. res_bind (hesai_config pint pfloat t params) (\<lambda>(cfg, missing).
       if missing \<noteq> [] then Inr (missing, None)
       else if \<not> disk then Inl OSError
       else Inr ([], Some cfg)))"

definition imu_parameters :: "(string \<Rightarrow> xfloat option) \<Rightarrow> dict \<Rightarrow> (dict \<times> string list) result" where
  "imu_parameters pfloat params =
     (let p = given_settings IMU_KEYS params []; rate = dict_get params ''rate'' PNone in
      res_bind (if rate = PNone then Inr p
          else res_bind (py_float pfloat rate) (\<lambda>x. Inr (AList.update ''rate'' (PFloat x) p))) (\<lambda>p.
      Inr (updated [(''frame_id'', PStr ''imu_link''), (''publish_tf'', PBool False)] p, missing_keys IMU_KEYS params)))"

section \<open>The drivers\<close>

datatype start_reason =
    Not_installed
  | Unresolved "string list"
  | Bad_device name_problem
  | Gnss_problems "parameter_problem list"
  | Relay_not_started relay_reason

record driver_plan =
  dp_name :: string \<comment> \<open>of the watched device\<close>
  dp_command :: "string list option"
  dp_reason :: "start_reason option"
  dp_launch :: "string list option"
  dp_launch_input :: "runner_input option"
  dp_serial_path :: "string option"
  dp_by_id :: pyval
  dp_host_ip :: pyval
  dp_udp_port :: pyval
  dp_gnss :: "gnss_connection option"

definition plain_plan :: "string \<Rightarrow> string list option \<Rightarrow> start_reason option \<Rightarrow> driver_plan" where
  "plain_plan name cmd reason = \<lparr>dp_name = name, dp_command = cmd, dp_reason = reason, dp_launch = None, dp_launch_input = None,
     dp_serial_path = None, dp_by_id = PNone, dp_host_ip = PNone, dp_udp_port = PNone, dp_gnss = None\<rparr>"

text \<open>What is installed: executables and templates (the share folder's file, parsed), str2str and stunnel4; the parameter
  files of the nodes; the private file.\<close>

record installation =
  in_run_dir :: string
  in_python :: string
  in_hesai :: "string option"
  in_hesai_template :: "pyval result option"
  in_imu :: "string option"
  in_gnss :: "string option"
  in_gnss_template :: "pyval result option"
  in_str2str :: "string option"
  in_stunnel :: "string option"
  in_hesai_params :: "pyval result option list"
  in_imu_params :: "pyval result option list"
  in_gnss_params :: "pyval result option list"
  in_private :: "private_file option option"
  in_disk :: bool

record python =
  py_fmt :: "pyval \<Rightarrow> string"
  py_parse_int :: "string \<Rightarrow> int option"
  py_parse_float :: "string \<Rightarrow> xfloat option"

definition text_or :: "python \<Rightarrow> pyval \<Rightarrow> string \<Rightarrow> string" where
  "text_or py v other = (if truthy v then py_str (py_fmt py) v else other)"

definition build_lidar :: "python \<Rightarrow> installation \<Rightarrow> driver_plan result" where
  "build_lidar py ins =
     res_bind (read_node_params ''hesai_ros_driver'' (in_hesai_params ins) []) (\<lambda>hp.
       let host_ip = dict_get hp ''host_ip_address'' PNone; path = in_run_dir ins @ ''/hesai_ros_driver.config.yaml'';
           plan = \<lambda>cmd reason. (plain_plan (''interface holding '' @ py_str (py_fmt py) host_ip @ '' (PRM-51)'') cmd reason)
             \<lparr>dp_host_ip := host_ip, dp_udp_port := dict_get hp ''udp_port'' PNone\<rparr> in
       case (in_hesai ins, in_hesai_template ins) of
         (Some exe, Some template) \<Rightarrow>
           res_bind (write_hesai_config (py_parse_int py) (py_parse_float py) template hp (in_disk ins)) (\<lambda>(missing, _).
             if missing \<noteq> [] then Inr (plan None (Some (Unresolved missing)))
             else Inr (plan (Some [exe, ''--ros-args'', ''-r'', ''__node:=hesai_ros_driver'', ''-p'', ''config_path:='' @ path]) None))
       | _ \<Rightarrow> Inr (plan None (Some Not_installed)))"

fun argument_text :: "python \<Rightarrow> pyval \<Rightarrow> string" where
  "argument_text py (PBool b) = (if b then ''true'' else ''false'')"
| "argument_text py v = py_str (py_fmt py) v"

definition build_imu :: "python \<Rightarrow> installation \<Rightarrow> driver_plan result" where
  "build_imu py ins =
     res_bind (read_node_params ''adi_imu_driver'' (in_imu_params ins) []) (\<lambda>params.
     res_bind (imu_parameters (py_parse_float py) params) (\<lambda>(ip, missing).
       let device = dict_get ip ''device'' PNone;
           plan = \<lambda>cmd reason. (plain_plan (text_or py device ''by-id name (PRM-54) unresolved'') cmd reason)\<lparr>dp_by_id := device\<rparr> in
       Inr (case in_imu ins of
           None \<Rightarrow> plan None (Some Not_installed)
         | Some exe \<Rightarrow>
             if missing \<noteq> [] then plan None (Some (Unresolved missing))
             else (case by_id_problem device of
                 Some p \<Rightarrow> plan None (Some (Bad_device p))
               | None \<Rightarrow> plan (Some ([exe, ''--ros-args'', ''-r'', ''__node:=adi_imu_driver'', ''-r'', ''imu/data_raw:=sensors/imu/data'']
                   @ concat (map (\<lambda>(k, v). [''-p'', k @ '':='' @ argument_text py v]) ip))) None))))"

text \<open>What the supervisor records of its configuration.\<close>

datatype config_record =
    Gnss_parameters_written rtk_note string
  | Driver_not_started string start_reason
  | Configured "(string \<times> string \<times> string list option \<times> start_reason option) list"

record gnss_build =
  gb_plan :: driver_plan
  gb_relay_device :: pyval
  gb_ntrip :: "ntrip option"
  gb_baud :: pyval
  gb_records :: "config_record list"
  gb_file :: "dict option" \<comment> \<open>the parameter file that is written\<close>

definition build_gnss :: "python \<Rightarrow> installation \<Rightarrow> gnss_build result" where
  "build_gnss py ins =
     res_bind (read_node_params ''septentrio_gnss_driver'' (in_gnss_params ins) []) (\<lambda>gp.
       let path = in_run_dir ins @ ''/septentrio_gnss_driver.params.yaml'' in
     res_bind (case (in_gnss ins, in_gnss_template ins) of
         (Some exe, Some template) \<Rightarrow>
           res_bind (prepare_driver (py_parse_int py) (py_fmt py) template gp (in_private ins) (in_disk ins)) (\<lambda>(r, ntrip, written).
             Inr (if re_missing r \<noteq> [] then (Some (Unresolved (re_missing r)), None, ntrip, re_baud r, re_rtk r, written)
               else if re_problems r \<noteq> [] then (Some (Gnss_problems (re_problems r)), None, ntrip, re_baud r, re_rtk r, written)
               else (None, Some [exe, ''--ros-args'', ''-r'', ''__node:=septentrio_gnss_driver'', ''-r'', ''__ns:=/sensors/gnss'',
                 ''--params-file'', path], ntrip, re_baud r, re_rtk r, written)))
       | _ \<Rightarrow> Inr (Some Not_installed, None, None, PNone, No_config_dir, None)) (\<lambda>(reason, cmd, ntrip, baud, note, written).
     res_bind (parse_device (py_parse_int py) (dict_get gp ''device'' PNone)) (\<lambda>dev.
       Inr \<lparr>gb_plan = (plain_plan (text_or py (dict_get gp ''device'' PNone) ''connection (PRM-65) unresolved'') cmd reason)\<lparr>dp_gnss := dev\<rparr>,
         gb_relay_device = dict_get gp ''rtk_relay_device'' PNone, gb_ntrip = ntrip, gb_baud = baud,
         gb_records = (if cmd = None then [] else [Gnss_parameters_written note path]), gb_file = written\<rparr>)))"

definition relay_plan_of :: "python \<Rightarrow> installation \<Rightarrow> gnss_build \<Rightarrow> driver_plan" where
  "relay_plan_of py ins g =
     (let r = build_relay (py_fmt py) (in_python ins) (in_str2str ins) (gb_ntrip g) (gb_relay_device g) (gb_baud g)
        (dp_command (gb_plan g) \<noteq> None) (in_stunnel ins) in
      (plain_plan (text_or py (gb_relay_device g) ''relay connection (PRM-76) unresolved'') (rp_public r) (map_option Relay_not_started (rp_reason r)))
        \<lparr>dp_launch := rp_launch r, dp_launch_input := rp_launch_input r, dp_serial_path := rp_serial_path r\<rparr>)"

record build =
  bd_drivers :: "(string \<times> driver_plan) list"
  bd_records :: "config_record list"
  bd_gnss_file :: "dict option"

definition drivers_summary :: "(string \<times> driver_plan) list \<Rightarrow> (string \<times> string \<times> string list option \<times> start_reason option) list" where
  "drivers_summary ds = map (\<lambda>(k, d). (k, dp_name d, map_option (map redact_command) (dp_command d), dp_reason d)) ds"

definition build_drivers :: "python \<Rightarrow> installation \<Rightarrow> build result" where
  "build_drivers py ins =
     res_bind (build_lidar py ins) (\<lambda>lidar. res_bind (build_imu py ins) (\<lambda>imu. res_bind (build_gnss py ins) (\<lambda>g.
       let ds = [(''lidar'', lidar), (''imu'', imu), (''gnss'', gb_plan g), (''ntrip'', relay_plan_of py ins g)] in
       Inr \<lparr>bd_drivers = ds,
         bd_records = gb_records g @ concat (map (\<lambda>(k, d). case dp_reason d of None \<Rightarrow> [] | Some r \<Rightarrow> [Driver_not_started k r]) ds)
           @ [Configured (drivers_summary ds)],
         bd_gnss_file = gb_file g\<rparr>)))"

section \<open>The drivers in the supervisor\<close>

text \<open>A device, address or port that is no text or number counts as none.\<close>

fun text_value :: "pyval \<Rightarrow> string option" where
  "text_value (PStr s) = (if s = [] then None else Some s)"
| "text_value _ = None"

fun number_value :: "pyval \<Rightarrow> nat option" where
  "number_value (PInt n) = Some (nat n)"
| "number_value _ = None"

definition driver_of :: "driver_plan \<Rightarrow> driver" where
  "driver_of d = \<lparr>dr_command = dp_command d \<noteq> None, dr_device = new_device, dr_proc = None, dr_serial_path = dp_serial_path d,
     dr_by_id = text_value (dp_by_id d), dr_host_ip = text_value (dp_host_ip d), dr_udp_port = number_value (dp_udp_port d),
     dr_gnss = dp_gnss d\<rparr>"

definition drivers_of :: "(string \<times> driver_plan) list \<Rightarrow> string \<Rightarrow> driver" where
  "drivers_of ds k = driver_of (case map_of ds k of None \<Rightarrow> plain_plan [] None None | Some d \<Rightarrow> d)"

text \<open>\<^verbatim>\<open>_read_relay\<close>: a new tracker per process; what is recorded of its stderr.\<close>

datatype relay_record =
    Ntrip_relay_state string "string list" nat nat
  | Ntrip_tls_state string

fun relay_record_of :: "relay_note \<Rightarrow> relay_record" where
  "relay_record_of (State_changed st) = Ntrip_relay_state (rs_input st) (rs_outputs st) (rs_bytes st) (rs_bps st)"
| "relay_record_of (Tls_changed category) = Ntrip_tls_state category"

definition read_relay :: "(real \<times> bool \<times> string) list \<Rightarrow> tracker \<times> relay_record list" where
  "read_relay xs = (case read_status True xs new_tracker of (t, notes) \<Rightarrow> (t, map relay_record_of notes))"

section \<open>No record depends on the NTRIP data\<close>

definition without_input :: "driver_plan \<Rightarrow> driver_plan" where
  "without_input d = d\<lparr>dp_launch_input := None\<rparr>"

lemma driver_of_without [simp]: "driver_of (without_input d) = driver_of d"
  by (simp add: driver_of_def without_input_def)

lemma build_relay_hides:
  assumes "(x = None) = (y = None)"
  shows "(build_relay fmt py exe x dev baud st tls)\<lparr>rp_launch_input := None\<rparr>
       = (build_relay fmt py exe y dev baud st tls)\<lparr>rp_launch_input := None\<rparr>"
  using assms
  by (cases x; cases y; cases exe; cases tls) (simp_all add: build_relay_def relay_commands_def Let_def)

definition public_part :: "gnss_build \<Rightarrow> gnss_build \<times> bool" where
  "public_part g = (g\<lparr>gb_ntrip := None\<rparr>, gb_ntrip g \<noteq> None)"

lemma public_part_eq:
  assumes "public_part g = public_part h"
  shows "gb_relay_device h = gb_relay_device g" "gb_baud h = gb_baud g" "gb_plan h = gb_plan g"
    "gb_records h = gb_records g" "gb_file h = gb_file g" "(gb_ntrip g = None) = (gb_ntrip h = None)"
proof -
  have e: "h\<lparr>gb_ntrip := None\<rparr> = g\<lparr>gb_ntrip := None\<rparr>" using assms by (simp only: public_part_def prod.inject)
  show "gb_relay_device h = gb_relay_device g" "gb_baud h = gb_baud g" "gb_plan h = gb_plan g"
    "gb_records h = gb_records g" "gb_file h = gb_file g"
    using arg_cong [OF e, of gb_relay_device] arg_cong [OF e, of gb_baud] arg_cong [OF e, of gb_plan]
      arg_cong [OF e, of gb_records] arg_cong [OF e, of gb_file] by simp_all
  have "(gb_ntrip g \<noteq> None) = (gb_ntrip h \<noteq> None)" using assms by (simp only: public_part_def prod.inject)
  then show "(gb_ntrip g = None) = (gb_ntrip h = None)" by blast
qed

lemma relay_plan_hides:
  assumes "public_part g = public_part h"
  shows "without_input (relay_plan_of py ins g) = without_input (relay_plan_of py (ins\<lparr>in_private := p\<rparr>) h)"
proof -
  note parts = public_part_eq [OF assms]
  let ?r = "\<lambda>x. build_relay (py_fmt py) (in_python ins) (in_str2str ins) x (gb_relay_device g) (gb_baud g)
     (dp_command (gb_plan g) \<noteq> None) (in_stunnel ins)"
  note eq = build_relay_hides [OF parts(6), of "py_fmt py" "in_python ins" "in_str2str ins" "gb_relay_device g" "gb_baud g"
      "dp_command (gb_plan g) \<noteq> None" "in_stunnel ins"]
  from arg_cong [OF eq, of rp_launch] arg_cong [OF eq, of rp_public] arg_cong [OF eq, of rp_serial_path] arg_cong [OF eq, of rp_reason]
  have "rp_launch (?r (gb_ntrip h)) = rp_launch (?r (gb_ntrip g))" "rp_public (?r (gb_ntrip h)) = rp_public (?r (gb_ntrip g))"
    "rp_serial_path (?r (gb_ntrip h)) = rp_serial_path (?r (gb_ntrip g))" "rp_reason (?r (gb_ntrip h)) = rp_reason (?r (gb_ntrip g))"
    by simp_all
  then show ?thesis
    by (simp add: relay_plan_of_def without_input_def parts Let_def del: not_None_eq)
qed

lemma build_gnss_hides:
  assumes "same_but_secret (in_private ins) p"
  shows "res_bind (build_gnss py ins) (\<lambda>g. Inr (public_part g)) = res_bind (build_gnss py (ins\<lparr>in_private := p\<rparr>)) (\<lambda>g. Inr (public_part g))"
proof (cases "read_node_params ''septentrio_gnss_driver'' (in_gnss_params ins) []")
  case (Inl e)
  then show ?thesis by (simp add: build_gnss_def)
next
  case gp: (Inr gp)
  show ?thesis
  proof (cases "in_gnss ins \<noteq> None \<and> in_gnss_template ins \<noteq> None")
    case False
    then show ?thesis
      by (cases "in_gnss ins"; cases "in_gnss_template ins") (simp_all add: build_gnss_def gp Let_def)
  next
    case True
    then obtain exe t where t: "in_gnss ins = Some exe" "in_gnss_template ins = Some t" by auto
    let ?pd = "\<lambda>f. prepare_driver (py_parse_int py) (py_fmt py) t gp f (in_disk ins)"
    note hide = driver_hides_ntrip [OF assms, of "py_parse_int py" "py_fmt py" t gp "in_disk ins"]
    show ?thesis
    proof (cases "?pd (in_private ins)")
      case (Inl e)
      with hide have "?pd p = Inl e" by (cases "?pd p") (auto split: prod.splits)
      with Inl show ?thesis by (simp add: build_gnss_def gp t Let_def)
    next
      case (Inr x)
      obtain r n w where x: "x = (r, n, w)" by (cases x)
      with Inr hide obtain m where m: "?pd p = Inr (r, m, w)" "(n = None) = (m = None)"
        by (cases "?pd p") (auto split: prod.splits)
      then show ?thesis
        using Inr x
        by (cases "parse_device (py_parse_int py) (dict_get gp ''device'' PNone)")
          (auto simp: build_gnss_def gp t Let_def public_part_def simp del: dict_get.simps)
    qed
  qed
qed

lemma build_lidar_private [simp]: "build_lidar py (ins\<lparr>in_private := p\<rparr>) = build_lidar py ins"
  by (simp add: build_lidar_def cong: option.case_cong)

lemma build_imu_private [simp]: "build_imu py (ins\<lparr>in_private := p\<rparr>) = build_imu py ins"
  by (simp add: build_imu_def cong: option.case_cong)

lemma without_input_parts:
  "without_input d = without_input e \<Longrightarrow> dp_name d = dp_name e \<and> dp_command d = dp_command e \<and> dp_reason d = dp_reason e \<and> driver_of d = driver_of e"
  by (metis driver_of_without driver_plan.select_convs(1,2,3) driver_plan.surjective driver_plan.update_convs(5) without_input_def)

text \<open>C8. Whatever the values in a valid private file: what the supervisor records of its configuration, the parameter
  file of the GNSS driver, every recorded command and reason, and all that the supervisor then does and
  records in any run are the same; only the input of the relay holds them.\<close>

theorem records_hide_ntrip:
  assumes "same_but_secret (in_private ins) other" and x: "build_drivers py ins = Inr x"
  shows "\<exists>y. build_drivers py (ins\<lparr>in_private := other\<rparr>) = Inr y
    \<and> bd_records y = bd_records x \<and> bd_gnss_file y = bd_gnss_file x
    \<and> map (map_prod id without_input) (bd_drivers y) = map (map_prod id without_input) (bd_drivers x)
    \<and> (\<forall>identities events. run supervisor_step (new_supervisor (drivers_of (bd_drivers y)) identities) events
         = run supervisor_step (new_supervisor (drivers_of (bd_drivers x)) identities) events)"
proof -
  from x obtain lidar imu g where l: "build_lidar py ins = Inr lidar" and i: "build_imu py ins = Inr imu" and g: "build_gnss py ins = Inr g"
    by (auto simp: build_drivers_def)
  from build_gnss_hides [OF assms(1), of py] g obtain h where
    h: "build_gnss py (ins\<lparr>in_private := other\<rparr>) = Inr h" and same: "public_part g = public_part h"
    by (cases "build_gnss py (ins\<lparr>in_private := other\<rparr>)") auto
  note gh = public_part_eq [OF same]
  define d e where "d = relay_plan_of py ins g" and "e = relay_plan_of py (ins\<lparr>in_private := other\<rparr>) h"
  have de: "without_input d = without_input e" unfolding d_def e_def by (rule relay_plan_hides [OF same])
  note parts = without_input_parts [OF de]
  obtain y where y: "build_drivers py (ins\<lparr>in_private := other\<rparr>) = Inr y"
    and yd: "bd_drivers y = [(''lidar'', lidar), (''imu'', imu), (''gnss'', gb_plan g), (''ntrip'', e)]"
    and yr: "bd_records y = bd_records x" "bd_gnss_file y = bd_gnss_file x"
    and xd: "bd_drivers x = [(''lidar'', lidar), (''imu'', imu), (''gnss'', gb_plan g), (''ntrip'', d)]"
    using x parts by (auto simp: build_drivers_def l i g h gh Let_def drivers_summary_def simp flip: d_def e_def)
  have "drivers_of (bd_drivers y) = drivers_of (bd_drivers x)"
    using parts by (auto simp: drivers_of_def yd xd fun_eq_iff)
  with y yd yr xd de show ?thesis by (intro exI [of _ y]) simp
qed

definition sample_python :: python where
  "sample_python = \<lparr>py_fmt = (\<lambda>_. ''115200''), py_parse_int = (\<lambda>_. None), py_parse_float = (\<lambda>_. None)\<rparr>"

definition sample_private :: "string \<Rightarrow> private_file" where
  "sample_private password = \<lparr>pf_mode = Some 384, pf_doc = Inr (PDict [(''ntrip'', PDict [(''caster'', PStr ''c''), (''port'', PInt 2101),
     (''mountpoint'', PStr ''m''), (''user'', PStr ''u''), (''password'', PStr password)])])\<rparr>"

definition sample_installation :: installation where
  "sample_installation = \<lparr>in_run_dir = ''/run'', in_python = ''python3'', in_hesai = None, in_hesai_template = None, in_imu = None,
     in_gnss = Some ''gnss'', in_gnss_template = Some (Inr (PDict [(''rtk_settings'', PDict [(''serial_1'', PDict [(''baud_rate'', PInt 115200)])])])),
     in_str2str = Some ''str2str'', in_stunnel = Some ''stunnel4'', in_hesai_params = [], in_imu_params = [],
     in_gnss_params = [Some (Inr (PDict [(''septentrio_gnss_driver'', PDict [(''ros__parameters'', PDict
       [(''device'', PStr ''serial:/dev/serial/by-id/g0''), (''configure_rx'', PBool True), (''rtk_input_port'', PStr ''USB2''),
        (''rtk_relay_device'', PStr ''serial:/dev/serial/by-id/g2'')])])]))],
     in_private = Some (Some (sample_private ''p'')), in_disk = True\<rparr>"

lemma sample_same: "same_but_secret (in_private sample_installation) (Some (Some (sample_private ''other'')))"
proof -
  show ?thesis
    unfolding sample_installation_def installation.select_convs
    by (rule same_keys_same_note
          [where kvs = "[(''ntrip'', PDict [(''caster'', PStr ''c''), (''port'', PInt 2101), (''mountpoint'', PStr ''m''), (''user'', PStr ''u''), (''password'', PStr ''p'')])]"
            and kvs' = "[(''ntrip'', PDict [(''caster'', PStr ''c''), (''port'', PInt 2101), (''mountpoint'', PStr ''m''), (''user'', PStr ''u''), (''password'', PStr ''other'')])]"
            and m = 384 and m' = 384])
      (simp_all add: sample_private_def, code_simp+)
qed

theorem records_hide_ntrip_witness:
  "\<exists>x y. build_drivers sample_python sample_installation = Inr x
     \<and> build_drivers sample_python (sample_installation\<lparr>in_private := Some (Some (sample_private ''other''))\<rparr>) = Inr y
     \<and> bd_records y = bd_records x
     \<and> map_option nt_password (map_option ri_ntrip (dp_launch_input (the (map_of (bd_drivers x) ''ntrip'')))) = Some ''p''"
proof -
  have "case build_drivers sample_python sample_installation of Inl e \<Rightarrow> False
      | Inr x \<Rightarrow> map_option nt_password (map_option ri_ntrip (dp_launch_input (the (map_of (bd_drivers x) ''ntrip'')))) = Some ''p''"
    by code_simp
  then obtain x where x: "build_drivers sample_python sample_installation = Inr x"
    and p: "map_option nt_password (map_option ri_ntrip (dp_launch_input (the (map_of (bd_drivers x) ''ntrip'')))) = Some ''p''"
    by (cases "build_drivers sample_python sample_installation") auto
  from records_hide_ntrip [OF sample_same x] p x show ?thesis by blast
qed

section \<open>A private file that is no UTF-8\<close>

text \<open>Its exception is not caught: no driver is put together, although without corrections the receiver would run.\<close>

lemma bad_private_file_stops_all:
  "build_drivers sample_python (sample_installation\<lparr>in_private := Some (Some \<lparr>pf_mode = Some 384, pf_doc = Inl ValueError\<rparr>)\<rparr>) = Inl ValueError"
  by code_simp

end
