(* ===== verification/Spec2Isabelle.thy ===== *)
theory Spec2Isabelle
  imports Mode_Properties Recorder_Properties Localization_Properties Vehicle_Nodes Esp32_Sim Png
    Sensor_Supervisor Sensor_Config Monitor_Core Clock_Gate Hardware_Bridge Navigation
    Localization_Node Map_Convert Recorder_Node Sensor_Drivers
begin

text \<open>
  \<^bold>\<open>The program.\<close>  \<^verbatim>\<open>src/gouda_core/gouda_core\<close> is the vehicle software of an autonomous robot: ROS 2 nodes in
  Python.  A human chooses the mode in the monitor (ND-02); the mode manager (ND-03) owns the mode, the record that
  survives a restart, the drive of Nav2 and the \<^emph>\<open>motion hold\<close>.  The motion controller (ND-11) turns the
  velocity of Nav2 into an output of the stick, neutral unless the hold is off and both inputs are fresh.  The
  vehicle bridge (ND-12) sends that output in frames of the serial protocol v4 to the ESP32, whose firmware
  chooses between the hand-held controller and the PC.  The localization node (ND-07) computes the transform from
  the map to the odometry frame and the state of the estimator, which pauses a drive when it is not normal.  The recorder
  (ND-04) keeps the log and the rosbag of a session.  The sensor supervisor (ND-18) starts the drivers of the
  sensors again when another device appears.  The databases keep the maps and the waypoint sets a drive is made of.

  \<^bold>\<open>How code corresponds to theories.\<close>  The pure modules (\<^verbatim>\<open>*_core.py\<close>, the databases, the codecs) are translated function
  by function; a class is a record of its attributes and each method a function from the state to the new
  state.  A node is a record of its attributes with one handler per callback, and a step function over a datatype of
  events; every list of events is a possible run.  An exception is \<open>Inl\<close> of the \<open>error\<close> datatype.  A definition
  has the name of the Python function where Isabelle allows it.

  \<^item> \<open>Prelude\<close>: exceptions, dynamic values of JSON and YAML, floats, rounding, bytes.  \<open>Contracts\<close>: the locales.
    \<open>Text_Data\<close>: string methods.  \<open>Disk\<close>: the file system of the databases.
  \<^item> \<open>Mode_Core\<close> (\<^verbatim>\<open>mode_core.py\<close>); \<open>Autonomy_Core\<close>, \<open>Autonomy_Client\<close> (\<^verbatim>\<open>autonomy_core.py\<close>, \<^verbatim>\<open>autonomy_client.py\<close>);
    \<open>Mode_Manager\<close> (\<^verbatim>\<open>mode_manager_node.py\<close>), with its invariant in \<open>Mode_Safety\<close> and its properties in
    \<open>Mode_Properties\<close>: what is published is safe, what releases the hold, that only a human starts
    a drive (a refinement of the transitions of the design), what a restart finds, and the interleavings
    of a worker thread with the callbacks in which a goal is lost.
  \<^item> \<open>Motion_Core\<close> (\<^verbatim>\<open>motion_core.py\<close>), \<open>Vehicle_Core\<close> (\<^verbatim>\<open>vehicle_core.py\<close>), \<open>Vehicle_Nodes\<close>
    (\<^verbatim>\<open>motion_controller_node.py\<close>, \<^verbatim>\<open>vehicle_bridge_node.py\<close>): outputs are bounded and rest on fresh inputs; every COMMAND frame
    on the wire carries the token of the running session; after the device is back a fresh input is sent again.
  \<^item> \<open>Crc16\<close>, \<open>Esp32_Protocol\<close> (\<^verbatim>\<open>esp32_protocol.py\<close>), \<open>Esp32_Sim\<close> (\<^verbatim>\<open>esp32_sim.py\<close>): the frames, the stream parser (round trip,
    soundness, what one wrong byte does, the frame lost between two reads), and the model of the firmware.
  \<^item> \<open>Speed_Mask\<close>, \<open>Keepout_Mask\<close>, \<open>Routes\<close> (\<^verbatim>\<open>waypoints.py\<close>), \<open>Map_Database\<close>: the masks against their drawing, and that
    what is published can be loaded and verified.  \<open>Png\<close>: the encoders and the PGM header.
  \<^item> \<open>Map_Grid\<close>, \<open>Map_Points\<close>, \<open>Map_Convert\<close> (\<^verbatim>\<open>map_convert.py\<close>): the map the vehicle drives on is the path the mapping
    run has swept, cell by cell; the ground under the points, the grid of the obstacle band, the tiles; and what the check of the
    waypoints reads back from the written files.
  \<^item> \<open>Localization\<close> (\<^verbatim>\<open>localization_core.py\<close>, \<^verbatim>\<open>odometry_core.py\<close>), \<open>Localization_Properties\<close>: poses, the estimator.
    \<open>Localization_Node\<close> (\<^verbatim>\<open>global_localization_node.py\<close>, \<^verbatim>\<open>local_odometry_node.py\<close>): the lifecycle and the worker of
    the initialization as stages that interleave with the callbacks; no transform without an initialization in force.
  \<^item> \<open>Recorder\<close> (\<^verbatim>\<open>recorder_core.py\<close>), \<open>Recorder_Properties\<close>: gaps, and the recordings of a human.
  \<^item> \<open>Recorder_Node\<close> (\<^verbatim>\<open>recorder_node.py\<close>): the child of \<^verbatim>\<open>ros2 bag\<close>, its watcher, what is published.
  \<^item> \<open>Device_Watch\<close>, \<open>Redaction\<close> (\<^verbatim>\<open>device_watch.py\<close>), \<open>Sensor_Supervisor\<close> (\<^verbatim>\<open>sensor_supervisor_node.py\<close>):
    a driver is never started again for the same device, and secrets do not reach a record.
  \<^item> \<open>Gnss_Config\<close> (\<^verbatim>\<open>gnss_config.py\<close>), \<open>Ntrip_Relay\<close> (\<^verbatim>\<open>ntrip_relay.py\<close>, \<^verbatim>\<open>ntrip_relay_runner.py\<close>), \<open>Sensor_Drivers\<close>
    (\<^verbatim>\<open>sensor_config.py\<close>, the construction of the supervisor): the settings of the drivers, the relay of the
    corrections as a step system, and that no record depends on the secret of the private file (two files, one record).
  \<^item> \<open>Sensor_Extrinsics\<close> (\<^verbatim>\<open>sensor_extrinsics.py\<close>, \<^verbatim>\<open>static_tf_node.py\<close>), \<open>Sensor_Config\<close>, \<open>Monitor_Core\<close>
    (\<^verbatim>\<open>monitor_core.py\<close>): the mounting of the sensors, the settings and their file, the tables of the monitor.
  \<^item> The earlier stack, still used for mapping and tests: \<open>Clock_Gate\<close> (\<^verbatim>\<open>gouda_navigation/time_sync.py\<close>: what is passed on
    has evidence of its time), \<open>Navigation\<close> (\<^verbatim>\<open>control.py\<close>, \<^verbatim>\<open>node.py\<close>: the follower and when its motion is published),
    \<open>Token_Protocol\<close> (\<^verbatim>\<open>gouda_vehicle/protocol_v3.py\<close>, \<^verbatim>\<open>protocol.py\<close>: the versions 2 and 3 of the frames) and
    \<open>Hardware_Bridge\<close> (\<^verbatim>\<open>hardware_bridge.py\<close>: what arms the vehicle and what moves it).

  \<^bold>\<open>Interfaces.\<close>  \<open>Contracts\<close> states them as locales: \<open>event_system\<close> (an invariant every event keeps),
  \<open>monotone_counter\<close>, \<open>refines_edges\<close> (a projection that moves only along edges of an abstract machine),
  \<open>latest_message\<close> and \<open>watchdog\<close> (what a stored message says of the events so far), \<open>stream_parser\<close> (reading in
  chunks).  Each is interpreted on the definitions of the components, and the properties rest on those facts.

  \<^bold>\<open>Bounds and termination.\<close>  No fuel is used where the code terminates: loops are structural or have a measure.  The loop of
  the PGM header, which may run for ever, is a \<open>partial_function (option)\<close>, and that it does so is a theorem.
  Integers of the wire are bytes; Python's ints are \<open>int\<close>.  Floats are reals with the values NaN and infinity where the code tests
  for them: rounding errors of the arithmetic are not modelled.

  \<^bold>\<open>Parameters.\<close>  Code outside \<^verbatim>\<open>src/\<close> is an argument: the text of a value that is no string, the numbers a string
  spells, SHA-256 and YAML (\<open>libs\<close>), zlib, the clock and the failures of the operating system (\<open>world\<close>), the
  replies of Nav2 and of the services, the outcomes of the serial port.

  \<^bold>\<open>Not modelled.\<close>  The HTTP server and the page of the monitor, ROS message contents and quality of service, launch
  files; the pictures of \<^verbatim>\<open>map_convert.py\<close> and the bytes of its point clouds; the XML and YAML text of \<^verbatim>\<open>nav2_config.py\<close>; sockets and JSON
  between processes, the runner of GLIM; the C++ firmware and drivers; \<^verbatim>\<open>design/\<close> (documents and their tools); of the
  earlier stack the web GUI \<^verbatim>\<open>gouda_gui\<close>, the mapping runs and the simulation.  Each is listed in the manifest with its reason.
\<close>

end
